(* ===== verification/Json_Values.thy ===== *)
theory Json_Values
  imports LSG_Prelude "HOL-Library.List_Lexorder" "HOL-Library.Char_ord"
begin

text \<open>
  JavaScript values, \<open>JSON.stringify\<close>, the RFC 8785 serializer of
  \<open>packages/ipc-client/src/jcs.ts\<close>, \<open>argsHash\<close> of \<open>args-hash.ts\<close> and
  \<open>deterministicStringify\<close> of \<open>packages/backend/src/lib/chain-verify.ts\<close>.

  A finite number is the decimal \<open>s * 10 ^ e\<close> that ECMAScript's
  \<open>Number::toString\<close> works from (the shortest one that reads back as the same
  double), with its sign; \<open>wf_num\<close> says that the digits carry no trailing zero.
  An object is the list of its own enumerable properties in enumeration order;
  \<open>wf_val\<close> says that its keys are distinct. SHA-256 (\<open>node:crypto\<close>) is a parameter
  \<open>sha256\<close> that maps the text hashed to the hex digest.
\<close>

datatype jnum = NaN | Infinity bool | Dec bool nat int

datatype jsval =
    JUndefined
  | JNull
  | JBool bool
  | JNum jnum
  | JStr string
  | JArr "jsval list"
  | JObj "(string \<times> jsval) list"
  | JOther string  \<comment> \<open>a function, symbol or bigint, by its \<open>typeof\<close>\<close>

datatype js_error = TypeError string

section \<open>Numbers\<close>

fun wf_num :: "jnum \<Rightarrow> bool" where
  "wf_num (Dec neg s e) \<longleftrightarrow> (if s = 0 then e = 0 else s mod 10 \<noteq> 0)"
| "wf_num _ \<longleftrightarrow> True"

fun isFinite :: "jnum \<Rightarrow> bool" where
  "isFinite (Dec _ _ _) \<longleftrightarrow> True"
| "isFinite _ \<longleftrightarrow> False"

text \<open>\<open>Number::toString\<close>, radix 10, on the magnitude \<open>s * 10 ^ e\<close>, \<open>s > 0\<close>.\<close>

definition dec_string :: "nat \<Rightarrow> int \<Rightarrow> string" where
  "dec_string s e =
    (let ds = show_nat s; k = int (length ds); n = e + k in
     if k \<le> n \<and> n \<le> 21 then ds @ replicate (nat (n - k)) (CHR ''0'')
     else if 0 < n \<and> n \<le> 21 then take (nat n) ds @ ''.'' @ drop (nat n) ds
     else if - 6 < n \<and> n \<le> 0 then ''0.'' @ replicate (nat (- n)) (CHR ''0'') @ ds
     else (let ex = (if n - 1 < 0 then ''e-'' else ''e+'') @ show_nat (nat \<bar>n - 1\<bar>) in
       if k = 1 then ds @ ex else take 1 ds @ ''.'' @ drop 1 ds @ ex))"

fun num_string :: "jnum \<Rightarrow> string" where
  "num_string NaN = ''NaN''"
| "num_string (Infinity neg) = (if neg then ''-Infinity'' else ''Infinity'')"
| "num_string (Dec neg s e) =
     (if s = 0 then ''0'' else (if neg then ''-'' else '''') @ dec_string s e)"

definition json_num :: "jnum \<Rightarrow> string" where
  "json_num x = (if isFinite x then num_string x else ''null'')"

text \<open>The number with a given integer value.\<close>

fun strip_zeros :: "nat \<Rightarrow> int \<Rightarrow> nat \<times> int" where
  "strip_zeros s e = (if s = 0 \<or> s mod 10 \<noteq> 0 then (s, e) else strip_zeros (s div 10) (e + 1))"

declare strip_zeros.simps [simp del]

definition num_of_int :: "int \<Rightarrow> jnum" where
  "num_of_int i = (if i = 0 then Dec False 0 0
     else (let (s, e) = strip_zeros (nat \<bar>i\<bar>) 0 in Dec (i < 0) s e))"

section \<open>Strings\<close>

definition hex_digit :: "nat \<Rightarrow> char" where
  "hex_digit d = (if d < 10 then char_of (48 + d) else char_of (87 + d))"

definition json_escape_char :: "char \<Rightarrow> string" where
  "json_escape_char c = (let n = of_char c :: nat in
     if n = 34 then [CHR 0x5C, CHR 0x22]
     else if n = 92 then [CHR 0x5C, CHR 0x5C]
     else if n = 8 then CHR 0x5C # ''b''
     else if n = 12 then CHR 0x5C # ''f''
     else if n = 10 then CHR 0x5C # ''n''
     else if n = 13 then CHR 0x5C # ''r''
     else if n = 9 then CHR 0x5C # ''t''
     else if n < 32 then CHR 0x5C # ''u00'' @ [hex_digit (n div 16), hex_digit (n mod 16)]
     else [c])"

definition quote_json :: "string \<Rightarrow> string" where
  "quote_json s = CHR 0x22 # concat (map json_escape_char s) @ [CHR 0x22]"

section \<open>Access and coercion\<close>

text \<open>Property access \<open>v.k\<close>, and \<open>v ?? null\<close>.\<close>

fun jget :: "jsval \<Rightarrow> string \<Rightarrow> jsval" where
  "jget (JObj kvs) k = (case map_of kvs k of None \<Rightarrow> JUndefined | Some v \<Rightarrow> v)"
| "jget _ k = JUndefined"

definition nullish_null :: "jsval \<Rightarrow> jsval" where
  "nullish_null v = (if v = JUndefined then JNull else v)"

definition str_of :: "jsval \<Rightarrow> string option" where
  "str_of v = (case v of JStr s \<Rightarrow> Some s | _ \<Rightarrow> None)"

text \<open>The text of a value in a template literal.\<close>

fun show_val :: "jsval \<Rightarrow> string" where
  "show_val (JNum x) = num_string x"
| "show_val (JStr s) = s"
| "show_val (JBool b) = (if b then ''true'' else ''false'')"
| "show_val (JArr vs) = join '','' (map (\<lambda>v. if v = JNull \<or> v = JUndefined then [] else show_val v) vs)"
| "show_val (JObj _) = ''[object Object]''"
| "show_val JNull = ''null''"
| "show_val JUndefined = ''undefined''"
| "show_val (JOther t) = t"

text \<open>Truthiness, and \<open>a ?? b\<close>.\<close>

fun truthy :: "jsval \<Rightarrow> bool" where
  "truthy JUndefined \<longleftrightarrow> False"
| "truthy JNull \<longleftrightarrow> False"
| "truthy (JBool b) \<longleftrightarrow> b"
| "truthy (JNum x) \<longleftrightarrow> (case x of NaN \<Rightarrow> False | Infinity _ \<Rightarrow> True | Dec _ s _ \<Rightarrow> s \<noteq> 0)"
| "truthy (JStr s) \<longleftrightarrow> s \<noteq> []"
| "truthy (JArr _) \<longleftrightarrow> True"
| "truthy (JObj _) \<longleftrightarrow> True"
| "truthy (JOther _) \<longleftrightarrow> True"

definition coalesce :: "jsval \<Rightarrow> jsval \<Rightarrow> jsval" where
  "coalesce a b = (if a = JUndefined \<or> a = JNull then b else a)"

section \<open>JSON.stringify\<close>

text \<open>
  \<open>None\<close> is \<open>undefined\<close>: the value is left out of an object and printed as
  \<open>null\<close> in an array. A bigint makes \<open>JSON.stringify\<close> throw; it is the only error.
\<close>

fun json_stringify :: "jsval \<Rightarrow> js_error + string option" where
  "json_stringify JUndefined = Inr None"
| "json_stringify JNull = Inr (Some ''null'')"
| "json_stringify (JBool b) = Inr (Some (if b then ''true'' else ''false''))"
| "json_stringify (JNum x) = Inr (Some (json_num x))"
| "json_stringify (JStr s) = Inr (Some (quote_json s))"
| "json_stringify (JOther t) =
     (if t = ''bigint'' then Inl (TypeError ''Do not know how to serialize a BigInt'')
      else Inr None)"
| "json_stringify (JArr vs) =
     bind_result (map_result (\<lambda>r. bind_result r (\<lambda>s. Inr (case s of None \<Rightarrow> ''null'' | Some t \<Rightarrow> t)))
       (map json_stringify vs))
       (\<lambda>ss. Inr (Some (''['' @ join '','' ss @ '']'')))"
| "json_stringify (JObj kvs) =
     bind_result (map_result (\<lambda>(k, r). bind_result r (\<lambda>s. Inr (case s of None \<Rightarrow> [] | Some t \<Rightarrow> [quote_json k @ '':'' @ t])))
       (map (\<lambda>(k, v). (k, json_stringify v)) kvs))
       (\<lambda>ss. Inr (Some (''{'' @ join '','' (concat ss) @ ''}'')))"

section \<open>jcsSerialize\<close>

fun jcsSerialize :: "jsval \<Rightarrow> js_error + string" where
  "jcsSerialize JUndefined = Inr ''null''"
| "jcsSerialize JNull = Inr ''null''"
| "jcsSerialize (JBool b) = Inr (if b then ''true'' else ''false'')"
| "jcsSerialize (JNum x) =
     (if \<not> isFinite x then Inl (TypeError (''JCS does not support '' @ num_string x))
      else Inr (json_num x))"
| "jcsSerialize (JStr s) = Inr (quote_json s)"
| "jcsSerialize (JArr vs) =
     bind_result (map_result id (map jcsSerialize vs)) (\<lambda>ss. Inr (''['' @ join '','' ss @ '']''))"
| "jcsSerialize (JObj kvs) =
     bind_result (map_result (\<lambda>(k, r). bind_result r (\<lambda>s. Inr (quote_json k @ '':'' @ s)))
       (sort_key fst (map (\<lambda>(k, v). (k, jcsSerialize v)) kvs)))
       (\<lambda>ss. Inr (''{'' @ join '','' ss @ ''}''))"
| "jcsSerialize (JOther t) = Inl (TypeError (''Unsupported type for JCS: '' @ t))"

text \<open>\<open>args ?? null\<close>, then the digest of the canonical text.\<close>

definition argsHash :: "(string \<Rightarrow> string) \<Rightarrow> jsval \<Rightarrow> js_error + string" where
  "argsHash sha256 args =
     bind_result (jcsSerialize (if args = JUndefined then JNull else args)) (\<lambda>c. Inr (sha256 c))"

section \<open>deterministicStringify\<close>

fun deterministicStringify :: "jsval \<Rightarrow> string" where
  "deterministicStringify JUndefined = ''null''"
| "deterministicStringify JNull = ''null''"
| "deterministicStringify (JBool b) = (if b then ''true'' else ''false'')"
| "deterministicStringify (JNum x) = json_num x"
| "deterministicStringify (JStr s) = quote_json s"
| "deterministicStringify (JArr vs) = ''['' @ join '','' (map deterministicStringify vs) @ '']''"
| "deterministicStringify (JObj kvs) =
     ''{'' @ join '','' (map (\<lambda>(k, d, s). quote_json k @ '':'' @ s)
       (filter (\<lambda>(k, d, s). d)
         (sort_key fst (map (\<lambda>(k, v). (k, v \<noteq> JUndefined, deterministicStringify v)) kvs)))) @ ''}''"
| "deterministicStringify (JOther t) = ''null''"

section \<open>The canonical form\<close>

text \<open>
  What the canonical text stands for: keys sorted at every level, \<open>undefined\<close> read
  as \<open>null\<close>, negative zero as zero.
\<close>

fun canon :: "jsval \<Rightarrow> jsval" where
  "canon JUndefined = JNull"
| "canon (JNum (Dec neg s e)) = JNum (Dec (neg \<and> s \<noteq> 0) s e)"
| "canon (JArr vs) = JArr (map canon vs)"
| "canon (JObj kvs) = JObj (sort_key fst (map (\<lambda>(k, v). (k, canon v)) kvs))"
| "canon v = v"

text \<open>Values that JCS can express: finite numbers, no functions, symbols or bigints.\<close>

fun jcs_ok :: "jsval \<Rightarrow> bool" where
  "jcs_ok (JNum x) \<longleftrightarrow> isFinite x \<and> wf_num x"
| "jcs_ok (JArr vs) \<longleftrightarrow> list_all jcs_ok vs"
| "jcs_ok (JObj kvs) \<longleftrightarrow> distinct (map fst kvs) \<and> list_all (\<lambda>(k, v). jcs_ok v) kvs"
| "jcs_ok (JOther t) \<longleftrightarrow> False"
| "jcs_ok _ \<longleftrightarrow> True"

fun no_undef_props :: "jsval \<Rightarrow> bool" where
  "no_undef_props (JArr vs) \<longleftrightarrow> list_all no_undef_props vs"
| "no_undef_props (JObj kvs) \<longleftrightarrow> list_all (\<lambda>(k, v). v \<noteq> JUndefined \<and> no_undef_props v) kvs"
| "no_undef_props _ \<longleftrightarrow> True"

text \<open>Equal up to the order of object keys, at any depth.\<close>

inductive same_value :: "jsval \<Rightarrow> jsval \<Rightarrow> bool" where
  sv_refl: "same_value v v"
| sv_arr: "list_all2 same_value vs ws \<Longrightarrow> same_value (JArr vs) (JArr ws)"
| sv_obj: "list_all2 (\<lambda>p q. fst p = fst q \<and> same_value (snd p) (snd q)) kvs lws \<Longrightarrow>
    mset lws = mset mws \<Longrightarrow> distinct (map fst mws) \<Longrightarrow> same_value (JObj kvs) (JObj mws)"

section \<open>Sorting by key commutes with mapping the values\<close>

lemma insort_key_map:
  "insort_key g (h x) (map h xs) = map h (insort_key (\<lambda>a. g (h a)) x xs)"
  by (induction xs) auto

lemma sort_key_map: "sort_key g (map h xs) = map h (sort_key (\<lambda>a. g (h a)) xs)"
  by (induction xs) (simp_all add: insort_key_map)

lemma sort_key_fst_map_snd:
  "sort_key fst (map (\<lambda>(k, v). (k, f v)) kvs) = map (\<lambda>(k, v). (k, f v)) (sort_key fst kvs)"
proof -
  have eq: "(\<lambda>a. fst (case a of (k, v) \<Rightarrow> (k, f v))) = fst" by (auto simp: fun_eq_iff)
  show ?thesis unfolding sort_key_map by (simp only: eq)
qed

lemma sort_key_fst_mset_eq:
  assumes "mset xs = mset ys" and "distinct (map fst ys)"
  shows "sort_key fst xs = sort_key fst ys"
proof (rule properties_for_sort_key)
  show "mset (sort_key fst ys) = mset xs" using assms(1) by simp
  show "sorted (map fst (sort_key fst ys))" by simp
  fix k assume k: "k \<in> set (sort_key fst ys)"
  have set_eq: "set xs = set ys" using assms(1) by (rule mset_eq_setD)
  have "mset (map fst xs) = mset (map fst ys)" using assms(1) by (simp add: mset_map)
  then have dx: "distinct (map fst xs)" using assms(2) by (metis distinct_count_atmost_1 set_mset_mset)
  have one: "filter (\<lambda>x. fst k = fst x) zs = [k]" if "distinct (map fst zs)" "k \<in> set zs" for zs
    using that
  proof (induction zs)
    case (Cons z zs)
    show ?case
    proof (cases "z = k")
      case True
      with Cons.prems have "\<forall>x\<in>set zs. fst k \<noteq> fst x" by (auto simp: image_iff)
      with True show ?thesis by (simp add: filter_empty_conv)
    next
      case False
      with Cons.prems have "k \<in> set zs" by auto
      moreover from this Cons.prems have "fst k \<noteq> fst z" by (auto simp: image_iff)
      ultimately show ?thesis using Cons by simp
    qed
  qed simp
  from k have "k \<in> set ys" by simp
  with one [OF assms(2)] one [OF dx] set_eq
  have "filter (\<lambda>x. fst k = fst x) ys = filter (\<lambda>x. fst k = fst x) xs" by simp
  then show "filter (\<lambda>x. fst k = fst x) (sort_key fst ys) = filter (\<lambda>x. fst k = fst x) xs"
    by (simp add: filter_key_commute sort_key_stable)
qed

section \<open>Canonicalization\<close>

lemma map_snd_list_all2:
  assumes "list_all2 (\<lambda>p q. fst p = fst q \<and> f (snd p) = f (snd q)) kvs lws"
  shows "map (\<lambda>(k, v). (k, f v)) kvs = map (\<lambda>(k, v). (k, f v)) lws"
  using assms by (induction rule: list_all2_induct) auto

lemma jcsSerialize_canon: "jcsSerialize (canon v) = jcsSerialize v"
proof (induction v rule: canon.induct)
  case (3 vs)
  then have "map (jcsSerialize \<circ> canon) vs = map jcsSerialize vs" by simp
  then show ?case by (simp del: map_eq_conv)
next
  case (4 kvs)
  have "map (\<lambda>(k, v). (k, jcsSerialize (canon v))) kvs = map (\<lambda>(k, v). (k, jcsSerialize v)) kvs"
    using 4 by (intro map_cong) auto
  then have "map (\<lambda>(k, v). (k, jcsSerialize v)) (map (\<lambda>(k, v). (k, canon v)) kvs) =
      map (\<lambda>(k, v). (k, jcsSerialize v)) kvs"
    by (simp add: comp_def case_prod_unfold)
  then show ?case
    by (simp add: sort_key_fst_map_snd [symmetric] sort_key_id_if_sorted del: map_map)
qed (auto simp: json_num_def)

lemma same_value_canon: "same_value v w \<Longrightarrow> canon v = canon w"
proof (induction rule: same_value.induct)
  case (sv_arr vs ws)
  then have "list_all2 (\<lambda>v w. canon v = canon w) vs ws"
    by (rule list_all2_mono) auto
  then have "map canon vs = map canon ws"
    by (simp add: list_all2_conv_all_nth list_eq_iff_nth_eq)
  then show ?case by simp
next
  case (sv_obj kvs lws mws)
  let ?c = "map (\<lambda>(k, v). (k, canon v))"
  from sv_obj(1) have "list_all2 (\<lambda>p q. fst p = fst q \<and> canon (snd p) = canon (snd q)) kvs lws"
    by (rule list_all2_mono) auto
  then have "?c kvs = ?c lws" by (rule map_snd_list_all2)
  moreover have "mset (?c lws) = mset (?c mws)" using sv_obj(2) by simp
  moreover have "distinct (map fst (?c mws))"
    using sv_obj(3) by (simp add: comp_def case_prod_unfold)
  ultimately have "sort_key fst (?c kvs) = sort_key fst (?c mws)"
    using sort_key_fst_mset_eq by metis
  then show ?case by simp
qed simp

text \<open>The digest of the arguments does not see the order in which their keys were written.\<close>

theorem jcs_same_value: "same_value v w \<Longrightarrow> jcsSerialize v = jcsSerialize w"
  using same_value_canon jcsSerialize_canon by metis

section \<open>Agreement of the two serializers\<close>

lemma map_result_Inr_map: "map_result f (map g xs) = Inr (map h xs)" if "\<And>x. x \<in> set xs \<Longrightarrow> f (g x) = Inr (h x)"
  using that by (induction xs) auto

end
