(* ===== verification/Trigger_Queue.thy ===== *)
theory Trigger_Queue
  imports Json_Values
begin

text \<open>
  \<open>packages/backend/src/lib/trigger-queue.ts\<close> and \<open>trigger-dispatch.ts\<close>: the bounded
  trigger queue with its deduplication window, and the dispatcher that drains it.
  \<open>Date.now()\<close> is the argument \<open>now\<close> (milliseconds). The locale \<open>bounded_fifo\<close> is the
  contract the dispatcher relies on; \<open>fifo_exec\<close> runs an interleaving of producer and
  consumer calls.
\<close>

section \<open>Data\<close>

record TriggerMessage =
  tm_trigger :: string
  tm_trigger_run_id :: string
  tm_tenant_id :: string
  tm_priority :: int
  tm_enqueued_at :: string

record DedupeEntry =
  de_priority :: int
  de_timestamp :: int

record TriggerQueue =
  tq_queue :: "TriggerMessage list"
  tq_capacity :: nat
  tq_dedup :: "string \<rightharpoonup> DedupeEntry"

definition DEFAULT_CAPACITY :: nat where "DEFAULT_CAPACITY = 100"
definition DEDUP_WINDOW_MS :: int where "DEDUP_WINDOW_MS = 60000"

definition new_TriggerQueue :: "nat \<Rightarrow> TriggerQueue" where
  "new_TriggerQueue cap = \<lparr>tq_queue = [], tq_capacity = cap, tq_dedup = Map.empty\<rparr>"

text \<open>The shared instance.\<close>

definition triggerQueue :: TriggerQueue where
  "triggerQueue = new_TriggerQueue DEFAULT_CAPACITY"

section \<open>Operations\<close>

definition cleanupDedup :: "int \<Rightarrow> (string \<rightharpoonup> DedupeEntry) \<Rightarrow> (string \<rightharpoonup> DedupeEntry)" where
  "cleanupDedup now d = (\<lambda>k. case d k of None \<Rightarrow> None
     | Some e \<Rightarrow> if now - de_timestamp e \<ge> DEDUP_WINDOW_MS then None else Some e)"

definition suppressed :: "int \<Rightarrow> TriggerMessage \<Rightarrow> TriggerQueue \<Rightarrow> bool" where
  "suppressed now m q = (case tq_dedup q (tm_trigger_run_id m) of
      None \<Rightarrow> False
    | Some e \<Rightarrow> now - de_timestamp e < DEDUP_WINDOW_MS \<and> tm_priority m \<ge> de_priority e)"

definition enqueue :: "TriggerQueue \<Rightarrow> int \<Rightarrow> TriggerMessage \<Rightarrow> bool \<times> TriggerQueue" where
  "enqueue q now m =
    (if suppressed now m q then (False, q)
     else if length (tq_queue q) \<ge> tq_capacity q then (False, q)
     else (let qs = tq_queue q @ [m];
               d = (tq_dedup q)(tm_trigger_run_id m \<mapsto> \<lparr>de_priority = tm_priority m, de_timestamp = now\<rparr>);
               d' = (if length qs mod 50 = 0 then cleanupDedup now d else d)
           in (True, q\<lparr>tq_queue := qs, tq_dedup := d'\<rparr>)))"

definition dequeue :: "TriggerQueue \<Rightarrow> TriggerMessage option \<times> TriggerQueue" where
  "dequeue q = (case tq_queue q of [] \<Rightarrow> (None, q) | m # ms \<Rightarrow> (Some m, q\<lparr>tq_queue := ms\<rparr>))"

definition tq_size :: "TriggerQueue \<Rightarrow> nat" where
  "tq_size q = length (tq_queue q)"

section \<open>The contract of a bounded queue\<close>

datatype ('c, 'm) fifo_op = Enq 'c 'm | Deq

fun fifo_exec ::
  "('q \<Rightarrow> 'c \<Rightarrow> 'm \<Rightarrow> bool \<times> 'q) \<Rightarrow> ('q \<Rightarrow> 'm option \<times> 'q) \<Rightarrow> 'q \<Rightarrow> ('c, 'm) fifo_op list
    \<Rightarrow> ('c \<times> 'm) list \<times> 'm list \<times> 'q" where
  "fifo_exec enq deq q [] = ([], [], q)"
| "fifo_exec enq deq q (Enq c m # ops) =
     (case enq q c m of (b, q') \<Rightarrow>
       (case fifo_exec enq deq q' ops of (acc, out, q'') \<Rightarrow>
         ((if b then (c, m) # acc else acc), out, q'')))"
| "fifo_exec enq deq q (Deq # ops) =
     (case deq q of (r, q') \<Rightarrow>
       (case fifo_exec enq deq q' ops of (acc, out, q'') \<Rightarrow>
         (acc, (case r of None \<Rightarrow> out | Some m \<Rightarrow> m # out), q'')))"

text \<open>A consumer that takes messages until the queue reports that it is empty.\<close>

fun drain_n :: "('q \<Rightarrow> 'm option \<times> 'q) \<Rightarrow> nat \<Rightarrow> 'q \<Rightarrow> ('m list \<times> 'q) option" where
  "drain_n deq 0 q = None"
| "drain_n deq (Suc n) q =
     (case deq q of (None, q') \<Rightarrow> Some ([], q')
      | (Some m, q') \<Rightarrow> map_option (\<lambda>(ms, q''). (m # ms, q'')) (drain_n deq n q'))"

locale bounded_fifo =
  fixes enq :: "'q \<Rightarrow> 'c \<Rightarrow> 'm \<Rightarrow> bool \<times> 'q"
    and deq :: "'q \<Rightarrow> 'm option \<times> 'q"
    and items :: "'q \<Rightarrow> 'm list"
    and cap :: "'q \<Rightarrow> nat"
  assumes enq_accept: "enq q c m = (True, q') \<Longrightarrow>
      items q' = items q @ [m] \<and> length (items q) < cap q \<and> cap q' = cap q"
    and enq_reject: "enq q c m = (False, q') \<Longrightarrow> q' = q"
    and deq_empty: "items q = [] \<Longrightarrow> deq q = (None, q)"
    and deq_head: "items q = m # ms \<Longrightarrow> \<exists>q'. deq q = (Some m, q') \<and> items q' = ms \<and> cap q' = cap q"
begin

lemma exec_fifo:
  assumes "fifo_exec enq deq q ops = (acc, out, q')"
  shows "items q @ map snd acc = out @ items q' \<and> cap q' = cap q
    \<and> (length (items q) \<le> cap q \<longrightarrow> length (items q') \<le> cap q')"
  using assms
proof (induction ops arbitrary: q acc out q')
  case (Cons op ops)
  note IH = Cons.IH
  show ?case
  proof (cases op)
    case (Enq c m)
    obtain b q1 where e: "enq q c m = (b, q1)" by fastforce
    obtain acc1 out1 q2 where r: "fifo_exec enq deq q1 ops = (acc1, out1, q2)"
      by (metis prod_cases3)
    from IH [OF r] Cons.prems Enq e r show ?thesis
      by (cases b) (auto dest!: enq_accept enq_reject)
  next
    case Deq
    show ?thesis
    proof (cases "items q")
      case Nil
      with Cons.prems Deq show ?thesis
        using IH [of q] by (auto simp: deq_empty split: prod.splits)
    next
      case head: (Cons m ms)
      then obtain q1 where q1: "deq q = (Some m, q1)" "items q1 = ms" "cap q1 = cap q"
        using deq_head by blast
      obtain acc1 out1 q2 where r: "fifo_exec enq deq q1 ops = (acc1, out1, q2)"
        by (metis prod_cases3)
      from IH [OF r] head q1 r Cons.prems Deq show ?thesis by auto
    qed
  qed
qed simp

lemma drain_all:
  "\<exists>q'. drain_n deq (Suc (length (items q))) q = Some (items q, q') \<and> items q' = []"
proof (induction "items q" arbitrary: q)
  case Nil
  then have "items q = []" by simp
  with deq_empty show ?case by simp
next
  case (Cons m ms)
  then have eq: "items q = m # ms" by simp
  then obtain q1 where q1: "deq q = (Some m, q1)" "items q1 = ms" using deq_head by blast
  from Cons.hyps(1) [of q1] q1(2) obtain q' where
    "drain_n deq (Suc (length ms)) q1 = Some (ms, q')" "items q' = []" by auto
  with q1 eq show ?case by simp
qed

end

section \<open>TriggerQueue meets the contract\<close>

interpretation tq: bounded_fifo enqueue dequeue tq_queue tq_capacity
  by unfold_locales
    (auto simp: enqueue_def dequeue_def Let_def split: if_splits)

section \<open>The dispatcher\<close>

text \<open>The HTTP request \<open>dispatchTrigger\<close> makes; what \<open>fetch\<close> answers is only logged.\<close>

record post_request =
  pr_url :: string
  pr_headers :: "(string \<times> string) list"
  pr_body :: "(string \<times> jsval) list"

record dispatch_env =
  LOOPSTORM_BACKEND_URL :: "string option"
  LOOPSTORM_API_KEY :: "string option"

definition dispatchTrigger ::
  "dispatch_env \<Rightarrow> string \<Rightarrow> string option \<Rightarrow> TriggerMessage \<Rightarrow> post_request" where
  "dispatchTrigger env supervisorUrl supervisorKey m =
     \<lparr>pr_url = supervisorUrl @ ''/api/trigger'',
      pr_headers = (''Content-Type'', ''application/json'')
        # (case supervisorKey of None \<Rightarrow> []
           | Some k \<Rightarrow> if k = [] then [] else [(''Authorization'', ''Bearer '' @ k)]),
      pr_body =
        [(''trigger'', JStr (tm_trigger m)),
         (''trigger_run_id'', JStr (tm_trigger_run_id m)),
         (''tenant_id'', JStr (tm_tenant_id m)),
         (''priority'', JNum (num_of_int (tm_priority m))),
         (''backend_url'', JStr (case LOOPSTORM_BACKEND_URL env of
            None \<Rightarrow> ''http://localhost:3001'' | Some u \<Rightarrow> u)),
         (''api_key'', JStr (case LOOPSTORM_API_KEY env of None \<Rightarrow> [] | Some k \<Rightarrow> k))]\<rparr>"

text \<open>An unset or empty \<open>LOOPSTORM_SUPERVISOR_URL\<close> is falsy.\<close>

definition dispatchTriggerDirect ::
  "dispatch_env \<Rightarrow> string option \<Rightarrow> string option \<Rightarrow> TriggerMessage \<Rightarrow> post_request list" where
  "dispatchTriggerDirect env supervisorUrl supervisorKey m =
     (case supervisorUrl of None \<Rightarrow> []
      | Some u \<Rightarrow> if u = [] then [] else [dispatchTrigger env u supervisorKey m])"

text \<open>\<open>drainQueue\<close>, with the requests it sends in order.\<close>

function drainQueue ::
  "dispatch_env \<Rightarrow> string option \<Rightarrow> string option \<Rightarrow> TriggerQueue \<Rightarrow> post_request list \<times> TriggerQueue" where
  "drainQueue env supervisorUrl supervisorKey q =
     (case dequeue q of
        (None, q') \<Rightarrow> ([], q')
      | (Some m, q') \<Rightarrow>
          (case drainQueue env supervisorUrl supervisorKey q' of (ps, q'') \<Rightarrow>
            (dispatchTriggerDirect env supervisorUrl supervisorKey m @ ps, q'')))"
  by pat_completeness auto
termination
  by (relation "measure (\<lambda>(env, u, k, q). length (tq_queue q))")
    (auto simp: dequeue_def split: list.splits)

declare drainQueue.simps [simp del]

lemma drainQueue_drain_n:
  "drain_n dequeue n q = Some (ms, q') \<Longrightarrow>
   drainQueue env u k q = (concat (map (dispatchTriggerDirect env u k) ms), q')"
proof (induction n arbitrary: q ms)
  case (Suc n)
  then show ?case
    by (auto simp: drainQueue.simps [of env u k q] split: prod.splits option.splits)
qed simp

section \<open>Deduplication\<close>

text \<open>The clock of successive \<open>enqueue\<close> calls never goes back.\<close>

fun clock_ok :: "int \<Rightarrow> (int, TriggerMessage) fifo_op list \<Rightarrow> bool" where
  "clock_ok t [] \<longleftrightarrow> True"
| "clock_ok t (Enq t' _ # ops) \<longleftrightarrow> t \<le> t' \<and> clock_ok t' ops"
| "clock_ok t (Deq # ops) \<longleftrightarrow> clock_ok t ops"

text \<open>Of two accepted triggers of one run less than a minute apart, the later is more urgent.\<close>

definition supersedes :: "int \<times> TriggerMessage \<Rightarrow> int \<times> TriggerMessage \<Rightarrow> bool" where
  "supersedes x y \<longleftrightarrow>
     (tm_trigger_run_id (snd x) = tm_trigger_run_id (snd y) \<and> fst y - fst x < DEDUP_WINDOW_MS
      \<longrightarrow> tm_priority (snd y) < tm_priority (snd x))"

text \<open>What the dedup map remembers, at time \<open>clock\<close>, of the triggers accepted so far.\<close>

definition remembered :: "int \<Rightarrow> TriggerQueue \<Rightarrow> int \<Rightarrow> TriggerMessage \<Rightarrow> bool" where
  "remembered clock q t m \<longleftrightarrow> t \<le> clock \<and>
     (clock - t < DEDUP_WINDOW_MS \<longrightarrow> (\<exists>e. tq_dedup q (tm_trigger_run_id m) = Some e
        \<and> t \<le> de_timestamp e \<and> de_timestamp e \<le> clock \<and> de_priority e \<le> tm_priority m))"

definition dedup_inv :: "int \<Rightarrow> (int \<times> TriggerMessage) list \<Rightarrow> TriggerQueue \<Rightarrow> bool" where
  "dedup_inv clock H q \<longleftrightarrow> (\<forall>x \<in> set H. remembered clock q (fst x) (snd x))"

lemma remembered_later: "remembered c q t m \<Longrightarrow> c \<le> c' \<Longrightarrow> remembered c' q t m"
  unfolding remembered_def by force

lemma dedup_inv_later: "dedup_inv c H q \<Longrightarrow> c \<le> c' \<Longrightarrow> dedup_inv c' H q"
  unfolding dedup_inv_def using remembered_later by blast

lemma dedup_inv_dequeue: "dedup_inv c H q \<Longrightarrow> dedup_inv c H (snd (dequeue q))"
  by (auto simp: dedup_inv_def remembered_def dequeue_def split: list.splits)

lemma enqueue_accept_dedup:
  assumes "enqueue q now m = (True, q')"
  shows "\<not> suppressed now m q"
    and "tq_dedup q' (tm_trigger_run_id m) = Some \<lparr>de_priority = tm_priority m, de_timestamp = now\<rparr>"
    and "r \<noteq> tm_trigger_run_id m \<Longrightarrow> tq_dedup q r = Some e \<Longrightarrow>
       now - de_timestamp e < DEDUP_WINDOW_MS \<Longrightarrow> tq_dedup q' r = Some e"
  using assms
  by (auto simp: enqueue_def Let_def cleanupDedup_def DEDUP_WINDOW_MS_def split: if_splits)

lemma remembered_supersedes:
  assumes "remembered now q t n" and "\<not> suppressed now m q"
  shows "supersedes (t, n) (now, m)"
  using assms unfolding remembered_def supersedes_def suppressed_def
  by (auto split: option.splits)

lemma remembered_enqueue:
  assumes rem: "remembered now q t n" and acc: "enqueue q now m = (True, q')"
  shows "remembered now q' t n"
proof (cases "tm_trigger_run_id n = tm_trigger_run_id m")
  case True
  have "supersedes (t, n) (now, m)"
    using rem enqueue_accept_dedup(1) [OF acc] by (rule remembered_supersedes)
  then show ?thesis
    using True rem enqueue_accept_dedup(2) [OF acc]
    by (auto simp: remembered_def supersedes_def)
next
  case False
  show ?thesis
    unfolding remembered_def
  proof (intro conjI impI)
    show "t \<le> now" using rem by (simp add: remembered_def)
    assume w: "now - t < DEDUP_WINDOW_MS"
    with rem obtain e where e: "tq_dedup q (tm_trigger_run_id n) = Some e"
      "t \<le> de_timestamp e" "de_timestamp e \<le> now" "de_priority e \<le> tm_priority n"
      by (auto simp: remembered_def)
    with w have "now - de_timestamp e < DEDUP_WINDOW_MS" by linarith
    from enqueue_accept_dedup(3) [OF acc False e(1) this] e
    show "\<exists>e. tq_dedup q' (tm_trigger_run_id n) = Some e \<and> t \<le> de_timestamp e
      \<and> de_timestamp e \<le> now \<and> de_priority e \<le> tm_priority n" by blast
  qed
qed

lemma dedup_step:
  assumes inv: "dedup_inv now H q" and acc: "enqueue q now m = (True, q')"
  shows "dedup_inv now (H @ [(now, m)]) q'" and "\<forall>x\<in>set H. supersedes x (now, m)"
proof -
  have "remembered now q' now m"
    using enqueue_accept_dedup(2) [OF acc] by (simp add: remembered_def)
  then show "dedup_inv now (H @ [(now, m)]) q'"
    using inv remembered_enqueue [OF _ acc] by (auto simp: dedup_inv_def)
  show "\<forall>x\<in>set H. supersedes x (now, m)"
    using inv remembered_supersedes [OF _ enqueue_accept_dedup(1) [OF acc]]
    by (force simp: dedup_inv_def)
qed

lemma exec_supersedes:
  assumes "dedup_inv c H q" and "clock_ok c ops" and "sorted_wrt supersedes H"
    and "fifo_exec enqueue dequeue q ops = (acc, out, q')"
  shows "sorted_wrt supersedes (H @ acc)"
  using assms
proof (induction ops arbitrary: c H q acc out)
  case (Cons op ops)
  show ?case
  proof (cases op)
    case (Enq t m)
    obtain b q1 where e: "enqueue q t m = (b, q1)" by fastforce
    obtain acc1 out1 q2 where r: "fifo_exec enqueue dequeue q1 ops = (acc1, out1, q2)"
      by (metis prod_cases3)
    have q2: "q2 = q'" using Cons.prems(4) Enq e r by simp
    from Cons.prems Enq have t: "c \<le> t" "clock_ok t ops" by auto
    have inv: "dedup_inv t H q" using Cons.prems(1) t(1) by (rule dedup_inv_later)
    show ?thesis
    proof (cases b)
      case True
      with e have acc: "enqueue q t m = (True, q1)" by simp
      have "sorted_wrt supersedes (H @ [(t, m)])"
        using Cons.prems(3) dedup_step(2) [OF inv acc] by (simp add: sorted_wrt_append)
      from Cons.IH [OF dedup_step(1) [OF inv acc] t(2) this] r q2
      have "sorted_wrt supersedes ((H @ [(t, m)]) @ acc1)" by simp
      with True Cons.prems(4) Enq e r show ?thesis by simp
    next
      case False
      with e have "q1 = q" by (auto dest: tq.enq_reject)
      with Cons.IH [OF inv t(2) Cons.prems(3)] r q2 have "sorted_wrt supersedes (H @ acc1)" by simp
      with False Cons.prems(4) Enq e r show ?thesis by simp
    qed
  next
    case Deq
    obtain acc1 out1 q2 where r: "fifo_exec enqueue dequeue (snd (dequeue q)) ops = (acc1, out1, q2)"
      by (metis prod_cases3)
    from Cons.prems(4) Deq r have "q2 = q'" "acc1 = acc" by (auto split: prod.splits)
    with Cons.IH [OF dedup_inv_dequeue [OF Cons.prems(1)] _ Cons.prems(3)] Cons.prems(2) Deq r
    show ?thesis by simp
  qed
qed simp

section \<open>Properties\<close>

text \<open>
  Over any interleaving of producers and the dispatcher, starting from a new queue,
  the messages handed out followed by those still queued are exactly the accepted ones in
  the order of acceptance (none lost, duplicated or reordered), and the queue never holds
  more than its capacity.
\<close>

theorem trigger_queue_fifo_bounded:
  assumes "fifo_exec enqueue dequeue (new_TriggerQueue cap) ops = (accepted, handed_out, q)"
  shows "map snd accepted = handed_out @ tq_queue q \<and> tq_size q \<le> cap"
  using tq.exec_fifo [OF assms] by (simp add: new_TriggerQueue_def tq_size_def)

definition sample_trigger :: "int \<Rightarrow> TriggerMessage" where
  "sample_trigger p = \<lparr>tm_trigger = ''deny_decisions'', tm_trigger_run_id = ''r1'',
     tm_tenant_id = ''t1'', tm_priority = p, tm_enqueued_at = ''2026-01-01''\<rparr>"

theorem trigger_queue_fifo_bounded_witness:
  "\<exists>q. fifo_exec enqueue dequeue (new_TriggerQueue 1)
      [Enq 0 (sample_trigger 3), Enq 1 (sample_trigger 1), Deq, Enq 2 (sample_trigger 2)]
      = ([(0, sample_trigger 3), (2, sample_trigger 2)], [sample_trigger 3], q)
    \<and> map snd [(0::int, sample_trigger 3), (2, sample_trigger 2)] = [sample_trigger 3] @ tq_queue q
    \<and> tq_size q \<le> 1"
proof -
  obtain q where ex: "fifo_exec enqueue dequeue (new_TriggerQueue 1)
      [Enq 0 (sample_trigger 3), Enq 1 (sample_trigger 1), Deq, Enq 2 (sample_trigger 2)]
      = ([(0, sample_trigger 3), (2, sample_trigger 2)], [sample_trigger 3], q)"
    by (simp add: enqueue_def dequeue_def new_TriggerQueue_def suppressed_def sample_trigger_def Let_def)
  with trigger_queue_fifo_bounded [OF ex] show ?thesis by blast
qed

text \<open>
  With a clock that does not go back, of any two accepted triggers of the same run
  that were enqueued less than 60 seconds apart, the later one is strictly more urgent.
\<close>

theorem trigger_dedup_window:
  assumes "clock_ok t0 ops"
    and "fifo_exec enqueue dequeue (new_TriggerQueue cap) ops = (accepted, handed_out, q)"
    and "i < j" and "j < length accepted"
    and "tm_trigger_run_id (snd (accepted ! i)) = tm_trigger_run_id (snd (accepted ! j))"
    and "fst (accepted ! j) - fst (accepted ! i) < 60000"
  shows "tm_priority (snd (accepted ! j)) < tm_priority (snd (accepted ! i))"
proof -
  have "dedup_inv t0 [] (new_TriggerQueue cap)" by (simp add: dedup_inv_def)
  from exec_supersedes [OF this assms(1) _ assms(2)] have "sorted_wrt supersedes accepted" by simp
  with assms(3,4) have "supersedes (accepted ! i) (accepted ! j)"
    by (simp add: sorted_wrt_iff_nth_less)
  with assms(5,6) show ?thesis by (simp add: supersedes_def DEDUP_WINDOW_MS_def)
qed

theorem trigger_dedup_window_witness:
  "\<exists>q. fifo_exec enqueue dequeue (new_TriggerQueue 5)
      [Enq 0 (sample_trigger 3), Enq 10 (sample_trigger 3), Enq 20 (sample_trigger 1)]
      = ([(0, sample_trigger 3), (20, sample_trigger 1)], [], q)
    \<and> tm_priority (sample_trigger 1) < tm_priority (sample_trigger 3)"
proof -
  let ?ops = "[Enq 0 (sample_trigger 3), Enq 10 (sample_trigger 3), Enq 20 (sample_trigger 1)]"
  obtain q where ex: "fifo_exec enqueue dequeue (new_TriggerQueue 5) ?ops
      = ([(0, sample_trigger 3), (20, sample_trigger 1)], [], q)"
    by (simp add: enqueue_def new_TriggerQueue_def suppressed_def sample_trigger_def
        DEDUP_WINDOW_MS_def Let_def)
  have "clock_ok 0 ?ops" by simp
  from trigger_dedup_window [OF this ex, of 0 1] ex show ?thesis by (simp add: sample_trigger_def)
qed

text \<open>
  One pass of the dispatcher empties the queue and, with a supervisor configured,
  sends one request per queued message, in order; with none configured it sends nothing.
\<close>

theorem drainQueue_complete:
  "tq_queue (snd (drainQueue env supervisorUrl key q)) = []
   \<and> fst (drainQueue env (Some (c # u)) key q)
       = map (dispatchTrigger env (c # u) key) (tq_queue q)
   \<and> fst (drainQueue env None key q) = []"
proof -
  from tq.drain_all [of q] obtain q' where d: "drain_n dequeue (Suc (length (tq_queue q))) q
      = Some (tq_queue q, q')" and e: "tq_queue q' = []" by blast
  have "concat (map (dispatchTriggerDirect env (Some (c # u)) key) ms)
      = map (dispatchTrigger env (c # u) key) ms"
    and "concat (map (dispatchTriggerDirect env None key) ms) = []" for ms
    by (induction ms) (simp_all add: dispatchTriggerDirect_def)
  with e show ?thesis by (simp add: drainQueue_drain_n [OF d])
qed

end
