(* ===== verification/Trigger_Dispatch.thy ===== *)
theory Trigger_Dispatch
  imports Trigger_Queue
begin

text \<open>
  The worker of \<open>packages/backend/src/lib/trigger-dispatch.ts\<close> as it runs: every poll of
  \<open>startTriggerDispatch\<close> starts a \<open>drainQueue\<close> of its own, which waits for the answer to each request before
  it takes the next message, so several of them may be waiting at once. The requests leave in the
  order in which the triggers were accepted, each once, whatever is answered and in whatever order; and
  polling alone empties the queue, also when the supervisor never answers.
\<close>

section \<open>Answers of the supervisor\<close>

definition POLL_INTERVAL_MS :: int where "POLL_INTERVAL_MS = 500"
definition DISPATCH_TIMEOUT_MS :: int where "DISPATCH_TIMEOUT_MS = 3000"

text \<open>\<open>fetch\<close> gives a status, or throws: a network error, or the abort when the timeout is over.\<close>

datatype fetch_outcome = FetchStatus int | FetchThrows string

definition dispatch_warning :: "TriggerMessage \<Rightarrow> fetch_outcome \<Rightarrow> string list" where
  "dispatch_warning m r = (case r of
     FetchStatus code \<Rightarrow> if 200 \<le> code \<and> code \<le> 299 then []
       else [''[trigger-dispatch] Supervisor returned '' @ show_int code @ '' for trigger='' @ tm_trigger m
         @ '' run='' @ tm_trigger_run_id m @ ''. Trigger dropped.'']
   | FetchThrows e \<Rightarrow> [''[trigger-dispatch] Failed to dispatch trigger='' @ tm_trigger m
         @ '' run='' @ tm_trigger_run_id m @ '': '' @ e @ ''. Trigger dropped.''])"

section \<open>The worker\<close>

definition configured :: "string option \<Rightarrow> bool" where
  "configured url \<longleftrightarrow> url \<noteq> None \<and> url \<noteq> Some []"

text \<open>
  \<open>dp_waiting\<close> are the drains that wait for an answer, each with the message of its request, and
  \<open>dp_accepted\<close> the messages that the queue has accepted.
\<close>

record dispatcher =
  dp_queue :: TriggerQueue
  dp_polling :: bool
  dp_waiting :: "TriggerMessage list"
  dp_sent :: "TriggerMessage list"
  dp_logs :: "string list"
  dp_accepted :: "TriggerMessage list"

definition startTriggerDispatch :: "string option \<Rightarrow> TriggerQueue \<Rightarrow> dispatcher" where
  "startTriggerDispatch url q = \<lparr>dp_queue = q, dp_polling = True, dp_waiting = [], dp_sent = [],
     dp_logs = (if configured url then [] else [''[trigger-dispatch] LOOPSTORM_SUPERVISOR_URL not set - trigger dispatch is disabled. ''
       @ ''Triggers will be evaluated but not dispatched.'']), dp_accepted = tq_queue q\<rparr>"

text \<open>The loop of \<open>drainQueue\<close> up to its next \<open>await\<close>, or to its end.\<close>

function drain_until_wait :: "string option \<Rightarrow> TriggerQueue \<Rightarrow> TriggerMessage option \<times> TriggerQueue" where
  "drain_until_wait url q = (case dequeue q of
     (None, q') \<Rightarrow> (None, q')
   | (Some m, q') \<Rightarrow> if configured url then (Some m, q') else drain_until_wait url q')"
  by pat_completeness auto
termination
  by (relation "measure (\<lambda>(url, q). length (tq_queue q))") (auto simp: dequeue_def split: list.splits)

declare drain_until_wait.simps [simp del]

definition resume :: "string option \<Rightarrow> dispatcher \<Rightarrow> dispatcher" where
  "resume url s = (case drain_until_wait url (dp_queue s) of
     (None, q') \<Rightarrow> s\<lparr>dp_queue := q'\<rparr>
   | (Some m, q') \<Rightarrow> s\<lparr>dp_queue := q', dp_waiting := dp_waiting s @ [m], dp_sent := dp_sent s @ [m]\<rparr>)"

text \<open>
  What happens around the worker: a trigger is offered to the queue, the interval fires, a request is
  answered, \<open>stop\<close> is called. Clearing the interval ends no drain that waits.
\<close>

datatype dispatch_op = Offer int TriggerMessage | Poll | Answered TriggerMessage fetch_outcome | StopDispatch

fun dispatch_step :: "string option \<Rightarrow> dispatch_op \<Rightarrow> dispatcher \<Rightarrow> dispatcher" where
  "dispatch_step url (Offer now m) s = (case enqueue (dp_queue s) now m of
     (b, q') \<Rightarrow> s\<lparr>dp_queue := q', dp_accepted := (if b then dp_accepted s @ [m] else dp_accepted s)\<rparr>)"
| "dispatch_step url Poll s = (if dp_polling s then resume url s else s)"
| "dispatch_step url (Answered m r) s = (if m \<in> set (dp_waiting s)
     then resume url (s\<lparr>dp_waiting := remove1 m (dp_waiting s), dp_logs := dp_logs s @ dispatch_warning m r\<rparr>) else s)"
| "dispatch_step url StopDispatch s = s\<lparr>dp_polling := False\<rparr>"

definition dispatch_run :: "string option \<Rightarrow> dispatch_op list \<Rightarrow> dispatcher \<Rightarrow> dispatcher" where
  "dispatch_run url ops s = fold (dispatch_step url) ops s"

text \<open>The requests, as the supervisor receives them.\<close>

definition dispatch_requests :: "dispatch_env \<Rightarrow> string \<Rightarrow> string option \<Rightarrow> dispatcher \<Rightarrow> post_request list" where
  "dispatch_requests env url key s = map (dispatchTrigger env url key) (dp_sent s)"

section \<open>Order\<close>

lemma drain_until_wait_configured:
  "configured url \<Longrightarrow> drain_until_wait url q = dequeue q"
  by (simp add: drain_until_wait.simps [of url q] split: prod.split option.split)

lemma resume_configured:
  assumes "configured url"
  shows "resume url s = (case tq_queue (dp_queue s) of [] \<Rightarrow> s
    | m # ms \<Rightarrow> s\<lparr>dp_queue := (dp_queue s)\<lparr>tq_queue := ms\<rparr>, dp_waiting := dp_waiting s @ [m], dp_sent := dp_sent s @ [m]\<rparr>)"
  by (simp add: resume_def drain_until_wait_configured [OF assms] dequeue_def split: list.split)

definition in_order :: "dispatcher \<Rightarrow> bool" where
  "in_order s \<longleftrightarrow> dp_sent s @ tq_queue (dp_queue s) = dp_accepted s \<and> mset (dp_waiting s) \<subseteq># mset (dp_sent s)"

lemma in_order_resume: "configured url \<Longrightarrow> in_order s \<Longrightarrow> in_order (resume url s)"
  by (auto simp: in_order_def resume_configured split: list.split)

lemma in_order_step: "configured url \<Longrightarrow> in_order s \<Longrightarrow> in_order (dispatch_step url opn s)"
proof (cases opn)
  case (Answered m r)
  assume c: "configured url" and i: "in_order s"
  have "mset (remove1 m (dp_waiting s)) \<subseteq># mset (dp_sent s)"
    using i by (auto simp: in_order_def intro: subset_mset.trans [OF diff_subset_eq_self])
  then have "in_order (s\<lparr>dp_waiting := remove1 m (dp_waiting s), dp_logs := dp_logs s @ dispatch_warning m r\<rparr>)"
    using i by (simp add: in_order_def)
  with Answered i c show ?thesis by (simp add: in_order_resume)
next
  case Poll
  assume "configured url" and "in_order s"
  with Poll show ?thesis by (simp add: in_order_resume)
qed (auto simp: in_order_def enqueue_def Let_def split: if_splits)

lemma in_order_run: "configured url \<Longrightarrow> in_order s \<Longrightarrow> in_order (dispatch_run url ops s)"
  unfolding dispatch_run_def by (induction ops arbitrary: s) (simp_all add: in_order_step)

text \<open>
  Over any interleaving of producers, polls, answers and \<open>stop\<close>, with any number of drains
  waiting at once, the requests are those of the accepted triggers in the order of acceptance, each
  once: the ones that were not sent yet are the ones still queued.
\<close>

theorem dispatch_sends_in_order:
  assumes "url \<noteq> []" and "s = dispatch_run (Some url) ops (startTriggerDispatch (Some url) q)"
  shows "dispatch_requests env url key s @ map (dispatchTrigger env url key) (tq_queue (dp_queue s))
      = map (dispatchTrigger env url key) (dp_accepted s)
    \<and> mset (dp_waiting s) \<subseteq># mset (dp_sent s)"
proof -
  have c: "configured (Some url)" using assms(1) by (simp add: configured_def)
  have "in_order (startTriggerDispatch (Some url) q)" by (simp add: startTriggerDispatch_def in_order_def)
  from in_order_run [OF c this, of ops] show ?thesis
    by (simp add: assms(2) in_order_def dispatch_requests_def flip: map_append)
qed

section \<open>Progress\<close>

fun quiet_op :: "dispatch_op \<Rightarrow> bool" where
  "quiet_op Poll = True"
| "quiet_op (Answered m r) = True"
| "quiet_op _ = False"

definition polls :: "dispatch_op list \<Rightarrow> nat" where
  "polls ops = length (filter (\<lambda>opn. opn = Poll) ops)"

lemma quiet_step:
  assumes "configured url" and "quiet_op opn" and "dp_polling s"
  shows "dp_polling (dispatch_step url opn s)"
    and "dp_sent (dispatch_step url opn s) @ tq_queue (dp_queue (dispatch_step url opn s)) = dp_sent s @ tq_queue (dp_queue s)"
    and "length (tq_queue (dp_queue (dispatch_step url opn s))) \<le> length (tq_queue (dp_queue s)) - (if opn = Poll then 1 else 0)"
  using assms by (cases opn; simp add: resume_configured split: list.split)+

lemma quiet_run:
  assumes "configured url" and "list_all quiet_op ops" and "dp_polling s"
  shows "dp_sent (dispatch_run url ops s) @ tq_queue (dp_queue (dispatch_run url ops s)) = dp_sent s @ tq_queue (dp_queue s)
    \<and> length (tq_queue (dp_queue (dispatch_run url ops s))) \<le> length (tq_queue (dp_queue s)) - polls ops"
  using assms(2,3)
proof (induction ops arbitrary: s)
  case (Cons opn ops)
  then have q: "quiet_op opn" "list_all quiet_op ops" by simp_all
  from Cons.IH [OF q(2) quiet_step(1) [OF assms(1) q(1) Cons.prems(2)]]
    quiet_step(2,3) [OF assms(1) q(1) Cons.prems(2)]
  show ?case by (auto simp: dispatch_run_def polls_def)
qed (simp add: dispatch_run_def polls_def)

text \<open>
  A supervisor that hangs delays nothing: after as many polls as messages were waiting, every one of
  them was sent, in order, whatever answers arrive in between, and also when none does.
\<close>

theorem polls_empty_the_queue:
  assumes "url \<noteq> []" and "list_all quiet_op ops" and "dp_polling s" and "tq_size (dp_queue s) \<le> polls ops"
  shows "tq_queue (dp_queue (dispatch_run (Some url) ops s)) = []
    \<and> dp_sent (dispatch_run (Some url) ops s) = dp_sent s @ tq_queue (dp_queue s)"
proof -
  have "configured (Some url)" using assms(1) by (simp add: configured_def)
  note run = quiet_run [OF this assms(2,3)]
  have nil: "tq_queue (dp_queue (dispatch_run (Some url) ops s)) = []"
    using conjunct2 [OF run] assms(4) by (simp add: tq_size_def)
  show ?thesis using conjunct1 [OF run] unfolding nil by simp
qed

text \<open>Without a supervisor, each poll discards what is queued, and nothing is ever sent.\<close>

lemma drain_unconfigured: "\<not> configured url \<Longrightarrow> fst (drain_until_wait url q) = None \<and> tq_queue (snd (drain_until_wait url q)) = []"
proof (induction url q rule: drain_until_wait.induct)
  case (1 url q)
  then show ?case by (simp add: drain_until_wait.simps [of url q] dequeue_def split: list.splits)
qed

theorem unconfigured_poll_discards:
  "dp_polling s \<Longrightarrow> tq_queue (dp_queue (dispatch_step None Poll s)) = [] \<and> dp_sent (dispatch_step None Poll s) = dp_sent s"
  using drain_unconfigured [of None "dp_queue s"]
  by (auto simp: configured_def resume_def split: prod.split option.split)

text \<open>
  \<open>stop\<close> ends the polling, not a drain that waits: its answer sends the next message.
\<close>

theorem drain_outlives_stop:
  assumes "url \<noteq> []" and "dp_waiting s = [m]" and "tq_queue (dp_queue s) = [m']"
  shows "dp_sent (dispatch_run (Some url) [StopDispatch, Poll, Answered m r] s) = dp_sent s @ [m']"
  using assms by (simp add: dispatch_run_def resume_configured configured_def)

section \<open>Examples\<close>

text \<open>Two triggers are queued, a third is accepted, and two polls pass before any answer: two drains wait.\<close>

definition ex_queue :: TriggerQueue where
  "ex_queue = (new_TriggerQueue 5)\<lparr>tq_queue := [sample_trigger 1, sample_trigger 2]\<rparr>"

definition ex_offers :: "dispatch_op list" where
  "ex_offers = [Offer 0 (sample_trigger 3), Poll, Poll]"

definition ex_dispatcher :: dispatcher where
  "ex_dispatcher = dispatch_run (Some ''u'') ex_offers (startTriggerDispatch (Some ''u'') ex_queue)"

lemma ex_enqueue:
  "enqueue ex_queue 0 (sample_trigger 3) = (True, ex_queue\<lparr>tq_queue := [sample_trigger 1, sample_trigger 2, sample_trigger 3],
     tq_dedup := [''r1'' \<mapsto> \<lparr>de_priority = 3, de_timestamp = 0\<rparr>]\<rparr>)"
  by (simp add: enqueue_def suppressed_def ex_queue_def new_TriggerQueue_def sample_trigger_def Let_def)

lemma ex_dispatcher_eval:
  "dp_sent ex_dispatcher = [sample_trigger 1, sample_trigger 2] \<and> tq_queue (dp_queue ex_dispatcher) = [sample_trigger 3]
    \<and> length (dp_waiting ex_dispatcher) = 2 \<and> dp_polling ex_dispatcher"
proof -
  have c: "configured (Some ''u'')" by (simp add: configured_def)
  show ?thesis
    unfolding ex_dispatcher_def ex_offers_def dispatch_run_def
    by (simp add: startTriggerDispatch_def ex_enqueue resume_configured [OF c])
qed

theorem dispatch_sends_in_order_witness:
  "length (dispatch_requests env ''u'' key ex_dispatcher) = 2 \<and> length (dp_accepted ex_dispatcher) = 3"
proof -
  have "map (dispatchTrigger env ''u'' key) (dp_accepted ex_dispatcher)
      = dispatch_requests env ''u'' key ex_dispatcher @ map (dispatchTrigger env ''u'' key) (tq_queue (dp_queue ex_dispatcher))"
    using dispatch_sends_in_order [of "''u''" ex_dispatcher ex_offers ex_queue env key]
    by (simp add: ex_dispatcher_def)
  then have "length (dp_accepted ex_dispatcher) = length (dispatch_requests env ''u'' key ex_dispatcher) + 1"
    using ex_dispatcher_eval by (metis length_append length_map length_Cons list.size(3) One_nat_def)
  then show ?thesis using ex_dispatcher_eval by (simp add: dispatch_requests_def)
qed

theorem polls_empty_the_queue_witness:
  "tq_queue (dp_queue (dispatch_run (Some ''u'') [Poll] ex_dispatcher)) = []"
proof -
  have "tq_size (dp_queue ex_dispatcher) \<le> polls [Poll]"
    using ex_dispatcher_eval by (simp add: tq_size_def polls_def)
  with polls_empty_the_queue [of "''u''" "[Poll]" ex_dispatcher] ex_dispatcher_eval show ?thesis by simp
qed

end
