(* ===== verification/Js_Library.thy ===== *)
theory Js_Library
  imports Json_Values Complex_Main
begin

text \<open>
  The parts of the JavaScript library that several components use: the value of a number,
  \<open>toLowerCase\<close>, \<open>split\<close>, \<open>Number.parseInt\<close> with radix 10, hexadecimal text of bytes and
  \<open>%\<close>. Bytes are characters.
\<close>

section \<open>Numbers of JSON values\<close>

text \<open>The value of a finite number; JSON texts hold no others.\<close>

fun num_val :: "jnum \<Rightarrow> rat" where
  "num_val (Dec neg s e) = (if neg then - 1 else 1) *
     (if e \<ge> 0 then of_nat s * 10 ^ nat e else of_nat s / 10 ^ nat (- e))"
| "num_val _ = 0"

fun isInteger :: "jnum \<Rightarrow> bool" where
  "isInteger (Dec neg s e) \<longleftrightarrow> s = 0 \<or> e \<ge> 0"
| "isInteger _ \<longleftrightarrow> False"

fun int_val :: "jnum \<Rightarrow> int" where
  "int_val (Dec neg s e) = (if neg then - 1 else 1) * int s * 10 ^ nat e"
| "int_val _ = 0"

section \<open>Text\<close>

text \<open>\<open>toLowerCase\<close> on the code units below 256.\<close>

definition lower_char :: "char \<Rightarrow> char" where
  "lower_char c = (let n = of_char c :: nat in
     if 65 \<le> n \<and> n \<le> 90 \<or> 192 \<le> n \<and> n \<le> 222 \<and> n \<noteq> 215 then char_of (n + 32) else c)"

definition toLowerCase :: "string \<Rightarrow> string" where
  "toLowerCase s = map lower_char s"

text \<open>\<open>s.split(c)\<close> for a separator of one character; the result is never empty.\<close>

fun split_on :: "char \<Rightarrow> string \<Rightarrow> string list" where
  "split_on c [] = [[]]"
| "split_on c (x # xs) = (if x = c then [] # split_on c xs
     else (case split_on c xs of [] \<Rightarrow> [[x]] | y # ys \<Rightarrow> (x # y) # ys))"

text \<open>\<open>Number.parseInt(s, 10)\<close>: white space, a sign, the longest run of digits; \<open>None\<close> is \<open>NaN\<close>.\<close>

definition is_digit :: "char \<Rightarrow> bool" where
  "is_digit c \<longleftrightarrow> 48 \<le> (of_char c :: nat) \<and> (of_char c :: nat) \<le> 57"

definition digits_val :: "string \<Rightarrow> nat" where
  "digits_val ds = foldl (\<lambda>n c. 10 * n + (of_char c - 48)) 0 ds"

definition parse_digits :: "string \<Rightarrow> nat option" where
  "parse_digits s = (let ds = takeWhile is_digit s in if ds = [] then None else Some (digits_val ds))"

definition parseInt :: "string \<Rightarrow> int option" where
  "parseInt s = (case dropWhile is_ws s of
       [] \<Rightarrow> None
     | c # cs \<Rightarrow> if c = CHR ''-'' then map_option (\<lambda>n. - int n) (parse_digits cs)
                else if c = CHR ''+'' then map_option int (parse_digits cs)
                else map_option int (parse_digits (c # cs)))"

text \<open>\<open>s.indexOf(c)\<close>; \<open>None\<close> is \<open>-1\<close>.\<close>

fun indexOf :: "char \<Rightarrow> string \<Rightarrow> nat option" where
  "indexOf c [] = None"
| "indexOf c (x # xs) = (if x = c then Some 0 else map_option Suc (indexOf c xs))"

section \<open>Bytes\<close>

text \<open>\<open>toString("hex")\<close>, and \<open>Buffer.from(s, "hex")\<close>, which stops at the first pair that is not hexadecimal.\<close>

definition hex_byte :: "char \<Rightarrow> string" where
  "hex_byte c = (let n = of_char c :: nat in [hex_digit (n div 16), hex_digit (n mod 16)])"

definition to_hex :: "string \<Rightarrow> string" where
  "to_hex bs = concat (map hex_byte bs)"

definition hex_val :: "char \<Rightarrow> nat option" where
  "hex_val c = (let n = of_char c :: nat in
     if 48 \<le> n \<and> n \<le> 57 then Some (n - 48)
     else if 97 \<le> n \<and> n \<le> 102 then Some (n - 87)
     else if 65 \<le> n \<and> n \<le> 70 then Some (n - 55) else None)"

fun from_hex :: "string \<Rightarrow> string" where
  "from_hex (a # b # s) = (case (hex_val a, hex_val b) of
      (Some x, Some y) \<Rightarrow> char_of (16 * x + y) # from_hex s
    | _ \<Rightarrow> [])"
| "from_hex _ = []"

text \<open>The remainder \<open>%\<close>, which takes the sign of the dividend.\<close>

definition js_rem :: "rat \<Rightarrow> rat \<Rightarrow> rat" where
  "js_rem a b = a - b * (if a / b < 0 then of_int \<lceil>a / b\<rceil> else of_int \<lfloor>a / b\<rfloor>)"

section \<open>Lemmas\<close>

lemma split_on_not_Nil [simp]: "split_on c s \<noteq> []"
  by (cases s) (auto split: list.splits)

lemma split_on_append:
  "split_on c (a @ b) = butlast (split_on c a) @ split_on c (last (split_on c a) @ b)"
proof (induction a)
  case (Cons x a)
  obtain y ys where a: "split_on c a = y # ys" by (cases "split_on c a") auto
  show ?case
  proof (cases "ys = []")
    case True
    with Cons a show ?thesis by (auto simp del: split_on.simps(1))
  next
    case False
    with Cons a show ?thesis by auto
  qed
qed simp

lemma split_on_no_sep: "c \<notin> set s \<Longrightarrow> split_on c s = [s]"
  by (induction s) auto

lemma last_split_on_no_sep: "c \<notin> set (last (split_on c s))"
  by (induction s) (auto split: list.splits if_splits)

lemma split_on_concat_lines:
  assumes "\<And>l. l \<in> set ls \<Longrightarrow> c \<notin> set l"
  shows "split_on c (concat (map (\<lambda>l. l @ [c]) ls)) = ls @ [[]]"
  using assms
proof (induction ls)
  case (Cons l ls)
  have l: "split_on c l = [l]" using Cons.prems by (simp add: split_on_no_sep)
  have nosep: "split_on c (s @ c # r) = s # split_on c r" if "c \<notin> set s" for s r
    using that by (induction s) auto
  show ?case using Cons nosep [of l] by simp
qed simp

lemma digit_char_of: "d < 10 \<Longrightarrow> of_char (digit_char d) = (48 + d :: nat)"
  by (simp add: digit_char_def)

lemma show_nat_digits:
  "list_all is_digit (show_nat n) \<and> digits_val (show_nat n) = n \<and> show_nat n \<noteq> []"
proof (induction n rule: show_nat.induct)
  case (1 n)
  show ?case
  proof (cases "n < 10")
    case True
    then show ?thesis by (subst (1 2 3) show_nat.simps) (simp add: is_digit_def digits_val_def digit_char_of)
  next
    case False
    with 1 have IH: "list_all is_digit (show_nat (n div 10))" "digits_val (show_nat (n div 10)) = n div 10" by auto
    have eq: "show_nat n = show_nat (n div 10) @ [digit_char (n mod 10)]"
      using False by (subst show_nat.simps) simp
    have "digits_val (xs @ [c]) = 10 * digits_val xs + (of_char c - 48)" for xs c
      by (simp add: digits_val_def)
    moreover have "is_digit (digit_char (n mod 10))" by (simp add: digit_char_of is_digit_def less_Suc_eq_le [symmetric])
    ultimately show ?thesis unfolding eq using IH by (simp add: digit_char_of)
  qed
qed

lemma is_digit_not_ws: "is_digit c \<Longrightarrow> \<not> is_ws c \<and> c \<noteq> CHR ''-'' \<and> c \<noteq> CHR ''+''"
  by (auto simp: is_digit_def is_ws_def)

lemma parseInt_show_nat: "parseInt (show_nat n) = Some (int n)"
proof -
  note D = show_nat_digits [of n]
  obtain c cs where s: "show_nat n = c # cs" using D by (cases "show_nat n") auto
  with D have "is_digit c" by simp
  from is_digit_not_ws [OF this] s have "dropWhile is_ws (show_nat n) = c # cs" "c \<noteq> CHR ''-''" "c \<noteq> CHR ''+''" by auto
  moreover have "takeWhile is_digit (c # cs) = c # cs"
    using D s unfolding takeWhile_eq_all_conv by (simp add: list_all_iff)
  then have "parse_digits (c # cs) = Some n"
    unfolding parse_digits_def Let_def using D s by (simp only: list.simps if_False)
  ultimately show ?thesis by (simp add: parseInt_def s)
qed

lemma trim_show_nat: "trim (show_nat n) = show_nat n"
proof -
  have nw: "\<not> is_ws c" if "c \<in> set (show_nat n)" for c
    using that show_nat_digits [of n] is_digit_not_ws by (auto simp: list_all_iff)
  have "dropWhile is_ws xs = xs" if "\<And>c. c \<in> set xs \<Longrightarrow> \<not> is_ws c" for xs
    using that by (cases xs) auto
  from this [of "show_nat n"] this [of "rev (show_nat n)"] nw show ?thesis by (simp add: trim_def trimEnd_def)
qed

lemma to_hex_append [simp]: "to_hex (a @ b) = to_hex a @ to_hex b"
  by (simp add: to_hex_def)

lemma length_to_hex [simp]: "length (to_hex bs) = 2 * length bs"
  by (induction bs) (simp_all add: to_hex_def hex_byte_def Let_def)

lemma of_char_less: "of_char c < (256 :: nat)"
  by (metis of_char_mod_256 mod_less_divisor zero_less_numeral)

lemma hex_val_digit: "d < 16 \<Longrightarrow> hex_val (hex_digit d) = Some d"
  by (auto simp: hex_val_def hex_digit_def Let_def)

text \<open>Printing bytes and reading them back gives the bytes.\<close>

lemma from_hex_to_hex: "from_hex (to_hex bs) = bs"
proof (induction bs)
  case (Cons b bs)
  have "(of_char b :: nat) div 16 < 16" using of_char_less [of b] by (simp add: less_mult_imp_div_less)
  then show ?case using Cons by (simp add: to_hex_def hex_byte_def Let_def hex_val_digit)
qed (simp add: to_hex_def)

lemma js_rem_nonneg: "0 \<le> a \<Longrightarrow> 0 < b \<Longrightarrow> js_rem a b = a - b * of_int \<lfloor>a / b\<rfloor>"
  by (simp add: js_rem_def divide_less_0_iff)

text \<open>The number with a given value has that value.\<close>

lemma strip_zeros_val: "s \<noteq> 0 \<Longrightarrow> (case strip_zeros s e of (s', e') \<Rightarrow> e \<le> e' \<and> s' * 10 ^ nat (e' - e) = s)"
proof (induction s e rule: strip_zeros.induct)
  case (1 s e)
  show ?case
  proof (cases "s mod 10 = 0")
    case True
    with 1 have d: "s div 10 \<noteq> 0" "s = s div 10 * 10" by auto
    obtain s' e' where r: "strip_zeros (s div 10) (e + 1) = (s', e')" by fastforce
    with 1 True d(1) have i: "e + 1 \<le> e'" "s' * 10 ^ nat (e' - (e + 1)) = s div 10" by auto
    have "nat (e' - e) = Suc (nat (e' - (e + 1)))" using i(1) by simp
    with i d(2) have "s' * 10 ^ nat (e' - e) = s" by (metis mult.assoc power_Suc2)
    with r i(1) True 1(2) show ?thesis by (subst strip_zeros.simps) simp
  next
    case False
    then show ?thesis by (subst strip_zeros.simps) simp
  qed
qed

lemma int_val_num_of_int: "int_val (num_of_int i) = i"
proof (cases "i = 0")
  case False
  then have "case strip_zeros (nat \<bar>i\<bar>) 0 of (s, e) \<Rightarrow> 0 \<le> e \<and> s * 10 ^ nat (e - 0) = nat \<bar>i\<bar>" by (intro strip_zeros_val) simp
  then obtain s e where r: "strip_zeros (nat \<bar>i\<bar>) 0 = (s, e)" and v: "s * 10 ^ nat e = nat \<bar>i\<bar>" by (auto split: prod.splits)
  from arg_cong [OF v, of int] have "int s * 10 ^ nat e = \<bar>i\<bar>" by simp
  with False r show ?thesis by (simp add: num_of_int_def mult.assoc)
qed (simp add: num_of_int_def)

section \<open>Formatting of numbers\<close>

text \<open>\<open>x.toFixed(f)\<close> for \<open>x\<close> below \<open>10 ^ 21\<close>: the nearest multiple, the larger of two.\<close>

definition pad_left :: "nat \<Rightarrow> string \<Rightarrow> string" where
  "pad_left n s = replicate (n - length s) (CHR ''0'') @ s"

definition toFixed :: "nat \<Rightarrow> rat \<Rightarrow> string" where
  "toFixed f x =
    (let n = nat \<lfloor>\<bar>x\<bar> * 10 ^ f + 1 / 2\<rfloor>; ds = pad_left (f + 1) (show_nat n); k = length ds - f
     in (if x < 0 then ''-'' else []) @ take k ds @ (if f = 0 then [] else ''.'' @ drop k ds))"

text \<open>The text of a number with at most two decimals.\<close>

definition show_hundredths :: "int \<Rightarrow> string" where
  "show_hundredths n = (if n = 0 then ''0'' else
     (let (s, e) = strip_zeros (nat \<bar>n\<bar>) (- 2) in num_string (Dec (n < 0) s e)))"

end
