(* ===== verification/Risk_Analysis.thy ===== *)
theory Risk_Analysis
  imports Js_Library
begin

text \<open>
  \<open>apps/supervisor/src/lib\<close>: \<open>risk-score.ts\<close>, \<open>loop-analysis.ts\<close> and \<open>recovery-eval.ts\<close>, the
  deterministic analyses of a run that the AI supervisor offers as tools.

  An event has the columns the backend returns; a column that may be \<open>null\<close> is an option and
  the JSON column \<open>budget\<close> is a \<^typ>\<open>jsval\<close>. Numbers are exact rationals. \<open>toNumber\<close>, a
  parameter, is the conversion of a value that is no number.
\<close>

section \<open>Risk score\<close>

record RiskSignal =
  rk_id :: string
  rk_name :: string
  rk_weight :: nat
  rk_evidence :: string

datatype RiskTier = LOW | MEDIUM | HIGH | CRITICAL

record RiskAssessment =
  ra_run_id :: string
  ra_score :: nat
  ra_tier :: RiskTier
  ra_signals :: "RiskSignal list"
  ra_narrative :: string
  ra_confidence :: rat

record RunInfo =
  ri_run_id :: string
  ri_status :: string
  ri_total_cost_usd :: rat

record EventInfo =
  ei_seq :: int
  ei_event_type :: string
  ei_decision :: "string option"
  ei_tool :: "string option"
  ei_call_seq_fingerprint :: "string option"
  ei_inter_call_ms :: "int option"
  ei_token_rate_delta :: "rat option"
  ei_param_shape_hash :: "string option"
  ei_budget :: jsval

record BaselineInfo =
  bl_run_count :: nat
  bl_avg_deny_rate :: rat

definition scoreTier :: "nat \<Rightarrow> RiskTier" where
  "scoreTier score = (if score \<le> 25 then LOW else if score \<le> 50 then MEDIUM else if score \<le> 75 then HIGH else CRITICAL)"

fun show_tier :: "RiskTier \<Rightarrow> string" where
  "show_tier LOW = ''LOW''"
| "show_tier MEDIUM = ''MEDIUM''"
| "show_tier HIGH = ''HIGH''"
| "show_tier CRITICAL = ''CRITICAL''"

text \<open>Twice the median, so that it is an integer.\<close>

definition median2 :: "int list \<Rightarrow> int" where
  "median2 values = (let s = sort values; mid = length s div 2
     in if even (length s) then (if s = [] then 0 else s ! (mid - 1) + s ! mid) else 2 * s ! mid)"

definition show_half :: "int \<Rightarrow> string" where
  "show_half m2 = (if even m2 then show_int (m2 div 2) else show_hundredths (m2 * 50))"

text \<open>The value found is whatever the JSON holds; \<open>JUndefined\<close> when there is none.\<close>

definition hard_cap_of :: "jsval \<Rightarrow> jsval" where
  "hard_cap_of b = (case b of JObj kvs \<Rightarrow> (if map_of kvs ''cost_usd'' = None then JUndefined else jget (jget b ''cost_usd'') ''hard'')
     | _ \<Rightarrow> JUndefined)"

definition extractBudgetHardCap :: "EventInfo list \<Rightarrow> jsval" where
  "extractBudgetHardCap events = (case filter (\<lambda>v. v \<noteq> JUndefined) (map (hard_cap_of \<circ> ei_budget) (rev events)) of
     [] \<Rightarrow> JNull | v # _ \<Rightarrow> v)"

definition count_decision :: "string \<Rightarrow> EventInfo list \<Rightarrow> nat" where
  "count_decision s events = length (filter (\<lambda>e. ei_decision e = Some s) events)"

definition count_type :: "string \<Rightarrow> EventInfo list \<Rightarrow> nat" where
  "count_type t events = length (filter (\<lambda>e. ei_event_type e = t) events)"

definition deny_threshold :: "BaselineInfo option \<Rightarrow> rat" where
  "deny_threshold baseline = (case baseline of
       Some b \<Rightarrow> if bl_run_count b \<ge> 3 then max (2 * bl_avg_deny_rate b) (1 / 10) else 3 / 10
     | None \<Rightarrow> 3 / 10)"

definition signal1 :: "EventInfo list \<Rightarrow> BaselineInfo option \<Rightarrow> RiskSignal list" where
  "signal1 events baseline =
    (let denyCount = count_decision ''deny'' events; totalDecisions = count_type ''policy_decision'' events;
         denyRate = of_nat denyCount / of_nat totalDecisions
     in if totalDecisions > 0 \<and> denyRate > deny_threshold baseline \<and> denyCount \<ge> 3
        then [\<lparr>rk_id = ''S1'', rk_name = ''high_deny_rate'', rk_weight = 25,
          rk_evidence = show_nat denyCount @ '' denies out of '' @ show_nat totalDecisions @ '' decisions (''
            @ toFixed 1 (denyRate * 100) @ ''%), baseline is ''
            @ (case baseline of None \<Rightarrow> ''N/A'' | Some b \<Rightarrow> toFixed 1 (bl_avg_deny_rate b * 100)) @ ''%''\<rparr>]
        else [])"

text \<open>A cap that is no number has no method \<open>toFixed\<close>.\<close>

definition signal2 :: "(jsval \<Rightarrow> rat option) \<Rightarrow> RunInfo \<Rightarrow> EventInfo list \<Rightarrow> js_error + RiskSignal list" where
  "signal2 toNumber run events =
    (case extractBudgetHardCap events of
       JNull \<Rightarrow> Inr []
     | JNum x \<Rightarrow> if ri_total_cost_usd run > 8 / 10 * num_val x
         then Inr [\<lparr>rk_id = ''S2'', rk_name = ''budget_near_cap'', rk_weight = 20,
           rk_evidence = ''Cost $'' @ toFixed 2 (ri_total_cost_usd run) @ '' exceeds 80% of $'' @ toFixed 2 (num_val x) @ '' hard cap''\<rparr>]
         else Inr []
     | v \<Rightarrow> (case toNumber v of
           Some x \<Rightarrow> if ri_total_cost_usd run > 8 / 10 * x
             then Inl (TypeError ''budgetHardCap.toFixed is not a function'') else Inr []
         | None \<Rightarrow> Inr []))"

definition signal3 :: "RunInfo \<Rightarrow> RiskSignal list" where
  "signal3 run = (if ri_status run = ''terminated_budget''
     then [\<lparr>rk_id = ''S3'', rk_name = ''budget_exceeded'', rk_weight = 30, rk_evidence = ''Run terminated by budget breach''\<rparr>] else [])"

definition loop_events :: "EventInfo list \<Rightarrow> EventInfo list" where
  "loop_events events = filter (\<lambda>e. ei_event_type e = ''loop_detected'') events"

definition signal4 :: "EventInfo list \<Rightarrow> RiskSignal list" where
  "signal4 events = (if loop_events events \<noteq> []
     then [\<lparr>rk_id = ''S4'', rk_name = ''loop_detected'', rk_weight = 20,
       rk_evidence = show_nat (length (loop_events events)) @ '' loop detection(s) fired''\<rparr>] else [])"

definition unrecovered :: "EventInfo list \<Rightarrow> EventInfo \<Rightarrow> bool" where
  "unrecovered events loopEvent =
    (let post = filter (\<lambda>e. ei_seq e > ei_seq loopEvent \<and> ei_event_type e = ''policy_decision'') events;
         pre = filter (\<lambda>e. ei_seq e < ei_seq loopEvent \<and> ei_call_seq_fingerprint e \<noteq> None) events;
         preFp = (if pre = [] then None else ei_call_seq_fingerprint (last pre))
     in post \<noteq> [] \<and> preFp \<noteq> None \<and> preFp = ei_call_seq_fingerprint (hd post))"

definition signal5 :: "EventInfo list \<Rightarrow> RiskSignal list" where
  "signal5 events = (case find (unrecovered events) (loop_events events) of
      None \<Rightarrow> []
    | Some e \<Rightarrow> [\<lparr>rk_id = ''S5'', rk_name = ''loop_unrecovered'', rk_weight = 15,
        rk_evidence = ''Loop detected at seq '' @ show_int (ei_seq e) @ '' but behavior did not change after cooldown''\<rparr>])"

definition inter_call_values :: "EventInfo list \<Rightarrow> int list" where
  "inter_call_values events = filter (\<lambda>n. n > 0) (List.map_filter ei_inter_call_ms events)"

definition signal6 :: "EventInfo list \<Rightarrow> RiskSignal list" where
  "signal6 events =
    (let vs = inter_call_values events; m2 = median2 vs in
     if length vs \<ge> 3 \<and> m2 < 200
     then [\<lparr>rk_id = ''S6'', rk_name = ''rapid_fire'', rk_weight = 10,
       rk_evidence = ''Median inter-call time '' @ show_half m2 @ ''ms (< 100ms threshold)''\<rparr>] else [])"

text \<open>The pairs of tool and parameter shape; a \<open>Map\<close> lists its keys in the order of their first use.\<close>

definition tool_shapes :: "EventInfo list \<Rightarrow> (string \<times> string) list" where
  "tool_shapes events = List.map_filter (\<lambda>e. case (ei_tool e, ei_param_shape_hash e) of
      (Some t, Some h) \<Rightarrow> if t \<noteq> [] \<and> h \<noteq> [] then Some (t, h) else None
    | _ \<Rightarrow> None) events"

definition first_occurrences :: "'a list \<Rightarrow> 'a list" where
  "first_occurrences xs = rev (remdups (rev xs))"

definition shapes_of :: "string \<Rightarrow> (string \<times> string) list \<Rightarrow> string list" where
  "shapes_of t ps = map snd (filter (\<lambda>p. fst p = t) ps)"

definition drifting :: "(string \<times> string) list \<Rightarrow> string \<Rightarrow> bool" where
  "drifting ps t \<longleftrightarrow> length (shapes_of t ps) \<ge> 3 \<and> length (remdups (shapes_of t ps)) > 3"

definition signal7 :: "EventInfo list \<Rightarrow> RiskSignal list" where
  "signal7 events =
    (let ps = tool_shapes events in
     case find (drifting ps) (first_occurrences (map fst ps)) of
       None \<Rightarrow> []
     | Some t \<Rightarrow> [\<lparr>rk_id = ''S7'', rk_name = ''structural_drift'', rk_weight = 10,
         rk_evidence = ''Tool '' @ t @ '' used '' @ show_nat (length (shapes_of t ps)) @ '' times with ''
           @ show_nat (length (remdups (shapes_of t ps))) @ '' distinct parameter structures''\<rparr>])"

fun max_delta :: "rat \<times> int \<Rightarrow> EventInfo list \<Rightarrow> rat \<times> int" where
  "max_delta acc [] = acc"
| "max_delta acc (e # es) = max_delta (case ei_token_rate_delta e of
      Some x \<Rightarrow> if x > fst acc then (x, ei_seq e) else acc | None \<Rightarrow> acc) es"

definition signal8 :: "EventInfo list \<Rightarrow> RiskSignal list" where
  "signal8 events =
    (let (maxDelta, maxDeltaSeq) = max_delta (0, 0) events in
     if maxDelta > 5
     then [\<lparr>rk_id = ''S8'', rk_name = ''abnormal_token_spike'', rk_weight = 15,
       rk_evidence = ''Token spike of '' @ toFixed 1 maxDelta @ ''x detected at seq '' @ show_int maxDeltaSeq\<rparr>] else [])"

definition buildNarrative :: "nat \<Rightarrow> RiskTier \<Rightarrow> RiskSignal list \<Rightarrow> int \<Rightarrow> string" where
  "buildNarrative score tier signals conf100 =
    (let h = ''Risk assessment: '' @ show_tier tier @ '' ('' @ show_nat score @ ''/100, confidence '' @ show_hundredths conf100 @ ''). '' in
     if signals = [] then h @ ''No risk signals detected.''
     else h @ show_nat (length signals) @ '' risk signal(s) detected: '' @ join '', '' (map rk_name signals) @ ''.'' @ [CHR 0x0A]
       @ join [CHR 0x0A] (map (\<lambda>s. ''- '' @ rk_name s @ '' ('' @ show_nat (rk_weight s) @ ''): '' @ rk_evidence s) signals))"

definition baseline_factor :: "BaselineInfo option \<Rightarrow> rat" where
  "baseline_factor baseline = (case baseline of
       Some b \<Rightarrow> if bl_run_count b \<ge> 10 then 1 else if bl_run_count b \<ge> 3 then 7 / 10 else 4 / 10
     | None \<Rightarrow> 4 / 10)"

text \<open>\<open>Math.round(eventFactor * baselineFactor * 100)\<close>.\<close>

definition confidence_hundredths :: "EventInfo list \<Rightarrow> BaselineInfo option \<Rightarrow> int" where
  "confidence_hundredths events baseline = \<lfloor>min 1 (of_nat (length events) / 10) * baseline_factor baseline * 100 + 1 / 2\<rfloor>"

definition computeRiskScore ::
  "(jsval \<Rightarrow> rat option) \<Rightarrow> RunInfo \<Rightarrow> EventInfo list \<Rightarrow> BaselineInfo option \<Rightarrow> js_error + RiskAssessment" where
  "computeRiskScore toNumber run events baseline =
    bind_result (signal2 toNumber run events) (\<lambda>s2.
      (let signals = signal1 events baseline @ s2 @ signal3 run @ signal4 events @ signal5 events @ signal6 events
             @ signal7 events @ signal8 events;
           score = min (sum_list (map rk_weight signals)) 100; tier = scoreTier score;
           conf100 = confidence_hundredths events baseline
       in Inr \<lparr>ra_run_id = ri_run_id run, ra_score = score, ra_tier = tier, ra_signals = signals,
            ra_narrative = buildNarrative score tier signals conf100, ra_confidence = of_int conf100 / 100\<rparr>))"

section \<open>Loop analysis\<close>

record LoopPattern =
  lp_loop_seq :: int
  lp_repeated_tools :: "string list"
  lp_recovered :: bool
  lp_description :: string

record LoopAnalysisResult =
  la_loop_count :: nat
  la_patterns :: "LoopPattern list"
  la_narrative :: string

definition pre_loop_decisions :: "EventInfo list \<Rightarrow> EventInfo \<Rightarrow> EventInfo list" where
  "pre_loop_decisions events l = filter (\<lambda>e. ei_seq e < ei_seq l \<and> ei_event_type e = ''policy_decision'' \<and> ei_tool e \<noteq> None) events"

definition post_decisions :: "EventInfo list \<Rightarrow> EventInfo \<Rightarrow> EventInfo list" where
  "post_decisions events l = filter (\<lambda>e. ei_seq e > ei_seq l \<and> ei_event_type e = ''policy_decision'') events"

definition last_fingerprint :: "EventInfo list \<Rightarrow> string option" where
  "last_fingerprint es = last_opt (List.map_filter ei_call_seq_fingerprint es)"

definition loop_recovered :: "EventInfo list \<Rightarrow> EventInfo \<Rightarrow> bool" where
  "loop_recovered events l =
    (case post_decisions events l of
       [] \<Rightarrow> False
     | p # _ \<Rightarrow> (case (last_fingerprint (pre_loop_decisions events l), ei_call_seq_fingerprint p) of
           (Some a, Some b) \<Rightarrow> a \<noteq> b
         | _ \<Rightarrow> False))"

text \<open>The dash in the descriptions is U+2014, which has no code unit below 256; it is left out.\<close>

definition loop_pattern :: "EventInfo list \<Rightarrow> EventInfo \<Rightarrow> LoopPattern" where
  "loop_pattern events l =
    (let recentTools = List.map_filter ei_tool (slice_last 6 (pre_loop_decisions events l)); recovered = loop_recovered events l
     in \<lparr>lp_loop_seq = ei_seq l, lp_repeated_tools = recentTools, lp_recovered = recovered,
         lp_description = ''Loop at seq '' @ show_int (ei_seq l) @ '': tools ['' @ join '', '' recentTools @ '']  ''
           @ (if recovered then ''behavior changed after cooldown'' else ''behavior did NOT change after cooldown'')\<rparr>)"

definition analyzeLoopPattern :: "EventInfo list \<Rightarrow> LoopAnalysisResult" where
  "analyzeLoopPattern events =
    (let loops = loop_events events; patterns = map (loop_pattern events) loops;
         n = length (filter (\<lambda>p. \<not> lp_recovered p) patterns)
     in if loops = [] then \<lparr>la_loop_count = 0, la_patterns = [], la_narrative = ''No loop detections found in this run.''\<rparr>
        else \<lparr>la_loop_count = length loops, la_patterns = patterns,
          la_narrative = show_nat (length loops) @ '' loop detection(s) found. ''
            @ (if n > 0 then show_nat n @ '' loop(s) did not recover after cooldown. This indicates cooldown may be ineffective.''
               else ''All loops recovered after cooldown.'')\<rparr>)"

section \<open>Recovery evaluation\<close>

datatype RecoveryVerdict = effective | ineffective | partial | insufficient_data

record RecoveryResult =
  rv_intervention_seq :: int
  rv_verdict :: RecoveryVerdict
  rv_explanation :: string
  rv_pre_fingerprint :: "string option"
  rv_post_fingerprint :: "string option"

definition pre_window :: "EventInfo list \<Rightarrow> int \<Rightarrow> EventInfo list" where
  "pre_window events k = slice_last 5 (filter (\<lambda>e. ei_seq e < k) (filter (\<lambda>e. ei_event_type e = ''policy_decision'') events))"

definition post_window :: "EventInfo list \<Rightarrow> int \<Rightarrow> EventInfo list" where
  "post_window events k = take 5 (filter (\<lambda>e. ei_seq e > k) (filter (\<lambda>e. ei_event_type e = ''policy_decision'') events))"

definition tool_set :: "EventInfo list \<Rightarrow> string list" where
  "tool_set es = filter (\<lambda>t. t \<noteq> []) (List.map_filter ei_tool es)"

definition tools_changed :: "EventInfo list \<Rightarrow> EventInfo list \<Rightarrow> bool" where
  "tools_changed pre post \<longleftrightarrow> \<not> list_all (\<lambda>t. t \<in> set (tool_set post)) (tool_set pre)
     \<or> \<not> list_all (\<lambda>t. t \<in> set (tool_set pre)) (tool_set post)"

text \<open>\<open>join\<close> prints \<open>null\<close> as the empty string.\<close>

definition joined_tools :: "EventInfo list \<Rightarrow> string" where
  "joined_tools es = join '','' (map (\<lambda>e. case ei_tool e of None \<Rightarrow> [] | Some t \<Rightarrow> t) es)"

definition evaluateRecoveryEffectiveness :: "EventInfo list \<Rightarrow> int \<Rightarrow> RecoveryResult" where
  "evaluateRecoveryEffectiveness events k =
    (let pre = pre_window events k; post = post_window events k; whr = ''Intervention at seq '' @ show_int k in
     if pre = [] \<or> post = [] then
       \<lparr>rv_intervention_seq = k, rv_verdict = insufficient_data,
        rv_explanation = ''Insufficient events around intervention at seq '' @ show_int k @ '' ('' @ show_nat (length pre)
          @ '' before, '' @ show_nat (length post) @ '' after).'',
        rv_pre_fingerprint = None, rv_post_fingerprint = None\<rparr>
     else (case (last_fingerprint pre, head_opt (List.map_filter ei_call_seq_fingerprint post)) of
         (Some a, Some b) \<Rightarrow>
            if a \<noteq> b then
              \<lparr>rv_intervention_seq = k, rv_verdict = effective,
               rv_explanation = whr @ '' changed behavior: fingerprint changed from '' @ take 16 a @ ''... to '' @ take 16 b @ ''...'',
               rv_pre_fingerprint = Some a, rv_post_fingerprint = Some b\<rparr>
            else if tools_changed pre post then
              \<lparr>rv_intervention_seq = k, rv_verdict = partial,
               rv_explanation = whr @ '': fingerprint unchanged but tool set differs (partial behavior change).'',
               rv_pre_fingerprint = Some a, rv_post_fingerprint = Some b\<rparr>
            else
              \<lparr>rv_intervention_seq = k, rv_verdict = ineffective,
               rv_explanation = whr @ '' had no effect: fingerprint and tools unchanged.'',
               rv_pre_fingerprint = Some a, rv_post_fingerprint = Some b\<rparr>
       | _ \<Rightarrow>
            if joined_tools pre \<noteq> joined_tools post then
              \<lparr>rv_intervention_seq = k, rv_verdict = partial,
               rv_explanation = whr @ '': tool sequence changed (BT fields absent for precise measurement).'',
               rv_pre_fingerprint = None, rv_post_fingerprint = None\<rparr>
            else
              \<lparr>rv_intervention_seq = k, rv_verdict = ineffective,
               rv_explanation = whr @ '': tool sequence unchanged (BT fields absent for precise measurement).'',
               rv_pre_fingerprint = None, rv_post_fingerprint = None\<rparr>))"

section \<open>Lemmas\<close>

lemmas signal_defs = signal1_def signal3_def signal4_def signal5_def signal6_def signal7_def signal8_def

text \<open>Each check adds its signal at most once.\<close>

definition at_most :: "string \<Rightarrow> nat \<Rightarrow> RiskSignal list \<Rightarrow> bool" where
  "at_most i w ss \<longleftrightarrow> map (\<lambda>s. (rk_id s, rk_weight s)) ss = [] \<or> map (\<lambda>s. (rk_id s, rk_weight s)) ss = [(i, w)]"

lemma at_most_signals:
  "at_most ''S1'' 25 (signal1 events bl)" "at_most ''S3'' 30 (signal3 run)" "at_most ''S4'' 20 (signal4 events)"
  "at_most ''S5'' 15 (signal5 events)" "at_most ''S6'' 10 (signal6 events)" "at_most ''S7'' 10 (signal7 events)"
  "at_most ''S8'' 15 (signal8 events)"
  by (simp_all add: at_most_def signal_defs Let_def split: option.splits prod.splits)

lemma at_most_signal2: "signal2 toNumber run events = Inr ss \<Longrightarrow> at_most ''S2'' 20 ss"
  by (auto simp: at_most_def signal2_def split: jsval.splits option.splits if_splits)

lemma at_most_ids:
  assumes "at_most i w ss"
  shows "map rk_id ss = [] \<or> map rk_id ss = [i]"
  using assms by (cases ss) (auto simp: at_most_def)

lemma subseq_at_most: "at_most i w ss \<Longrightarrow> subseq is js \<Longrightarrow> subseq (map rk_id ss @ is) (i # js)"
  using at_most_ids [of i w ss] by auto

lemma computeRiskScore_Inr:
  assumes "computeRiskScore toNumber run events bl = Inr a"
  shows "\<exists>s2. signal2 toNumber run events = Inr s2
    \<and> ra_signals a = signal1 events bl @ s2 @ signal3 run @ signal4 events @ signal5 events @ signal6 events
        @ signal7 events @ signal8 events
    \<and> ra_score a = min (sum_list (map rk_weight (ra_signals a))) 100 \<and> ra_tier a = scoreTier (ra_score a)
    \<and> ra_confidence a = of_int (confidence_hundredths events bl) / 100 \<and> ra_run_id a = ri_run_id run"
  using assms by (auto simp: computeRiskScore_def bind_result_Inr_iff Let_def)

lemma confidence_bounds: "0 \<le> confidence_hundredths events bl \<and> confidence_hundredths events bl \<le> 100"
proof -
  let ?x = "min 1 (of_nat (length events) / 10) * baseline_factor bl * (100 :: rat)"
  have b: "0 \<le> baseline_factor bl" "baseline_factor bl \<le> 1" by (auto simp: baseline_factor_def split: option.splits)
  have "0 \<le> min (1 :: rat) (of_nat (length events) / 10)" "min (1 :: rat) (of_nat (length events) / 10) \<le> 1" by auto
  with b have "0 \<le> min 1 (of_nat (length events) / 10) * baseline_factor bl"
    "min 1 (of_nat (length events) / 10) * baseline_factor bl \<le> 1"
    by (auto intro: mult_le_one)
  then have "0 \<le> ?x" "?x \<le> 100" by auto
  then show ?thesis unfolding confidence_hundredths_def by (auto simp: le_floor_iff floor_le_iff)
qed

lemma max_delta_fst: "fst (max_delta acc es) > c \<longleftrightarrow> fst acc > c \<or> (\<exists>e\<in>set es. \<exists>x. ei_token_rate_delta e = Some x \<and> x > c)"
proof (induction es arbitrary: acc)
  case (Cons e es)
  show ?case by (auto simp: Cons.IH split: option.splits)
qed simp

lemma signal8_iff: "signal8 events \<noteq> [] \<longleftrightarrow> (\<exists>e\<in>set events. \<exists>x. ei_token_rate_delta e = Some x \<and> x > 5)"
  using max_delta_fst [of 5 "(0, 0)" events] by (auto simp: signal8_def split: prod.splits)

lemma signal4_iff: "signal4 events \<noteq> [] \<longleftrightarrow> (\<exists>e\<in>set events. ei_event_type e = ''loop_detected'')"
  by (auto simp: signal4_def loop_events_def filter_empty_conv)

lemma signal1_iff: "signal1 events bl \<noteq> [] \<longleftrightarrow> count_decision ''deny'' events \<ge> 3 \<and> count_type ''policy_decision'' events > 0
    \<and> of_nat (count_decision ''deny'' events) > deny_threshold bl * of_nat (count_type ''policy_decision'' events)"
  by (auto simp: signal1_def Let_def pos_less_divide_eq)

lemma in_ids:
  assumes "at_most i w ss"
  shows "j \<in> rk_id ` set ss \<longleftrightarrow> ss \<noteq> [] \<and> j = i"
proof -
  have "rk_id ` set ss = set (map rk_id ss)" by simp
  with at_most_ids [OF assms] show ?thesis by (cases ss) auto
qed

lemma signal_ids:
  assumes "signal2 toNumber run events = Inr s2"
    and "ss = signal1 events bl @ s2 @ signal3 run @ signal4 events @ signal5 events @ signal6 events @ signal7 events @ signal8 events"
  shows "subseq (map rk_id ss) [''S1'', ''S2'', ''S3'', ''S4'', ''S5'', ''S6'', ''S7'', ''S8'']"
    and "''S1'' \<in> rk_id ` set ss \<longleftrightarrow> signal1 events bl \<noteq> []" and "''S3'' \<in> rk_id ` set ss \<longleftrightarrow> signal3 run \<noteq> []"
    and "''S4'' \<in> rk_id ` set ss \<longleftrightarrow> signal4 events \<noteq> []" and "''S8'' \<in> rk_id ` set ss \<longleftrightarrow> signal8 events \<noteq> []"
proof -
  note A = at_most_signals(1) [of events bl] at_most_signals(2) [of run] at_most_signals(3-7) [of events]
    at_most_signals(2) [of run] at_most_signal2 [OF assms(1)]
  have "subseq (map rk_id (signal8 events) @ []) [''S8'']" by (rule subseq_at_most [OF A(7)]) simp
  then have "subseq (map rk_id (signal7 events) @ map rk_id (signal8 events)) [''S7'', ''S8'']"
    using subseq_at_most [OF A(6)] by simp
  from subseq_at_most [OF A(1) subseq_at_most [OF A(9) subseq_at_most [OF A(8) subseq_at_most [OF A(3)
    subseq_at_most [OF A(4) subseq_at_most [OF A(5) this]]]]]]
  show "subseq (map rk_id ss) [''S1'', ''S2'', ''S3'', ''S4'', ''S5'', ''S6'', ''S7'', ''S8'']"
    by (simp add: assms(2))
  show "''S1'' \<in> rk_id ` set ss \<longleftrightarrow> signal1 events bl \<noteq> []" "''S3'' \<in> rk_id ` set ss \<longleftrightarrow> signal3 run \<noteq> []"
    "''S4'' \<in> rk_id ` set ss \<longleftrightarrow> signal4 events \<noteq> []" "''S8'' \<in> rk_id ` set ss \<longleftrightarrow> signal8 events \<noteq> []"
    unfolding assms(2) set_append image_Un Un_iff
      in_ids [OF A(1)] in_ids [OF A(9)] in_ids [OF A(8)] in_ids [OF A(3)] in_ids [OF A(4)] in_ids [OF A(5)]
      in_ids [OF A(6)] in_ids [OF A(7)] by simp_all
qed

section \<open>Properties\<close>

text \<open>
  A risk assessment is bounded and explained by its signals: the score is the sum of the
  weights capped at 100, each of the eight signals is there at most once and in order, the
  tier follows from the score, the confidence is between 0 and 1; and the signals mean what
  they say: the deny rate is above the threshold with at least three denies, the run was
  terminated by its budget, a loop was detected, some token rate delta exceeds 5.
\<close>

theorem computeRiskScore_sound:
  assumes "computeRiskScore toNumber run events bl = Inr a"
  shows "ra_score a = min (sum_list (map rk_weight (ra_signals a))) 100
    \<and> subseq (map rk_id (ra_signals a)) [''S1'', ''S2'', ''S3'', ''S4'', ''S5'', ''S6'', ''S7'', ''S8'']
    \<and> (ra_tier a = CRITICAL \<longleftrightarrow> ra_score a > 75) \<and> (ra_tier a = LOW \<longleftrightarrow> ra_score a \<le> 25)
    \<and> 0 \<le> ra_confidence a \<and> ra_confidence a \<le> 1
    \<and> (''S1'' \<in> rk_id ` set (ra_signals a) \<longleftrightarrow> count_decision ''deny'' events \<ge> 3 \<and> count_type ''policy_decision'' events > 0
         \<and> of_nat (count_decision ''deny'' events) > deny_threshold bl * of_nat (count_type ''policy_decision'' events))
    \<and> (''S3'' \<in> rk_id ` set (ra_signals a) \<longleftrightarrow> ri_status run = ''terminated_budget'')
    \<and> (''S4'' \<in> rk_id ` set (ra_signals a) \<longleftrightarrow> (\<exists>e\<in>set events. ei_event_type e = ''loop_detected''))
    \<and> (''S8'' \<in> rk_id ` set (ra_signals a) \<longleftrightarrow> (\<exists>e\<in>set events. \<exists>x. ei_token_rate_delta e = Some x \<and> x > 5))"
proof -
  from computeRiskScore_Inr [OF assms] obtain s2 where s2: "signal2 toNumber run events = Inr s2"
    and ss: "ra_signals a = signal1 events bl @ s2 @ signal3 run @ signal4 events @ signal5 events @ signal6 events
      @ signal7 events @ signal8 events"
    and sc: "ra_score a = min (sum_list (map rk_weight (ra_signals a))) 100" "ra_tier a = scoreTier (ra_score a)"
    and cf: "ra_confidence a = of_int (confidence_hundredths events bl) / 100" by blast
  note I = signal_ids [OF s2 ss]
  have c: "0 \<le> ra_confidence a" "ra_confidence a \<le> 1"
    using confidence_bounds [of events bl] unfolding cf by simp_all
  have t: "ra_tier a = CRITICAL \<longleftrightarrow> ra_score a > 75" "ra_tier a = LOW \<longleftrightarrow> ra_score a \<le> 25"
    unfolding sc(2) scoreTier_def by auto
  have s3: "signal3 run \<noteq> [] \<longleftrightarrow> ri_status run = ''terminated_budget''" by (simp add: signal3_def)
  show ?thesis
    by (intro conjI) (use sc(1) I(1) c t in simp_all, simp_all only: I(2-5) signal1_iff s3 signal4_iff signal8_iff)
qed

theorem computeRiskScore_sound_witness:
  "\<exists>a. computeRiskScore (\<lambda>_. None) \<lparr>ri_run_id = ''r'', ri_status = ''terminated_budget'', ri_total_cost_usd = 1\<rparr> [] None = Inr a
    \<and> ''S3'' \<in> rk_id ` set (ra_signals a) \<and> 0 \<le> ra_confidence a \<and> ra_confidence a \<le> 1"
proof -
  let ?c = "computeRiskScore (\<lambda>_. None) \<lparr>ri_run_id = ''r'', ri_status = ''terminated_budget'', ri_total_cost_usd = 1\<rparr> [] None"
  have "signal2 (\<lambda>_. None) \<lparr>ri_run_id = ''r'', ri_status = ''terminated_budget'', ri_total_cost_usd = 1\<rparr> [] = Inr []"
    by (simp add: signal2_def extractBudgetHardCap_def)
  then obtain a where a: "?c = Inr a" by (simp add: computeRiskScore_def Let_def)
  from computeRiskScore_sound [OF this] a show ?thesis by simp
qed

text \<open>
  The verdict on an intervention: it is effective exactly when the fingerprints on both sides
  of it are known and differ, and never \<open>ineffective\<close> when a fingerprint changed.
\<close>

lemma verdict_effective_iff:
  "rv_verdict (evaluateRecoveryEffectiveness events k) = effective \<longleftrightarrow>
    (\<exists>a b. last_fingerprint (pre_window events k) = Some a
       \<and> head_opt (List.map_filter ei_call_seq_fingerprint (post_window events k)) = Some b \<and> a \<noteq> b)"
  by (auto simp: evaluateRecoveryEffectiveness_def Let_def last_fingerprint_def List.map_filter_def split: option.splits)

lemma verdict_insufficient_iff:
  "rv_verdict (evaluateRecoveryEffectiveness events k) = insufficient_data \<longleftrightarrow> pre_window events k = [] \<or> post_window events k = []"
  by (auto simp: evaluateRecoveryEffectiveness_def Let_def split: option.splits)

lemma windows_bounded: "length (pre_window events k) \<le> 5" "length (post_window events k) \<le> 5"
  by (simp_all add: pre_window_def post_window_def)

text \<open>One pattern per loop event, in the order of the events.\<close>

lemma recovered_patterns:
  "la_loop_count (analyzeLoopPattern events) = length (la_patterns (analyzeLoopPattern events))
   \<and> map lp_loop_seq (la_patterns (analyzeLoopPattern events)) = map ei_seq (loop_events events)"
  by (simp add: analyzeLoopPattern_def Let_def loop_pattern_def)

end
