(* ===== verification/Chain_Verify.thy ===== *)
theory Chain_Verify
  imports Json_Values
begin

text \<open>
  \<open>packages/backend/src/lib/chain-verify.ts\<close>: the server-side verification of a run's
  hash chain. \<open>chained\<close> is the specification both verifiers of the backend are
  measured against (this one and the ingest check of \<open>events.ts\<close>): every event
  passes its own check and points at the hash of the event before it. The locale
  \<open>chain_checker\<close> is the interface of such a verifier; what a client may conclude
  from an accepted list is proved there once.
\<close>

section \<open>Data\<close>

text \<open>
  \<open>ChainEvent\<close>. \<open>ce_raw_line\<close> is \<open>None\<close> for \<open>null\<close> and \<open>undefined\<close>; \<open>ce_extra\<close> holds
  the properties other than \<open>seq\<close>, \<open>hash\<close>, \<open>hash_prev\<close> and \<open>raw_line\<close>.
\<close>

record chain_event =
  ce_seq :: int
  ce_hash :: string
  ce_hash_prev :: "string option"
  ce_raw_line :: "string option"
  ce_extra :: "(string \<times> jsval) list"

datatype ChainVerifyResult =
    ChainValid nat
  | ChainBroken nat int string  \<comment> \<open>\<open>eventCount\<close>, \<open>brokenAtSeq\<close>, \<open>reason\<close>\<close>

section \<open>Operations\<close>

definition chain_rest :: "chain_event \<Rightarrow> jsval" where
  "chain_rest e = JObj ((''seq'', JNum (num_of_int (ce_seq e))) # ce_extra e)"

definition computeEventHash :: "(string \<Rightarrow> string) \<Rightarrow> chain_event \<Rightarrow> string" where
  "computeEventHash sha256 e =
     (case ce_raw_line e of
        Some l \<Rightarrow> if l \<noteq> '''' then sha256 l else sha256 (deterministicStringify (chain_rest e))
      | None \<Rightarrow> sha256 (deterministicStringify (chain_rest e)))"

text \<open>The loop of \<open>verifyChain\<close>: \<open>n\<close> is \<open>events.length\<close>, \<open>prev\<close> is \<open>prevHash\<close>.\<close>

fun verify_loop ::
  "(string \<Rightarrow> string) \<Rightarrow> nat \<Rightarrow> string option \<Rightarrow> chain_event list \<Rightarrow> ChainVerifyResult" where
  "verify_loop sha256 n prev [] = ChainValid n"
| "verify_loop sha256 n prev (e # es) =
    (let computed = computeEventHash sha256 e in
     if computed \<noteq> ce_hash e then
       ChainBroken n (ce_seq e)
         (''Hash mismatch at seq='' @ show_int (ce_seq e) @ '': computed='' @ computed
           @ '', stored='' @ ce_hash e)
     else (case prev of
       None \<Rightarrow>
         if ce_hash_prev e \<noteq> None then
           ChainBroken n (ce_seq e)
             (''seq='' @ show_int (ce_seq e) @ '' has hash_prev='' @ show_nullable (ce_hash_prev e)
               @ '' but expected null (first event)'')
         else verify_loop sha256 n (Some (ce_hash e)) es
     | Some p \<Rightarrow>
         if ce_hash_prev e \<noteq> Some p then
           ChainBroken n (ce_seq e)
             (''Chain break at seq='' @ show_int (ce_seq e) @ '': hash_prev=''
               @ show_nullable (ce_hash_prev e) @ '', expected='' @ p)
         else verify_loop sha256 n (Some (ce_hash e)) es))"

definition verifyChain :: "(string \<Rightarrow> string) \<Rightarrow> chain_event list \<Rightarrow> ChainVerifyResult" where
  "verifyChain sha256 events =
     (if events = [] then ChainValid 0
      else verify_loop sha256 (length events) None (sort_key ce_seq events))"

definition chain_valid :: "ChainVerifyResult \<Rightarrow> bool" where
  "chain_valid r = (case r of ChainValid _ \<Rightarrow> True | ChainBroken _ _ _ \<Rightarrow> False)"

section \<open>Specification: a linked list of events\<close>

fun chained ::
  "('e \<Rightarrow> string) \<Rightarrow> ('e \<Rightarrow> string option) \<Rightarrow> ('e \<Rightarrow> bool) \<Rightarrow> string option \<Rightarrow> 'e list \<Rightarrow> bool" where
  "chained h pr ok p [] \<longleftrightarrow> True"
| "chained h pr ok p (e # es) \<longleftrightarrow> ok e \<and> pr e = p \<and> chained h pr ok (Some (h e)) es"

text \<open>The hash the next event has to point at.\<close>

definition tip :: "('e \<Rightarrow> string) \<Rightarrow> string option \<Rightarrow> 'e list \<Rightarrow> string option" where
  "tip h p es = (if es = [] then p else Some (h (last es)))"

lemma tip_simps [simp]:
  "tip h p [] = p"
  "tip h p (e # es) = tip h (Some (h e)) es"
  by (simp_all add: tip_def)

lemma tip_nonempty [simp]: "es \<noteq> [] \<Longrightarrow> tip h p es = Some (h (last es))"
  by (simp add: tip_def)

lemma chained_append:
  "chained h pr ok p (xs @ ys) \<longleftrightarrow> chained h pr ok p xs \<and> chained h pr ok (tip h p xs) ys"
  by (induction xs arbitrary: p) (auto simp del: tip_nonempty)

lemma chained_ok: "chained h pr ok p es \<Longrightarrow> e \<in> set es \<Longrightarrow> ok e"
  by (induction es arbitrary: p) auto

lemma chained_cong:
  assumes "\<And>e. e \<in> set es \<Longrightarrow> h e = h' e \<and> pr e = pr' e \<and> ok e = ok' e"
  shows "chained h pr ok p es \<longleftrightarrow> chained h' pr' ok' p es"
  using assms by (induction es arbitrary: p) auto

lemma chained_map:
  "chained h pr ok p (map f es) \<longleftrightarrow> chained (h \<circ> f) (pr \<circ> f) (ok \<circ> f) p es"
  by (induction es arbitrary: p) auto

text \<open>Taking out events in the middle leaves the next event pointing at a hash that is gone.\<close>

lemma chained_delete_middle:
  assumes "chained h pr ok p (xs @ ys @ z # zs)"
    and "chained h pr ok p (xs @ z # zs)" and "ys \<noteq> []"
  shows "tip h p xs = tip h p (xs @ ys)"
  using assms by (auto simp: chained_append)

section \<open>The interface of a chain verifier\<close>

text \<open>
  A verifier \<open>accepts\<close> a list that continues the chain whose last hash is the first
  argument, and accepts exactly the linked lists.
\<close>

locale chain_checker =
  fixes accepts :: "string option \<Rightarrow> 'e list \<Rightarrow> bool"
    and hash_of :: "'e \<Rightarrow> string"
    and prev_of :: "'e \<Rightarrow> string option"
    and digest_ok :: "'e \<Rightarrow> bool"
  assumes accepts_iff: "accepts p es \<longleftrightarrow> chained hash_of prev_of digest_ok p es"
begin

lemma accepts_split:
  "accepts p (xs @ ys) \<longleftrightarrow> accepts p xs \<and> accepts (tip hash_of p xs) ys"
  by (simp add: accepts_iff chained_append)

lemma accepts_prefix: "accepts p (xs @ ys) \<Longrightarrow> accepts p xs"
  by (simp add: accepts_split)

lemma modified_event_rejected:
  "\<not> digest_ok e' \<Longrightarrow> e' \<in> set es \<Longrightarrow> \<not> accepts p es"
  using chained_ok accepts_iff by metis

lemma interior_deletion_rejected:
  assumes acc: "accepts p (xs @ ys @ z # zs)" and ys: "ys \<noteq> []"
    and fresh: "Some (hash_of (last ys)) \<noteq> tip hash_of p xs"
  shows "\<not> accepts p (xs @ z # zs)"
proof
  assume "accepts p (xs @ z # zs)"
  then have "tip hash_of p xs = tip hash_of p (xs @ ys)"
    using acc ys unfolding accepts_iff by (intro chained_delete_middle)
  with ys fresh show False by simp
qed

end

section \<open>verifyChain meets the interface\<close>

abbreviation ce_digest_ok :: "(string \<Rightarrow> string) \<Rightarrow> chain_event \<Rightarrow> bool" where
  "ce_digest_ok sha256 e \<equiv> computeEventHash sha256 e = ce_hash e"

abbreviation ce_chained :: "(string \<Rightarrow> string) \<Rightarrow> string option \<Rightarrow> chain_event list \<Rightarrow> bool" where
  "ce_chained sha256 \<equiv> chained ce_hash ce_hash_prev (ce_digest_ok sha256)"

definition loop_accepts :: "(string \<Rightarrow> string) \<Rightarrow> string option \<Rightarrow> chain_event list \<Rightarrow> bool" where
  "loop_accepts sha256 p es \<longleftrightarrow> chain_valid (verify_loop sha256 (length es) p es)"

lemma verify_loop_valid:
  "chain_valid (verify_loop sha256 n p es) \<longleftrightarrow> ce_chained sha256 p es"
  by (induction es arbitrary: p)
    (auto simp: chain_valid_def Let_def split: option.splits if_splits ChainVerifyResult.splits)

lemma verify_loop_count:
  "verify_loop sha256 n p es = ChainValid m \<Longrightarrow> m = n"
  "verify_loop sha256 n p es = ChainBroken m s r \<Longrightarrow> m = n"
  by (induction es arbitrary: p) (auto simp: Let_def split: option.splits if_splits)

interpretation vc: chain_checker "loop_accepts sha256" ce_hash ce_hash_prev "ce_digest_ok sha256"
  for sha256
  by unfold_locales (simp add: loop_accepts_def verify_loop_valid)

lemma verify_loop_broken:
  assumes "verify_loop sha256 n p es = ChainBroken m s r"
  shows "\<exists>xs e ys. es = xs @ e # ys \<and> ce_seq e = s \<and> ce_chained sha256 p xs
    \<and> \<not> ce_chained sha256 p (xs @ [e])"
  using assms
proof (induction es arbitrary: p)
  case (Cons e es)
  show ?case
  proof (cases "ce_digest_ok sha256 e \<and> ce_hash_prev e = p")
    case True
    then have "verify_loop sha256 n (Some (ce_hash e)) es = ChainBroken m s r"
      using Cons.prems by (auto simp: Let_def split: option.splits if_splits)
    from Cons.IH [OF this] obtain xs e' ys where
      "es = xs @ e' # ys" "ce_seq e' = s" "ce_chained sha256 (Some (ce_hash e)) xs"
      "\<not> ce_chained sha256 (Some (ce_hash e)) (xs @ [e'])" by blast
    with True have "e # es = (e # xs) @ e' # ys \<and> ce_seq e' = s \<and> ce_chained sha256 p (e # xs)
        \<and> \<not> ce_chained sha256 p ((e # xs) @ [e'])" by simp
    then show ?thesis by blast
  next
    case False
    then have "ce_seq e = s"
      using Cons.prems by (auto simp: Let_def split: option.splits if_splits)
    moreover have "\<not> ce_chained sha256 p ([] @ [e])" using False by auto
    ultimately show ?thesis by (metis append_Nil chained.simps(1))
  qed
qed simp

lemma verifyChain_valid_iff:
  "chain_valid (verifyChain sha256 es) \<longleftrightarrow> ce_chained sha256 None (sort_key ce_seq es)"
  by (auto simp: verifyChain_def verify_loop_valid) (simp add: chain_valid_def)

section \<open>Properties\<close>

text \<open>
  C10: \<open>verifyChain\<close> answers \<open>valid\<close>, with the number of events, exactly for the event
  lists that are a hash chain once sorted by \<open>seq\<close>: every stored hash is the digest of
  its event, the first event has no predecessor and every other event names the hash of
  the event before it.
\<close>

theorem verifyChain_sound_complete:
  "verifyChain sha256 es = ChainValid n \<longleftrightarrow>
     n = length es \<and> chained ce_hash ce_hash_prev (\<lambda>e. computeEventHash sha256 e = ce_hash e)
       None (sort_key ce_seq es)"
proof (cases "es = []")
  case False
  let ?r = "verify_loop sha256 (length es) None (sort_key ce_seq es)"
  from False have r: "verifyChain sha256 es = ?r" by (simp add: verifyChain_def)
  show ?thesis
  proof (cases ?r)
    case (ChainValid m)
    moreover from this have "m = length es" by (rule verify_loop_count)
    ultimately show ?thesis
      using verify_loop_valid [of sha256 "length es" None "sort_key ce_seq es"] r
      by (auto simp: chain_valid_def)
  next
    case (ChainBroken m s w)
    then show ?thesis
      using verify_loop_valid [of sha256 "length es" None "sort_key ce_seq es"] r
      by (auto simp: chain_valid_def)
  qed
qed (auto simp: verifyChain_def)

text \<open>
  When \<open>verifyChain\<close> answers \<open>brokenAtSeq = s\<close>, the events sorted by \<open>seq\<close> split
  into a part that is a correct chain, an event with \<open>seq = s\<close> that does not continue it,
  and the rest: the break that is reported is the first one.
\<close>

theorem verifyChain_reports_first_break:
  assumes "verifyChain sha256 es = ChainBroken n s why"
  shows "n = length es \<and> (\<exists>xs e ys. sort_key ce_seq es = xs @ e # ys \<and> ce_seq e = s
    \<and> chain_valid (verifyChain sha256 xs) \<and> \<not> chain_valid (verifyChain sha256 (xs @ [e])))"
proof -
  from assms have ne: "es \<noteq> []" by (auto simp: verifyChain_def)
  with assms have l: "verify_loop sha256 (length es) None (sort_key ce_seq es) = ChainBroken n s why"
    by (simp add: verifyChain_def)
  from verify_loop_broken [OF l] obtain xs e ys where
    split: "sort_key ce_seq es = xs @ e # ys" and e: "ce_seq e = s"
    and xs: "ce_chained sha256 None xs" and xe: "\<not> ce_chained sha256 None (xs @ [e])" by blast
  have "sorted (map ce_seq ((xs @ [e]) @ ys))" using split sorted_sort_key [of ce_seq es] by simp
  then have s1: "sorted (map ce_seq (xs @ [e]))" unfolding map_append sorted_append by blast
  then have s2: "sorted (map ce_seq xs)" by (simp add: sorted_append)
  have "chain_valid (verifyChain sha256 xs)"
    using xs by (simp add: verifyChain_valid_iff sort_key_id_if_sorted [OF s2])
  moreover have "\<not> chain_valid (verifyChain sha256 (xs @ [e]))"
    using xe by (simp add: verifyChain_valid_iff sort_key_id_if_sorted [OF s1])
  ultimately show ?thesis using split e verify_loop_count(2) [OF l] by blast
qed

theorem verifyChain_reports_first_break_witness:
  "\<exists>xs e ys. sort_key ce_seq
       [\<lparr>ce_seq = 2, ce_hash = ''b'', ce_hash_prev = Some ''x'', ce_raw_line = Some ''b'', ce_extra = []\<rparr>,
        \<lparr>ce_seq = 1, ce_hash = ''a'', ce_hash_prev = None, ce_raw_line = Some ''a'', ce_extra = []\<rparr>]
       = xs @ e # ys \<and> ce_seq e = 2
    \<and> chain_valid (verifyChain id xs) \<and> \<not> chain_valid (verifyChain id (xs @ [e]))"
proof -
  let ?es = "[\<lparr>ce_seq = 2, ce_hash = ''b'', ce_hash_prev = Some ''x'', ce_raw_line = Some ''b'', ce_extra = []\<rparr>,
    \<lparr>ce_seq = 1, ce_hash = ''a'', ce_hash_prev = None, ce_raw_line = Some ''a'', ce_extra = []\<rparr>]"
  have "verifyChain id ?es = ChainBroken 2 2 ''Chain break at seq=2: hash_prev=x, expected=a''"
    by code_simp
  from verifyChain_reports_first_break [OF this] show ?thesis by blast
qed

end
