(* ===== verification/Backend_Db.thy ===== *)
theory Backend_Db
  imports Chain_Verify Js_Library
begin

text \<open>
  The tables \<open>runs\<close> and \<open>events\<close> of \<open>packages/backend/src/db/schema.ts\<close> and the SQL
  statements the routers issue on them, as functions on lists of rows (in insertion
  order). Modelled of the schema: the primary key \<open>runs.run_id\<close>, the unique index
  \<open>(events.run_id, events.seq)\<close> and the foreign key from \<open>events.run_id\<close> to \<open>runs.run_id\<close>,
  which PostgreSQL checks when the statement ends. Not modelled: generated row ids and the
  foreign keys to tenants and users. Times are milliseconds.
\<close>

section \<open>Errors\<close>

datatype trpc_code =
  BAD_REQUEST | UNAUTHORIZED | FORBIDDEN | NOT_FOUND | CONFLICT | INTERNAL_SERVER_ERROR

datatype api_error = TRPCError trpc_code string | ForeignKeyViolation string | UniqueViolation string

section \<open>Rows\<close>

record run_row =
  rr_run_id :: string
  rr_tenant_id :: string
  rr_agent_name :: jsval
  rr_agent_role :: jsval
  rr_environment :: jsval
  rr_policy_pack_id :: jsval
  rr_status :: string
  rr_event_count :: int
  rr_last_seq :: int
  rr_last_hash :: "string option"
  rr_total_cost_usd :: rat
  rr_total_input_tokens :: int
  rr_total_output_tokens :: int
  rr_total_call_count :: int
  rr_started_at :: "int option"
  rr_ended_at :: "int option"
  rr_created_at :: int
  rr_updated_at :: int

text \<open>The columns from \<open>agent_name\<close> to \<open>param_shape_hash\<close> are kept by name in \<open>er_cols\<close>.\<close>

record event_row =
  er_run_id :: string
  er_tenant_id :: string
  er_schema_version :: int
  er_event_type :: string
  er_seq :: int
  er_hash :: string
  er_hash_prev :: "string option"
  er_ts :: int
  er_cols :: "(string \<times> jsval) list"
  er_raw_line :: "string option"

record db =
  db_runs :: "run_row list"
  db_events :: "event_row list"

section \<open>Statements\<close>

definition select_run :: "string \<Rightarrow> string \<Rightarrow> db \<Rightarrow> run_row option" where
  "select_run run_id tenant d =
     find (\<lambda>r. rr_run_id r = run_id \<and> rr_tenant_id r = tenant) (db_runs d)"

definition update_run :: "string \<Rightarrow> string \<Rightarrow> (run_row \<Rightarrow> run_row) \<Rightarrow> db \<Rightarrow> db" where
  "update_run run_id tenant f d = d\<lparr>db_runs := map (\<lambda>r.
     if rr_run_id r = run_id \<and> rr_tenant_id r = tenant then f r else r) (db_runs d)\<rparr>"

text \<open>\<open>INSERT INTO runs ... ON CONFLICT (run_id) DO NOTHING\<close>\<close>

definition insert_run :: "run_row \<Rightarrow> db \<Rightarrow> db" where
  "insert_run r d = (if list_ex (\<lambda>r'. rr_run_id r' = rr_run_id r) (db_runs d) then d
     else d\<lparr>db_runs := db_runs d @ [r]\<rparr>)"

definition event_exists :: "string \<Rightarrow> int \<Rightarrow> event_row list \<Rightarrow> bool" where
  "event_exists run_id sq es \<longleftrightarrow> list_ex (\<lambda>e. er_run_id e = run_id \<and> er_seq e = sq) es"

text \<open>
  \<open>INSERT INTO events VALUES ... ON CONFLICT (run_id, seq) DO NOTHING RETURNING id\<close>:
  the rows that go in, given the table.
\<close>

fun fresh_rows :: "event_row list \<Rightarrow> event_row list \<Rightarrow> event_row list" where
  "fresh_rows tbl [] = []"
| "fresh_rows tbl (e # es) =
     (if event_exists (er_run_id e) (er_seq e) tbl then fresh_rows tbl es
      else e # fresh_rows (tbl @ [e]) es)"

definition run_exists :: "string \<Rightarrow> db \<Rightarrow> bool" where
  "run_exists run_id d \<longleftrightarrow> list_ex (\<lambda>r. rr_run_id r = run_id) (db_runs d)"

definition insert_events :: "event_row list \<Rightarrow> db \<Rightarrow> api_error + nat \<times> db" where
  "insert_events es d =
     (let new = fresh_rows (db_events d) es in
      if list_all (\<lambda>e. run_exists (er_run_id e) d) new
      then Inr (length new, d\<lparr>db_events := db_events d @ new\<rparr>)
      else Inl (ForeignKeyViolation ''events_run_id_runs_run_id_fk''))"

definition select_events :: "string \<Rightarrow> string \<Rightarrow> db \<Rightarrow> event_row list" where
  "select_events run_id tenant d =
     filter (\<lambda>e. er_run_id e = run_id \<and> er_tenant_id e = tenant) (db_events d)"

text \<open>What the schema guarantees of the tables at any time.\<close>

definition db_wf :: "db \<Rightarrow> bool" where
  "db_wf d \<longleftrightarrow> distinct (map rr_run_id (db_runs d))
     \<and> distinct (map (\<lambda>e. (er_run_id e, er_seq e)) (db_events d))
     \<and> (\<forall>e\<in>set (db_events d). run_exists (er_run_id e) d)"

section \<open>Lemmas\<close>

lemma find_Some_iff2: "find P xs = Some x \<Longrightarrow> x \<in> set xs \<and> P x"
  by (induction xs) (auto split: if_splits)

lemma select_run_Some:
  assumes "select_run r t d = Some row"
  shows "row \<in> set (db_runs d)" "rr_run_id row = r" "rr_tenant_id row = t"
  using find_Some_iff2 [OF assms [unfolded select_run_def]] by auto

lemma select_run_exists: "select_run r t d = Some row \<Longrightarrow> run_exists r d"
  using select_run_Some by (force simp: run_exists_def list_ex_iff)

lemma event_exists_iff: "event_exists r s es \<longleftrightarrow> (r, s) \<in> (\<lambda>e. (er_run_id e, er_seq e)) ` set es"
  by (auto simp: event_exists_def list_ex_iff image_iff)

lemma fresh_rows_append:
  "fresh_rows tbl (xs @ ys) = fresh_rows tbl xs @ fresh_rows (tbl @ fresh_rows tbl xs) ys"
  by (induction xs arbitrary: tbl) auto

lemma fresh_rows_subset: "set (fresh_rows tbl es) \<subseteq> set es"
  by (induction es arbitrary: tbl) auto

lemma fresh_rows_distinct:
  assumes "distinct (map (\<lambda>e. (er_run_id e, er_seq e)) tbl)"
  shows "distinct (map (\<lambda>e. (er_run_id e, er_seq e)) (tbl @ fresh_rows tbl es))"
  using assms
proof (induction es arbitrary: tbl)
  case (Cons e es)
  show ?case
  proof (cases "event_exists (er_run_id e) (er_seq e) tbl")
    case False
    with Cons.prems have "distinct (map (\<lambda>e. (er_run_id e, er_seq e)) (tbl @ [e]))"
      by (auto simp: event_exists_iff)
    from Cons.IH [OF this] False show ?thesis by simp
  qed (use Cons in simp)
qed simp

lemma fresh_rows_all:
  assumes "distinct (map (\<lambda>e. (er_run_id e, er_seq e)) es)"
    and "\<And>e. e \<in> set es \<Longrightarrow> \<not> event_exists (er_run_id e) (er_seq e) tbl"
  shows "fresh_rows tbl es = es"
  using assms
proof (induction es arbitrary: tbl)
  case (Cons e es)
  have "\<not> event_exists (er_run_id x) (er_seq x) (tbl @ [e])" if "x \<in> set es" for x
    using that Cons.prems by (auto simp: event_exists_def)
  with Cons show ?case by simp
qed simp

lemma fresh_rows_nothing:
  assumes "\<And>e. e \<in> set es \<Longrightarrow> event_exists (er_run_id e) (er_seq e) tbl"
  shows "fresh_rows tbl es = []"
  using assms by (induction es) auto

lemma insert_run_exists: "run_exists (rr_run_id r) (insert_run r d)"
  by (auto simp: insert_run_def run_exists_def list_ex_iff)

lemma insert_run_mono: "run_exists x d \<Longrightarrow> run_exists x (insert_run r d)"
  by (auto simp: insert_run_def run_exists_def list_ex_iff)

lemma db_events_insert_run [simp]: "db_events (insert_run r d) = db_events d"
  by (simp add: insert_run_def)

lemma db_events_update_run [simp]: "db_events (update_run r t f d) = db_events d"
  by (simp add: update_run_def)

lemma run_exists_update_run:
  assumes "\<And>r. rr_run_id (f r) = rr_run_id r"
  shows "run_exists x (update_run i t f d) = run_exists x d"
proof -
  have "map rr_run_id (db_runs (update_run i t f d)) = map rr_run_id (db_runs d)"
    by (auto simp: update_run_def assms)
  then have "rr_run_id ` set (db_runs (update_run i t f d)) = rr_run_id ` set (db_runs d)"
    by (metis set_map)
  moreover have "run_exists x e \<longleftrightarrow> x \<in> rr_run_id ` set (db_runs e)" for e
    by (auto simp: run_exists_def list_ex_iff)
  ultimately show ?thesis by simp
qed

lemma insert_events_ok:
  assumes "\<And>e. e \<in> set es \<Longrightarrow> run_exists (er_run_id e) d"
  shows "insert_events es d =
    Inr (length (fresh_rows (db_events d) es), d\<lparr>db_events := db_events d @ fresh_rows (db_events d) es\<rparr>)"
  using assms fresh_rows_subset [of "db_events d" es]
  by (auto simp: insert_events_def Let_def list_all_iff)

lemma insert_events_Inr:
  assumes "insert_events es d = Inr (n, d')"
  shows "d' = d\<lparr>db_events := db_events d @ fresh_rows (db_events d) es\<rparr>"
    and "n = length (fresh_rows (db_events d) es)"
    and "\<And>e. e \<in> set (fresh_rows (db_events d) es) \<Longrightarrow> run_exists (er_run_id e) d"
  using assms by (auto simp: insert_events_def Let_def list_all_iff split: if_splits)

lemma run_exists_db_events [simp]: "run_exists r (d\<lparr>db_events := x\<rparr>) = run_exists r d"
  by (simp add: run_exists_def)

lemma insert_events_db_wf:
  assumes "db_wf d" and "insert_events es d = Inr (n, d')"
  shows "db_wf d'"
proof -
  note I = insert_events_Inr [OF assms(2)]
  show ?thesis
    unfolding db_wf_def
  proof (intro conjI ballI)
    show "distinct (map rr_run_id (db_runs d'))" using assms(1) I(1) by (simp add: db_wf_def)
    show "distinct (map (\<lambda>e. (er_run_id e, er_seq e)) (db_events d'))"
      using fresh_rows_distinct assms(1) I(1) by (simp add: db_wf_def)
    show "run_exists (er_run_id e) d'" if "e \<in> set (db_events d')" for e
      using that I assms(1) by (auto simp: db_wf_def)
  qed
qed

lemma insert_run_db_wf: "db_wf d \<Longrightarrow> db_wf (insert_run r d)"
  by (auto simp: db_wf_def insert_run_mono) (auto simp: insert_run_def list_ex_iff)

lemma update_run_db_wf:
  assumes "\<And>r. rr_run_id (f r) = rr_run_id r" and "db_wf d"
  shows "db_wf (update_run i t f d)"
proof -
  have "map rr_run_id (db_runs (update_run i t f d)) = map rr_run_id (db_runs d)"
    by (auto simp: update_run_def assms(1))
  then show ?thesis
    using assms by (simp add: db_wf_def run_exists_update_run)
qed

lemma select_run_update:
  assumes "select_run i t d = Some r" and "\<And>r. rr_run_id (f r) = rr_run_id r"
    and "\<And>r. rr_tenant_id (f r) = rr_tenant_id r"
  shows "select_run i t (update_run i t f d) = Some (f r)"
proof -
  have "find (\<lambda>r. rr_run_id r = i \<and> rr_tenant_id r = t) xs = Some r \<Longrightarrow>
    find (\<lambda>r. rr_run_id r = i \<and> rr_tenant_id r = t)
      (map (\<lambda>r. if rr_run_id r = i \<and> rr_tenant_id r = t then f r else r) xs) = Some (f r)" for xs
    by (induction xs) (auto simp: assms(2,3) split: if_splits)
  with assms(1) show ?thesis by (simp add: select_run_def update_run_def)
qed

lemma select_run_insert:
  assumes "\<not> run_exists (rr_run_id r) d"
  shows "select_run (rr_run_id r) (rr_tenant_id r) (insert_run r d) = Some r"
proof -
  have "find (\<lambda>x. rr_run_id x = rr_run_id r \<and> rr_tenant_id x = rr_tenant_id r) (xs @ [r]) = Some r"
    if "\<not> list_ex (\<lambda>r'. rr_run_id r' = rr_run_id r) xs" for xs
    using that by (induction xs) auto
  with assms show ?thesis by (simp add: select_run_def insert_run_def run_exists_def)
qed

end
