(* ===== verification/Guarded_Updates.thy ===== *)
theory Guarded_Updates
  imports Backend_Db
begin

text \<open>
  Updates under a condition on the stored row, as the review procedures
  (\<open>supervisor.ts\<close>) and \<open>policies.update\<close> use them against concurrent requests: a check in
  one statement, then an \<open>UPDATE\<close> whose \<open>WHERE\<close> repeats the condition. \<open>review_reach\<close> are
  the states that interleaved requests reach; the locale \<open>staged_rows\<close> is the contract of
  such an update, and proves once that no two requests both succeed from one stage of a
  row.
\<close>

section \<open>Statements\<close>

text \<open>\<open>UPDATE ... WHERE ... RETURNING\<close>: the new table and the rows updated.\<close>

definition update_where :: "('r \<Rightarrow> bool) \<Rightarrow> ('r \<Rightarrow> 'r) \<Rightarrow> 'r list \<Rightarrow> 'r list \<times> 'r list" where
  "update_where P f rows = (map (\<lambda>r. if P r then f r else r) rows, map f (filter P rows))"

text \<open>The first row returned, or the error of the caller when there is none.\<close>

definition first_updated :: "api_error \<Rightarrow> 'r list \<times> 'r list \<Rightarrow> api_error + 'r \<times> 'r list" where
  "first_updated e res = (case snd res of [] \<Rightarrow> Inl e | u # _ \<Rightarrow> Inr (u, fst res))"

definition invalid_input :: api_error where
  "invalid_input = TRPCError BAD_REQUEST ''invalid input''"

section \<open>Interleaved requests\<close>

text \<open>
  The requests that have passed their check and not yet issued their update, and the
  requests whose update succeeded, in the order of the updates.
\<close>

record ('op, 'r) review_system =
  sy_rows :: "'r list"
  sy_in_flight :: "'op list"
  sy_done :: "'op list"

inductive review_reach ::
  "('op \<Rightarrow> 'r list \<Rightarrow> api_error + unit) \<Rightarrow> ('op \<Rightarrow> 'r list \<Rightarrow> api_error + 'r \<times> 'r list) \<Rightarrow>
   (int \<Rightarrow> 'r list \<Rightarrow> 'r list) \<Rightarrow> 'r list \<Rightarrow> ('op, 'r) review_system \<Rightarrow> bool"
  for chk :: "'op \<Rightarrow> 'r list \<Rightarrow> api_error + unit" and upd :: "'op \<Rightarrow> 'r list \<Rightarrow> api_error + 'r \<times> 'r list"
    and expire :: "int \<Rightarrow> 'r list \<Rightarrow> 'r list" and rows0 :: "'r list" where
  init: "review_reach chk upd expire rows0 \<lparr>sy_rows = rows0, sy_in_flight = [], sy_done = []\<rparr>"
| check_ok: "review_reach chk upd expire rows0 s \<Longrightarrow> chk op (sy_rows s) = Inr () \<Longrightarrow>
    review_reach chk upd expire rows0 (s\<lparr>sy_in_flight := sy_in_flight s @ [op]\<rparr>)"
| write_ok: "review_reach chk upd expire rows0 s \<Longrightarrow> op \<in> set (sy_in_flight s) \<Longrightarrow>
    upd op (sy_rows s) = Inr (u, rows') \<Longrightarrow>
    review_reach chk upd expire rows0
      \<lparr>sy_rows = rows', sy_in_flight = remove1 op (sy_in_flight s), sy_done = sy_done s @ [op]\<rparr>"
| write_conflict: "review_reach chk upd expire rows0 s \<Longrightarrow> op \<in> set (sy_in_flight s) \<Longrightarrow>
    upd op (sy_rows s) = Inl e \<Longrightarrow>
    review_reach chk upd expire rows0 (s\<lparr>sy_in_flight := remove1 op (sy_in_flight s)\<rparr>)"
| timeout: "review_reach chk upd expire rows0 s \<Longrightarrow>
    review_reach chk upd expire rows0 (s\<lparr>sy_rows := expire now (sy_rows s)\<rparr>)"

text \<open>
  The contract of reviewed rows: every row is at a stage; an update takes one row from
  the stage the request asks for to a later one and leaves its mark there; later updates
  keep the mark, and the timeout job changes only rows at stage 0.
\<close>

locale staged_rows =
  fixes upd :: "'op \<Rightarrow> 'r list \<Rightarrow> api_error + 'r \<times> 'r list"
    and expire :: "int \<Rightarrow> 'r list \<Rightarrow> 'r list"
    and row_id :: "'r \<Rightarrow> string" and stage :: "'r \<Rightarrow> nat"
    and target :: "'op \<Rightarrow> string" and from_stage :: "'op \<Rightarrow> nat"
    and mark :: "'op \<Rightarrow> 'r \<Rightarrow> bool"
  assumes write_one: "distinct (map row_id rows) \<Longrightarrow> upd op rows = Inr (u, rows') \<Longrightarrow>
      \<exists>xs r ys. rows = xs @ r # ys \<and> rows' = xs @ u # ys \<and> row_id r = target op \<and> row_id u = target op
        \<and> stage r = from_stage op \<and> from_stage op < stage u \<and> mark op u
        \<and> (\<forall>op'. mark op' r \<longrightarrow> from_stage op' < stage r \<longrightarrow> mark op' u)"
    and expire_rows: "list_all2 (\<lambda>r r'. row_id r' = row_id r \<and> (r' = r \<or> stage r = 0)) rows (expire now rows)"
begin

definition log_ok :: "'op list \<Rightarrow> 'r list \<Rightarrow> bool" where
  "log_ok done rows \<longleftrightarrow> distinct (map row_id rows)
     \<and> distinct (map (\<lambda>op. (target op, from_stage op)) done)
     \<and> (\<forall>op\<in>set done. \<exists>r\<in>set rows. row_id r = target op \<and> from_stage op < stage r \<and> mark op r)"

lemma log_ok_write:
  assumes ok: "log_ok done rows" and w: "upd op rows = Inr (u, rows')"
  shows "log_ok (done @ [op]) rows'"
proof -
  have d: "distinct (map row_id rows)" and dd: "distinct (map (\<lambda>op. (target op, from_stage op)) done)"
    and m: "\<And>op. op \<in> set done \<Longrightarrow> \<exists>r\<in>set rows. row_id r = target op \<and> from_stage op < stage r \<and> mark op r"
    using ok by (auto simp: log_ok_def)
  from write_one [OF d w] obtain xs r ys where rows: "rows = xs @ r # ys" "rows' = xs @ u # ys"
    and ids: "row_id r = target op" "row_id u = target op"
    and st: "stage r = from_stage op" "from_stage op < stage u" and mk: "mark op u"
    and keep: "\<And>op'. mark op' r \<Longrightarrow> from_stage op' < stage r \<Longrightarrow> mark op' u" by blast
  have own: "r' = r" if "r' \<in> set rows" "row_id r' = target op" for r'
    using distinct_map_eq [OF d that(1)] rows(1) ids(1) that(2) by simp
  have "(target op', from_stage op') \<noteq> (target op, from_stage op)" if "op' \<in> set done" for op'
    using m [OF that] own st(1) by auto
  then have "(target op, from_stage op) \<notin> (\<lambda>op. (target op, from_stage op)) ` set done"
    unfolding image_iff by metis
  then have "distinct (map (\<lambda>op. (target op, from_stage op)) (done @ [op]))" using dd by simp
  moreover have "distinct (map row_id rows')" using d rows ids by simp
  moreover have "\<exists>r'\<in>set rows'. row_id r' = target op' \<and> from_stage op' < stage r' \<and> mark op' r'"
    if "op' \<in> set (done @ [op])" for op'
  proof (cases "op' \<in> set done")
    case True
    from m [OF this] obtain r' where r': "r' \<in> set rows" "row_id r' = target op'" "from_stage op' < stage r'" "mark op' r'"
      by blast
    show ?thesis
    proof (cases "r' = r")
      case True
      then have "row_id u = target op'" "from_stage op' < stage u" "mark op' u"
        using r' ids st keep by auto
      then show ?thesis using rows(2) by auto
    next
      case False
      then have "r' \<in> set rows'" using r'(1) rows by auto
      then show ?thesis using r' by blast
    qed
  next
    case False
    then show ?thesis using that rows(2) ids(2) st(2) mk by auto
  qed
  ultimately show ?thesis by (simp add: log_ok_def)
qed

lemma log_ok_expire:
  assumes "log_ok done rows"
  shows "log_ok done (expire now rows)"
proof -
  note l = expire_rows [of rows now, unfolded list_all2_conv_all_nth]
  have "map row_id (expire now rows) = map row_id rows" using l by (auto intro: nth_equalityI)
  moreover have "r \<in> set (expire now rows)" if "r \<in> set rows" "0 < stage r" for r
    using that l by (metis in_set_conv_nth less_numeral_extra(3))
  ultimately show ?thesis using assms by (fastforce simp: log_ok_def)
qed

lemma reach_log_ok:
  assumes "review_reach chk upd expire rows0 s" and "distinct (map row_id rows0)"
  shows "log_ok (sy_done s) (sy_rows s)"
  using assms(1)
proof (induction rule: review_reach.induct)
  case init
  then show ?case using assms(2) by (simp add: log_ok_def)
qed (auto intro: log_ok_write log_ok_expire)

text \<open>No two successful updates start from the same stage of the same row, and each mark is there.\<close>

lemma decisions_unique:
  assumes "review_reach chk upd expire rows0 s" and "distinct (map row_id rows0)"
  shows "distinct (map (\<lambda>op. (target op, from_stage op)) (sy_done s))"
    and "op \<in> set (sy_done s) \<Longrightarrow> \<exists>r\<in>set (sy_rows s). row_id r = target op \<and> mark op r"
  using reach_log_ok [OF assms] by (auto simp: log_ok_def)

end

lemma update_where_first:
  assumes "distinct (map row_id rows)" and "\<And>r. P r \<Longrightarrow> row_id r = i"
    and "first_updated e (update_where P f rows) = Inr (u, rows')"
  shows "\<exists>xs r ys. rows = xs @ r # ys \<and> rows' = xs @ u # ys \<and> P r \<and> u = f r"
proof -
  from assms(3) have "filter P rows \<noteq> []" and u: "u = f (hd (filter P rows))"
    and rows': "rows' = map (\<lambda>r. if P r then f r else r) rows"
    by (auto simp: first_updated_def update_where_def hd_map split: list.splits)
  then have r: "hd (filter P rows) \<in> set rows" "P (hd (filter P rows))"
    using hd_in_set [of "filter P rows"] by auto
  then obtain xs ys where split: "rows = xs @ hd (filter P rows) # ys" by (meson split_list)
  have "\<not> P x" if "x \<in> set xs \<union> set ys" for x
  proof
    assume "P x"
    then have "row_id x = row_id (hd (filter P rows))" using assms(2) r(2) by metis
    moreover have "distinct (map row_id (xs @ hd (filter P rows) # ys))" using assms(1) split by metis
    ultimately show False using that by (auto simp: image_iff)
  qed
  then have "rows' = xs @ f (hd (filter P rows)) # ys"
    using r(2) unfolding rows' by (subst split) (auto intro: map_idI)
  with split u r(2) show ?thesis by blast
qed

lemma update_where_unchanged:
  assumes "\<And>r. P r \<Longrightarrow> row_id (f r) = row_id r \<and> st r = (0::nat)"
  shows "list_all2 (\<lambda>r r'. row_id r' = row_id r \<and> (r' = r \<or> st r = 0)) rows (fst (update_where P f rows))"
  using assms by (auto simp: update_where_def list_all2_conv_all_nth)

end
