(* ===== verification/Pagination.thy ===== *)
theory Pagination
  imports LSG_Prelude
begin

text \<open>
  Cursor pagination as the list procedures of the routers write it (\<open>runs.ts\<close>,
  \<open>supervisor.ts\<close>, \<open>policies.ts\<close>): rows in descending order of \<open>created_at\<close>, one row more
  than asked for, the time of the last row as cursor of the next page. The locale
  \<open>cursor_list\<close> is the contract of such a procedure; what a client that follows the
  cursors sees is proved there once. Times are milliseconds, and so are the cursors.
\<close>

section \<open>One page\<close>

definition page :: "('r \<Rightarrow> int) \<Rightarrow> nat \<Rightarrow> int option \<Rightarrow> 'r list \<Rightarrow> 'r list \<times> int option" where
  "page key limit cursor rows =
    (let rs = take (limit + 1) (sort_key (\<lambda>r. - key r)
           (filter (\<lambda>r. case cursor of None \<Rightarrow> True | Some c \<Rightarrow> key r < c) rows));
         hasMore = length rs > limit;
         items = (if hasMore then take limit rs else rs)
     in (items, if hasMore \<and> items \<noteq> [] then Some (key (last items)) else None))"

section \<open>Following the cursors\<close>

text \<open>The rows a client gets that asks until there is no cursor, with at most \<open>fuel\<close> requests.\<close>

fun follow :: "(int option \<Rightarrow> 'r list \<times> int option) \<Rightarrow> nat \<Rightarrow> int option \<Rightarrow> 'r list option" where
  "follow ask 0 cursor = None"
| "follow ask (Suc fuel) cursor =
    (case ask cursor of
       (items, None) \<Rightarrow> Some items
     | (items, Some c) \<Rightarrow> map_option (\<lambda>rest. items @ rest) (follow ask fuel (Some c)))"

abbreviation below :: "('r \<Rightarrow> int) \<Rightarrow> int option \<Rightarrow> 'r list \<Rightarrow> 'r list" where
  "below key cursor rows \<equiv> filter (\<lambda>r. case cursor of None \<Rightarrow> True | Some c \<Rightarrow> key r < c) rows"

lemma page_last:
  assumes "length (below key cursor rows) \<le> limit"
  shows "page key limit cursor rows = (sort_key (\<lambda>r. - key r) (below key cursor rows), None)"
  using assms by (simp add: page_def Let_def)

lemma page_more:
  assumes "limit < length (below key cursor rows)" and "0 < limit"
  shows "page key limit cursor rows =
    (take limit (sort_key (\<lambda>r. - key r) (below key cursor rows)),
     Some (key (last (take limit (sort_key (\<lambda>r. - key r) (below key cursor rows))))))"
proof -
  let ?S = "sort_key (\<lambda>r. - key r) (below key cursor rows)"
  have "take limit (take (limit + 1) ?S) = take limit ?S" by simp
  moreover have "take limit ?S \<noteq> []"
  proof
    assume "take limit ?S = []"
    then have "length (take limit ?S) = 0" by (simp only: list.size)
    with assms show False by simp
  qed
  ultimately show ?thesis using assms(1) by (simp add: page_def Let_def)
qed

lemma next_below:
  assumes "limit < length (below key cursor rows)" and "0 < limit" and "distinct (map key rows)"
  defines "S \<equiv> sort_key (\<lambda>r. - key r) (below key cursor rows)"
  shows "sort_key (\<lambda>r. - key r) (below key (Some (key (last (take limit S)))) rows) = drop limit S"
proof -
  let ?c = "key (last (take limit S))"
  have d: "distinct (map (\<lambda>r. - key r) S)"
    using assms(3) by (auto simp: S_def distinct_map inj_on_def)
  have s: "sorted (map (\<lambda>r. - key r) S)" by (simp add: S_def)
  have len: "limit \<le> length S" using assms(1) by (simp add: S_def)
  have "take limit S \<noteq> []"
  proof
    assume "take limit S = []"
    then have "length (take limit S) = 0" by (simp only: list.size)
    with assms(2) len show False by simp
  qed
  then have "last (take limit S) \<in> set S" by (meson last_in_set in_set_takeD)
  then have "last (take limit S) \<in> set (below key cursor rows)" by (simp add: S_def)
  then have "filter (\<lambda>r. key r < ?c) rows = filter (\<lambda>r. key r < ?c) (below key cursor rows)"
    by (cases cursor) (auto simp: filter_filter intro!: filter_cong)
  then have "sort_key (\<lambda>r. - key r) (below key (Some ?c) rows) = filter (\<lambda>r. key r < ?c) S"
    by (simp add: S_def filter_sort)
  moreover have "filter (\<lambda>r. - key r > - ?c) S = drop limit S"
    using keyset_page [OF s d assms(2) len] by simp
  ultimately show ?thesis by simp
qed

lemma follow_pages:
  assumes "distinct (map key rows)" and "0 < limit" and "length (below key cursor rows) \<le> fuel * limit" and "0 < fuel"
  shows "follow (\<lambda>c. page key limit c rows) fuel cursor = Some (sort_key (\<lambda>r. - key r) (below key cursor rows))"
  using assms
proof (induction fuel arbitrary: cursor)
  case (Suc fuel)
  let ?B = "below key cursor rows"
  let ?S = "sort_key (\<lambda>r. - key r) ?B"
  show ?case
  proof (cases "length ?B \<le> limit")
    case True
    then show ?thesis by (simp add: page_last)
  next
    case False
    let ?c = "Some (key (last (take limit ?S)))"
    from False have lim: "limit < length ?B" by simp
    note nb = next_below [OF lim Suc.prems(2,1)]
    have "length (below key ?c rows) = length (drop limit ?S)"
      using nb by (metis length_sort)
    then have "length (below key ?c rows) \<le> fuel * limit" "0 < fuel"
      using Suc.prems(3) lim by (auto intro: Nat.gr0I)
    from Suc.IH [OF Suc.prems(1,2) this] nb show ?thesis
      by (simp add: page_more [OF lim Suc.prems(2)])
  qed
qed simp

section \<open>The contract of a list procedure\<close>

locale cursor_list =
  fixes list_rows :: "nat \<Rightarrow> int option \<Rightarrow> 'db \<Rightarrow> 'r list \<times> int option"
    and matching :: "'db \<Rightarrow> 'r list"
    and created_at :: "'r \<Rightarrow> int"
  assumes list_is_page: "list_rows limit cursor d = page created_at limit cursor (matching d)"
begin

text \<open>
  When no two rows have the same time, following the cursors gives every row once, newest
  first, in at most one request per row.
\<close>

lemma follow_complete:
  assumes "distinct (map created_at (matching d))" and "0 < limit" and "length (matching d) < fuel"
  shows "follow (\<lambda>c. list_rows limit c d) fuel None = Some (sort_key (\<lambda>r. - created_at r) (matching d))"
proof -
  have "length (below created_at None (matching d)) \<le> fuel * limit"
    using assms(2,3) by (simp add: le_trans [OF less_imp_le, of _ fuel])
  moreover have "0 < fuel" using assms(3) by simp
  ultimately show ?thesis
    using follow_pages [OF assms(1,2), of None fuel] by (simp add: list_is_page)
qed

text \<open>A page never has more rows than asked for, and only rows of the list.\<close>

lemma page_bounded: "length (fst (list_rows limit cursor d)) \<le> limit"
  by (simp add: list_is_page page_def Let_def)

lemma page_subset: "set (fst (list_rows limit cursor d)) \<subseteq> set (matching d)"
  by (auto simp: list_is_page page_def Let_def dest!: in_set_takeD split: if_splits)

end

section \<open>Ascending pages\<close>

text \<open>
  The procedures that list the events of a run (\<open>runs.getEvents\<close>,
  \<open>supervisorTools.getRunEvents\<close>) page upwards, with the sequence number as cursor.
\<close>

definition page_asc :: "('r \<Rightarrow> int) \<Rightarrow> nat \<Rightarrow> int option \<Rightarrow> 'r list \<Rightarrow> 'r list \<times> int option" where
  "page_asc key limit cursor rows =
    (let rs = take (limit + 1) (sort_key key
           (filter (\<lambda>r. case cursor of None \<Rightarrow> True | Some c \<Rightarrow> key r > c) rows));
         hasMore = length rs > limit;
         items = (if hasMore then take limit rs else rs)
     in (items, if hasMore \<and> items \<noteq> [] then Some (key (last items)) else None))"

text \<open>It is a descending page in the negated key.\<close>

lemma page_asc_neg:
  "page_asc key limit cursor rows =
    (fst (page (\<lambda>r. - key r) limit (map_option uminus cursor) rows),
     map_option uminus (snd (page (\<lambda>r. - key r) limit (map_option uminus cursor) rows)))"
proof -
  have "(case map_option uminus cursor of None \<Rightarrow> True | Some c \<Rightarrow> - key r < c) = (case cursor of None \<Rightarrow> True | Some c \<Rightarrow> c < key r)" for r
    by (cases cursor) auto
  then show ?thesis by (simp add: page_asc_def page_def Let_def)
qed

lemma follow_asc:
  "follow (\<lambda>c. page_asc key limit c rows) fuel cursor
    = follow (\<lambda>c. page (\<lambda>r. - key r) limit c rows) fuel (map_option uminus cursor)"
proof (induction fuel arbitrary: cursor)
  case (Suc fuel)
  obtain items c where p: "page (\<lambda>r. - key r) limit (map_option uminus cursor) rows = (items, c)" by fastforce
  then have "page_asc key limit cursor rows = (items, map_option uminus c)" by (simp add: page_asc_neg)
  with p Suc.IH show ?case by (cases c) (simp_all add: option.map_comp comp_def)
qed simp

lemma follow_asc_complete:
  assumes "distinct (map key rows)" and "0 < limit" and "length rows < fuel"
  shows "follow (\<lambda>c. page_asc key limit c rows) fuel None = Some (sort_key key rows)"
proof -
  have "distinct (map (\<lambda>r. - key r) rows)" using assms(1) by (simp add: distinct_map inj_on_def)
  moreover have "length (below (\<lambda>r. - key r) None rows) \<le> fuel * limit"
    using assms(2,3) by (simp add: le_trans [OF less_imp_le, of _ fuel])
  ultimately show ?thesis
    using follow_pages [of "\<lambda>r. - key r" rows limit None fuel] assms(2,3) by (simp add: follow_asc)
qed

end
