(* ===== verification/Supervisor_Review.thy ===== *)
theory Supervisor_Review
  imports Guarded_Updates Pagination
begin

text \<open>
  \<open>packages/backend/src/trpc/routers/supervisor.ts\<close> and \<open>jobs/timeout-checker.ts\<close>: the
  human review of the supervisor's proposals and escalations, and their expiry.

  A review procedure reads the row, checks its status, and then updates it under a
  condition on the status. The two statements are separate: \<open>..._check\<close> is the part up to
  the update and \<open>..._write\<close> the update with what follows, so that the requests of several
  reviewers and the timeout job can be interleaved between them. The procedure itself is
  the two in a row. Times are milliseconds; zod's \<open>uuid\<close> format is a parameter.
\<close>

section \<open>Tables\<close>

record proposal_row =
  sp_id :: string
  sp_tenant_id :: string
  sp_proposal_id :: string
  sp_supervisor_run_id :: string
  sp_trigger_run_id :: "string option"
  sp_proposal_type :: string
  sp_target_agent :: "string option"
  sp_rationale :: string
  sp_confidence :: "rat option"
  sp_supporting_runs :: "string list option"
  sp_proposed_changes :: jsval
  sp_status :: string
  sp_reviewed_by :: "string option"
  sp_reviewed_at :: "int option"
  sp_review_notes :: "string option"
  sp_created_at :: int
  sp_updated_at :: int

record escalation_row =
  se_id :: string
  se_tenant_id :: string
  se_escalation_id :: string
  se_supervisor_run_id :: string
  se_trigger_run_id :: "string option"
  se_severity :: string
  se_rationale :: string
  se_recommendation :: "string option"
  se_confidence :: "rat option"
  se_supporting_runs :: "string list option"
  se_timeout_seconds :: "int option"
  se_timeout_action :: "string option"
  se_status :: string
  se_acknowledged_by :: "string option"
  se_acknowledged_at :: "int option"
  se_resolution_notes :: "string option"
  se_created_at :: int
  se_updated_at :: int

section \<open>The list procedures\<close>

record list_proposals_input =
  lp_status :: "string option"
  lp_proposal_type :: "string option"

definition proposals_matching :: "string \<Rightarrow> list_proposals_input \<Rightarrow> proposal_row list \<Rightarrow> proposal_row list" where
  "proposals_matching tenantId inp rows = filter (\<lambda>r. sp_tenant_id r = tenantId
     \<and> (case lp_status inp of None \<Rightarrow> True | Some s \<Rightarrow> sp_status r = s)
     \<and> (case lp_proposal_type inp of None \<Rightarrow> True | Some t \<Rightarrow> sp_proposal_type r = t)) rows"

definition listProposals ::
  "string \<Rightarrow> list_proposals_input \<Rightarrow> nat \<Rightarrow> int option \<Rightarrow> proposal_row list \<Rightarrow> proposal_row list \<times> int option" where
  "listProposals tenantId inp limit cursor rows = page sp_created_at limit cursor (proposals_matching tenantId inp rows)"

record list_escalations_input =
  le_status :: "string option"
  le_severity :: "string option"

definition escalations_matching :: "string \<Rightarrow> list_escalations_input \<Rightarrow> escalation_row list \<Rightarrow> escalation_row list" where
  "escalations_matching tenantId inp rows = filter (\<lambda>r. se_tenant_id r = tenantId
     \<and> (case le_status inp of None \<Rightarrow> True | Some s \<Rightarrow> se_status r = s)
     \<and> (case le_severity inp of None \<Rightarrow> True | Some t \<Rightarrow> se_severity r = t)) rows"

definition listEscalations ::
  "string \<Rightarrow> list_escalations_input \<Rightarrow> nat \<Rightarrow> int option \<Rightarrow> escalation_row list \<Rightarrow> escalation_row list \<times> int option" where
  "listEscalations tenantId inp limit cursor rows = page se_created_at limit cursor (escalations_matching tenantId inp rows)"

interpretation pl: cursor_list "listProposals tenantId inp" "proposals_matching tenantId inp" sp_created_at
  for tenantId inp
  by unfold_locales (simp add: listProposals_def)

interpretation el: cursor_list "listEscalations tenantId inp" "escalations_matching tenantId inp" se_created_at
  for tenantId inp
  by unfold_locales (simp add: listEscalations_def)

section \<open>Proposals\<close>

text \<open>A request of a reviewer: the procedure with its input, its context and its time.\<close>

datatype review_kind = Approve "string option" | Reject string

record review_op =
  ro_kind :: review_kind
  ro_id :: string
  ro_tenant :: string
  ro_user :: string
  ro_now :: int

definition proposal_input_ok :: "(string \<Rightarrow> bool) \<Rightarrow> review_op \<Rightarrow> bool" where
  "proposal_input_ok is_uuid op \<longleftrightarrow> is_uuid (ro_id op) \<and>
     (case ro_kind op of Approve None \<Rightarrow> True | Approve (Some n) \<Rightarrow> length n \<le> 2000
      | Reject n \<Rightarrow> 1 \<le> length n \<and> length n \<le> 2000)"

definition already :: "string \<Rightarrow> string \<Rightarrow> string \<Rightarrow> api_error" where
  "already what status tail = TRPCError CONFLICT (what @ [CHR 0x22] @ status @ [CHR 0x22] @ tail)"

definition review_check :: "(string \<Rightarrow> bool) \<Rightarrow> review_op \<Rightarrow> proposal_row list \<Rightarrow> api_error + unit" where
  "review_check is_uuid op rows =
    (if \<not> proposal_input_ok is_uuid op then Inl invalid_input
     else (case find (\<lambda>r. sp_id r = ro_id op \<and> sp_tenant_id r = ro_tenant op) rows of
       None \<Rightarrow> Inl (TRPCError NOT_FOUND ''Proposal not found'')
     | Some r \<Rightarrow> if sp_status r \<noteq> ''pending''
         then Inl (already ''Proposal is already in status '' (sp_status r)
           (case ro_kind op of Approve _ \<Rightarrow> ''. Only pending proposals can be approved.''
            | Reject _ \<Rightarrow> ''. Only pending proposals can be rejected.''))
         else Inr ()))"

definition reviewed :: "review_op \<Rightarrow> proposal_row \<Rightarrow> proposal_row" where
  "reviewed op r = r\<lparr>sp_status := (case ro_kind op of Approve _ \<Rightarrow> ''approved'' | Reject _ \<Rightarrow> ''rejected''),
     sp_reviewed_by := Some (ro_user op), sp_reviewed_at := Some (ro_now op),
     sp_review_notes := (case ro_kind op of Approve n \<Rightarrow> n | Reject n \<Rightarrow> Some n),
     sp_updated_at := ro_now op\<rparr>"

definition review_write :: "review_op \<Rightarrow> proposal_row list \<Rightarrow> api_error + proposal_row \<times> proposal_row list" where
  "review_write op rows = first_updated
     (TRPCError CONFLICT ''Proposal status changed concurrently. Please re-fetch and retry.'')
     (update_where (\<lambda>r. sp_id r = ro_id op \<and> sp_tenant_id r = ro_tenant op \<and> sp_status r = ''pending'')
        (reviewed op) rows)"

definition review :: "(string \<Rightarrow> bool) \<Rightarrow> review_op \<Rightarrow> proposal_row list \<Rightarrow> api_error + proposal_row \<times> proposal_row list" where
  "review is_uuid op rows = bind_result (review_check is_uuid op rows) (\<lambda>_. review_write op rows)"

definition approveProposal ::
  "(string \<Rightarrow> bool) \<Rightarrow> string \<Rightarrow> string \<Rightarrow> int \<Rightarrow> string \<Rightarrow> string option \<Rightarrow> proposal_row list
   \<Rightarrow> api_error + proposal_row \<times> proposal_row list" where
  "approveProposal is_uuid tenantId userId now rid notes =
     review is_uuid \<lparr>ro_kind = Approve notes, ro_id = rid, ro_tenant = tenantId, ro_user = userId, ro_now = now\<rparr>"

definition rejectProposal ::
  "(string \<Rightarrow> bool) \<Rightarrow> string \<Rightarrow> string \<Rightarrow> int \<Rightarrow> string \<Rightarrow> string \<Rightarrow> proposal_row list
   \<Rightarrow> api_error + proposal_row \<times> proposal_row list" where
  "rejectProposal is_uuid tenantId userId now rid notes =
     review is_uuid \<lparr>ro_kind = Reject notes, ro_id = rid, ro_tenant = tenantId, ro_user = userId, ro_now = now\<rparr>"

section \<open>Escalations\<close>

datatype escalation_kind = Acknowledge | Resolve

record escalation_op =
  eo_kind :: escalation_kind
  eo_notes :: "string option"
  eo_id :: string
  eo_tenant :: string
  eo_user :: string
  eo_now :: int

definition required_status :: "escalation_kind \<Rightarrow> string" where
  "required_status k = (case k of Acknowledge \<Rightarrow> ''open'' | Resolve \<Rightarrow> ''acknowledged'')"

definition escalation_check :: "(string \<Rightarrow> bool) \<Rightarrow> escalation_op \<Rightarrow> escalation_row list \<Rightarrow> api_error + unit" where
  "escalation_check is_uuid op rows =
    (if \<not> is_uuid (eo_id op) \<or> (case eo_notes op of None \<Rightarrow> False | Some n \<Rightarrow> length n > 2000) then Inl invalid_input
     else (case find (\<lambda>r. se_id r = eo_id op \<and> se_tenant_id r = eo_tenant op) rows of
       None \<Rightarrow> Inl (TRPCError NOT_FOUND ''Escalation not found'')
     | Some r \<Rightarrow> if se_status r \<noteq> required_status (eo_kind op)
         then Inl (case eo_kind op of
             Acknowledge \<Rightarrow> already ''Escalation is already in status '' (se_status r)
               ''. Only open escalations can be acknowledged.''
           | Resolve \<Rightarrow> already ''Escalation is in status '' (se_status r)
               ''. Only acknowledged escalations can be resolved.'')
         else Inr ()))"

definition escalation_set :: "escalation_op \<Rightarrow> escalation_row \<Rightarrow> escalation_row" where
  "escalation_set op r = (case eo_kind op of
     Acknowledge \<Rightarrow> r\<lparr>se_status := ''acknowledged'', se_acknowledged_by := Some (eo_user op),
       se_acknowledged_at := Some (eo_now op), se_resolution_notes := eo_notes op, se_updated_at := eo_now op\<rparr>
   | Resolve \<Rightarrow> r\<lparr>se_status := ''resolved'', se_resolution_notes := eo_notes op, se_updated_at := eo_now op\<rparr>)"

definition escalation_write ::
  "escalation_op \<Rightarrow> escalation_row list \<Rightarrow> api_error + escalation_row \<times> escalation_row list" where
  "escalation_write op rows = first_updated
     (TRPCError CONFLICT ''Escalation status changed concurrently. Please re-fetch and retry.'')
     (update_where (\<lambda>r. se_id r = eo_id op \<and> se_tenant_id r = eo_tenant op
        \<and> se_status r = required_status (eo_kind op)) (escalation_set op) rows)"

definition escalation_request ::
  "(string \<Rightarrow> bool) \<Rightarrow> escalation_op \<Rightarrow> escalation_row list \<Rightarrow> api_error + escalation_row \<times> escalation_row list" where
  "escalation_request is_uuid op rows =
     bind_result (escalation_check is_uuid op rows) (\<lambda>_. escalation_write op rows)"

definition acknowledgeEscalation ::
  "(string \<Rightarrow> bool) \<Rightarrow> string \<Rightarrow> string \<Rightarrow> int \<Rightarrow> string \<Rightarrow> string option \<Rightarrow> escalation_row list
   \<Rightarrow> api_error + escalation_row \<times> escalation_row list" where
  "acknowledgeEscalation is_uuid tenantId userId now rid notes = escalation_request is_uuid
     \<lparr>eo_kind = Acknowledge, eo_notes = notes, eo_id = rid, eo_tenant = tenantId, eo_user = userId, eo_now = now\<rparr>"

definition resolveEscalation ::
  "(string \<Rightarrow> bool) \<Rightarrow> string \<Rightarrow> string \<Rightarrow> int \<Rightarrow> string \<Rightarrow> string option \<Rightarrow> escalation_row list
   \<Rightarrow> api_error + escalation_row \<times> escalation_row list" where
  "resolveEscalation is_uuid tenantId userId now rid notes = escalation_request is_uuid
     \<lparr>eo_kind = Resolve, eo_notes = notes, eo_id = rid, eo_tenant = tenantId, eo_user = userId, eo_now = now\<rparr>"

section \<open>The timeout job\<close>

definition PROPOSAL_TIMEOUT_SECONDS :: int where "PROPOSAL_TIMEOUT_SECONDS = 86400"

definition expireProposals :: "int \<Rightarrow> proposal_row list \<Rightarrow> proposal_row list \<times> proposal_row list" where
  "expireProposals now rows =
    (let cutoff = now - PROPOSAL_TIMEOUT_SECONDS * 1000 in
     update_where (\<lambda>r. sp_status r = ''pending'' \<and> sp_created_at r < cutoff)
       (\<lambda>r. r\<lparr>sp_status := ''expired'', sp_updated_at := now\<rparr>) rows)"

definition expireEscalations :: "int \<Rightarrow> escalation_row list \<Rightarrow> escalation_row list \<times> escalation_row list" where
  "expireEscalations now rows =
     update_where (\<lambda>r. se_status r = ''open''
         \<and> (case se_timeout_seconds r of None \<Rightarrow> False | Some t \<Rightarrow> se_created_at r + t * 1000 < now))
       (\<lambda>r. r\<lparr>se_status := ''expired'', se_updated_at := now\<rparr>) rows"

definition runTimeoutCheck :: "int \<Rightarrow> proposal_row list \<times> escalation_row list
    \<Rightarrow> (nat \<times> nat) \<times> (proposal_row list \<times> escalation_row list)" where
  "runTimeoutCheck now db =
    (let (ps, ep) = expireProposals now (fst db); (es, ee) = expireEscalations now (snd db)
     in ((length ep, length ee), (ps, es)))"

section \<open>Proposals and escalations meet the contract\<close>

definition proposal_stage :: "proposal_row \<Rightarrow> nat" where
  "proposal_stage r = (if sp_status r = ''pending'' then 0 else 1)"

definition decided :: "review_op \<Rightarrow> proposal_row \<Rightarrow> bool" where
  "decided op r \<longleftrightarrow> sp_reviewed_by r = Some (ro_user op) \<and> sp_reviewed_at r = Some (ro_now op)
     \<and> sp_status r = (case ro_kind op of Approve _ \<Rightarrow> ''approved'' | Reject _ \<Rightarrow> ''rejected'')
     \<and> sp_review_notes r = (case ro_kind op of Approve n \<Rightarrow> n | Reject n \<Rightarrow> Some n)"

interpretation pr: staged_rows review_write "\<lambda>now rows. fst (expireProposals now rows)" sp_id proposal_stage
  ro_id "\<lambda>_. 0" decided
proof
  fix rows op u rows'
  assume d: "distinct (map sp_id rows)" and w: "review_write op rows = Inr (u, rows')"
  from update_where_first [OF d _ w [unfolded review_write_def], of "ro_id op"] obtain xs r ys where
    "rows = xs @ r # ys" "rows' = xs @ u # ys" "u = reviewed op r"
    "sp_id r = ro_id op" "sp_status r = ''pending''" by auto
  then show "\<exists>xs r ys. rows = xs @ r # ys \<and> rows' = xs @ u # ys \<and> sp_id r = ro_id op \<and> sp_id u = ro_id op
      \<and> proposal_stage r = 0 \<and> 0 < proposal_stage u \<and> decided op u
      \<and> (\<forall>op'. decided op' r \<longrightarrow> 0 < proposal_stage r \<longrightarrow> decided op' u)"
    by (intro exI [of _ xs] exI [of _ r] exI [of _ ys])
      (simp add: reviewed_def proposal_stage_def decided_def split: review_kind.splits)
next
  fix rows now
  show "list_all2 (\<lambda>r r'. sp_id r' = sp_id r \<and> (r' = r \<or> proposal_stage r = 0)) rows (fst (expireProposals now rows))"
    unfolding expireProposals_def Let_def by (rule update_where_unchanged) (simp add: proposal_stage_def)
qed

definition escalation_stage :: "escalation_row \<Rightarrow> nat" where
  "escalation_stage r = (if se_status r = ''open'' then 0 else if se_status r = ''acknowledged'' then 1 else 2)"

definition escalation_mark :: "escalation_op \<Rightarrow> escalation_row \<Rightarrow> bool" where
  "escalation_mark op r \<longleftrightarrow> (case eo_kind op of
     Acknowledge \<Rightarrow> se_acknowledged_by r = Some (eo_user op) \<and> se_acknowledged_at r = Some (eo_now op)
       \<and> se_status r \<in> {''acknowledged'', ''resolved''}
   | Resolve \<Rightarrow> se_status r = ''resolved'' \<and> se_resolution_notes r = eo_notes op)"

definition kind_stage :: "escalation_kind \<Rightarrow> nat" where
  "kind_stage k = (case k of Acknowledge \<Rightarrow> 0 | Resolve \<Rightarrow> 1)"

interpretation er: staged_rows escalation_write "\<lambda>now rows. fst (expireEscalations now rows)" se_id escalation_stage
  eo_id "\<lambda>op. kind_stage (eo_kind op)" escalation_mark
proof
  fix rows op u rows'
  assume d: "distinct (map se_id rows)" and w: "escalation_write op rows = Inr (u, rows')"
  from update_where_first [OF d _ w [unfolded escalation_write_def], of "eo_id op"] obtain xs r ys where
    "rows = xs @ r # ys" "rows' = xs @ u # ys" "u = escalation_set op r"
    "se_id r = eo_id op" "se_status r = required_status (eo_kind op)" by auto
  then show "\<exists>xs r ys. rows = xs @ r # ys \<and> rows' = xs @ u # ys \<and> se_id r = eo_id op \<and> se_id u = eo_id op
      \<and> escalation_stage r = kind_stage (eo_kind op) \<and> kind_stage (eo_kind op) < escalation_stage u
      \<and> escalation_mark op u
      \<and> (\<forall>op'. escalation_mark op' r \<longrightarrow> kind_stage (eo_kind op') < escalation_stage r \<longrightarrow> escalation_mark op' u)"
    by (intro exI [of _ xs] exI [of _ r] exI [of _ ys])
      (simp add: escalation_set_def escalation_stage_def escalation_mark_def kind_stage_def required_status_def
        split: escalation_kind.splits)
next
  fix rows now
  show "list_all2 (\<lambda>r r'. se_id r' = se_id r \<and> (r' = r \<or> escalation_stage r = 0)) rows (fst (expireEscalations now rows))"
    unfolding expireEscalations_def by (rule update_where_unchanged) (simp add: escalation_stage_def)
qed

section \<open>Properties\<close>

text \<open>
  C22: however the requests of reviewers and the timeout job interleave between check and
  update, at most one review of a proposal succeeds, and the row keeps what the successful
  reviewer was told: the decision, the reviewer, the time and the notes.
\<close>

theorem proposal_decided_once:
  assumes "review_reach (review_check is_uuid) review_write (\<lambda>now rows. fst (expireProposals now rows)) rows0 s"
    and "distinct (map sp_id rows0)"
  shows "distinct (map ro_id (sy_done s))
    \<and> (\<forall>op\<in>set (sy_done s). \<exists>r\<in>set (sy_rows s). sp_id r = ro_id op
        \<and> sp_reviewed_by r = Some (ro_user op) \<and> sp_reviewed_at r = Some (ro_now op)
        \<and> sp_status r = (case ro_kind op of Approve _ \<Rightarrow> ''approved'' | Reject _ \<Rightarrow> ''rejected'')
        \<and> sp_review_notes r = (case ro_kind op of Approve n \<Rightarrow> n | Reject n \<Rightarrow> Some n))"
proof (intro conjI ballI)
  have "distinct (map (\<lambda>op. (ro_id op, 0 :: nat)) (sy_done s))" by (rule pr.decisions_unique(1) [OF assms])
  then show "distinct (map ro_id (sy_done s))" by (simp add: distinct_map inj_on_def)
  show "\<exists>r\<in>set (sy_rows s). sp_id r = ro_id op \<and> sp_reviewed_by r = Some (ro_user op)
      \<and> sp_reviewed_at r = Some (ro_now op)
      \<and> sp_status r = (case ro_kind op of Approve _ \<Rightarrow> ''approved'' | Reject _ \<Rightarrow> ''rejected'')
      \<and> sp_review_notes r = (case ro_kind op of Approve n \<Rightarrow> n | Reject n \<Rightarrow> Some n)"
    if "op \<in> set (sy_done s)" for op
    using pr.decisions_unique(2) [OF assms that] by (auto simp: decided_def)
qed

definition ex_proposal :: proposal_row where
  "ex_proposal = \<lparr>sp_id = ''p'', sp_tenant_id = ''t'', sp_proposal_id = ''prop_1'', sp_supervisor_run_id = ''s'',
     sp_trigger_run_id = None, sp_proposal_type = ''policy_change'', sp_target_agent = None,
     sp_rationale = ''r'', sp_confidence = None, sp_supporting_runs = None, sp_proposed_changes = JNull,
     sp_status = ''pending'', sp_reviewed_by = None, sp_reviewed_at = None, sp_review_notes = None,
     sp_created_at = 0, sp_updated_at = 0\<rparr>"

definition ex_approve :: review_op where
  "ex_approve = \<lparr>ro_kind = Approve None, ro_id = ''p'', ro_tenant = ''t'', ro_user = ''u'', ro_now = 5\<rparr>"

definition ex_reject :: review_op where
  "ex_reject = \<lparr>ro_kind = Reject ''no'', ro_id = ''p'', ro_tenant = ''t'', ro_user = ''v'', ro_now = 6\<rparr>"

text \<open>Both reviewers pass the check; the first update succeeds.\<close>

lemma ex_race:
  "review_reach (review_check (\<lambda>_. True)) review_write (\<lambda>now rows. fst (expireProposals now rows)) [ex_proposal]
    \<lparr>sy_rows = [reviewed ex_approve ex_proposal], sy_in_flight = [ex_reject], sy_done = [ex_approve]\<rparr>"
proof -
  let ?reach = "review_reach (review_check (\<lambda>_. True)) review_write (\<lambda>now rows. fst (expireProposals now rows)) [ex_proposal]"
  have c: "review_check (\<lambda>_. True) op [ex_proposal] = Inr ()" if "op \<in> {ex_approve, ex_reject}" for op
    using that by (auto simp: review_check_def proposal_input_ok_def ex_approve_def ex_reject_def ex_proposal_def)
  have "?reach \<lparr>sy_rows = [ex_proposal], sy_in_flight = [], sy_done = []\<rparr>" by (rule review_reach.init)
  from review_reach.check_ok [OF this, of ex_approve] c
  have "?reach \<lparr>sy_rows = [ex_proposal], sy_in_flight = [ex_approve], sy_done = []\<rparr>" by simp
  from review_reach.check_ok [OF this, of ex_reject] c
  have 2: "?reach \<lparr>sy_rows = [ex_proposal], sy_in_flight = [ex_approve, ex_reject], sy_done = []\<rparr>" by simp
  have w: "review_write ex_approve [ex_proposal]
      = Inr (reviewed ex_approve ex_proposal, [reviewed ex_approve ex_proposal])"
    by (simp add: review_write_def first_updated_def update_where_def ex_proposal_def ex_approve_def)
  show ?thesis
    using review_reach.write_ok [OF 2, of ex_approve] w by simp
qed

theorem proposal_decided_once_witness:
  "distinct (map ro_id [ex_approve]) \<and> (\<exists>r\<in>set [reviewed ex_approve ex_proposal]. sp_status r = ''approved'')"
  using proposal_decided_once [OF ex_race] by (auto simp: ex_approve_def)

text \<open>
  C23: an escalation is acknowledged at most once and resolved at most once, in that order,
  under any interleaving with other requests and the timeout job. Whoever acknowledged it
  stays recorded, and an acknowledged escalation does not expire.
\<close>

theorem escalation_lifecycle:
  assumes "review_reach (escalation_check is_uuid) escalation_write (\<lambda>now rows. fst (expireEscalations now rows)) rows0 s"
    and "distinct (map se_id rows0)"
  shows "distinct (map (\<lambda>op. (eo_id op, eo_kind op)) (sy_done s))
    \<and> (\<forall>op\<in>set (sy_done s). \<exists>r\<in>set (sy_rows s). se_id r = eo_id op
        \<and> (eo_kind op = Acknowledge \<longrightarrow> se_acknowledged_by r = Some (eo_user op)
             \<and> se_status r \<in> {''acknowledged'', ''resolved''})
        \<and> (eo_kind op = Resolve \<longrightarrow> se_status r = ''resolved''))"
proof (intro conjI ballI)
  have "distinct (map (\<lambda>op. (eo_id op, kind_stage (eo_kind op))) (sy_done s))"
    by (rule er.decisions_unique(1) [OF assms])
  then show "distinct (map (\<lambda>op. (eo_id op, eo_kind op)) (sy_done s))"
    by (auto simp: distinct_map inj_on_def)
  fix op assume "op \<in> set (sy_done s)"
  from er.decisions_unique(2) [OF assms this]
  show "\<exists>r\<in>set (sy_rows s). se_id r = eo_id op
        \<and> (eo_kind op = Acknowledge \<longrightarrow> se_acknowledged_by r = Some (eo_user op)
             \<and> se_status r \<in> {''acknowledged'', ''resolved''})
        \<and> (eo_kind op = Resolve \<longrightarrow> se_status r = ''resolved'')"
    unfolding escalation_mark_def by (cases "eo_kind op") auto
qed

definition ex_escalation :: escalation_row where
  "ex_escalation = \<lparr>se_id = ''e'', se_tenant_id = ''t'', se_escalation_id = ''esc_1'', se_supervisor_run_id = ''s'',
     se_trigger_run_id = None, se_severity = ''high'', se_rationale = ''r'', se_recommendation = None,
     se_confidence = None, se_supporting_runs = None, se_timeout_seconds = Some 60, se_timeout_action = None,
     se_status = ''open'', se_acknowledged_by = None, se_acknowledged_at = None, se_resolution_notes = None,
     se_created_at = 0, se_updated_at = 0\<rparr>"

definition ex_ack :: escalation_op where
  "ex_ack = \<lparr>eo_kind = Acknowledge, eo_notes = Some ''n'', eo_id = ''e'', eo_tenant = ''t'', eo_user = ''u'', eo_now = 5\<rparr>"

lemma ex_ack_reach:
  "review_reach (escalation_check (\<lambda>_. True)) escalation_write (\<lambda>now rows. fst (expireEscalations now rows)) [ex_escalation]
    \<lparr>sy_rows = [escalation_set ex_ack ex_escalation], sy_in_flight = [], sy_done = [ex_ack]\<rparr>"
proof -
  let ?reach = "review_reach (escalation_check (\<lambda>_. True)) escalation_write (\<lambda>now rows. fst (expireEscalations now rows)) [ex_escalation]"
  have c: "escalation_check (\<lambda>_. True) ex_ack [ex_escalation] = Inr ()"
    by (simp add: escalation_check_def ex_ack_def ex_escalation_def required_status_def)
  have "?reach \<lparr>sy_rows = [ex_escalation], sy_in_flight = [], sy_done = []\<rparr>" by (rule review_reach.init)
  from review_reach.check_ok [OF this, of ex_ack] c
  have 1: "?reach \<lparr>sy_rows = [ex_escalation], sy_in_flight = [ex_ack], sy_done = []\<rparr>" by simp
  have w: "escalation_write ex_ack [ex_escalation] = Inr (escalation_set ex_ack ex_escalation, [escalation_set ex_ack ex_escalation])"
    by (simp add: escalation_write_def first_updated_def update_where_def ex_escalation_def ex_ack_def required_status_def)
  show ?thesis using review_reach.write_ok [OF 1, of ex_ack] w by simp
qed

theorem escalation_lifecycle_witness:
  "\<exists>r\<in>set [escalation_set ex_ack ex_escalation]. se_acknowledged_by r = Some ''u''"
  using escalation_lifecycle [OF ex_ack_reach] by (auto simp: ex_ack_def)

text \<open>
  The timeout job is idempotent: run again at the same time it expires nothing and
  changes nothing. Whatever it expired was pending, or open, before.
\<close>

theorem runTimeoutCheck_idempotent:
  "runTimeoutCheck now (snd (runTimeoutCheck now db)) = ((0, 0), snd (runTimeoutCheck now db))"
proof -
  have idem: "update_where P f (fst (update_where P f rows)) = (fst (update_where P f rows), [])"
    if "\<And>r. P r \<Longrightarrow> \<not> P (f r)" for P and f :: "'r \<Rightarrow> 'r" and rows
    using that by (auto simp: update_where_def filter_empty_conv)
  have p: "expireProposals now (fst (expireProposals now ps)) = (fst (expireProposals now ps), [])" for ps
    unfolding expireProposals_def Let_def by (rule idem) simp
  have e: "expireEscalations now (fst (expireEscalations now es)) = (fst (expireEscalations now es), [])" for es
    unfolding expireEscalations_def by (rule idem) simp
  show ?thesis by (simp add: runTimeoutCheck_def Let_def case_prod_beta p e)
qed

text \<open>
  A client that follows the cursors of \<open>listProposals\<close> gets every proposal of its
  tenant that matches the filters exactly once, newest first, when no two of them were
  created at the same time.
\<close>

theorem listProposals_complete:
  assumes "distinct (map sp_created_at (proposals_matching tenantId inp rows))" and "0 < limit"
    and "length (proposals_matching tenantId inp rows) < fuel"
  shows "follow (\<lambda>c. listProposals tenantId inp limit c rows) fuel None
    = Some (sort_key (\<lambda>r. - sp_created_at r) (proposals_matching tenantId inp rows))"
  using assms by (rule pl.follow_complete)

abbreviation any_proposal :: list_proposals_input where
  "any_proposal \<equiv> \<lparr>lp_status = None, lp_proposal_type = None\<rparr>"

theorem listProposals_complete_witness:
  "follow (\<lambda>c. listProposals ''t'' any_proposal 1 c [ex_proposal, ex_proposal\<lparr>sp_created_at := 7\<rparr>]) 3 None
    = Some (sort_key (\<lambda>r. - sp_created_at r)
        (proposals_matching ''t'' any_proposal [ex_proposal, ex_proposal\<lparr>sp_created_at := 7\<rparr>]))"
  by (rule listProposals_complete) (simp_all add: proposals_matching_def ex_proposal_def)

text \<open>
  Two proposals created in the same millisecond on both sides of a page boundary: the
  second is on no page, since the cursor asks for strictly older rows.
\<close>

theorem list_cursor_skips_ties:
  "\<exists>rows. length rows = 2 \<and> set rows = set (proposals_matching ''t'' any_proposal rows)
    \<and> (\<exists>r. follow (\<lambda>c. listProposals ''t'' any_proposal 1 c rows) 5 None = Some [r])"
proof (intro exI [of _ "[ex_proposal, ex_proposal\<lparr>sp_id := ''q''\<rparr>]"] exI [of _ ex_proposal] conjI)
  show "follow (\<lambda>c. listProposals ''t'' any_proposal 1 c [ex_proposal, ex_proposal\<lparr>sp_id := ''q''\<rparr>]) 5 None = Some [ex_proposal]"
    by (simp add: eval_nat_numeral listProposals_def page_def proposals_matching_def ex_proposal_def)
qed (simp_all add: proposals_matching_def ex_proposal_def)

end
