(* ===== verification/Policy_Packs.thy ===== *)
theory Policy_Packs
  imports Guarded_Updates Pagination
begin

text \<open>
  \<open>packages/backend/src/lib/policy-validate.ts\<close> and \<open>trpc/routers/policies.ts\<close>: the
  validation of policy packs, with the rule that \<open>escalate_to_human\<close> may not be denied, and
  the procedures on the stored packs with their optimistic concurrency control.

  \<open>picomatch\<close> is a parameter: \<open>glob p s\<close> is \<open>None\<close> when it throws on the pattern \<open>p\<close>, and
  otherwise whether \<open>p\<close> matches \<open>s\<close>. zod's \<open>uuid\<close> format is a parameter.
\<close>

section \<open>policy-validate.ts\<close>

record PolicyValidationError =
  ve_path :: string
  ve_message :: string
  ve_code :: string

datatype PolicyValidationResult = PolicyValid | PolicyInvalid "PolicyValidationError list"

definition ESCALATE_TO_HUMAN_TOOL :: string where
  "ESCALATE_TO_HUMAN_TOOL = ''escalate_to_human''"

abbreviation verr :: "string \<Rightarrow> string \<Rightarrow> string \<Rightarrow> PolicyValidationError" where
  "verr p m c \<equiv> \<lparr>ve_path = p, ve_message = m, ve_code = c\<rparr>"

definition is_object :: "jsval \<Rightarrow> bool" where
  "is_object v = (case v of JObj _ \<Rightarrow> True | JArr _ \<Rightarrow> True | _ \<Rightarrow> False)"

definition nonpositive :: "jsval \<Rightarrow> bool" where
  "nonpositive v = (case v of JNum (Dec neg s _) \<Rightarrow> neg \<or> s = 0 | JNum (Infinity neg) \<Rightarrow> neg
     | JNum NaN \<Rightarrow> False | _ \<Rightarrow> True)"

definition validActions :: "jsval list" where
  "validActions = [JStr ''allow'', JStr ''deny'', JStr ''require_approval'']"

definition rule_path :: "nat \<Rightarrow> string" where
  "rule_path i = ''rules['' @ show_nat i @ '']''"

definition name_ok :: "jsval \<Rightarrow> bool" where
  "name_ok v = (case v of JStr s \<Rightarrow> trim s \<noteq> [] | _ \<Rightarrow> False)"

definition validate_rule :: "nat \<Rightarrow> jsval \<Rightarrow> PolicyValidationError list" where
  "validate_rule i rule =
    (if \<not> is_object rule then [verr (rule_path i) ''Each rule must be an object'' ''INVALID_RULE'']
     else (if name_ok (jget rule ''name'') then []
             else [verr (rule_path i @ ''.name'') ''Rule name must be a non-empty string'' ''MISSING_RULE_NAME''])
        @ (if jget rule ''action'' \<in> set validActions then []
             else [verr (rule_path i @ ''.action'') (''Rule action must be one of: allow, deny, require_approval'')
               ''INVALID_RULE_ACTION''])
        @ (if jget rule ''tool'' \<noteq> JUndefined \<and> jget rule ''tool_pattern'' \<noteq> JUndefined
             then [verr (rule_path i) (''Rule cannot have both '' @ [CHR 0x27] @ ''tool'' @ [CHR 0x27]
               @ '' and '' @ [CHR 0x27] @ ''tool_pattern'' @ [CHR 0x27]) ''CONFLICTING_TOOL_FIELDS''] else []))"

definition budget_dimensions :: "string list" where
  "budget_dimensions = [''cost_usd'', ''input_tokens'', ''output_tokens'', ''call_count'']"

definition validate_dimension :: "jsval \<Rightarrow> string \<Rightarrow> PolicyValidationError list" where
  "validate_dimension budget dm =
    (let v = jget budget dm; p = ''budget.'' @ dm in
     if v = JUndefined then []
     else if \<not> is_object v then [verr p (p @ '' must be an object with a '' @ [CHR 0x27] @ ''hard'' @ [CHR 0x27]
       @ '' field'') ''INVALID_BUDGET_DIMENSION'']
     else (if nonpositive (jget v ''hard'')
             then [verr (p @ ''.hard'') (p @ ''.hard must be a positive number'') ''INVALID_BUDGET_HARD_LIMIT''] else [])
        @ (if jget v ''soft'' \<noteq> JUndefined \<and> nonpositive (jget v ''soft'')
             then [verr (p @ ''.soft'') (p @ ''.soft must be a positive number'') ''INVALID_BUDGET_SOFT_LIMIT''] else []))"

text \<open>\<open>null[dim]\<close> throws.\<close>

definition validateBudget :: "jsval \<Rightarrow> js_error + PolicyValidationError list" where
  "validateBudget budget =
    (if budget = JNull then Inl (TypeError ''Cannot read properties of null'')
     else Inr (concat (map (validate_dimension budget) budget_dimensions)))"

definition json_text :: "jsval \<Rightarrow> string" where
  "json_text v = (case json_stringify v of Inr (Some s) \<Rightarrow> s | _ \<Rightarrow> ''undefined'')"

definition validateAgainstSchema :: "jsval \<Rightarrow> js_error + PolicyValidationError list" where
  "validateAgainstSchema content =
    (let ver = (if jget content ''schema_version'' = JNum (Dec False 1 0) then []
           else [verr ''schema_version'' (''schema_version must be 1, got: '' @ json_text (jget content ''schema_version''))
             ''INVALID_SCHEMA_VERSION'']) in
     case jget content ''rules'' of
       JArr rules \<Rightarrow>
         (let errs = ver
            @ (if rules = [] then [verr ''rules'' ''rules must contain at least one rule'' ''EMPTY_RULES''] else [])
            @ concat (map (\<lambda>(i, r). validate_rule i r) (enumerate 0 rules)) in
          if jget content ''budget'' = JUndefined then Inr errs
          else bind_result (validateBudget (jget content ''budget'')) (\<lambda>bs. Inr (errs @ bs)))
     | _ \<Rightarrow> Inr (ver @ [verr ''rules'' ''rules must be an array'' ''MISSING_RULES'']))"

definition globMatchesEscalateToHuman :: "(jsval \<Rightarrow> string \<Rightarrow> bool option) \<Rightarrow> jsval \<Rightarrow> bool" where
  "globMatchesEscalateToHuman glob pat = (glob pat ESCALATE_TO_HUMAN_TOOL = Some True)"

definition blocked_error :: "string \<Rightarrow> jsval \<Rightarrow> jsval \<Rightarrow> PolicyValidationError" where
  "blocked_error p name pat = verr p (''Policy rejected: rule '' @ [CHR 0x27] @ show_val name @ [CHR 0x27]
     @ '' (pattern '' @ [CHR 0x27] @ show_val pat @ [CHR 0x27] @ '') would block '' @ [CHR 0x27]
     @ ESCALATE_TO_HUMAN_TOOL @ [CHR 0x27]
     @ '', which is a protected invariant. See ADR-012 (C13) and CLAUDE.md absolute rule #3.'') ''ESCALATE_TO_HUMAN_BLOCKED''"

definition check_rule :: "(jsval \<Rightarrow> string \<Rightarrow> bool option) \<Rightarrow> nat \<Rightarrow> jsval \<Rightarrow> PolicyValidationError list" where
  "check_rule glob i rule =
    (if \<not> truthy rule \<or> jget rule ''action'' \<noteq> JStr ''deny'' then []
     else (if jget rule ''tool'' = JStr ESCALATE_TO_HUMAN_TOOL
             then [blocked_error (rule_path i @ ''.tool'') (jget rule ''name'') (jget rule ''tool'')] else [])
        @ (if truthy (jget rule ''tool_pattern'') \<and> globMatchesEscalateToHuman glob (jget rule ''tool_pattern'')
             then [blocked_error (rule_path i @ ''.tool_pattern'') (jget rule ''name'') (jget rule ''tool_pattern'')]
             else []))"

definition checkEscalateToHumanInvariant ::
  "(jsval \<Rightarrow> string \<Rightarrow> bool option) \<Rightarrow> jsval \<Rightarrow> PolicyValidationError list" where
  "checkEscalateToHumanInvariant glob policy =
    (case jget policy ''rules'' of
       JArr rules \<Rightarrow> concat (map (\<lambda>(i, r). check_rule glob i r) (enumerate 0 rules))
     | _ \<Rightarrow> [])"

definition validatePolicy :: "(jsval \<Rightarrow> string \<Rightarrow> bool option) \<Rightarrow> jsval \<Rightarrow> js_error + PolicyValidationResult" where
  "validatePolicy glob content =
    bind_result (validateAgainstSchema content) (\<lambda>errors.
      if errors \<noteq> [] then Inr (PolicyInvalid errors)
      else (let inv = checkEscalateToHumanInvariant glob content in
        if inv \<noteq> [] then Inr (PolicyInvalid inv) else Inr PolicyValid))"

section \<open>What an accepted policy is\<close>

definition rules_of :: "jsval \<Rightarrow> jsval list" where
  "rules_of content = (case jget content ''rules'' of JArr rs \<Rightarrow> rs | _ \<Rightarrow> [])"

text \<open>A rule that denies and names or matches \<open>escalate_to_human\<close>.\<close>

definition denies_escalation :: "(jsval \<Rightarrow> string \<Rightarrow> bool option) \<Rightarrow> jsval \<Rightarrow> bool" where
  "denies_escalation glob rule \<longleftrightarrow> jget rule ''action'' = JStr ''deny'' \<and>
     (jget rule ''tool'' = JStr ''escalate_to_human'' \<or>
      truthy (jget rule ''tool_pattern'') \<and> glob (jget rule ''tool_pattern'') ''escalate_to_human'' = Some True)"

definition rule_wf :: "jsval \<Rightarrow> bool" where
  "rule_wf rule \<longleftrightarrow> is_object rule \<and> name_ok (jget rule ''name'')
     \<and> jget rule ''action'' \<in> {JStr ''allow'', JStr ''deny'', JStr ''require_approval''}
     \<and> (jget rule ''tool'' = JUndefined \<or> jget rule ''tool_pattern'' = JUndefined)"

definition limit_wf :: "jsval \<Rightarrow> bool" where
  "limit_wf v \<longleftrightarrow> v = JUndefined \<or> is_object v \<and> \<not> nonpositive (jget v ''hard'')
     \<and> (jget v ''soft'' = JUndefined \<or> \<not> nonpositive (jget v ''soft''))"

definition budget_wf :: "jsval \<Rightarrow> bool" where
  "budget_wf b \<longleftrightarrow> b \<noteq> JNull \<and> (\<forall>dm\<in>set budget_dimensions. limit_wf (jget b dm))"

lemma validate_rule_Nil: "validate_rule i r = [] \<longleftrightarrow> rule_wf r"
  by (auto simp: validate_rule_def rule_wf_def validActions_def)

lemma validate_dimension_Nil: "validate_dimension b dm = [] \<longleftrightarrow> limit_wf (jget b dm)"
  by (auto simp: validate_dimension_def limit_wf_def Let_def)

lemma validateBudget_Nil: "validateBudget b = Inr [] \<longleftrightarrow> budget_wf b"
  by (auto simp: validateBudget_def budget_wf_def validate_dimension_Nil)

lemma check_rule_Nil: "rule_wf r \<Longrightarrow> check_rule glob i r = [] \<longleftrightarrow> \<not> denies_escalation glob r"
  by (cases r) (auto simp: check_rule_def denies_escalation_def rule_wf_def is_object_def
      globMatchesEscalateToHuman_def ESCALATE_TO_HUMAN_TOOL_def)

lemma concat_enumerate_Nil:
  assumes "\<And>i r. r \<in> set rs \<Longrightarrow> f i r = [] \<longleftrightarrow> P r"
  shows "concat (map (\<lambda>(i, r). f i r) (enumerate k rs)) = [] \<longleftrightarrow> (\<forall>r\<in>set rs. P r)"
  using assms by (induction rs arbitrary: k) auto

lemma validateAgainstSchema_Nil:
  "validateAgainstSchema content = Inr [] \<longleftrightarrow>
     jget content ''schema_version'' = JNum (Dec False 1 0)
     \<and> (\<exists>rs. jget content ''rules'' = JArr rs \<and> rs \<noteq> []) \<and> (\<forall>r\<in>set (rules_of content). rule_wf r)
     \<and> (jget content ''budget'' = JUndefined \<or> budget_wf (jget content ''budget''))"
proof (cases "jget content ''rules''")
  case (JArr rs)
  have c: "concat (map (\<lambda>(i, r). validate_rule i r) (enumerate 0 rs)) = [] \<longleftrightarrow> (\<forall>r\<in>set rs. rule_wf r)"
    by (rule concat_enumerate_Nil) (rule validate_rule_Nil)
  show ?thesis
    using JArr c
    by (auto simp: validateAgainstSchema_def Let_def rules_of_def bind_result_Inr_iff validateBudget_Nil [symmetric]
        simp del: concat_eq_Nil_conv)
qed (auto simp: validateAgainstSchema_def Let_def)

lemma validatePolicy_Valid:
  "validatePolicy glob content = Inr PolicyValid \<longleftrightarrow>
     validateAgainstSchema content = Inr [] \<and> (\<forall>r\<in>set (rules_of content). \<not> denies_escalation glob r)"
proof (cases "validateAgainstSchema content = Inr []")
  case True
  then obtain rs where rs: "jget content ''rules'' = JArr rs" "\<forall>r\<in>set rs. rule_wf r"
    unfolding validateAgainstSchema_Nil by (auto simp: rules_of_def)
  have "concat (map (\<lambda>(i, r). check_rule glob i r) (enumerate 0 rs)) = [] \<longleftrightarrow> (\<forall>r\<in>set rs. \<not> denies_escalation glob r)"
    by (rule concat_enumerate_Nil) (use rs check_rule_Nil in blast)
  with True rs(1) show ?thesis
    by (simp add: validatePolicy_def checkEscalateToHumanInvariant_def Let_def rules_of_def del: concat_eq_Nil_conv)
next
  case False
  then show ?thesis by (auto simp: validatePolicy_def bind_result_Inr_iff split: if_splits)
qed

section \<open>policies.ts\<close>

record policy_row =
  pk_id :: string
  pk_tenant_id :: string
  pk_name :: string
  pk_description :: "string option"
  pk_agent_role :: "string option"
  pk_environment :: "string option"
  pk_content :: jsval
  pk_schema_version :: nat
  pk_is_active :: bool
  pk_version :: nat
  pk_created_by :: "string option"
  pk_created_at :: int
  pk_updated_at :: int

definition packs_matching :: "string \<Rightarrow> bool \<Rightarrow> policy_row list \<Rightarrow> policy_row list" where
  "packs_matching tenantId active_only rows =
     filter (\<lambda>r. pk_tenant_id r = tenantId \<and> (active_only \<longrightarrow> pk_is_active r)) rows"

text \<open>\<open>policies.list\<close>; the selection of columns leaves out the content.\<close>

definition policies_list ::
  "string \<Rightarrow> bool \<Rightarrow> nat \<Rightarrow> int option \<Rightarrow> policy_row list \<Rightarrow> policy_row list \<times> int option" where
  "policies_list tenantId active_only limit cursor rows =
     page pk_created_at limit cursor (packs_matching tenantId active_only rows)"

interpretation kl: cursor_list "policies_list tenantId active_only" "packs_matching tenantId active_only" pk_created_at
  for tenantId active_only
  by unfold_locales (simp add: policies_list_def)

definition policies_get :: "string \<Rightarrow> string \<Rightarrow> policy_row list \<Rightarrow> policy_row option" where
  "policies_get tenantId pid rows = find (\<lambda>r. pk_id r = pid \<and> pk_tenant_id r = tenantId) rows"

record create_input =
  cp_name :: string
  cp_description :: "string option"
  cp_agent_role :: "string option"
  cp_environment :: "string option"
  cp_content :: jsval
  cp_is_active :: "bool option"

definition opt_max :: "nat \<Rightarrow> string option \<Rightarrow> bool" where
  "opt_max n s = (case s of None \<Rightarrow> True | Some t \<Rightarrow> length t \<le> n)"

definition is_record :: "jsval \<Rightarrow> bool" where
  "is_record v = (case v of JObj _ \<Rightarrow> True | _ \<Rightarrow> False)"

definition create_input_ok :: "create_input \<Rightarrow> bool" where
  "create_input_ok i \<longleftrightarrow> 1 \<le> length (cp_name i) \<and> length (cp_name i) \<le> 255 \<and> opt_max 1000 (cp_description i)
     \<and> opt_max 255 (cp_agent_role i) \<and> opt_max 255 (cp_environment i) \<and> is_record (cp_content i)"

text \<open>The check of the content, with the error the procedures make of it.\<close>

definition require_valid :: "(jsval \<Rightarrow> string \<Rightarrow> bool option) \<Rightarrow> jsval \<Rightarrow> api_error + unit" where
  "require_valid glob content = (case validatePolicy glob content of
     Inl (TypeError m) \<Rightarrow> Inl (TRPCError INTERNAL_SERVER_ERROR m)
   | Inr PolicyValid \<Rightarrow> Inr ()
   | Inr (PolicyInvalid _) \<Rightarrow> Inl (TRPCError BAD_REQUEST ''Policy content validation failed''))"

definition policies_create ::
  "(jsval \<Rightarrow> string \<Rightarrow> bool option) \<Rightarrow> string \<Rightarrow> string \<Rightarrow> string \<Rightarrow> int \<Rightarrow> create_input \<Rightarrow> policy_row list
   \<Rightarrow> api_error + policy_row \<times> policy_row list" where
  "policies_create glob new_id tenantId userId now i rows =
    (if \<not> create_input_ok i then Inl invalid_input
     else bind_result (require_valid glob (cp_content i)) (\<lambda>_.
       let r = \<lparr>pk_id = new_id, pk_tenant_id = tenantId, pk_name = cp_name i, pk_description = cp_description i,
          pk_agent_role = cp_agent_role i, pk_environment = cp_environment i, pk_content = cp_content i,
          pk_schema_version = 1, pk_is_active = (case cp_is_active i of None \<Rightarrow> True | Some b \<Rightarrow> b),
          pk_version = 1, pk_created_by = Some userId, pk_created_at = now, pk_updated_at = now\<rparr>
       in Inr (r, rows @ [r])))"

text \<open>
  The request of \<open>policies.update\<close>. The outer \<open>None\<close> of a field is \<open>undefined\<close>, \<open>Some None\<close> is
  \<open>null\<close>.
\<close>

record update_op =
  uo_id :: string
  uo_tenant :: string
  uo_version :: nat
  uo_name :: "string option"
  uo_description :: "string option option"
  uo_agent_role :: "string option option"
  uo_environment :: "string option option"
  uo_content :: "jsval option"
  uo_is_active :: "bool option"
  uo_now :: int

definition update_input_ok :: "(string \<Rightarrow> bool) \<Rightarrow> update_op \<Rightarrow> bool" where
  "update_input_ok is_uuid op \<longleftrightarrow> is_uuid (uo_id op) \<and> 1 \<le> uo_version op
     \<and> (case uo_name op of None \<Rightarrow> True | Some n \<Rightarrow> 1 \<le> length n \<and> length n \<le> 255)
     \<and> (case uo_description op of None \<Rightarrow> True | Some d \<Rightarrow> opt_max 1000 d)
     \<and> (case uo_agent_role op of None \<Rightarrow> True | Some d \<Rightarrow> opt_max 255 d)
     \<and> (case uo_environment op of None \<Rightarrow> True | Some d \<Rightarrow> opt_max 255 d)
     \<and> (case uo_content op of None \<Rightarrow> True | Some c \<Rightarrow> is_record c)"

definition update_check ::
  "(string \<Rightarrow> bool) \<Rightarrow> (jsval \<Rightarrow> string \<Rightarrow> bool option) \<Rightarrow> update_op \<Rightarrow> policy_row list \<Rightarrow> api_error + unit" where
  "update_check is_uuid glob op rows =
    (if \<not> update_input_ok is_uuid op then Inl invalid_input
     else (case policies_get (uo_tenant op) (uo_id op) rows of
       None \<Rightarrow> Inl (TRPCError NOT_FOUND ''Policy pack not found'')
     | Some r \<Rightarrow>
        if pk_version r \<noteq> uo_version op
        then Inl (TRPCError CONFLICT (''Policy pack has been modified by another user. Your version: ''
          @ show_nat (uo_version op) @ '', current version: '' @ show_nat (pk_version r) @ ''. Re-fetch and retry.''))
        else (case uo_content op of None \<Rightarrow> Inr () | Some c \<Rightarrow> require_valid glob c)))"

definition given :: "'a option \<Rightarrow> 'a \<Rightarrow> 'a" where
  "given x old = (case x of None \<Rightarrow> old | Some v \<Rightarrow> v)"

definition update_set :: "update_op \<Rightarrow> policy_row \<Rightarrow> policy_row" where
  "update_set op r = r\<lparr>pk_version := uo_version op + 1, pk_updated_at := uo_now op,
     pk_name := given (uo_name op) (pk_name r), pk_description := given (uo_description op) (pk_description r),
     pk_agent_role := given (uo_agent_role op) (pk_agent_role r),
     pk_environment := given (uo_environment op) (pk_environment r),
     pk_content := given (uo_content op) (pk_content r), pk_is_active := given (uo_is_active op) (pk_is_active r)\<rparr>"

definition update_write :: "update_op \<Rightarrow> policy_row list \<Rightarrow> api_error + policy_row \<times> policy_row list" where
  "update_write op rows = first_updated
     (TRPCError CONFLICT ''Policy pack was modified concurrently. Please re-fetch and retry.'')
     (update_where (\<lambda>r. pk_id r = uo_id op \<and> pk_tenant_id r = uo_tenant op \<and> pk_version r = uo_version op)
        (update_set op) rows)"

definition policies_update ::
  "(string \<Rightarrow> bool) \<Rightarrow> (jsval \<Rightarrow> string \<Rightarrow> bool option) \<Rightarrow> update_op \<Rightarrow> policy_row list
   \<Rightarrow> api_error + policy_row \<times> policy_row list" where
  "policies_update is_uuid glob op rows =
     bind_result (update_check is_uuid glob op rows) (\<lambda>_. update_write op rows)"

section \<open>Updates meet the contract of guarded updates\<close>

interpretation pu: staged_rows update_write "\<lambda>_ rows. rows" pk_id pk_version uo_id uo_version
  "\<lambda>op r. uo_version op < pk_version r"
proof
  fix rows op u rows'
  assume d: "distinct (map pk_id rows)" and w: "update_write op rows = Inr (u, rows')"
  from update_where_first [OF d _ w [unfolded update_write_def], of "uo_id op"] obtain xs r ys where
    "rows = xs @ r # ys" "rows' = xs @ u # ys" "u = update_set op r" "pk_id r = uo_id op" "pk_version r = uo_version op"
    by auto
  then show "\<exists>xs r ys. rows = xs @ r # ys \<and> rows' = xs @ u # ys \<and> pk_id r = uo_id op \<and> pk_id u = uo_id op
      \<and> pk_version r = uo_version op \<and> uo_version op < pk_version u \<and> uo_version op < pk_version u
      \<and> (\<forall>op'. uo_version op' < pk_version r \<longrightarrow> uo_version op' < pk_version r \<longrightarrow> uo_version op' < pk_version u)"
    by (intro exI [of _ xs] exI [of _ r] exI [of _ ys]) (simp add: update_set_def)
qed (simp add: list_all2_refl)

section \<open>Properties\<close>

text \<open>
  C26: \<open>validatePolicy\<close> accepts exactly the packs of schema version 1 with a non-empty list
  of well-formed rules and, when there is one, a well-formed budget, in which no deny rule
  names \<open>escalate_to_human\<close> or has a pattern that matches it.
\<close>

theorem validatePolicy_accepts_iff:
  "validatePolicy glob content = Inr PolicyValid \<longleftrightarrow>
     jget content ''schema_version'' = JNum (Dec False 1 0)
     \<and> (\<exists>rs. jget content ''rules'' = JArr rs \<and> rs \<noteq> []
         \<and> (\<forall>r\<in>set rs. rule_wf r \<and> \<not> denies_escalation glob r))
     \<and> (jget content ''budget'' = JUndefined \<or> budget_wf (jget content ''budget''))"
  unfolding validatePolicy_Valid validateAgainstSchema_Nil by (auto simp: rules_of_def)

text \<open>
  A deny rule that names no tool at all is accepted, whatever the glob matcher does,
  although the engine applies such a rule to every tool.
\<close>

theorem validatePolicy_accepts_catch_all_deny:
  "validatePolicy glob (JObj [(''schema_version'', JNum (Dec False 1 0)),
     (''rules'', JArr [JObj [(''name'', JStr ''deny-all''), (''action'', JStr ''deny'')]])]) = Inr PolicyValid"
  unfolding validatePolicy_Valid validateAgainstSchema_Nil
  by (simp add: rules_of_def rule_wf_def is_object_def name_ok_def denies_escalation_def trim_def trimEnd_def is_ws_def)

text \<open>
  C27: no update of a policy pack is lost: however concurrent updates interleave, at most
  one that was made from a given version of a pack succeeds, and every pack that is stored
  stays valid.
\<close>

theorem policy_updates_not_lost:
  assumes "review_reach (update_check is_uuid glob) update_write (\<lambda>_ rows. rows) rows0 s"
    and "distinct (map pk_id rows0)" and "\<forall>r\<in>set rows0. validatePolicy glob (pk_content r) = Inr PolicyValid"
  shows "distinct (map (\<lambda>op. (uo_id op, uo_version op)) (sy_done s))
    \<and> (\<forall>r\<in>set (sy_rows s). validatePolicy glob (pk_content r) = Inr PolicyValid)"
proof
  show "distinct (map (\<lambda>op. (uo_id op, uo_version op)) (sy_done s))"
    by (rule pu.decisions_unique(1) [OF assms(1,2)])
  have rv: "require_valid glob c = Inr () \<Longrightarrow> validatePolicy glob c = Inr PolicyValid" for c
    by (auto simp: require_valid_def split: sum.splits js_error.splits PolicyValidationResult.splits)
  have "(\<forall>op\<in>set (sy_in_flight s). \<forall>c. uo_content op = Some c \<longrightarrow> validatePolicy glob c = Inr PolicyValid)
      \<and> (\<forall>r\<in>set (sy_rows s). validatePolicy glob (pk_content r) = Inr PolicyValid)"
    using assms(1)
  proof (induction rule: review_reach.induct)
    case (check_ok s op)
    then show ?case using rv by (auto simp: update_check_def split: if_splits option.splits)
  next
    case (write_ok s op u rows')
    have "pk_content (update_set op r) = given (uo_content op) (pk_content r)" for r by (simp add: update_set_def)
    moreover have "set rows' \<subseteq> set (sy_rows s) \<union> update_set op ` set (sy_rows s)"
      using write_ok(3) by (auto simp: update_write_def first_updated_def update_where_def split: list.splits if_splits)
    ultimately have "\<forall>r\<in>set rows'. pk_content r \<in> pk_content ` set (sy_rows s) \<or> uo_content op = Some (pk_content r)"
      unfolding given_def by (cases "uo_content op") auto
    then have "\<forall>r\<in>set rows'. validatePolicy glob (pk_content r) = Inr PolicyValid"
      using write_ok(2,4) unfolding image_iff by metis
    moreover have "set (remove1 op (sy_in_flight s)) \<subseteq> set (sy_in_flight s)" by (rule set_remove1_subset)
    ultimately show ?case using write_ok(4) by auto
  next
    case (write_conflict s op e)
    have "set (remove1 op (sy_in_flight s)) \<subseteq> set (sy_in_flight s)" by (rule set_remove1_subset)
    with write_conflict show ?case by auto
  qed (use assms(3) in auto)
  then show "\<forall>r\<in>set (sy_rows s). validatePolicy glob (pk_content r) = Inr PolicyValid" by blast
qed

definition ex_pack :: policy_row where
  "ex_pack = \<lparr>pk_id = ''p'', pk_tenant_id = ''t'', pk_name = ''n'', pk_description = None, pk_agent_role = None,
     pk_environment = None, pk_content = JObj [(''schema_version'', JNum (Dec False 1 0)),
       (''rules'', JArr [JObj [(''name'', JStr ''a''), (''action'', JStr ''allow'')]])],
     pk_schema_version = 1, pk_is_active = True, pk_version = 1, pk_created_by = None, pk_created_at = 0, pk_updated_at = 0\<rparr>"

definition ex_update :: update_op where
  "ex_update = \<lparr>uo_id = ''p'', uo_tenant = ''t'', uo_version = 1, uo_name = Some ''m'', uo_description = None,
     uo_agent_role = None, uo_environment = None, uo_content = None, uo_is_active = None, uo_now = 4\<rparr>"

theorem policy_updates_not_lost_witness:
  "validatePolicy (\<lambda>_ _. None) (pk_content (update_set ex_update ex_pack)) = Inr PolicyValid"
proof -
  let ?reach = "review_reach (update_check (\<lambda>_. True) (\<lambda>_ _. None)) update_write (\<lambda>_ rows. rows) [ex_pack]"
  have c: "update_check (\<lambda>_. True) (\<lambda>_ _. None) ex_update [ex_pack] = Inr ()"
    by (simp add: update_check_def update_input_ok_def policies_get_def ex_update_def ex_pack_def)
  have "?reach \<lparr>sy_rows = [ex_pack], sy_in_flight = [], sy_done = []\<rparr>" by (rule review_reach.init)
  from review_reach.check_ok [OF this, of ex_update] c
  have 1: "?reach \<lparr>sy_rows = [ex_pack], sy_in_flight = [ex_update], sy_done = []\<rparr>" by simp
  have w: "update_write ex_update [ex_pack] = Inr (update_set ex_update ex_pack, [update_set ex_update ex_pack])"
    by (simp add: update_write_def first_updated_def update_where_def ex_update_def ex_pack_def)
  from review_reach.write_ok [OF 1, of ex_update] w
  have 2: "?reach \<lparr>sy_rows = [update_set ex_update ex_pack], sy_in_flight = [], sy_done = [ex_update]\<rparr>" by simp
  have "\<forall>r\<in>set [ex_pack]. validatePolicy (\<lambda>_ _. None) (pk_content r) = Inr PolicyValid"
    unfolding validatePolicy_Valid validateAgainstSchema_Nil
    by (simp add: ex_pack_def rules_of_def rule_wf_def is_object_def name_ok_def denies_escalation_def trim_def trimEnd_def is_ws_def)
  from policy_updates_not_lost [OF 2 _ this] show ?thesis by simp
qed

theorem validatePolicy_accepts_iff_witness:
  "validatePolicy (\<lambda>_ _. None) (pk_content ex_pack) = Inr PolicyValid
   \<and> validatePolicy (\<lambda>_ _. None) (JObj [(''schema_version'', JNum (Dec False 1 0)), (''rules'', JArr [])])
       \<noteq> Inr PolicyValid"
  unfolding validatePolicy_accepts_iff
  by (simp add: ex_pack_def rule_wf_def is_object_def name_ok_def denies_escalation_def trim_def trimEnd_def is_ws_def)

end
