(* ===== verification/Runs_Router.thy ===== *)
theory Runs_Router
  imports Backend_Db Pagination
begin

text \<open>
  \<open>packages/backend/src/trpc/routers/runs.ts\<close>: listing the runs of a tenant, one run, and the
  events of a run. zod's \<open>uuid\<close> check and the range checks on \<open>limit\<close> and \<open>cursor\<close> happen
  before; cursors are milliseconds (runs) and sequence numbers (events).
\<close>

section \<open>Runs\<close>

text \<open>\<open>last_hash\<close> is not sent.\<close>

definition public_run :: "run_row \<Rightarrow> run_row" where
  "public_run r = r\<lparr>rr_last_hash := None\<rparr>"

definition runs_matching :: "string \<Rightarrow> string option \<Rightarrow> db \<Rightarrow> run_row list" where
  "runs_matching tenantId status d = map public_run (filter (\<lambda>r. rr_tenant_id r = tenantId
     \<and> (case status of None \<Rightarrow> True | Some s \<Rightarrow> rr_status r = s)) (db_runs d))"

definition runs_list :: "string \<Rightarrow> string option \<Rightarrow> nat \<Rightarrow> int option \<Rightarrow> db \<Rightarrow> run_row list \<times> int option" where
  "runs_list tenantId status limit cursor d = page rr_created_at limit cursor (runs_matching tenantId status d)"

interpretation rl: cursor_list "runs_list tenantId status" "runs_matching tenantId status" rr_created_at
  for tenantId status
  by unfold_locales (simp add: runs_list_def)

definition runs_get :: "string \<Rightarrow> string \<Rightarrow> db \<Rightarrow> run_row option" where
  "runs_get tenantId run_id d = map_option public_run (select_run run_id tenantId d)"

section \<open>Events of a run\<close>

text \<open>The columns that the event queries select; \<open>raw_line\<close> and \<open>tenant_id\<close> are not among them.\<close>

definition item_columns :: "string list" where
  "item_columns = [''agent_name'', ''agent_role'', ''tool'', ''args_hash'', ''args_redacted'', ''decision'', ''rule_id'',
     ''reason'', ''model'', ''input_tokens'', ''output_tokens'', ''estimated_cost_usd'', ''latency_ms'', ''policy_pack_id'',
     ''environment'', ''run_status'', ''dimension'', ''loop_rule'', ''loop_action'', ''cooldown_ms'', ''budget'',
     ''supervisor_run_id'', ''trigger'', ''trigger_run_id'', ''proposal_id'', ''proposal_type'', ''target_agent'',
     ''rationale'', ''confidence'', ''supporting_runs'', ''status'', ''escalation_id'', ''severity'', ''recommendation'',
     ''timeout_seconds'', ''timeout_action'', ''call_seq_fingerprint'', ''inter_call_ms'', ''token_rate_delta'',
     ''param_shape_hash'']"

record event_item =
  et_run_id :: string
  et_schema_version :: int
  et_event_type :: string
  et_seq :: int
  et_hash :: string
  et_hash_prev :: "string option"
  et_ts :: int
  et_cols :: "(string \<times> jsval) list"

definition item_of_row :: "event_row \<Rightarrow> event_item" where
  "item_of_row e = \<lparr>et_run_id = er_run_id e, et_schema_version = er_schema_version e, et_event_type = er_event_type e,
     et_seq = er_seq e, et_hash = er_hash e, et_hash_prev = er_hash_prev e, et_ts = er_ts e,
     et_cols = filter (\<lambda>(k, v). k \<in> set item_columns) (er_cols e)\<rparr>"

text \<open>A column of an item; a column without an entry is \<open>null\<close>.\<close>

definition et_col :: "event_item \<Rightarrow> string \<Rightarrow> jsval" where
  "et_col e k = (case map_of (et_cols e) k of None \<Rightarrow> JNull | Some v \<Rightarrow> nullish_null v)"

definition events_matching :: "string \<Rightarrow> string \<Rightarrow> string option \<Rightarrow> db \<Rightarrow> event_item list" where
  "events_matching tenantId run_id event_type d = map item_of_row
     (filter (\<lambda>e. case event_type of None \<Rightarrow> True | Some t \<Rightarrow> t = [] \<or> er_event_type e = t) (select_events run_id tenantId d))"

definition getEvents ::
  "string \<Rightarrow> string \<Rightarrow> string option \<Rightarrow> nat \<Rightarrow> int option \<Rightarrow> db \<Rightarrow> event_item list \<times> int option" where
  "getEvents tenantId run_id event_type limit cursor d =
    (case select_run run_id tenantId d of
       None \<Rightarrow> ([], None)
     | Some _ \<Rightarrow> page_asc et_seq limit cursor (events_matching tenantId run_id event_type d))"

section \<open>Lemmas\<close>

lemma item_of_row_seq [simp]: "et_seq (item_of_row e) = er_seq e" "et_run_id (item_of_row e) = er_run_id e"
  by (simp_all add: item_of_row_def)

lemma distinct_event_seqs:
  assumes "db_wf d"
  shows "distinct (map et_seq (events_matching tenantId run_id event_type d))"
proof -
  have "distinct (map (\<lambda>e. (er_run_id e, er_seq e)) (db_events d))" using assms by (simp add: db_wf_def)
  then have "distinct (map er_seq (filter P (select_events run_id tenantId d)))" for P
    by (auto simp: select_events_def distinct_map inj_on_def)
  then show ?thesis by (simp add: events_matching_def comp_def)
qed

lemma runs_matching_tenant: "r \<in> set (runs_matching tenantId status d) \<Longrightarrow> rr_tenant_id r = tenantId \<and> rr_last_hash r = None"
  by (auto simp: runs_matching_def public_run_def)

section \<open>Properties\<close>

text \<open>
  A client that follows the cursors of \<open>runs.getEvents\<close> gets every event of the run that
  matches the filter exactly once, in the order of the sequence numbers, whatever the page
  size, when the tables satisfy the constraints of the schema.
\<close>

theorem getEvents_complete:
  assumes "db_wf d" and "select_run run_id tenantId d = Some row" and "0 < limit"
    and "length (events_matching tenantId run_id event_type d) < fuel"
  shows "follow (\<lambda>c. getEvents tenantId run_id event_type limit c d) fuel None
    = Some (sort_key et_seq (events_matching tenantId run_id event_type d))"
  using follow_asc_complete [OF distinct_event_seqs [OF assms(1)] assms(3,4)] assms(2) by (simp add: getEvents_def)

definition ex_run_row :: "string \<Rightarrow> run_row" where
  "ex_run_row t = \<lparr>rr_run_id = ''r'', rr_tenant_id = t, rr_agent_name = JStr ''a'', rr_agent_role = JNull, rr_environment = JNull,
     rr_policy_pack_id = JNull, rr_status = ''started'', rr_event_count = 2, rr_last_seq = 2, rr_last_hash = None,
     rr_total_cost_usd = 0, rr_total_input_tokens = 0, rr_total_output_tokens = 0, rr_total_call_count = 0,
     rr_started_at = None, rr_ended_at = None, rr_created_at = 0, rr_updated_at = 0\<rparr>"

definition ex_event_row :: "int \<Rightarrow> event_row" where
  "ex_event_row n = \<lparr>er_run_id = ''r'', er_tenant_id = ''t'', er_schema_version = 1, er_event_type = ''e'', er_seq = n,
     er_hash = [], er_hash_prev = None, er_ts = 0, er_cols = [], er_raw_line = None\<rparr>"

theorem getEvents_complete_witness:
  "follow (\<lambda>c. getEvents ''t'' ''r'' None 1 c \<lparr>db_runs = [ex_run_row ''t''], db_events = [ex_event_row 2, ex_event_row 1]\<rparr>) 3 None
    = Some [item_of_row (ex_event_row 1), item_of_row (ex_event_row 2)]"
proof -
  let ?d = "\<lparr>db_runs = [ex_run_row ''t''], db_events = [ex_event_row 2, ex_event_row 1]\<rparr>"
  have m: "events_matching ''t'' ''r'' None ?d = [item_of_row (ex_event_row 2), item_of_row (ex_event_row 1)]"
    by (simp add: events_matching_def select_events_def ex_event_row_def)
  have w: "db_wf ?d" by (simp add: db_wf_def run_exists_def ex_run_row_def ex_event_row_def)
  have s: "select_run ''r'' ''t'' ?d = Some (ex_run_row ''t'')" by (simp add: select_run_def ex_run_row_def)
  have o: "sort_key et_seq [item_of_row (ex_event_row 2), item_of_row (ex_event_row 1)]
      = [item_of_row (ex_event_row 1), item_of_row (ex_event_row 2)]" by (simp add: item_of_row_def ex_event_row_def)
  show ?thesis unfolding o [symmetric] unfolding m [symmetric] by (rule getEvents_complete [OF w s]) (simp_all add: m)
qed

end
