(* ===== verification/Triggers.thy ===== *)
theory Triggers
  imports LSG_Prelude Complex_Main
begin

text \<open>
  \<open>packages/backend/src/lib/triggers.ts\<close>: when a supervisor session is started.
  Costs and rates, doubles in the source, are exact rationals here, so the
  thresholds 0.8, 0.7 and 0.5 are the fractions they stand for.
\<close>

section \<open>Data\<close>

record TriggerResult =
  tr_trigger :: string
  tr_priority :: int

record RunningCounters =
  deny_count :: nat
  total_decisions :: nat
  rule_id_counts :: "string \<rightharpoonup> nat"

record trigger_run =
  trun_status :: string
  trun_total_cost_usd :: rat

record trigger_event =
  tev_event_type :: string
  tev_decision :: "string option"
  tev_rule_id :: "string option"

definition BUILTIN_PREFIX :: string where "BUILTIN_PREFIX = ''__builtin_''"
definition HIGH_COST_FRACTION :: rat where "HIGH_COST_FRACTION = 8 / 10"
definition BUDGET_WARNING_FRACTION :: rat where "BUDGET_WARNING_FRACTION = 7 / 10"
definition DENY_SPIKE_MULTIPLIER :: rat where "DENY_SPIKE_MULTIPLIER = 3"
definition DENY_SPIKE_MIN_COUNT :: nat where "DENY_SPIKE_MIN_COUNT = 5"
definition DENY_SPIKE_ABSOLUTE_FALLBACK :: rat where "DENY_SPIKE_ABSOLUTE_FALLBACK = 1 / 2"
definition REPEATED_RULE_THRESHOLD :: nat where "REPEATED_RULE_THRESHOLD = 3"

lemmas trigger_constants =
  BUILTIN_PREFIX_def HIGH_COST_FRACTION_def BUDGET_WARNING_FRACTION_def DENY_SPIKE_MULTIPLIER_def
  DENY_SPIKE_MIN_COUNT_def DENY_SPIKE_ABSOLUTE_FALLBACK_def REPEATED_RULE_THRESHOLD_def

section \<open>Operations\<close>

definition fire :: "string \<Rightarrow> int \<Rightarrow> TriggerResult" where
  "fire t p = \<lparr>tr_trigger = t, tr_priority = p\<rparr>"

definition sortByPriority :: "TriggerResult list \<Rightarrow> TriggerResult list" where
  "sortByPriority ts = sort_key tr_priority ts"

definition over_cap :: "rat \<Rightarrow> rat option \<Rightarrow> rat \<Rightarrow> bool" where
  "over_cap fraction cap cost = (case cap of None \<Rightarrow> False | Some c \<Rightarrow> cost > fraction * c)"

definition evaluatePostRunTriggers ::
  "trigger_run \<Rightarrow> trigger_event list \<Rightarrow> rat option \<Rightarrow> TriggerResult list" where
  "evaluatePostRunTriggers run events budgetHardCap = sortByPriority
    ((if trun_status run = ''terminated_budget'' then [fire ''terminated_budget'' 1] else [])
     @ (if trun_status run = ''terminated_loop'' then [fire ''terminated_loop'' 1] else [])
     @ (if over_cap HIGH_COST_FRACTION budgetHardCap (trun_total_cost_usd run)
        then [fire ''high_cost'' 2] else [])
     @ (if trun_status run = ''abandoned'' then [fire ''abandoned'' 3] else [])
     @ (if list_ex (\<lambda>e. tev_decision e = Some ''deny'') events
        then [fire ''deny_decisions'' 3] else []))"

definition deny_rate :: "RunningCounters \<Rightarrow> rat" where
  "deny_rate c = (if total_decisions c > 0
     then of_nat (deny_count c) / of_nat (total_decisions c) else 0)"

definition deny_spike :: "RunningCounters \<Rightarrow> rat option \<Rightarrow> bool" where
  "deny_spike c avg_deny_rate \<longleftrightarrow>
     deny_count c \<ge> DENY_SPIKE_MIN_COUNT \<and>
     deny_rate c > (case avg_deny_rate of
        Some r \<Rightarrow> DENY_SPIKE_MULTIPLIER * r
      | None \<Rightarrow> DENY_SPIKE_ABSOLUTE_FALLBACK)"

definition repeated_rule :: "RunningCounters \<Rightarrow> string option \<Rightarrow> bool" where
  "repeated_rule c rule_id = (case rule_id of
      None \<Rightarrow> False
    | Some r \<Rightarrow> \<not> startsWith r BUILTIN_PREFIX
        \<and> (case rule_id_counts c r of None \<Rightarrow> 0 | Some n \<Rightarrow> n) \<ge> REPEATED_RULE_THRESHOLD)"

definition evaluateMidRunTriggers ::
  "trigger_run \<Rightarrow> trigger_event \<Rightarrow> RunningCounters \<Rightarrow> rat option \<Rightarrow> rat option \<Rightarrow> TriggerResult list" where
  "evaluateMidRunTriggers run newEvent counters agentBaseline budgetHardCap = sortByPriority
    ((if over_cap BUDGET_WARNING_FRACTION budgetHardCap (trun_total_cost_usd run)
      then [fire ''budget_warning'' 2] else [])
     @ (if tev_event_type newEvent = ''loop_detected'' then [fire ''loop_detected'' 2] else [])
     @ (if deny_spike counters agentBaseline then [fire ''deny_spike'' 2] else [])
     @ (if repeated_rule counters (tev_rule_id newEvent) then [fire ''repeated_rule'' 3] else []))"

section \<open>Lemmas\<close>

lemma fire_eq_iff [simp]: "fire t p = fire t' p' \<longleftrightarrow> t = t' \<and> p = p'"
  by (simp add: fire_def)

lemma tr_priority_fire [simp]: "tr_priority (fire t p) = p" and tr_trigger_fire [simp]: "tr_trigger (fire t p) = t"
  by (simp_all add: fire_def)

lemma set_sortByPriority [simp]: "set (sortByPriority ts) = set ts"
  by (simp add: sortByPriority_def)

lemma sorted_sortByPriority: "sorted (map tr_priority (sortByPriority ts))"
  by (simp add: sortByPriority_def)

lemma distinct_sortByPriority [simp]: "distinct (sortByPriority ts) = distinct ts"
  by (simp add: sortByPriority_def)

lemma in_evaluatePostRunTriggers:
  "t \<in> set (evaluatePostRunTriggers run events cap) \<longleftrightarrow>
     (t = fire ''terminated_budget'' 1 \<and> trun_status run = ''terminated_budget'')
   \<or> (t = fire ''terminated_loop'' 1 \<and> trun_status run = ''terminated_loop'')
   \<or> (t = fire ''high_cost'' 2 \<and> over_cap HIGH_COST_FRACTION cap (trun_total_cost_usd run))
   \<or> (t = fire ''abandoned'' 3 \<and> trun_status run = ''abandoned'')
   \<or> (t = fire ''deny_decisions'' 3 \<and> Some ''deny'' \<in> tev_decision ` set events)"
proof -
  have "list_ex (\<lambda>e. tev_decision e = Some ''deny'') events \<longleftrightarrow> Some ''deny'' \<in> tev_decision ` set events"
    by (auto simp: list_ex_iff image_iff) (metis)
  then show ?thesis
    unfolding evaluatePostRunTriggers_def set_sortByPriority set_append by auto
qed

section \<open>Properties\<close>

text \<open>
  The post-run triggers come out most urgent first and without repetition; a
  critical one is present exactly for a run terminated by budget or by loop, and
  \<open>deny_decisions\<close> exactly when some event was denied.
\<close>

theorem evaluatePostRunTriggers_correct:
  "sorted (map tr_priority (evaluatePostRunTriggers run events cap))
   \<and> distinct (evaluatePostRunTriggers run events cap)
   \<and> ((\<exists>t. t \<in> set (evaluatePostRunTriggers run events cap) \<and> tr_priority t = 1)
        \<longleftrightarrow> trun_status run \<in> {''terminated_budget'', ''terminated_loop''})
   \<and> (fire ''deny_decisions'' 3 \<in> set (evaluatePostRunTriggers run events cap)
        \<longleftrightarrow> Some ''deny'' \<in> tev_decision ` set events)
   \<and> (fire ''high_cost'' 2 \<in> set (evaluatePostRunTriggers run events cap)
        \<longleftrightarrow> (\<exists>c. cap = Some c \<and> trun_total_cost_usd run > 8 / 10 * c))"
proof (intro conjI)
  show "sorted (map tr_priority (evaluatePostRunTriggers run events cap))"
    unfolding evaluatePostRunTriggers_def by (rule sorted_sortByPriority)
  show "distinct (evaluatePostRunTriggers run events cap)"
    by (simp add: evaluatePostRunTriggers_def)
  show "(\<exists>t. t \<in> set (evaluatePostRunTriggers run events cap) \<and> tr_priority t = 1)
        \<longleftrightarrow> trun_status run \<in> {''terminated_budget'', ''terminated_loop''}"
    unfolding in_evaluatePostRunTriggers by (simp add: conj_disj_distribR ex_disj_distrib conj_assoc)
  show "fire ''deny_decisions'' 3 \<in> set (evaluatePostRunTriggers run events cap)
        \<longleftrightarrow> Some ''deny'' \<in> tev_decision ` set events"
    unfolding in_evaluatePostRunTriggers by simp
  show "fire ''high_cost'' 2 \<in> set (evaluatePostRunTriggers run events cap)
        \<longleftrightarrow> (\<exists>c. cap = Some c \<and> trun_total_cost_usd run > 8 / 10 * c)"
    unfolding in_evaluatePostRunTriggers
    by (simp add: over_cap_def HIGH_COST_FRACTION_def split: option.splits)
qed

text \<open>
  Mid-run, no trigger is critical, the list is sorted by urgency, a built-in rule
  never counts as a repeated one, and with no baseline a spike of denials needs at least
  five of them and more than half of all decisions.
\<close>

theorem evaluateMidRunTriggers_correct:
  "sorted (map tr_priority (evaluateMidRunTriggers run ev c base cap))
   \<and> length (evaluateMidRunTriggers run ev c base cap) \<le> 4
   \<and> tr_priority ` set (evaluateMidRunTriggers run ev c base cap) \<subseteq> {2, 3}
   \<and> (fire ''repeated_rule'' 3 \<in> set (evaluateMidRunTriggers run ev c base cap)
        \<longleftrightarrow> (\<exists>r n. tev_rule_id ev = Some r \<and> \<not> startsWith r ''__builtin_''
               \<and> rule_id_counts c r = Some n \<and> n \<ge> 3))
   \<and> (fire ''deny_spike'' 2 \<in> set (evaluateMidRunTriggers run ev c None cap)
        \<longleftrightarrow> deny_count c \<ge> 5 \<and> 2 * deny_count c > total_decisions c \<and> total_decisions c > 0)"
proof (intro conjI)
  show "sorted (map tr_priority (evaluateMidRunTriggers run ev c base cap))"
    unfolding evaluateMidRunTriggers_def by (rule sorted_sortByPriority)
  show "length (evaluateMidRunTriggers run ev c base cap) \<le> 4"
    by (simp add: evaluateMidRunTriggers_def sortByPriority_def)
  show "tr_priority ` set (evaluateMidRunTriggers run ev c base cap) \<subseteq> {2, 3}"
    by (auto simp: evaluateMidRunTriggers_def)
  have rep: "repeated_rule c (tev_rule_id ev) \<longleftrightarrow> (\<exists>r n. tev_rule_id ev = Some r
      \<and> \<not> startsWith r ''__builtin_'' \<and> rule_id_counts c r = Some n \<and> n \<ge> 3)"
    by (auto simp: repeated_rule_def trigger_constants split: option.splits)
  show "fire ''repeated_rule'' 3 \<in> set (evaluateMidRunTriggers run ev c base cap)
        \<longleftrightarrow> (\<exists>r n. tev_rule_id ev = Some r \<and> \<not> startsWith r ''__builtin_''
               \<and> rule_id_counts c r = Some n \<and> n \<ge> 3)"
    unfolding rep [symmetric] by (auto simp: evaluateMidRunTriggers_def)
  have spike: "deny_spike c None \<longleftrightarrow>
      deny_count c \<ge> 5 \<and> 2 * deny_count c > total_decisions c \<and> total_decisions c > 0"
  proof (cases "total_decisions c = 0")
    case False
    have "(1 / 2 :: rat) < of_nat (deny_count c) / of_nat (total_decisions c)
        \<longleftrightarrow> (of_nat (total_decisions c) :: rat) < of_nat (2 * deny_count c)"
      using False by (simp add: field_simps)
    then show ?thesis
      using False by (auto simp: deny_spike_def deny_rate_def trigger_constants simp del: of_nat_mult)
  qed (auto simp: deny_spike_def deny_rate_def trigger_constants)
  show "fire ''deny_spike'' 2 \<in> set (evaluateMidRunTriggers run ev c None cap)
        \<longleftrightarrow> deny_count c \<ge> 5 \<and> 2 * deny_count c > total_decisions c \<and> total_decisions c > 0"
    unfolding spike [symmetric] by (auto simp: evaluateMidRunTriggers_def)
qed

end
