(* ===== verification/Ingest.thy ===== *)
theory Ingest
  imports Backend_Db Triggers Trigger_Queue
begin

text \<open>
  \<open>packages/backend/src/trpc/routers/events.ts\<close>: the batch ingest of audit events.
  \<open>ingest\<close> is the whole handler. It runs inside the transaction the procedure's
  middleware opens, so an error leaves the database as it was: the result is either an
  error or the answer together with the new database.

  Parameters (\<open>ingest_env\<close>): SHA-256, \<open>JSON.parse\<close>, zod's \<open>uuid\<close> and \<open>datetime\<close> formats
  and its message texts, \<open>Date\<close> parsing, and the current time.
\<close>

section \<open>Environment and data\<close>

record ingest_env =
  ie_sha256 :: "string \<Rightarrow> string"
  ie_json_parse :: "string \<Rightarrow> jsval option"
  ie_is_uuid :: "string \<Rightarrow> bool"
  ie_is_datetime :: "string \<Rightarrow> bool"
  ie_zod_message :: "string \<Rightarrow> jsval \<Rightarrow> string"
  ie_date :: "string \<Rightarrow> int"
  ie_now :: int
  ie_now_iso :: string

text \<open>\<open>ParsedEvent\<close>; the optional fields are looked up by name, \<open>JUndefined\<close> when absent.\<close>

record ParsedEvent =
  pe_event_type :: string
  pe_run_id :: string
  pe_seq :: int
  pe_ts :: string
  pe_hash :: string
  pe_hash_prev :: "string option"
  pe_opt :: "string \<Rightarrow> jsval"

record parsed_item =
  pi_event :: ParsedEvent
  pi_raw :: string

record ingest_out =
  io_run_id :: string
  io_inserted :: nat
  io_total_in_batch :: nat
  io_skipped :: int
  io_last_seq :: int
  io_dispatched :: "TriggerMessage list"  \<comment> \<open>passed to \<open>dispatchTriggerDirect\<close>\<close>

section \<open>parsedEventSchema\<close>

definition is_hex_char :: "char \<Rightarrow> bool" where
  "is_hex_char c \<longleftrightarrow> c \<in> set ''0123456789abcdef''"

definition is_hex64 :: "string \<Rightarrow> bool" where
  "is_hex64 s \<longleftrightarrow> length s = 64 \<and> list_all is_hex_char s"

definition z_string :: "(string \<Rightarrow> bool) \<Rightarrow> jsval \<Rightarrow> bool" where
  "z_string P v = (case v of JStr s \<Rightarrow> P s | _ \<Rightarrow> False)"

definition z_number :: "(jnum \<Rightarrow> bool) \<Rightarrow> jsval \<Rightarrow> bool" where
  "z_number P v = (case v of JNum x \<Rightarrow> x \<noteq> NaN \<and> P x | _ \<Rightarrow> False)"

definition z_nullable :: "(jsval \<Rightarrow> bool) \<Rightarrow> jsval \<Rightarrow> bool" where
  "z_nullable P v \<longleftrightarrow> v = JNull \<or> P v"

definition z_optional :: "(jsval \<Rightarrow> bool) \<Rightarrow> jsval \<Rightarrow> bool" where
  "z_optional P v \<longleftrightarrow> v = JUndefined \<or> v = JNull \<or> P v"

definition z_strings :: "jsval \<Rightarrow> bool" where
  "z_strings v = (case v of JArr vs \<Rightarrow> list_all (z_string (\<lambda>_. True)) vs | _ \<Rightarrow> False)"

definition z_int :: "jnum \<Rightarrow> bool" where
  "z_int x \<longleftrightarrow> isInteger x"

text \<open>The fields in the order of the schema, each with its check.\<close>

definition parsedEventSchema :: "ingest_env \<Rightarrow> (string \<times> (jsval \<Rightarrow> bool)) list" where
  "parsedEventSchema env =
    [(''schema_version'', \<lambda>v. v = JNum (Dec False 1 0)),
     (''event_type'', z_string (\<lambda>s. s \<noteq> [])),
     (''run_id'', z_string (ie_is_uuid env)),
     (''seq'', z_number (\<lambda>x. z_int x \<and> int_val x \<ge> 1)),
     (''ts'', z_string (ie_is_datetime env)),
     (''hash'', z_string is_hex64),
     (''hash_prev'', z_nullable (z_string is_hex64))]
    @ map (\<lambda>k. (k, z_optional (z_string (\<lambda>_. True))))
      [''agent_name'', ''agent_role'', ''environment'', ''policy_pack_id'', ''tool'', ''args_hash'']
    @ [(''args_redacted'', \<lambda>_. True)]
    @ map (\<lambda>k. (k, z_optional (z_string (\<lambda>_. True))))
      [''decision'', ''rule_id'', ''reason'', ''model'']
    @ [(''input_tokens'', z_optional (z_number z_int)),
       (''output_tokens'', z_optional (z_number z_int)),
       (''estimated_cost_usd'', z_optional (z_number (\<lambda>_. True))),
       (''latency_ms'', z_optional (z_number (\<lambda>_. True)))]
    @ map (\<lambda>k. (k, z_optional (z_string (\<lambda>_. True))))
      [''run_status'', ''dimension'', ''loop_rule'', ''loop_action'']
    @ [(''cooldown_ms'', z_optional (z_number z_int)), (''budget'', \<lambda>_. True)]
    @ map (\<lambda>k. (k, z_optional (z_string (\<lambda>_. True))))
      [''supervisor_run_id'', ''trigger'', ''trigger_run_id'', ''proposal_id'', ''proposal_type'',
       ''target_agent'', ''rationale'']
    @ [(''confidence'', z_optional (z_number (\<lambda>_. True))),
       (''supporting_runs'', z_optional z_strings)]
    @ map (\<lambda>k. (k, z_optional (z_string (\<lambda>_. True))))
      [''status'', ''escalation_id'', ''severity'', ''recommendation'']
    @ [(''timeout_seconds'', z_optional (z_number z_int)),
       (''timeout_action'', z_optional (z_string (\<lambda>_. True))),
       (''call_seq_fingerprint'', z_optional (z_string is_hex64)),
       (''inter_call_ms'', z_optional (z_number (\<lambda>x. z_int x \<and> int_val x \<ge> 0))),
       (''token_rate_delta'', z_optional (z_number (\<lambda>x. num_val x \<ge> 0))),
       (''param_shape_hash'', z_optional (z_string is_hex64))]"

definition required_fields :: "string list" where
  "required_fields =
    [''schema_version'', ''event_type'', ''run_id'', ''seq'', ''ts'', ''hash'', ''hash_prev'']"

definition safeParse :: "ingest_env \<Rightarrow> jsval \<Rightarrow> string + ParsedEvent" where
  "safeParse env v =
    (case v of
       JObj kvs \<Rightarrow>
         (case find (\<lambda>(k, p). \<not> p (jget v k)) (parsedEventSchema env) of
            Some (k, _) \<Rightarrow> Inl k
          | None \<Rightarrow> Inr
             \<lparr>pe_event_type = the (str_of (jget v ''event_type'')),
              pe_run_id = the (str_of (jget v ''run_id'')),
              pe_seq = (case jget v ''seq'' of JNum x \<Rightarrow> int_val x | _ \<Rightarrow> 0),
              pe_ts = the (str_of (jget v ''ts'')),
              pe_hash = the (str_of (jget v ''hash'')),
              pe_hash_prev = str_of (jget v ''hash_prev''),
              pe_opt = (\<lambda>k. if k \<in> set (map fst (parsedEventSchema env)) \<and> k \<notin> set required_fields
                 then jget v k else JUndefined)\<rparr>)
     | _ \<Rightarrow> Inl [])"

definition show_seq :: "jsval \<Rightarrow> string" where
  "show_seq v = (if v = JNull \<or> v = JUndefined then ''?'' else show_val v)"

definition parseEventLine :: "ingest_env \<Rightarrow> string \<Rightarrow> nat \<Rightarrow> api_error + ParsedEvent" where
  "parseEventLine env line lineIndex =
    (case ie_json_parse env line of
       None \<Rightarrow> Inl (TRPCError BAD_REQUEST (''Line '' @ show_nat (lineIndex + 1) @ '': invalid JSON''))
     | Some v \<Rightarrow>
        (case safeParse env v of
           Inl path \<Rightarrow> Inl (TRPCError BAD_REQUEST (''Line '' @ show_nat (lineIndex + 1) @ '' (seq=''
             @ show_seq (jget v ''seq'') @ ''): '' @ ie_zod_message env path v @ '' at path: '' @ path))
         | Inr e \<Rightarrow> Inr e))"

section \<open>Chain verification of a batch\<close>

text \<open>
  The loop of \<open>verifyBatchChain\<close>. \<open>first\<close> is \<open>i === 0\<close>; \<open>expected\<close> is \<open>prevRunHash ?? null\<close>
  for the first event and the hash of the preceding event afterwards.
\<close>

fun verify_batch_from ::
  "(string \<Rightarrow> string) \<Rightarrow> bool \<Rightarrow> string option \<Rightarrow> parsed_item list \<Rightarrow> api_error + unit" where
  "verify_batch_from sha256 first expected [] = Inr ()"
| "verify_batch_from sha256 first expected (it # its) =
    (let ev = pi_event it; computed = sha256 (pi_raw it) in
     if computed \<noteq> pe_hash ev then
       Inl (TRPCError BAD_REQUEST (''Chain integrity failure at seq='' @ show_int (pe_seq ev)
         @ '': stored hash does not match computed hash of raw line. Expected='' @ computed
         @ '', stored='' @ pe_hash ev))
     else if pe_hash_prev ev \<noteq> expected then
       Inl (TRPCError BAD_REQUEST (''Chain link failure at seq='' @ show_int (pe_seq ev)
         @ '': hash_prev='' @ show_nullable (pe_hash_prev ev)
         @ (if first then '' does not match expected='' @ show_nullable expected
              @ '' (run continuation check)''
            else '' does not match previous event hash='' @ show_nullable expected)))
     else verify_batch_from sha256 False (Some (pe_hash ev)) its)"

definition verifyBatchChain ::
  "(string \<Rightarrow> string) \<Rightarrow> parsed_item list \<Rightarrow> string option \<Rightarrow> api_error + unit" where
  "verifyBatchChain sha256 sortedEvents prevRunHash =
     verify_batch_from sha256 True prevRunHash sortedEvents"

section \<open>The steps of the handler\<close>

text \<open>Step 1, with the zod check on the input.\<close>

definition parse_batch :: "ingest_env \<Rightarrow> string list \<Rightarrow> api_error + parsed_item list" where
  "parse_batch env lines =
    (if lines = [] \<or> length lines > 1000 \<or> [] \<in> set lines
     then Inl (TRPCError BAD_REQUEST ''invalid input: lines'')
     else map_result (\<lambda>(i, line).
        bind_result (parseEventLine env (trimEnd line) i)
          (\<lambda>e. Inr \<lparr>pi_event = e, pi_raw = trimEnd line\<rparr>)) (enumerate 0 lines))"

text \<open>Step 4: duplicates and gaps.\<close>

fun check_seqs :: "int list \<Rightarrow> api_error + unit" where
  "check_seqs (prev # nxt # rest) =
    (if nxt = prev then
       Inl (TRPCError BAD_REQUEST (''Duplicate seq='' @ show_int nxt @ '' within batch''))
     else if nxt \<noteq> prev + 1 then
       Inl (TRPCError BAD_REQUEST (''Seq gap in batch: expected seq='' @ show_int (prev + 1)
         @ '', got seq='' @ show_int nxt))
     else check_seqs (nxt # rest))"
| "check_seqs _ = Inr ()"

text \<open>Step 7: the status a batch gives to its run; later events win.\<close>

definition engine_status :: "jsval \<Rightarrow> string" where
  "engine_status s =
    (if s = JStr ''budget_exceeded'' then ''terminated_budget''
     else if s = JStr ''loop_terminated'' then ''terminated_loop''
     else if s = JStr ''policy_terminated'' then ''terminated_policy''
     else ''completed'')"

definition status_step :: "string option \<Rightarrow> ParsedEvent \<Rightarrow> string option" where
  "status_step st ev =
    (if pe_event_type ev = ''run_started'' then Some ''started''
     else if pe_event_type ev = ''run_ended'' then Some (engine_status (pe_opt ev ''run_status''))
     else st)"

definition batch_status :: "parsed_item list \<Rightarrow> string option" where
  "batch_status its = foldl status_step None (map pi_event its)"

text \<open>The aggregates of a batch. A missing or zero number adds nothing.\<close>

definition cost_of :: "ParsedEvent \<Rightarrow> rat" where
  "cost_of ev = (case pe_opt ev ''estimated_cost_usd'' of JNum x \<Rightarrow> num_val x | _ \<Rightarrow> 0)"

definition tokens_of :: "string \<Rightarrow> ParsedEvent \<Rightarrow> int" where
  "tokens_of k ev = (case pe_opt ev k of JNum x \<Rightarrow> int_val x | _ \<Rightarrow> 0)"

definition is_call :: "ParsedEvent \<Rightarrow> bool" where
  "is_call ev \<longleftrightarrow> pe_event_type ev = ''policy_decision''
     \<and> (case pe_opt ev ''decision'' of JStr s \<Rightarrow> s \<noteq> [] | _ \<Rightarrow> False)"

definition ts_of_last :: "ingest_env \<Rightarrow> string \<Rightarrow> parsed_item list \<Rightarrow> int option" where
  "ts_of_last env ty its = map_option (\<lambda>it. ie_date env (pe_ts (pi_event it)))
     (last_opt (filter (\<lambda>it. pe_event_type (pi_event it) = ty) its))"

text \<open>Step 9: the columns written by name, in the order of the insert.\<close>

definition event_columns :: "string list" where
  "event_columns =
    [''agent_name'', ''agent_role'', ''tool'', ''args_hash'', ''args_redacted'', ''decision'',
     ''rule_id'', ''reason'', ''model'', ''input_tokens'', ''output_tokens'',
     ''estimated_cost_usd'', ''latency_ms'', ''policy_pack_id'', ''environment'', ''run_status'',
     ''dimension'', ''loop_rule'', ''loop_action'', ''cooldown_ms'', ''budget'',
     ''supervisor_run_id'', ''trigger'', ''trigger_run_id'', ''proposal_id'', ''proposal_type'',
     ''target_agent'', ''rationale'', ''confidence'', ''supporting_runs'', ''status'',
     ''escalation_id'', ''severity'', ''recommendation'', ''timeout_seconds'', ''timeout_action'',
     ''call_seq_fingerprint'', ''inter_call_ms'', ''token_rate_delta'', ''param_shape_hash'']"

definition event_row_of :: "ingest_env \<Rightarrow> string \<Rightarrow> parsed_item \<Rightarrow> event_row" where
  "event_row_of env tenantId it = (let ev = pi_event it in
     \<lparr>er_run_id = pe_run_id ev, er_tenant_id = tenantId, er_schema_version = 1,
      er_event_type = pe_event_type ev, er_seq = pe_seq ev, er_hash = pe_hash ev,
      er_hash_prev = pe_hash_prev ev, er_ts = ie_date env (pe_ts ev),
      er_cols = map (\<lambda>c. (c, nullish_null (pe_opt ev c))) event_columns,
      er_raw_line = Some (pi_raw it)\<rparr>)"

definition BATCH_SIZE :: nat where "BATCH_SIZE = 100"

function insert_batches :: "event_row list \<Rightarrow> db \<Rightarrow> api_error + nat \<times> db" where
  "insert_batches rows d =
    (if rows = [] then Inr (0, d)
     else bind_result (insert_events (take BATCH_SIZE rows) d) (\<lambda>(n, d').
       bind_result (insert_batches (drop BATCH_SIZE rows) d') (\<lambda>(m, d''). Inr (n + m, d''))))"
  by pat_completeness auto
termination
  by (relation "measure (\<lambda>(rows, d). length rows)") (auto simp: BATCH_SIZE_def)

declare insert_batches.simps [simp del]

text \<open>Steps 8a and 8b.\<close>

definition updated_run :: "ingest_env \<Rightarrow> parsed_item list \<Rightarrow> run_row \<Rightarrow> run_row" where
  "updated_run env its r = (let evs = map pi_event its; lastEvent = pi_event (last its) in
     r\<lparr>rr_last_seq := pe_seq lastEvent,
       rr_last_hash := Some (pe_hash lastEvent),
       rr_event_count := rr_event_count r + int (length its),
       rr_total_cost_usd := rr_total_cost_usd r + sum_list (map cost_of evs),
       rr_total_input_tokens := rr_total_input_tokens r + sum_list (map (tokens_of ''input_tokens'') evs),
       rr_total_output_tokens := rr_total_output_tokens r + sum_list (map (tokens_of ''output_tokens'') evs),
       rr_total_call_count := rr_total_call_count r + int (length (filter is_call evs)),
       rr_status := (case batch_status its of None \<Rightarrow> rr_status r | Some s \<Rightarrow> s),
       rr_ended_at := (case ts_of_last env ''run_ended'' its of None \<Rightarrow> rr_ended_at r | Some t \<Rightarrow> Some t),
       rr_updated_at := ie_now env\<rparr>)"

definition created_run :: "ingest_env \<Rightarrow> string \<Rightarrow> string \<Rightarrow> parsed_item list \<Rightarrow> run_row" where
  "created_run env runId tenantId its =
    (let evs = map pi_event its; firstEvent = pi_event (hd its); lastEvent = pi_event (last its) in
     \<lparr>rr_run_id = runId, rr_tenant_id = tenantId,
      rr_agent_name = nullish_null (pe_opt firstEvent ''agent_name''),
      rr_agent_role = nullish_null (pe_opt firstEvent ''agent_role''),
      rr_environment = nullish_null (pe_opt firstEvent ''environment''),
      rr_policy_pack_id = nullish_null (pe_opt firstEvent ''policy_pack_id''),
      rr_status = (case batch_status its of None \<Rightarrow> ''started'' | Some s \<Rightarrow> s),
      rr_event_count = int (length its),
      rr_last_seq = pe_seq lastEvent,
      rr_last_hash = Some (pe_hash lastEvent),
      rr_total_cost_usd = sum_list (map cost_of evs),
      rr_total_input_tokens = sum_list (map (tokens_of ''input_tokens'') evs),
      rr_total_output_tokens = sum_list (map (tokens_of ''output_tokens'') evs),
      rr_total_call_count = int (length (filter is_call evs)),
      rr_started_at = Some (case ts_of_last env ''run_started'' its of
         None \<Rightarrow> ie_date env (pe_ts firstEvent) | Some t \<Rightarrow> t),
      rr_ended_at = ts_of_last env ''run_ended'' its, rr_created_at = ie_now env,
      rr_updated_at = ie_now env\<rparr>)"

text \<open>Post-run triggers for a run that is now in a terminal status.\<close>

definition terminalStatuses :: "string list" where
  "terminalStatuses =
    [''completed'', ''terminated_budget'', ''terminated_loop'', ''terminated_policy'', ''abandoned'']"

definition ingest_triggers ::
  "ingest_env \<Rightarrow> string \<Rightarrow> string \<Rightarrow> string \<Rightarrow> rat \<Rightarrow> parsed_item list \<Rightarrow> TriggerMessage list" where
  "ingest_triggers env runId tenantId finalStatus totalCost its =
    (if finalStatus \<in> set terminalStatuses then
       map (\<lambda>t. \<lparr>tm_trigger = tr_trigger t, tm_trigger_run_id = runId, tm_tenant_id = tenantId,
           tm_priority = tr_priority t, tm_enqueued_at = ie_now_iso env\<rparr>)
         (evaluatePostRunTriggers \<lparr>trun_status = finalStatus, trun_total_cost_usd = totalCost\<rparr>
           (map (\<lambda>it. \<lparr>tev_event_type = pe_event_type (pi_event it),
              tev_decision = str_of (pe_opt (pi_event it) ''decision''), tev_rule_id = None\<rparr>) its)
           None)
     else [])"

section \<open>The handler\<close>

text \<open>Steps 2 to 4: one run, sorted by \<open>seq\<close>, no gap and no duplicate.\<close>

definition prepare_batch :: "parsed_item list \<Rightarrow> api_error + string \<times> parsed_item list" where
  "prepare_batch its =
    (let n = card ((\<lambda>it. pe_run_id (pi_event it)) ` set its) in
     if n > 1 then Inl (TRPCError BAD_REQUEST
        (''Batch must contain events from a single run. Found '' @ show_nat n @ '' distinct run_ids.''))
     else (case its of
        [] \<Rightarrow> Inl (TRPCError BAD_REQUEST ''No events parsed from batch'')
      | it # _ \<Rightarrow>
         (let sorted_its = sort_key (\<lambda>it. pe_seq (pi_event it)) its in
          bind_result (check_seqs (map (\<lambda>it. pe_seq (pi_event it)) sorted_its))
            (\<lambda>_. Inr (pe_run_id (pi_event it), sorted_its)))))"

text \<open>Step 5: the work done on the transaction.\<close>

definition ingest_tx ::
  "ingest_env \<Rightarrow> string \<Rightarrow> string \<Rightarrow> parsed_item list \<Rightarrow> db \<Rightarrow> api_error + ingest_out \<times> db" where
  "ingest_tx env tenantId runId its d =
    (let existing = select_run runId tenantId d in
     if (case existing of None \<Rightarrow> False | Some r \<Rightarrow> rr_tenant_id r \<noteq> tenantId)
     then Inl (TRPCError FORBIDDEN ''Run does not belong to this tenant'')
     else bind_result (verifyBatchChain (ie_sha256 env) its
            (case existing of None \<Rightarrow> None | Some r \<Rightarrow> rr_last_hash r)) (\<lambda>_.
       let d1 = (case existing of
              Some _ \<Rightarrow> update_run runId tenantId (updated_run env its) d
            | None \<Rightarrow> insert_run (created_run env runId tenantId its) d);
           cost = (case existing of None \<Rightarrow> 0 | Some r \<Rightarrow> rr_total_cost_usd r)
             + sum_list (map cost_of (map pi_event its));
           finalStatus = (case batch_status its of Some s \<Rightarrow> s
             | None \<Rightarrow> (case existing of Some r \<Rightarrow> rr_status r | None \<Rightarrow> ''started''))
       in bind_result (insert_batches (map (event_row_of env tenantId) its) d1) (\<lambda>(n, d2).
         Inr (\<lparr>io_run_id = runId, io_inserted = n, io_total_in_batch = length its,
               io_skipped = int (length its) - int n,
               io_last_seq = pe_seq (pi_event (last its)),
               io_dispatched = ingest_triggers env runId tenantId finalStatus cost its\<rparr>, d2))))"

definition ingest ::
  "ingest_env \<Rightarrow> string \<Rightarrow> string list \<Rightarrow> db \<Rightarrow> api_error + ingest_out \<times> db" where
  "ingest env tenantId lines d =
     bind_result (parse_batch env lines) (\<lambda>its.
       bind_result (prepare_batch its) (\<lambda>(runId, sorted_its).
         ingest_tx env tenantId runId sorted_its d))"

end
