(* ===== verification/Supervisor_Tools.thy ===== *)
theory Supervisor_Tools
  imports Supervisor_Review Policy_Packs Runs_Router Ingest
begin

text \<open>
  \<open>packages/backend/src/trpc/routers/supervisor-tools.ts\<close>: the procedures the AI supervisor's
  process calls with an API key of scope \<open>supervisor\<close>. An input is the JSON value that was
  sent, checked by the procedure's zod schema (\<open>invalid_input\<close> stands for the zod error).
  Every procedure runs in one transaction: when it throws, the tables stay as they were. The
  baseline cache is memory of the process and not part of the transaction.

  Parameters (\<open>tools_env\<close>): the clock, the generated row id, zod's \<open>uuid\<close> and \<open>datetime\<close>
  formats, \<open>Date\<close> parsing, and the order in which the database returns rows of a query
  without \<open>ORDER BY\<close>.
\<close>

section \<open>State\<close>

record tools_env =
  tv_now :: int
  tv_newId :: string
  tv_is_uuid :: "string \<Rightarrow> bool"
  tv_is_datetime :: "string \<Rightarrow> bool"
  tv_date :: "string \<Rightarrow> int"
  tv_scan_events :: "event_row list \<Rightarrow> event_row list"
  tv_scan_runs :: "run_row list \<Rightarrow> run_row list"

record caller =
  ca_tenantId :: string
  ca_scopes :: "string list"

record tables =
  tb_db :: db
  tb_proposals :: "proposal_row list"
  tb_escalations :: "escalation_row list"
  tb_packs :: "policy_row list"

record baseline =
  bs_run_count :: nat
  bs_warning :: "string option"
  bs_message :: "string option"
  bs_avg_cost_usd :: "rat option"
  bs_median_cost_usd :: "rat option"
  bs_p95_cost_usd :: "rat option"
  bs_avg_call_count :: "rat option"
  bs_avg_input_tokens :: "rat option"
  bs_avg_output_tokens :: "rat option"
  bs_avg_deny_rate :: "rat option"
  bs_total_deny_count :: "nat option"
  bs_total_decision_count :: "nat option"

record BaselineCacheEntry =
  ce_data :: baseline
  ce_expiresAt :: int

type_synonym baseline_cache = "string \<rightharpoonup> BaselineCacheEntry"

definition BASELINE_CACHE_TTL_MS :: int where "BASELINE_CACHE_TTL_MS = 300000"

definition requireSupervisorScope :: "caller \<Rightarrow> api_error + unit" where
  "requireSupervisorScope c = (if ''supervisor'' \<in> set (ca_scopes c) then Inr ()
     else Inl (TRPCError FORBIDDEN (''API key missing required '' @ [CHR 0x22] @ ''supervisor'' @ [CHR 0x22] @ '' scope'')))"

section \<open>zod\<close>

text \<open>\<open>.optional()\<close> accepts \<open>undefined\<close> but not \<open>null\<close>.\<close>

definition z_opt :: "(jsval \<Rightarrow> bool) \<Rightarrow> jsval \<Rightarrow> bool" where
  "z_opt P v \<longleftrightarrow> v = JUndefined \<or> P v"

definition z_int_between :: "int \<Rightarrow> int \<Rightarrow> jsval \<Rightarrow> bool" where
  "z_int_between lo hi = z_number (\<lambda>x. z_int x \<and> lo \<le> int_val x \<and> int_val x \<le> hi)"

definition z_enum :: "string list \<Rightarrow> jsval \<Rightarrow> bool" where
  "z_enum xs = z_string (\<lambda>s. s \<in> set xs)"

definition z_object :: "(string \<times> (jsval \<Rightarrow> bool)) list \<Rightarrow> jsval \<Rightarrow> bool" where
  "z_object schema v = (case v of JObj _ \<Rightarrow> list_all (\<lambda>(k, P). P (jget v k)) schema | _ \<Rightarrow> False)"

abbreviation z_text :: "jsval \<Rightarrow> bool" where "z_text \<equiv> z_string (\<lambda>_. True)"
abbreviation z_text1 :: "jsval \<Rightarrow> bool" where "z_text1 \<equiv> z_string (\<lambda>s. s \<noteq> [])"
abbreviation z_unit_interval :: "jsval \<Rightarrow> bool" where
  "z_unit_interval \<equiv> z_number (\<lambda>x. isFinite x \<and> 0 \<le> num_val x \<and> num_val x \<le> 1)"

definition int_or :: "int \<Rightarrow> jsval \<Rightarrow> int" where
  "int_or dflt v = (case v of JNum x \<Rightarrow> int_val x | _ \<Rightarrow> dflt)"

definition rat_of :: "jsval \<Rightarrow> rat option" where
  "rat_of v = (case v of JNum x \<Rightarrow> Some (num_val x) | _ \<Rightarrow> None)"

definition strings_of :: "jsval \<Rightarrow> string list option" where
  "strings_of v = (case v of JArr vs \<Rightarrow> Some (List.map_filter str_of vs) | _ \<Rightarrow> None)"

section \<open>Queries\<close>

definition run_events_schema :: "tools_env \<Rightarrow> (string \<times> (jsval \<Rightarrow> bool)) list" where
  "run_events_schema env = [(''run_id'', z_string (tv_is_uuid env)),
     (''cursor'', z_opt (z_number (\<lambda>x. z_int x \<and> int_val x \<ge> 0))),
     (''limit'', z_opt (z_int_between 1 1000)), (''event_type'', z_opt z_text)]"

definition getRunEvents :: "tools_env \<Rightarrow> caller \<Rightarrow> jsval \<Rightarrow> tables \<Rightarrow> api_error + event_item list \<times> int option" where
  "getRunEvents env c v t =
    (if \<not> z_object (run_events_schema env) v then Inl invalid_input
     else bind_result (requireSupervisorScope c) (\<lambda>_.
       Inr (page_asc et_seq (nat (int_or 500 (jget v ''limit'')))
         (case jget v ''cursor'' of JNum x \<Rightarrow> Some (int_val x) | _ \<Rightarrow> None)
         (events_matching (ca_tenantId c) (the (str_of (jget v ''run_id''))) (str_of (jget v ''event_type'')) (tb_db t)))))"

definition average :: "rat list \<Rightarrow> rat" where
  "average xs = sum_list xs / of_nat (length xs)"

text \<open>\<open>PERCENTILE_CONT(p)\<close>: linear interpolation between the two values around position \<open>p * (n - 1)\<close>.\<close>

definition percentile_cont :: "rat \<Rightarrow> rat list \<Rightarrow> rat" where
  "percentile_cont p xs =
    (let s = sort xs; pos = p * of_nat (length s - 1); lo = nat \<lfloor>pos\<rfloor>; hi = nat \<lceil>pos\<rceil>
     in s ! lo + (pos - of_nat lo) * (s ! hi - s ! lo))"

definition er_col :: "event_row \<Rightarrow> string \<Rightarrow> jsval" where
  "er_col e k = (case map_of (er_cols e) k of None \<Rightarrow> JNull | Some v \<Rightarrow> nullish_null v)"

definition agent_runs :: "string \<Rightarrow> string \<Rightarrow> int \<Rightarrow> db \<Rightarrow> run_row list" where
  "agent_runs tenantId agent cutoff d =
     filter (\<lambda>r. rr_tenant_id r = tenantId \<and> rr_agent_name r = JStr agent \<and> rr_created_at r \<ge> cutoff) (db_runs d)"

definition compute_baseline :: "int \<Rightarrow> string \<Rightarrow> string \<Rightarrow> int \<Rightarrow> db \<Rightarrow> baseline" where
  "compute_baseline now tenantId agent days d =
    (let rs = agent_runs tenantId agent (now - days * 24 * 60 * 60 * 1000) d; n = length rs in
     if n < 3 then
       \<lparr>bs_run_count = n, bs_warning = Some ''INSUFFICIENT_DATA'',
        bs_message = Some (''Only '' @ show_nat n @ '' run(s) found for agent '' @ [CHR 0x22] @ agent @ [CHR 0x22] @ '' in the last ''
          @ show_int days @ '' days. At least 3 runs are needed for meaningful baselines.''),
        bs_avg_cost_usd = None, bs_median_cost_usd = None, bs_p95_cost_usd = None, bs_avg_call_count = None,
        bs_avg_input_tokens = None, bs_avg_output_tokens = None, bs_avg_deny_rate = None, bs_total_deny_count = None,
        bs_total_decision_count = None\<rparr>
     else
       (let es = filter (\<lambda>e. er_tenant_id e = tenantId \<and> er_run_id e \<in> rr_run_id ` set rs) (db_events d);
            denies = length (filter (\<lambda>e. er_col e ''decision'' = JStr ''deny'') es);
            decisions = length (filter (\<lambda>e. er_event_type e = ''policy_decision'') es);
            costs = map rr_total_cost_usd rs
        in \<lparr>bs_run_count = n, bs_warning = None, bs_message = None,
            bs_avg_cost_usd = Some (average costs), bs_median_cost_usd = Some (percentile_cont (1 / 2) costs),
            bs_p95_cost_usd = Some (percentile_cont (95 / 100) costs),
            bs_avg_call_count = Some (average (map (of_int \<circ> rr_total_call_count) rs)),
            bs_avg_input_tokens = Some (average (map (of_int \<circ> rr_total_input_tokens) rs)),
            bs_avg_output_tokens = Some (average (map (of_int \<circ> rr_total_output_tokens) rs)),
            bs_avg_deny_rate = Some (if decisions > 0 then of_nat denies / of_nat decisions else 0),
            bs_total_deny_count = Some denies, bs_total_decision_count = Some decisions\<rparr>))"

definition getCachedBaseline :: "int \<Rightarrow> string \<Rightarrow> baseline_cache \<Rightarrow> baseline option \<times> baseline_cache" where
  "getCachedBaseline now key cache =
    (case cache key of
       None \<Rightarrow> (None, cache)
     | Some e \<Rightarrow> if now > ce_expiresAt e then (None, cache(key := None)) else (Some (ce_data e), cache))"

definition setCachedBaseline :: "int \<Rightarrow> string \<Rightarrow> baseline \<Rightarrow> baseline_cache \<Rightarrow> baseline_cache" where
  "setCachedBaseline now key b cache = cache(key \<mapsto> \<lparr>ce_data = b, ce_expiresAt = now + BASELINE_CACHE_TTL_MS\<rparr>)"

definition cache_key :: "string \<Rightarrow> string \<Rightarrow> int \<Rightarrow> string" where
  "cache_key tenantId agent days = tenantId @ '':'' @ agent @ '':'' @ show_int days"

definition baseline_schema :: "(string \<times> (jsval \<Rightarrow> bool)) list" where
  "baseline_schema = [(''agent_name'', z_text1), (''lookback_days'', z_opt (z_int_between 1 365))]"

definition getAgentBaseline ::
  "tools_env \<Rightarrow> caller \<Rightarrow> jsval \<Rightarrow> tables \<Rightarrow> baseline_cache \<Rightarrow> (api_error + baseline) \<times> baseline_cache" where
  "getAgentBaseline env c v t cache =
    (if \<not> z_object baseline_schema v then (Inl invalid_input, cache)
     else (case requireSupervisorScope c of
         Inl e \<Rightarrow> (Inl e, cache)
       | Inr _ \<Rightarrow>
          (let agent = the (str_of (jget v ''agent_name'')); days = int_or 30 (jget v ''lookback_days'');
               key = cache_key (ca_tenantId c) agent days
           in case getCachedBaseline (tv_now env) key cache of
                (Some b, cache') \<Rightarrow> (Inr b, cache')
              | (None, cache') \<Rightarrow>
                  (let b = compute_baseline (tv_now env) (ca_tenantId c) agent days (tb_db t)
                   in (Inr b, setCachedBaseline (tv_now env) key b cache')))))"

definition getPolicyPack :: "tools_env \<Rightarrow> caller \<Rightarrow> jsval \<Rightarrow> tables \<Rightarrow> api_error + policy_row" where
  "getPolicyPack env c v t =
    (if \<not> z_object [(''id'', z_string (tv_is_uuid env))] v then Inl invalid_input
     else bind_result (requireSupervisorScope c) (\<lambda>_.
       case policies_get (ca_tenantId c) (the (str_of (jget v ''id''))) (tb_packs t) of
         None \<Rightarrow> Inl (TRPCError NOT_FOUND ''Policy pack not found'') | Some r \<Rightarrow> Inr r))"

definition similar_schema :: "(string \<times> (jsval \<Rightarrow> bool)) list" where
  "similar_schema = [(''fingerprint'', z_string is_hex64), (''scope'', z_opt (z_enum [''customer'', ''anonymous_aggregate''])),
     (''limit'', z_opt (z_int_between 1 50))]"

definition match_counts :: "string list \<Rightarrow> (string \<times> nat) list" where
  "match_counts ids = map (\<lambda>i. (i, length (filter (\<lambda>j. j = i) ids))) (rev (remdups (rev ids)))"

record similar_run =
  sr_run_id :: string
  sr_agent_name :: jsval
  sr_status :: string
  sr_total_cost_usd :: rat
  sr_total_call_count :: int
  sr_started_at :: "int option"
  sr_ended_at :: "int option"

definition similar_run_of :: "run_row \<Rightarrow> similar_run" where
  "similar_run_of r = \<lparr>sr_run_id = rr_run_id r, sr_agent_name = rr_agent_name r, sr_status = rr_status r,
     sr_total_cost_usd = rr_total_cost_usd r, sr_total_call_count = rr_total_call_count r, sr_started_at = rr_started_at r,
     sr_ended_at = rr_ended_at r\<rparr>"

definition querySimilarRuns ::
  "tools_env \<Rightarrow> caller \<Rightarrow> jsval \<Rightarrow> tables \<Rightarrow> api_error + similar_run list \<times> string option" where
  "querySimilarRuns env c v t =
    (if \<not> z_object similar_schema v then Inl invalid_input
     else bind_result (requireSupervisorScope c) (\<lambda>_.
       if jget v ''scope'' = JStr ''anonymous_aggregate'' then
         Inr ([], Some ''Cross-customer intelligence is available in v2. This query returned results from your own runs only.'')
       else
         (let limit = nat (int_or 10 (jget v ''limit'')); prefix = take 16 (the (str_of (jget v ''fingerprint'')));
              matching = take (limit * 5) (tv_scan_events env (filter (\<lambda>e. er_tenant_id e = ca_tenantId c
                \<and> (case er_col e ''call_seq_fingerprint'' of JStr f \<Rightarrow> take 16 f = prefix | _ \<Rightarrow> False)) (db_events (tb_db t))));
              ids = map fst (take limit (sort_key (\<lambda>p. - int (snd p)) (match_counts (map er_run_id matching))))
          in if ids = [] then Inr ([], None)
             else Inr (map similar_run_of (tv_scan_runs env
               (filter (\<lambda>r. rr_tenant_id r = ca_tenantId c \<and> rr_run_id r \<in> set ids) (db_runs (tb_db t)))), None))))"

section \<open>Mutations\<close>

definition proposal_schema :: "tools_env \<Rightarrow> (jsval \<Rightarrow> bool) \<Rightarrow> (string \<times> (jsval \<Rightarrow> bool)) list" where
  "proposal_schema env ztype = [(''proposal_id'', z_text1), (''supervisor_run_id'', z_text1),
     (''trigger_run_id'', z_opt (z_string (tv_is_uuid env))), (''proposal_type'', ztype), (''target_agent'', z_opt z_text),
     (''rationale'', z_text1), (''confidence'', z_opt z_unit_interval), (''supporting_runs'', z_opt z_strings)]"

definition proposal_row_of :: "tools_env \<Rightarrow> caller \<Rightarrow> jsval \<Rightarrow> proposal_row" where
  "proposal_row_of env c v =
    \<lparr>sp_id = tv_newId env, sp_tenant_id = ca_tenantId c, sp_proposal_id = the (str_of (jget v ''proposal_id'')),
     sp_supervisor_run_id = the (str_of (jget v ''supervisor_run_id'')), sp_trigger_run_id = str_of (jget v ''trigger_run_id''),
     sp_proposal_type = the (str_of (jget v ''proposal_type'')), sp_target_agent = str_of (jget v ''target_agent''),
     sp_rationale = the (str_of (jget v ''rationale'')), sp_confidence = rat_of (jget v ''confidence''),
     sp_supporting_runs = strings_of (jget v ''supporting_runs''), sp_proposed_changes = nullish_null (jget v ''proposed_changes''),
     sp_status = ''pending'', sp_reviewed_by = None, sp_reviewed_at = None, sp_review_notes = None,
     sp_created_at = tv_now env, sp_updated_at = tv_now env\<rparr>"

text \<open>The column \<open>proposal_id\<close> is unique over all tenants.\<close>

definition insert_proposal :: "proposal_row \<Rightarrow> tables \<Rightarrow> api_error + (string \<times> string) \<times> tables" where
  "insert_proposal r t =
    (if list_ex (\<lambda>x. sp_proposal_id x = sp_proposal_id r) (tb_proposals t)
     then Inl (UniqueViolation ''supervisor_proposals_proposal_id_unique'')
     else Inr ((sp_id r, sp_proposal_id r), t\<lparr>tb_proposals := tb_proposals t @ [r]\<rparr>))"

definition createProposal :: "tools_env \<Rightarrow> caller \<Rightarrow> jsval \<Rightarrow> tables \<Rightarrow> api_error + (string \<times> string) \<times> tables" where
  "createProposal env c v t =
    (if \<not> z_object (proposal_schema env z_text1) v then Inl invalid_input
     else bind_result (requireSupervisorScope c) (\<lambda>_. insert_proposal (proposal_row_of env c v) t))"

definition learning_types :: "string list" where
  "learning_types = [''incident_pattern'', ''agent_profile_update'', ''intervention_outcome'']"

definition recordLearning :: "tools_env \<Rightarrow> caller \<Rightarrow> jsval \<Rightarrow> tables \<Rightarrow> api_error + (string \<times> string) \<times> tables" where
  "recordLearning env c v t =
    (if \<not> z_object (proposal_schema env (z_enum learning_types)) v then Inl invalid_input
     else bind_result (requireSupervisorScope c) (\<lambda>_. insert_proposal
       ((proposal_row_of env c v)\<lparr>sp_status := ''approved'', sp_reviewed_at := Some (tv_now env),
          sp_review_notes := Some ''Auto-approved learning record''\<rparr>) t))"

definition escalation_schema :: "tools_env \<Rightarrow> (string \<times> (jsval \<Rightarrow> bool)) list" where
  "escalation_schema env = [(''escalation_id'', z_text1), (''supervisor_run_id'', z_text1),
     (''trigger_run_id'', z_opt (z_string (tv_is_uuid env))), (''severity'', z_enum [''low'', ''medium'', ''high'', ''critical'']),
     (''rationale'', z_text1), (''recommendation'', z_opt z_text), (''confidence'', z_opt z_unit_interval),
     (''supporting_runs'', z_opt z_strings), (''timeout_seconds'', z_opt (z_number (\<lambda>x. z_int x \<and> int_val x \<ge> 0))),
     (''timeout_action'', z_opt (z_enum [''deny'', ''allow'', ''kill'']))]"

definition escalation_row_of :: "tools_env \<Rightarrow> caller \<Rightarrow> jsval \<Rightarrow> escalation_row" where
  "escalation_row_of env c v =
    \<lparr>se_id = tv_newId env, se_tenant_id = ca_tenantId c, se_escalation_id = the (str_of (jget v ''escalation_id'')),
     se_supervisor_run_id = the (str_of (jget v ''supervisor_run_id'')), se_trigger_run_id = str_of (jget v ''trigger_run_id''),
     se_severity = the (str_of (jget v ''severity'')), se_rationale = the (str_of (jget v ''rationale'')),
     se_recommendation = str_of (jget v ''recommendation''), se_confidence = rat_of (jget v ''confidence''),
     se_supporting_runs = strings_of (jget v ''supporting_runs''),
     se_timeout_seconds = (case jget v ''timeout_seconds'' of JNum x \<Rightarrow> Some (int_val x) | _ \<Rightarrow> None),
     se_timeout_action = str_of (jget v ''timeout_action''), se_status = ''open'', se_acknowledged_by = None,
     se_acknowledged_at = None, se_resolution_notes = None, se_created_at = tv_now env, se_updated_at = tv_now env\<rparr>"

definition createEscalation :: "tools_env \<Rightarrow> caller \<Rightarrow> jsval \<Rightarrow> tables \<Rightarrow> api_error + (string \<times> string) \<times> tables" where
  "createEscalation env c v t =
    (if \<not> z_object (escalation_schema env) v then Inl invalid_input
     else bind_result (requireSupervisorScope c) (\<lambda>_.
       (let r = escalation_row_of env c v in
        if list_ex (\<lambda>x. se_escalation_id x = se_escalation_id r) (tb_escalations t)
        then Inl (UniqueViolation ''supervisor_escalations_escalation_id_unique'')
        else Inr ((se_id r, se_escalation_id r), t\<lparr>tb_escalations := tb_escalations t @ [r]\<rparr>))))"

definition emit_schema :: "tools_env \<Rightarrow> (string \<times> (jsval \<Rightarrow> bool)) list" where
  "emit_schema env = [(''run_id'', z_string (tv_is_uuid env)), (''schema_version'', \<lambda>v. v = JNum (Dec False 1 0)),
     (''event_type'', z_text1), (''seq'', z_number (\<lambda>x. z_int x \<and> int_val x \<ge> 1)), (''ts'', z_string (tv_is_datetime env)),
     (''hash'', z_string (\<lambda>s. length s = 64)), (''hash_prev'', z_nullable (z_string (\<lambda>s. length s = 64)))]
   @ map (\<lambda>k. (k, z_opt z_text)) [''agent_name'', ''supervisor_run_id'', ''trigger'', ''trigger_run_id'', ''proposal_id'',
       ''proposal_type'', ''target_agent'', ''rationale'']
   @ [(''confidence'', z_opt (z_number (\<lambda>_. True))), (''supporting_runs'', z_opt z_strings)]
   @ map (\<lambda>k. (k, z_opt z_text)) [''status'', ''escalation_id'', ''severity'', ''recommendation'']
   @ [(''timeout_seconds'', z_opt (z_number z_int)), (''timeout_action'', z_opt z_text)]"

text \<open>zod returns the fields of the schema, in its order, without those that are absent.\<close>

definition emit_input :: "tools_env \<Rightarrow> jsval \<Rightarrow> jsval" where
  "emit_input env v = JObj (filter (\<lambda>(k, x). x \<noteq> JUndefined) (map (\<lambda>(k, P). (k, jget v k)) (emit_schema env)))"

definition emit_row :: "tools_env \<Rightarrow> caller \<Rightarrow> jsval \<Rightarrow> event_row" where
  "emit_row env c v =
    \<lparr>er_run_id = the (str_of (jget v ''run_id'')), er_tenant_id = ca_tenantId c, er_schema_version = 1,
     er_event_type = the (str_of (jget v ''event_type'')), er_seq = int_or 0 (jget v ''seq''),
     er_hash = the (str_of (jget v ''hash'')), er_hash_prev = str_of (jget v ''hash_prev''),
     er_ts = tv_date env (the (str_of (jget v ''ts''))),
     er_cols = map (\<lambda>k. (k, nullish_null (jget v k))) [''agent_name'', ''supervisor_run_id'', ''trigger'', ''trigger_run_id'',
       ''proposal_id'', ''proposal_type'', ''target_agent'', ''rationale'', ''confidence'', ''supporting_runs'', ''status'',
       ''escalation_id'', ''severity'', ''recommendation'', ''timeout_seconds'', ''timeout_action''],
     er_raw_line = (case json_stringify (emit_input env v) of Inr s \<Rightarrow> s | Inl _ \<Rightarrow> None)\<rparr>"

definition supervisor_run :: "tools_env \<Rightarrow> caller \<Rightarrow> jsval \<Rightarrow> run_row" where
  "supervisor_run env c v =
    \<lparr>rr_run_id = the (str_of (jget v ''run_id'')), rr_tenant_id = ca_tenantId c,
     rr_agent_name = coalesce (jget v ''agent_name'') (JStr ''loopstorm-supervisor''), rr_agent_role = JNull, rr_environment = JNull,
     rr_policy_pack_id = JNull, rr_status = ''started'', rr_event_count = 1, rr_last_seq = int_or 0 (jget v ''seq''),
     rr_last_hash = str_of (jget v ''hash''), rr_total_cost_usd = 0, rr_total_input_tokens = 0, rr_total_output_tokens = 0,
     rr_total_call_count = 0, rr_started_at = Some (tv_date env (the (str_of (jget v ''ts'')))), rr_ended_at = None,
     rr_created_at = tv_now env, rr_updated_at = tv_now env\<rparr>"

definition upsert_supervisor_run :: "tools_env \<Rightarrow> caller \<Rightarrow> jsval \<Rightarrow> db \<Rightarrow> db" where
  "upsert_supervisor_run env c v d =
    (let rid = the (str_of (jget v ''run_id'')) in
     case select_run rid (ca_tenantId c) d of
       None \<Rightarrow> insert_run (supervisor_run env c v) d
     | Some _ \<Rightarrow> update_run rid (ca_tenantId c) (\<lambda>r. r\<lparr>rr_last_seq := int_or 0 (jget v ''seq''),
         rr_last_hash := str_of (jget v ''hash''), rr_event_count := rr_event_count r + 1, rr_updated_at := tv_now env\<rparr>) d)"

definition emitEvent :: "tools_env \<Rightarrow> caller \<Rightarrow> jsval \<Rightarrow> tables \<Rightarrow> api_error + tables" where
  "emitEvent env c v t =
    (if \<not> z_object (emit_schema env) v then Inl invalid_input
     else bind_result (requireSupervisorScope c) (\<lambda>_.
       bind_result (insert_events [emit_row env c v] (tb_db t)) (\<lambda>(n, d).
         Inr (t\<lparr>tb_db := upsert_supervisor_run env c v d\<rparr>))))"

section \<open>Supervisor events\<close>

text \<open>The events one client sends for its run, each in a transaction of its own.\<close>

fun emit_all :: "caller \<Rightarrow> (tools_env \<times> jsval) list \<Rightarrow> tables \<Rightarrow> (api_error + unit) list \<times> tables" where
  "emit_all c [] t = ([], t)"
| "emit_all c ((env, v) # xs) t =
    (case emitEvent env c v t of
       Inl e \<Rightarrow> (let (rs, t') = emit_all c xs t in (Inl e # rs, t'))
     | Inr t1 \<Rightarrow> (let (rs, t') = emit_all c xs t1 in (Inr () # rs, t')))"

lemma insert_event_without_run:
  assumes "\<not> run_exists (er_run_id e) d" and "\<not> event_exists (er_run_id e) (er_seq e) (db_events d)"
  shows "insert_events [e] d = Inl (ForeignKeyViolation ''events_run_id_runs_run_id_fk'')"
  using assms by (simp add: insert_events_def)

lemma db_wf_no_run_no_events: "db_wf d \<Longrightarrow> \<not> run_exists r d \<Longrightarrow> \<not> event_exists r s (db_events d)"
  by (auto simp: db_wf_def event_exists_def list_ex_iff)

lemma emitEvent_without_run:
  assumes "db_wf (tb_db t)" and "jget v ''run_id'' = JStr r" and "\<not> run_exists r (tb_db t)"
  shows "\<exists>e. emitEvent env c v t = Inl e"
proof -
  let ?e = "emit_row env c v"
  have "er_run_id ?e = r" using assms(2) by (simp add: emit_row_def str_of_def)
  with insert_event_without_run [of ?e "tb_db t"] db_wf_no_run_no_events [OF assms(1,3)] assms(3)
  have "insert_events [?e] (tb_db t) = Inl (ForeignKeyViolation ''events_run_id_runs_run_id_fk'')" by simp
  then show ?thesis
    by (cases "requireSupervisorScope c") (simp_all add: emitEvent_def)
qed

section \<open>The baseline cache\<close>

lemma show_int_pos: "0 \<le> d \<Longrightarrow> show_int d = show_nat (nat d)"
  by (simp add: show_int_def)

lemma show_nat_no_colon: "CHR '':'' \<notin> set (show_nat n)"
proof
  assume "CHR '':'' \<in> set (show_nat n)"
  with show_nat_digits [of n] have "is_digit (CHR '':'')" by (auto simp: list_all_iff)
  then show False by (simp add: is_digit_def)
qed

lemma show_nat_inj: "show_nat m = show_nat n \<Longrightarrow> m = n"
  by (metis show_nat_digits)

lemma split_first: "c \<notin> set a \<Longrightarrow> c \<notin> set a' \<Longrightarrow> a @ c # b = a' @ c # b' \<Longrightarrow> a = a' \<and> b = b'"
  by (induction a arbitrary: a') (auto simp: Cons_eq_append_conv append_eq_Cons_conv)

lemma cache_key_inj:
  assumes "cache_key t a d = cache_key t' a' d'" and "CHR '':'' \<notin> set t" and "CHR '':'' \<notin> set t'" and "0 \<le> d" and "0 \<le> d'"
  shows "t = t' \<and> a = a' \<and> d = d'"
proof -
  let ?c = "CHR '':''"
  from assms(1) have "t @ ?c # (a @ ?c # show_int d) = t' @ ?c # (a' @ ?c # show_int d')" by (simp add: cache_key_def)
  from split_first [OF assms(2,3) this] have t: "t = t'" and "a @ ?c # show_int d = a' @ ?c # show_int d'" by auto
  then have "rev (show_int d) @ ?c # rev a = rev (show_int d') @ ?c # rev a'"
    by (metis append.assoc append_Cons append_Nil rev.simps(2) rev_append)
  from split_first [OF _ _ this] show_nat_no_colon show_int_pos assms(4,5)
  have "show_int d = show_int d'" "a = a'" by auto
  then show ?thesis using t show_nat_inj show_int_pos assms(4,5) by (metis eq_nat_nat_iff)
qed

record baseline_call =
  bc_env :: tools_env
  bc_caller :: caller
  bc_input :: jsval
  bc_tables :: tables

text \<open>The calls of all clients, one after the other, on the one cache.\<close>

fun baseline_calls :: "baseline_call list \<Rightarrow> baseline_cache \<Rightarrow> (api_error + baseline) list" where
  "baseline_calls [] cache = []"
| "baseline_calls (k # ks) cache =
    (let (r, cache') = getAgentBaseline (bc_env k) (bc_caller k) (bc_input k) (bc_tables k) cache
     in r # baseline_calls ks cache')"

definition bc_agent :: "baseline_call \<Rightarrow> string" where "bc_agent k = the (str_of (jget (bc_input k) ''agent_name''))"
definition bc_days :: "baseline_call \<Rightarrow> int" where "bc_days k = int_or 30 (jget (bc_input k) ''lookback_days'')"

definition bc_result :: "baseline_call \<Rightarrow> baseline" where
  "bc_result k = compute_baseline (tv_now (bc_env k)) (ca_tenantId (bc_caller k)) (bc_agent k) (bc_days k) (tb_db (bc_tables k))"

text \<open>\<open>b\<close> is what call \<open>j\<close> computed, and call \<open>k\<close> may be given it.\<close>

definition fresh_for :: "baseline_call \<Rightarrow> baseline_call \<Rightarrow> baseline \<Rightarrow> bool" where
  "fresh_for k j b \<longleftrightarrow> ca_tenantId (bc_caller j) = ca_tenantId (bc_caller k) \<and> bc_agent j = bc_agent k \<and> bc_days j = bc_days k
     \<and> b = bc_result j \<and> tv_now (bc_env k) - tv_now (bc_env j) \<le> BASELINE_CACHE_TTL_MS"

definition bc_valid :: "baseline_call \<Rightarrow> bool" where
  "bc_valid k \<longleftrightarrow> z_object baseline_schema (bc_input k)"

definition cache_of :: "baseline_call list \<Rightarrow> baseline_cache \<Rightarrow> bool" where
  "cache_of js cache \<longleftrightarrow> (\<forall>key e. cache key = Some e \<longrightarrow> (\<exists>j\<in>set js. bc_valid j
     \<and> key = cache_key (ca_tenantId (bc_caller j)) (bc_agent j) (bc_days j)
     \<and> e = \<lparr>ce_data = bc_result j, ce_expiresAt = tv_now (bc_env j) + BASELINE_CACHE_TTL_MS\<rparr>))"

lemma bc_days_nonneg: "bc_valid k \<Longrightarrow> 0 \<le> bc_days k"
  by (auto simp: bc_valid_def z_object_def baseline_schema_def z_opt_def z_int_between_def z_number_def bc_days_def int_or_def
      split: jsval.splits)

lemma getAgentBaseline_step:
  assumes "cache_of js cache" and "\<And>j. j \<in> set (k # js) \<Longrightarrow> CHR '':'' \<notin> set (ca_tenantId (bc_caller j))"
    and "getAgentBaseline (bc_env k) (bc_caller k) (bc_input k) (bc_tables k) cache = (r, cache')"
  shows "cache_of (k # js) cache' \<and> (\<forall>b. r = Inr b \<longrightarrow> (\<exists>j\<in>set (k # js). fresh_for k j b))"
proof (cases "bc_valid k \<and> requireSupervisorScope (bc_caller k) = Inr ()")
  case False
  then have "cache' = cache" "\<exists>e. r = Inl e"
    using assms(3) by (auto simp: getAgentBaseline_def bc_valid_def requireSupervisorScope_def split: if_splits)
  with assms(1) show ?thesis by (auto simp: cache_of_def)
next
  case True
  let ?now = "tv_now (bc_env k)"
  let ?key = "cache_key (ca_tenantId (bc_caller k)) (bc_agent k) (bc_days k)"
  have g: "(r, cache') = (case getCachedBaseline ?now ?key cache of
      (Some b, c1) \<Rightarrow> (Inr b, c1) | (None, c1) \<Rightarrow> (Inr (bc_result k), setCachedBaseline ?now ?key (bc_result k) c1))"
    using assms(3) True
    by (simp add: getAgentBaseline_def bc_valid_def bc_agent_def bc_days_def bc_result_def Let_def split: prod.splits option.splits)
  show ?thesis
  proof (cases "\<exists>e. cache ?key = Some e \<and> ?now \<le> ce_expiresAt e")
    case hit: True
    then obtain e where e: "cache ?key = Some e" "?now \<le> ce_expiresAt e" by blast
    with assms(1) obtain j where j: "j \<in> set js" "bc_valid j"
      and k: "?key = cache_key (ca_tenantId (bc_caller j)) (bc_agent j) (bc_days j)"
      and d: "e = \<lparr>ce_data = bc_result j, ce_expiresAt = tv_now (bc_env j) + BASELINE_CACHE_TTL_MS\<rparr>"
      unfolding cache_of_def by blast
    have same: "ca_tenantId (bc_caller k) = ca_tenantId (bc_caller j) \<and> bc_agent k = bc_agent j \<and> bc_days k = bc_days j"
      using cache_key_inj [OF k assms(2) assms(2) bc_days_nonneg bc_days_nonneg] j True by simp
    have "r = Inr (bc_result j)" "cache' = cache" using g e d by (simp_all add: getCachedBaseline_def)
    moreover have "fresh_for k j (bc_result j)" using same e(2) d by (simp add: fresh_for_def)
    ultimately show ?thesis using j(1) assms(1) by (auto simp: cache_of_def)
  next
    case False
    then have r: "r = Inr (bc_result k)" and "\<exists>c1. cache' = setCachedBaseline ?now ?key (bc_result k) c1 \<and> (\<forall>x e. c1 x = Some e \<longrightarrow> cache x = Some e)"
      using g by (auto simp: getCachedBaseline_def split: option.splits if_splits)
    then obtain c1 where c1: "cache' = c1(?key \<mapsto> \<lparr>ce_data = bc_result k, ce_expiresAt = ?now + BASELINE_CACHE_TTL_MS\<rparr>)"
      and sub: "\<And>x e. c1 x = Some e \<Longrightarrow> cache x = Some e" by (auto simp: setCachedBaseline_def)
    have "cache_of (k # js) cache'"
      unfolding cache_of_def
    proof (intro allI impI)
      fix x e assume e: "cache' x = Some e"
      show "\<exists>j\<in>set (k # js). bc_valid j \<and> x = cache_key (ca_tenantId (bc_caller j)) (bc_agent j) (bc_days j) \<and>
          e = \<lparr>ce_data = bc_result j, ce_expiresAt = tv_now (bc_env j) + BASELINE_CACHE_TTL_MS\<rparr>"
      proof (cases "x = ?key")
        case True with e c1 \<open>bc_valid k \<and> _\<close> show ?thesis by auto
      next
        case False
        with e c1 sub have "cache x = Some e" by simp
        with assms(1) show ?thesis by (auto simp: cache_of_def)
      qed
    qed
    moreover have "fresh_for k k (bc_result k)" by (simp add: fresh_for_def BASELINE_CACHE_TTL_MS_def)
    ultimately show ?thesis using r by auto
  qed
qed

lemma baseline_calls_fresh:
  assumes "cache_of js cache" and "\<And>j. j \<in> set (ks @ js) \<Longrightarrow> CHR '':'' \<notin> set (ca_tenantId (bc_caller j))"
    and "i < length ks" and "baseline_calls ks cache ! i = Inr b"
  shows "\<exists>j\<in>set js \<union> set (take (Suc i) ks). fresh_for (ks ! i) j b"
  using assms
proof (induction ks arbitrary: js cache i)
  case (Cons k ks)
  obtain r cache' where g: "getAgentBaseline (bc_env k) (bc_caller k) (bc_input k) (bc_tables k) cache = (r, cache')" by fastforce
  have S: "cache_of (k # js) cache'" "\<forall>b. r = Inr b \<longrightarrow> (\<exists>j\<in>set (k # js). fresh_for k j b)"
    using getAgentBaseline_step [OF Cons.prems(1) _ g] Cons.prems(2) by auto
  show ?case
  proof (cases i)
    case 0
    with S(2) Cons.prems(4) g show ?thesis by auto
  next
    case (Suc n)
    with Cons.prems g have "\<exists>j\<in>set (k # js) \<union> set (take (Suc n) ks). fresh_for (ks ! n) j b"
      by (intro Cons.IH [OF S(1)]) auto
    with Suc show ?thesis by auto
  qed
qed simp

section \<open>An escalation reaches the reviewers\<close>

lemma acknowledge_new:
  assumes "se_id r \<notin> se_id ` set rows" and "se_status r = ''open''" and "is_uuid (se_id r)"
    and "case notes of None \<Rightarrow> True | Some n \<Rightarrow> length n \<le> 2000"
  shows "acknowledgeEscalation is_uuid tenant user now (se_id r) notes (rows @ [r]) =
    (if se_tenant_id r = tenant
     then (let u = r\<lparr>se_status := ''acknowledged'', se_acknowledged_by := Some user, se_acknowledged_at := Some now,
             se_resolution_notes := notes, se_updated_at := now\<rparr> in Inr (u, rows @ [u]))
     else Inl (TRPCError NOT_FOUND ''Escalation not found''))"
proof -
  have no: "\<And>x. x \<in> set rows \<Longrightarrow> se_id x \<noteq> se_id r" using assms(1) by (metis imageI)
  have f: "find (\<lambda>x. se_id x = se_id r \<and> P x) (rows @ [r]) = (if P r then Some r else None)" for P
    using no by (induction rows) auto
  have u: "update_where (\<lambda>x. se_id x = se_id r \<and> P x) g (rows @ [r]) = (if P r then (rows @ [g r], [g r]) else (rows @ [r], []))" for P g
    using no by (auto simp: update_where_def filter_empty_conv intro: map_idI)
  show ?thesis
    using assms(2-4)
    by (auto simp: acknowledgeEscalation_def escalation_request_def escalation_check_def escalation_write_def f u
        required_status_def escalation_set_def first_updated_def Let_def split: option.splits)
qed

text \<open>
  A valid \<open>createEscalation\<close> of a supervisor key with a new \<open>escalation_id\<close> stores one
  open row of the caller's tenant and leaves the other tables alone; the row is listed for
  that tenant's reviewers and one of them can acknowledge it, while a reviewer of another
  tenant is told that it does not exist.
\<close>

theorem created_escalation_reviewable:
  assumes "z_object (escalation_schema env) v" and "''supervisor'' \<in> set (ca_scopes c)"
    and "the (str_of (jget v ''escalation_id'')) \<notin> se_escalation_id ` set (tb_escalations t)"
    and "tv_newId env \<notin> se_id ` set (tb_escalations t)" and "tv_is_uuid env (tv_newId env)"
    and "length notes \<le> 2000"
  shows "\<exists>r t'. createEscalation env c v t = Inr ((tv_newId env, the (str_of (jget v ''escalation_id''))), t')
    \<and> t' = t\<lparr>tb_escalations := tb_escalations t @ [r]\<rparr>
    \<and> r \<in> set (escalations_matching (ca_tenantId c) \<lparr>le_status = Some ''open'', le_severity = str_of (jget v ''severity'')\<rparr> (tb_escalations t'))
    \<and> acknowledgeEscalation (tv_is_uuid env) tenant user now (tv_newId env) (Some notes) (tb_escalations t') =
       (if tenant = ca_tenantId c
        then (let u = r\<lparr>se_status := ''acknowledged'', se_acknowledged_by := Some user, se_acknowledged_at := Some now,
                se_resolution_notes := Some notes, se_updated_at := now\<rparr> in Inr (u, tb_escalations t @ [u]))
        else Inl (TRPCError NOT_FOUND ''Escalation not found''))"
proof -
  let ?r = "escalation_row_of env c v"
  have R: "se_id ?r = tv_newId env" "se_status ?r = ''open''" "se_tenant_id ?r = ca_tenantId c"
    "se_escalation_id ?r = the (str_of (jget v ''escalation_id''))" "se_severity ?r = the (str_of (jget v ''severity''))"
    by (simp_all add: escalation_row_of_def)
  have "\<exists>s. str_of (jget v ''severity'') = Some s"
    using assms(1) by (auto simp: z_object_def escalation_schema_def z_enum_def z_string_def str_of_def split: jsval.splits)
  then have "?r \<in> set (escalations_matching (ca_tenantId c)
      \<lparr>le_status = Some ''open'', le_severity = str_of (jget v ''severity'')\<rparr> (tb_escalations t @ [?r]))"
    using R by (auto simp: escalations_matching_def)
  moreover have "createEscalation env c v t = Inr ((tv_newId env, the (str_of (jget v ''escalation_id''))),
      t\<lparr>tb_escalations := tb_escalations t @ [?r]\<rparr>)"
    using assms(1-3) R by (force simp: createEscalation_def requireSupervisorScope_def Let_def list_ex_iff image_iff)
  moreover note acknowledge_new [of ?r "tb_escalations t" "tv_is_uuid env" "Some notes" tenant user now]
  ultimately show ?thesis using assms(4-6) R by (intro exI [of _ ?r]) (auto simp: eq_commute [of tenant])
qed

definition ex_tools_env :: tools_env where
  "ex_tools_env = \<lparr>tv_now = 1000, tv_newId = ''id-1'', tv_is_uuid = (\<lambda>s. s \<noteq> []), tv_is_datetime = (\<lambda>s. s \<noteq> []),
     tv_date = (\<lambda>_. 900), tv_scan_events = (\<lambda>xs. xs), tv_scan_runs = (\<lambda>xs. xs)\<rparr>"

definition ex_caller :: caller where
  "ex_caller = \<lparr>ca_tenantId = ''t1'', ca_scopes = [''ingest'', ''supervisor'']\<rparr>"

definition ex_tables :: tables where
  "ex_tables = \<lparr>tb_db = \<lparr>db_runs = [], db_events = []\<rparr>, tb_proposals = [], tb_escalations = [], tb_packs = []\<rparr>"

definition ex_escalation_input :: jsval where
  "ex_escalation_input = JObj [(''escalation_id'', JStr ''esc_1''), (''supervisor_run_id'', JStr ''s1''),
     (''severity'', JStr ''high''), (''rationale'', JStr ''loop'')]"

theorem created_escalation_reviewable_witness:
  "\<exists>r t'. createEscalation ex_tools_env ex_caller ex_escalation_input ex_tables = Inr ((''id-1'', ''esc_1''), t')
    \<and> t' = ex_tables\<lparr>tb_escalations := [r]\<rparr>
    \<and> acknowledgeEscalation (tv_is_uuid ex_tools_env) ''t2'' ''u'' 2000 ''id-1'' (Some ''seen'') (tb_escalations t')
       = Inl (TRPCError NOT_FOUND ''Escalation not found'')"
proof -
  have a: "z_object (escalation_schema ex_tools_env) ex_escalation_input"
    "''supervisor'' \<in> set (ca_scopes ex_caller)" "tb_escalations ex_tables = []"
    "tv_is_uuid ex_tools_env (tv_newId ex_tools_env)" "length ''seen'' \<le> 2000"
    "tv_newId ex_tools_env = ''id-1''" "the (str_of (jget ex_escalation_input ''escalation_id'')) = ''esc_1''"
    "ca_tenantId ex_caller = ''t1''"
    by code_simp+
  show ?thesis
    using created_escalation_reviewable [OF a(1,2) _ _ a(4,5), of ex_tables "''t2''" "''u''" 2000] a by auto
qed

section \<open>Emitted events and the cache\<close>

text \<open>
  No event of a supervisor run is ever stored. \<open>emitEvent\<close> inserts the event before it
  creates the run's row, so that for a run without a row the insert breaks the foreign key
  and the transaction is undone: however many events a supervisor session sends for its
  run, every call fails and the tables stay as they were.
\<close>

theorem supervisor_events_never_stored:
  assumes "db_wf (tb_db t)" and "\<not> run_exists run (tb_db t)" and "\<forall>(env, v)\<in>set calls. jget v ''run_id'' = JStr run"
  shows "snd (emit_all c calls t) = t \<and> length (fst (emit_all c calls t)) = length calls
    \<and> (\<forall>r\<in>set (fst (emit_all c calls t)). \<exists>e. r = Inl e)"
  using assms(3)
proof (induction calls)
  case (Cons x xs)
  obtain env v where x: "x = (env, v)" by fastforce
  obtain e where "emitEvent env c v t = Inl e" using emitEvent_without_run assms(1,2) Cons.prems x by fastforce
  with Cons x show ?case by (auto split: prod.splits)
qed simp

definition ex_emit :: jsval where
  "ex_emit = JObj [(''run_id'', JStr ''r1''), (''schema_version'', JNum (Dec False 1 0)), (''event_type'', JStr ''supervisor_run_started''),
     (''seq'', JNum (Dec False 1 0)), (''ts'', JStr ''2026-01-01''), (''hash'', JStr (replicate 64 (CHR ''a''))), (''hash_prev'', JNull)]"

theorem supervisor_events_never_stored_witness:
  "z_object (emit_schema ex_tools_env) (ex_emit)
    \<and> snd (emit_all ex_caller [(ex_tools_env, ex_emit), (ex_tools_env, ex_emit)] ex_tables) = ex_tables"
proof -
  have "db_wf (tb_db ex_tables)" "\<not> run_exists ''r1'' (tb_db ex_tables)"
    "\<forall>(env, v)\<in>set [(ex_tools_env, ex_emit), (ex_tools_env, ex_emit)]. jget v ''run_id'' = JStr ''r1''"
    by code_simp+
  from supervisor_events_never_stored [OF this] have "snd (emit_all ex_caller [(ex_tools_env, ex_emit), (ex_tools_env, ex_emit)] ex_tables) = ex_tables"
    by blast
  moreover have "z_object (emit_schema ex_tools_env) (ex_emit)" by code_simp
  ultimately show ?thesis by blast
qed

text \<open>
  The baselines cached in memory never cross tenants and are never older than five
  minutes: however the calls of all tenants follow each other, an answer of
  \<open>getAgentBaseline\<close> is the baseline that this call or an earlier one computed for the
  caller's own tenant, the same agent and the same period, not more than the cache's
  lifetime ago. Tenant ids hold no colon (they are UUIDs), which separates the parts of
  the cache's key.
\<close>

theorem baseline_cache_isolated:
  assumes "\<forall>k\<in>set ks. CHR '':'' \<notin> set (ca_tenantId (bc_caller k))"
    and "i < length ks" and "baseline_calls ks Map.empty ! i = Inr b"
  shows "\<exists>j\<in>set (take (Suc i) ks). ca_tenantId (bc_caller j) = ca_tenantId (bc_caller (ks ! i))
    \<and> bc_agent j = bc_agent (ks ! i) \<and> bc_days j = bc_days (ks ! i)
    \<and> tv_now (bc_env (ks ! i)) - tv_now (bc_env j) \<le> 5 * 60 * 1000
    \<and> b = compute_baseline (tv_now (bc_env j)) (ca_tenantId (bc_caller j)) (bc_agent j) (bc_days j) (tb_db (bc_tables j))"
proof -
  have "cache_of [] Map.empty" by (simp add: cache_of_def)
  from baseline_calls_fresh [OF this, of ks i b] assms show ?thesis
    by (auto simp: fresh_for_def bc_result_def BASELINE_CACHE_TTL_MS_def)
qed

definition ex_call :: "string \<Rightarrow> int \<Rightarrow> baseline_call" where
  "ex_call tenant now = \<lparr>bc_env = ex_tools_env\<lparr>tv_now := now\<rparr>, bc_caller = ex_caller\<lparr>ca_tenantId := tenant\<rparr>,
     bc_input = JObj [(''agent_name'', JStr ''bot'')], bc_tables = ex_tables\<rparr>"

theorem baseline_cache_isolated_witness:
  "\<exists>b. baseline_calls [ex_call ''t1'' 0, ex_call ''t2'' 1, ex_call ''t1'' 2] Map.empty ! 2 = Inr b \<and> bs_run_count b = 0
    \<and> (\<exists>j\<in>set [ex_call ''t1'' 0, ex_call ''t2'' 1, ex_call ''t1'' 2]. ca_tenantId (bc_caller j) = ''t1''
        \<and> b = compute_baseline (tv_now (bc_env j)) ''t1'' (bc_agent j) (bc_days j) (tb_db (bc_tables j)))"
proof -
  let ?ks = "[ex_call ''t1'' 0, ex_call ''t2'' 1, ex_call ''t1'' 2]"
  let ?b = "compute_baseline 0 ''t1'' ''bot'' 30 \<lparr>db_runs = [], db_events = []\<rparr>"
  have r: "baseline_calls ?ks Map.empty ! 2 = Inr ?b" and n: "bs_run_count ?b = 0" by code_simp+
  have "\<forall>k\<in>set ?ks. CHR '':'' \<notin> set (ca_tenantId (bc_caller k))" "2 < length ?ks" by code_simp+
  from baseline_cache_isolated [OF this r] obtain j where "j \<in> set (take (Suc 2) ?ks)"
    "ca_tenantId (bc_caller j) = ca_tenantId (bc_caller (?ks ! 2))"
    "?b = compute_baseline (tv_now (bc_env j)) (ca_tenantId (bc_caller j)) (bc_agent j) (bc_days j) (tb_db (bc_tables j))"
    by blast
  moreover have "take (Suc 2) ?ks = ?ks" "ca_tenantId (bc_caller (?ks ! 2)) = ''t1''" by (simp_all add: ex_call_def)
  ultimately show ?thesis using r n by metis
qed

end
