(* ===== verification/Supervisor_Session.thy ===== *)
theory Supervisor_Session
  imports Supervisor_Agent
begin

text \<open>
  \<open>apps/supervisor/src/config.ts\<close> and \<open>session.ts\<close>: the configuration of the AI supervisor's process and
  one session, the loop in which the language model asks for tools and the process runs them.

  A session acts on the pair of its own state and the world. \<open>sn_trace\<close> records what the session did
  (chats, tool calls, emitted events); the code does not read it. One round of the loop is
  \<open>turn\<close>: \<open>Inl\<close> when the loop is left. All errors inside a session are caught where they
  arise, so that the outermost \<open>catch\<close> of \<open>execute\<close> has nothing to catch.
\<close>

section \<open>config.ts\<close>

record SupervisorConfig =
  cf_apiKey :: string
  cf_backendUrl :: string
  cf_llmApiKey :: "string option"
  cf_model :: string
  cf_systemPromptOverride :: "string option"
  cf_internalKey :: "string option"
  cf_port :: jnum
  cf_mockMode :: bool

type_synonym process_env = "string \<rightharpoonup> string"

text \<open>A variable that is set and not empty.\<close>

definition env_truthy :: "process_env \<Rightarrow> string \<Rightarrow> string option" where
  "env_truthy e k = (case e k of Some v \<Rightarrow> if v = [] then None else Some v | None \<Rightarrow> None)"

definition requireEnv :: "process_env \<Rightarrow> string \<Rightarrow> string + string" where
  "requireEnv e name = (case env_truthy e name of
     None \<Rightarrow> Inl (''Required environment variable '' @ name @ '' is not set'') | Some v \<Rightarrow> Inr v)"

text \<open>\<open>Number(v) || 3002\<close>; the conversion of a text is the parameter \<open>number\<close>.\<close>

definition config_port :: "(string \<Rightarrow> jnum) \<Rightarrow> process_env \<Rightarrow> jnum" where
  "config_port number e = (case e ''LOOPSTORM_SUPERVISOR_PORT'' of
     None \<Rightarrow> num_of_int 3002 | Some v \<Rightarrow> if truthy (JNum (number v)) then number v else num_of_int 3002)"

definition llm_key :: "process_env \<Rightarrow> string option" where
  "llm_key e = (case env_truthy e ''LOOPSTORM_LLM_API_KEY'' of Some k \<Rightarrow> Some k | None \<Rightarrow> env_truthy e ''ANTHROPIC_API_KEY'')"

definition prompt_override :: "(string \<Rightarrow> string + string) \<Rightarrow> process_env \<Rightarrow> string + string option" where
  "prompt_override readFile e =
    (case env_truthy e ''LOOPSTORM_SUPERVISOR_SYSTEM_PROMPT'' of
       Some p \<Rightarrow> Inr (Some p)
     | None \<Rightarrow>
        (case env_truthy e ''LOOPSTORM_SUPERVISOR_SYSTEM_PROMPT_PATH'' of
           None \<Rightarrow> Inr None
         | Some path \<Rightarrow> (case readFile path of
              Inl m \<Rightarrow> Inl (''Failed to read system prompt from path '' @ [CHR 0x22] @ path @ [CHR 0x22] @ '': '' @ m)
            | Inr s \<Rightarrow> Inr (Some s))))"

definition missing_llm_key :: string where
  "missing_llm_key = ''LOOPSTORM_LLM_API_KEY is required when not in mock mode. Set LOOPSTORM_SUPERVISOR_MOCK=true for testing, or set LOOPSTORM_LLM_API_KEY to your DeepSeek API key (sk-...). The deprecated ANTHROPIC_API_KEY env var is also accepted as a fallback but will stop being read in v1.2.''"

definition parse_supervisor_config ::
  "(string \<Rightarrow> jnum) \<Rightarrow> (string \<Rightarrow> string + string) \<Rightarrow> process_env \<Rightarrow> string + SupervisorConfig" where
  "parse_supervisor_config number readFile e =
    bind_result (requireEnv e ''LOOPSTORM_API_KEY'') (\<lambda>apiKey.
     bind_result (prompt_override readFile e) (\<lambda>override.
      (let mock = (e ''LOOPSTORM_SUPERVISOR_MOCK'' = Some ''true'') in
       if \<not> mock \<and> llm_key e = None then Inl missing_llm_key
       else Inr \<lparr>cf_apiKey = apiKey, cf_backendUrl = the_default ''http://localhost:3001'' (e ''LOOPSTORM_BACKEND_URL''),
         cf_llmApiKey = llm_key e, cf_model = the_default ''deepseek-chat'' (e ''LOOPSTORM_SUPERVISOR_MODEL''),
         cf_systemPromptOverride = override, cf_internalKey = e ''LOOPSTORM_SUPERVISOR_INTERNAL_KEY'',
         cf_port = config_port number e, cf_mockMode = mock\<rparr>)))"

text \<open>The default prompt is an argument.\<close>

definition getSystemPrompt :: "string \<Rightarrow> SupervisorConfig \<Rightarrow> string" where
  "getSystemPrompt defaultPrompt c = (case cf_systemPromptOverride c of
     None \<Rightarrow> defaultPrompt | Some p \<Rightarrow> if p = [] then defaultPrompt else p)"

section \<open>Session state\<close>

record SessionParams =
  sm_runId :: string
  sm_runUuid :: string
  sm_trigger :: string
  sm_triggerRunId :: string
  sm_config :: SupervisorConfig

datatype action = Chat "string + LLMResponse" | ToolCall string | Emit jsval bool

record session =
  sn_inputTokens :: int
  sn_outputTokens :: int
  sn_toolCallCount :: nat
  sn_eventSeq :: nat
  sn_lastHash :: "string option"
  sn_messages :: "Message list"
  sn_trace :: "action list"

datatype termination_reason = T_end_turn | T_max_tokens | T_budget_exhausted | T_error

record SessionResult =
  sr_supervisorRunId :: string
  sr_trigger :: string
  sr_triggerRunId :: string
  sr_toolCallCount :: nat
  sr_totalInputTokens :: int
  sr_totalOutputTokens :: int
  sr_estimatedCostUsd :: rat
  sr_terminationReason :: termination_reason

definition MAX_SESSION_COST_USD :: rat where "MAX_SESSION_COST_USD = 2"
definition MAX_TOOL_CALLS :: nat where "MAX_TOOL_CALLS = 100"

definition estimatedCostUsd :: "session \<Rightarrow> rat" where
  "estimatedCostUsd s = of_int (sn_inputTokens s) * DEEPSEEK_COST_PER_INPUT_TOKEN + of_int (sn_outputTokens s) * DEEPSEEK_COST_PER_OUTPUT_TOKEN"

definition record_action :: "action \<Rightarrow> session \<Rightarrow> session" where
  "record_action a s = s\<lparr>sn_trace := sn_trace s @ [a]\<rparr>"

section \<open>Events\<close>

definition emit_fields :: "SessionParams \<Rightarrow> string \<Rightarrow> nat \<Rightarrow> string \<Rightarrow> (string \<times> jsval) list \<Rightarrow> (string \<times> jsval) list" where
  "emit_fields sm eventType sq ts extra =
    [(''schema_version'', jint 1), (''event_type'', JStr eventType), (''run_id'', JStr (sm_runUuid sm)), (''seq'', jint (int sq)),
     (''ts'', JStr ts), (''supervisor_run_id'', JStr (sm_runId sm)), (''agent_name'', JStr ''loopstorm-supervisor'')] @ extra"

definition session_emitEvent ::
  "'w agent_env \<Rightarrow> SessionParams \<Rightarrow> string \<Rightarrow> (string \<times> jsval) list \<Rightarrow> session \<times> 'w \<Rightarrow> session \<times> 'w" where
  "session_emitEvent env sm eventType extra = (\<lambda>(s, w).
    (let sq = Suc (sn_eventSeq s); s1 = s\<lparr>sn_eventSeq := sq\<rparr>; (ts, w1) = ag_isoNow env w;
         payload = emit_fields sm eventType sq ts extra
     in case json_stringify (JObj payload) of
          Inr (Some json) \<Rightarrow>
           (let hash = ag_sha256 env json;
                v = JObj (payload @ [(''hash'', JStr hash), (''hash_prev'', json_nullable (sn_lastHash s))])
            in case ag_client env ''supervisorTools.emitEvent'' v w1 of
                 (Inl _, w2) \<Rightarrow> (record_action (Emit v False) s1, w2)
               | (Inr _, w2) \<Rightarrow> (record_action (Emit v True) (s1\<lparr>sn_lastHash := Some hash\<rparr>), w2))
        | _ \<Rightarrow> (s1, w1)))"

definition trigger_fields :: "SessionParams \<Rightarrow> (string \<times> jsval) list" where
  "trigger_fields sm = [(''trigger'', JStr (sm_trigger sm)), (''trigger_run_id'', JStr (sm_triggerRunId sm))]"

text \<open>\<open>input.k ?? null\<close>\<close>

definition or_null :: "jsval \<Rightarrow> string \<Rightarrow> string \<times> jsval" where
  "or_null v k = (k, coalesce (jget v k) JNull)"

definition proposal_event :: "SessionParams \<Rightarrow> string \<Rightarrow> jsval \<Rightarrow> (string \<times> jsval) list" where
  "proposal_event sm name v = trigger_fields sm
     @ [(''proposal_type'', JStr (if name = ''propose_budget_adjustment'' then ''budget_adjustment'' else ''flag_for_review'')),
        or_null v ''target_agent'', or_null v ''rationale'', or_null v ''confidence'', (''status'', JStr ''pending_approval'')]"

definition escalation_event :: "SessionParams \<Rightarrow> jsval \<Rightarrow> (string \<times> jsval) list" where
  "escalation_event sm v = trigger_fields sm
     @ map (or_null v) [''severity'', ''rationale'', ''confidence'', ''recommendation'', ''timeout_seconds'', ''timeout_action'']"

section \<open>Tool calls\<close>

definition stringify_text :: "jsval \<Rightarrow> string" where
  "stringify_text v = (case json_stringify v of Inr (Some s) \<Rightarrow> s | _ \<Rightarrow> [])"

definition error_text :: "string \<Rightarrow> string" where
  "error_text m = stringify_text (JObj [(''error'', JStr m)])"

text \<open>The content for the model, whether there was an entry, and the world after the handler.\<close>

definition dispatch_tool :: "'w agent_env \<Rightarrow> SessionParams \<Rightarrow> string \<Rightarrow> jsval \<Rightarrow> 'w \<Rightarrow> (string \<times> bool) \<times> 'w" where
  "dispatch_tool env sm name v w =
    (case TOOL_REGISTRY env (sm_runId sm) name of
       None \<Rightarrow> ((error_text (''Unknown tool: '' @ name), False), w)
     | Some h \<Rightarrow>
        (case h v w of
           (Inl m, w1) \<Rightarrow> ((error_text m, True), w1)
         | (Inr r, w1) \<Rightarrow> ((case sanitizeToolResult (ag_typeError env) r of Inl m \<Rightarrow> error_text m | Inr c \<Rightarrow> c, True), w1)))"

definition special_event :: "'w agent_env \<Rightarrow> SessionParams \<Rightarrow> string \<Rightarrow> jsval \<Rightarrow> session \<times> 'w \<Rightarrow> session \<times> 'w" where
  "special_event env sm name v st =
    (if name = ''propose_budget_adjustment'' \<or> name = ''flag_for_review''
     then session_emitEvent env sm ''supervisor_proposal_created'' (proposal_event sm name v) st
     else if name = ''escalate_to_human''
     then session_emitEvent env sm ''supervisor_escalation_created'' (escalation_event sm v) st
     else st)"

definition count_call :: "string \<Rightarrow> session \<Rightarrow> session" where
  "count_call name s = record_action (ToolCall name) (s\<lparr>sn_toolCallCount := Suc (sn_toolCallCount s)\<rparr>)"

definition run_tool ::
  "'w agent_env \<Rightarrow> SessionParams \<Rightarrow> string \<Rightarrow> string \<Rightarrow> jsval \<Rightarrow> session \<times> 'w \<Rightarrow> ContentBlock \<times> (session \<times> 'w)" where
  "run_tool env sm i name v = (\<lambda>(s, w).
    (let ((content, entry), w1) = dispatch_tool env sm name v w;
         st = session_emitEvent env sm ''supervisor_tool_call'' (trigger_fields sm @ [(''rationale'', JStr (''Tool call: '' @ name))])
           (count_call name s, w1);
         st' = (if entry \<and> \<not> str_includes content ([CHR 0x22] @ ''error'' @ [CHR 0x22]) then special_event env sm name v st else st)
     in (ToolResult i content, st')))"

fun run_tools ::
  "'w agent_env \<Rightarrow> SessionParams \<Rightarrow> (string \<times> string \<times> jsval) list \<Rightarrow> session \<times> 'w \<Rightarrow> ContentBlock list \<times> (session \<times> 'w)" where
  "run_tools env sm [] st = ([], st)"
| "run_tools env sm ((i, name, v) # bs) st =
    (let (r, st1) = run_tool env sm i name v st in
     if estimatedCostUsd (fst st1) \<ge> MAX_SESSION_COST_USD \<or> sn_toolCallCount (fst st1) \<ge> MAX_TOOL_CALLS then ([r], st1)
     else (let (rs, st2) = run_tools env sm bs st1 in (r # rs, st2)))"

section \<open>The loop\<close>

definition response_text :: "LLMResponse \<Rightarrow> string" where
  "response_text r = join [CHR 0x0A] (List.map_filter (\<lambda>b. case b of TextBlock t \<Rightarrow> Some t | _ \<Rightarrow> None) (lr_content r))"

definition tool_blocks :: "LLMResponse \<Rightarrow> (string \<times> string \<times> jsval) list" where
  "tool_blocks r = List.map_filter (\<lambda>b. case b of ToolUse i n v \<Rightarrow> Some (i, n, v) | _ \<Rightarrow> None) (lr_content r)"

definition tripped :: "SessionParams \<Rightarrow> LLMResponse \<Rightarrow> bool" where
  "tripped sm r = checkTripwire (response_text r) (cf_internalKey (sm_config sm))"

definition count_usage :: "LLMResponse \<Rightarrow> session \<Rightarrow> session" where
  "count_usage r s = record_action (Chat (Inr r)) (s\<lparr>sn_inputTokens := sn_inputTokens s + lr_input_tokens r,
     sn_outputTokens := sn_outputTokens s + lr_output_tokens r\<rparr>)"

definition push_message :: "Message \<Rightarrow> session \<Rightarrow> session" where
  "push_message m s = s\<lparr>sn_messages := sn_messages s @ [m]\<rparr>"

definition turn :: "'w agent_env \<Rightarrow> SessionParams \<Rightarrow> string \<Rightarrow> session \<times> 'w \<Rightarrow> (termination_reason \<times> (session \<times> 'w)) + (session \<times> 'w)" where
  "turn env sm sys = (\<lambda>(s, w).
    if sn_toolCallCount s \<ge> MAX_TOOL_CALLS then Inl (T_end_turn, (s, w))
    else if estimatedCostUsd s \<ge> MAX_SESSION_COST_USD
    then Inl (T_budget_exhausted, session_emitEvent env sm ''supervisor_tool_call''
      (trigger_fields sm @ [(''rationale'', JStr ''Session terminated: budget exhausted'')]) (s, w))
    else (case ag_chat env sys (sn_messages s) w of
        (Inl e, w1) \<Rightarrow> Inl (T_error, (record_action (Chat (Inl e)) s, w1))
      | (Inr r, w1) \<Rightarrow>
         (let s1 = count_usage r s; s2 = push_message (BlockMessage Assistant (lr_content r)) s1 in
          if tripped sm r then Inl (T_error, (s1, w1))
          else if lr_stop_reason r = end_turn then Inl (T_end_turn, (s2, w1))
          else if lr_stop_reason r = max_tokens then Inl (T_max_tokens, (s2, w1))
          else if tool_blocks r = [] then Inl (T_end_turn, (s2, w1))
          else (let (rs, (s3, w3)) = run_tools env sm (tool_blocks r) (s2, w1)
                in Inr (push_message (BlockMessage User rs) s3, w3)))))"

section \<open>Termination\<close>

lemma emit_toolCallCount [simp]: "sn_toolCallCount (fst (session_emitEvent env sm et x st)) = sn_toolCallCount (fst st)"
  by (auto simp: session_emitEvent_def record_action_def Let_def split: prod.splits sum.splits option.splits)

lemma run_tool_count: "run_tool env sm i n v st = (r, st') \<Longrightarrow> sn_toolCallCount (fst st') = Suc (sn_toolCallCount (fst st))"
  by (auto simp: run_tool_def special_event_def count_call_def record_action_def Let_def split: prod.splits if_splits)

lemma run_tools_count:
  "run_tools env sm bs st = (rs, st') \<Longrightarrow> sn_toolCallCount (fst st') = sn_toolCallCount (fst st) + length rs"
  by (induction env sm bs st arbitrary: rs rule: run_tools.induct)
     (auto simp: Let_def run_tool_count split: prod.splits if_splits)

lemma run_tools_Nil_iff: "run_tools env sm bs st = (rs, st') \<Longrightarrow> rs = [] \<longleftrightarrow> bs = []"
  by (cases bs) (auto simp: Let_def split: prod.splits if_splits)

lemma run_tools_more: "run_tools env sm bs st = (rs, st') \<Longrightarrow> bs \<noteq> [] \<Longrightarrow> sn_toolCallCount (fst st) < sn_toolCallCount (fst st')"
  using run_tools_count run_tools_Nil_iff by (metis length_greater_0_conv less_add_same_cancel1)

lemma turn_progress:
  assumes "turn env sm sys st = Inr st'"
  shows "sn_toolCallCount (fst st) < sn_toolCallCount (fst st') \<and> sn_toolCallCount (fst st) < MAX_TOOL_CALLS"
  using assms
  by (auto simp: turn_def push_message_def count_usage_def record_action_def Let_def split: prod.splits sum.splits if_splits
      dest: run_tools_more)

function session_loop :: "'w agent_env \<Rightarrow> SessionParams \<Rightarrow> string \<Rightarrow> session \<times> 'w \<Rightarrow> termination_reason \<times> (session \<times> 'w)" where
  "session_loop env sm sys st = (case turn env sm sys st of Inl r \<Rightarrow> r | Inr st' \<Rightarrow> session_loop env sm sys st')"
  by pat_completeness auto

termination
  by (relation "measure (\<lambda>(env, sm, sys, st). MAX_TOOL_CALLS - sn_toolCallCount (fst st))") (auto dest: turn_progress)

declare session_loop.simps [simp del]

definition session_init :: session where
  "session_init = \<lparr>sn_inputTokens = 0, sn_outputTokens = 0, sn_toolCallCount = 0, sn_eventSeq = 0, sn_lastHash = None,
     sn_messages = [], sn_trace = []\<rparr>"

definition start_session :: "'w agent_env \<Rightarrow> SessionParams \<Rightarrow> 'w \<Rightarrow> session \<times> 'w" where
  "start_session env sm w =
    (let (s, w1) = session_emitEvent env sm ''supervisor_run_started'' (trigger_fields sm) (session_init, w)
     in (push_message (TextMessage User (buildTriggerMessage (sm_trigger sm) (sm_triggerRunId sm))) s, w1))"

definition session_result :: "SessionParams \<Rightarrow> termination_reason \<Rightarrow> session \<Rightarrow> SessionResult" where
  "session_result sm reason s = \<lparr>sr_supervisorRunId = sm_runId sm, sr_trigger = sm_trigger sm, sr_triggerRunId = sm_triggerRunId sm,
     sr_toolCallCount = sn_toolCallCount s, sr_totalInputTokens = sn_inputTokens s, sr_totalOutputTokens = sn_outputTokens s,
     sr_estimatedCostUsd = estimatedCostUsd s,
     sr_terminationReason = (if sn_toolCallCount s \<ge> MAX_TOOL_CALLS \<and> reason = T_end_turn then T_budget_exhausted else reason)\<rparr>"

definition execute :: "'w agent_env \<Rightarrow> SessionParams \<Rightarrow> string \<Rightarrow> 'w \<Rightarrow> SessionResult \<times> (session \<times> 'w)" where
  "execute env sm defaultPrompt w =
    (let (reason, st) = session_loop env sm (getSystemPrompt defaultPrompt (sm_config sm)) (start_session env sm w)
     in (session_result sm reason (fst st), st))"

section \<open>Invariants of a session\<close>

lemma session_loop_inv:
  assumes "I st" and "\<And>st st'. I st \<Longrightarrow> turn env sm sys st = Inr st' \<Longrightarrow> I st'"
    and "\<And>st r. I st \<Longrightarrow> turn env sm sys st = Inl r \<Longrightarrow> Q r"
  shows "Q (session_loop env sm sys st)"
  using assms
proof (induction env sm sys st rule: session_loop.induct)
  case (1 env sm sys st)
  show ?case
    using 1 by (subst session_loop.simps) (auto split: sum.splits)
qed

text \<open>
  A property of the session's state that every single effect of the session keeps holds
  when the session ends, except that the last chat may have failed or tripped the wire.
  \<open>emitted\<close>, \<open>called\<close> and \<open>chatted\<close> are the effects; messages do not matter to it.
\<close>

definition emit_effect :: "session \<Rightarrow> jsval \<Rightarrow> string option \<Rightarrow> bool \<Rightarrow> session" where
  "emit_effect s v h ok = record_action (Emit v ok) (s\<lparr>sn_eventSeq := Suc (sn_eventSeq s), sn_lastHash := h\<rparr>)"

lemma session_emitEvent_cases:
  obtains "fst (session_emitEvent env sm et x (s, w)) = s\<lparr>sn_eventSeq := Suc (sn_eventSeq s)\<rparr>"
  | v ts json hash where "v = JObj (emit_fields sm et (Suc (sn_eventSeq s)) ts x @ [(''hash'', JStr hash), (''hash_prev'', json_nullable (sn_lastHash s))])"
      "json_stringify (JObj (emit_fields sm et (Suc (sn_eventSeq s)) ts x)) = Inr (Some json)" "hash = ag_sha256 env json"
      "fst (session_emitEvent env sm et x (s, w)) = emit_effect s v (sn_lastHash s) False
       \<or> fst (session_emitEvent env sm et x (s, w)) = emit_effect s v (Some hash) True"
proof -
  obtain ts w1 where n: "ag_isoNow env w = (ts, w1)" by fastforce
  let ?p = "emit_fields sm et (Suc (sn_eventSeq s)) ts x"
  show ?thesis
  proof (cases "\<exists>json. json_stringify (JObj ?p) = Inr (Some json)")
    case False
    then have "fst (session_emitEvent env sm et x (s, w)) = s\<lparr>sn_eventSeq := Suc (sn_eventSeq s)\<rparr>"
      using n by (auto simp: session_emitEvent_def Let_def split: sum.splits option.splits)
    then show ?thesis by (rule that(1))
  next
    case True
    then obtain json where j: "json_stringify (JObj ?p) = Inr (Some json)" by blast
    let ?h = "ag_sha256 env json"
    let ?v = "JObj (?p @ [(''hash'', JStr ?h), (''hash_prev'', json_nullable (sn_lastHash s))])"
    have "fst (session_emitEvent env sm et x (s, w)) = emit_effect s ?v (sn_lastHash s) False
       \<or> fst (session_emitEvent env sm et x (s, w)) = emit_effect s ?v (Some ?h) True"
      using n j by (auto simp: session_emitEvent_def emit_effect_def record_action_def Let_def split: sum.splits prod.splits)
    then show ?thesis by (rule that(2) [OF refl j refl])
  qed
qed

definition plain_fields :: "(string \<times> jsval) list \<Rightarrow> bool" where
  "plain_fields x \<longleftrightarrow> map_of x ''hash'' = None \<and> map_of x ''hash_prev'' = None"

lemma plain_fields_simps [simp]:
  "plain_fields (trigger_fields sm)" "plain_fields (trigger_fields sm @ [(''rationale'', v)])"
  "plain_fields (proposal_event sm n v)" "plain_fields (escalation_event sm v)"
  by (simp_all add: plain_fields_def trigger_fields_def proposal_event_def escalation_event_def or_null_def)

locale session_invariant =
  fixes env :: "'w agent_env" and sm :: SessionParams and I :: "session \<Rightarrow> bool"
  assumes initial: "I session_init"
    and emitted: "I s \<Longrightarrow> plain_fields x \<Longrightarrow> I (fst (session_emitEvent env sm et x (s, w)))"
    and called: "I s \<Longrightarrow> sn_toolCallCount s < MAX_TOOL_CALLS \<Longrightarrow> I (count_call n s)"
    and chatted: "I s \<Longrightarrow> estimatedCostUsd s < MAX_SESSION_COST_USD \<Longrightarrow> \<not> tripped sm r \<Longrightarrow> I (count_usage r s)"
    and messaged: "I s \<Longrightarrow> I (push_message m s)"
begin

lemma emit_inv: "I (fst st) \<Longrightarrow> plain_fields x \<Longrightarrow> I (fst (session_emitEvent env sm et x st))"
  using emitted by (cases st) auto

lemma run_tool_inv:
  assumes "I (fst st)" and "sn_toolCallCount (fst st) < MAX_TOOL_CALLS" and "run_tool env sm i n v st = (r, st')"
  shows "I (fst st')"
proof -
  obtain s w where st: "st = (s, w)" by fastforce
  have "I (count_call n s)" using called assms(1,2) st by simp
  then have "plain_fields x \<Longrightarrow> I (fst (session_emitEvent env sm et x (count_call n s, w1)))" for et x w1 by (rule emitted)
  with assms(3) st show ?thesis
    by (auto simp: run_tool_def special_event_def Let_def emit_inv split: prod.splits if_splits)
qed

lemma run_tools_inv:
  assumes "I (fst st)" and "bs \<noteq> [] \<Longrightarrow> sn_toolCallCount (fst st) < MAX_TOOL_CALLS" and "run_tools env sm bs st = (rs, st')"
  shows "I (fst st')"
  using assms
proof (induction bs arbitrary: st rs)
  case (Cons b bs)
  obtain i n v where b: "b = (i, n, v)" by (metis prod_cases3)
  obtain r st1 where r: "run_tool env sm i n v st = (r, st1)" by (rule prod.exhaust)
  have "I (fst st1)" using run_tool_inv [OF Cons.prems(1) _ r] Cons.prems(2) by simp
  with Cons.IH [of st1] Cons.prems(3) b r show ?case
    by (auto simp: Let_def split: prod.splits if_splits)
qed simp

definition ended :: "termination_reason \<Rightarrow> session \<Rightarrow> bool" where
  "ended t s \<longleftrightarrow> I s \<or> t = T_error \<and> ((\<exists>s0 e. I s0 \<and> s = record_action (Chat (Inl e)) s0)
     \<or> (\<exists>s0 r. I s0 \<and> estimatedCostUsd s0 < MAX_SESSION_COST_USD \<and> tripped sm r \<and> s = count_usage r s0))"

lemma endedI:
  "I s \<Longrightarrow> ended t s" "I s \<Longrightarrow> ended T_error (record_action (Chat (Inl e)) s)"
  "I s \<Longrightarrow> \<not> MAX_SESSION_COST_USD \<le> estimatedCostUsd s \<Longrightarrow> tripped sm r \<Longrightarrow> ended T_error (count_usage r s)"
  by (auto simp: ended_def not_le)

lemma turn_inv:
  assumes "I (fst st)"
  shows "turn env sm sys st = Inr st' \<Longrightarrow> I (fst st')" and "turn env sm sys st = Inl (t, st') \<Longrightarrow> ended t (fst st')"
proof -
  obtain s w where st: "st = (s, w)" by fastforce
  have c: "\<not> tripped sm r \<Longrightarrow> \<not> MAX_SESSION_COST_USD \<le> estimatedCostUsd s \<Longrightarrow> I (count_usage r s)" for r
    using chatted assms st by simp
  have n: "sn_toolCallCount (push_message m (count_usage r s)) = sn_toolCallCount s" for m r
    by (simp add: push_message_def count_usage_def record_action_def)
  show "I (fst st')" if t: "turn env sm sys st = Inr st'"
  proof -
    from t st obtain r w1 rs s3 w3 where "\<not> MAX_TOOL_CALLS \<le> sn_toolCallCount s" "\<not> MAX_SESSION_COST_USD \<le> estimatedCostUsd s"
      "\<not> tripped sm r" "run_tools env sm (tool_blocks r) (push_message (BlockMessage Assistant (lr_content r)) (count_usage r s), w1) = (rs, (s3, w3))"
      "st' = (push_message (BlockMessage User rs) s3, w3)"
      by (auto simp: turn_def Let_def split: prod.splits sum.splits if_splits)
    with run_tools_inv [of "(push_message (BlockMessage Assistant (lr_content r)) (count_usage r s), w1)"] c n
    show ?thesis by (auto simp: messaged)
  qed
  show "ended t (fst st')" if t: "turn env sm sys st = Inl (t, st')"
    using that st assms c
    by (auto simp: turn_def Let_def emit_inv messaged intro: endedI split: prod.splits sum.splits if_splits)
qed

lemma execute_inv:
  assumes "execute env sm p w = (res, (s, w'))"
  shows "ended (sr_terminationReason res) s"
proof -
  obtain s1 w1 where e: "session_emitEvent env sm ''supervisor_run_started'' (trigger_fields sm) (session_init, w) = (s1, w1)" by fastforce
  have "I s1" using emitted [OF initial, of "trigger_fields sm" "''supervisor_run_started''" w] e by simp
  then have i: "I (fst (start_session env sm w))" using e messaged by (simp add: start_session_def)
  obtain t where t: "session_loop env sm (getSystemPrompt p (sm_config sm)) (start_session env sm w) = (t, (s, w'))"
    and r: "res = session_result sm t s" using assms by (auto simp: execute_def Let_def split: prod.splits)
  have "(\<lambda>(t, st). ended t (fst st)) (session_loop env sm sys (start_session env sm w))" for sys
    by (rule session_loop_inv [where I = "\<lambda>st. I (fst st)", OF i]) (auto dest: turn_inv)
  from this [of "getSystemPrompt p (sm_config sm)"] t have "ended t s" by simp
  with r show ?thesis by (auto simp: ended_def session_result_def)
qed

end

section \<open>What the session keeps\<close>

lemma record_action_simps [simp]:
  "sn_trace (record_action a s) = sn_trace s @ [a]" "sn_toolCallCount (record_action a s) = sn_toolCallCount s"
  "sn_lastHash (record_action a s) = sn_lastHash s" "sn_eventSeq (record_action a s) = sn_eventSeq s"
  "estimatedCostUsd (record_action a s) = estimatedCostUsd s"
  by (simp_all add: record_action_def estimatedCostUsd_def)

lemma push_message_simps [simp]:
  "sn_trace (push_message m s) = sn_trace s" "sn_toolCallCount (push_message m s) = sn_toolCallCount s"
  "sn_lastHash (push_message m s) = sn_lastHash s" "sn_eventSeq (push_message m s) = sn_eventSeq s"
  "estimatedCostUsd (push_message m s) = estimatedCostUsd s"
  by (simp_all add: push_message_def estimatedCostUsd_def)

lemma emit_cost [simp]: "estimatedCostUsd (fst (session_emitEvent env sm et x st)) = estimatedCostUsd (fst st)"
  by (auto simp: session_emitEvent_def record_action_def estimatedCostUsd_def Let_def split: prod.splits sum.splits option.splits)

definition is_chat :: "action \<Rightarrow> bool" where "is_chat a \<longleftrightarrow> (case a of Chat _ \<Rightarrow> True | _ \<Rightarrow> False)"
definition is_tool_call :: "action \<Rightarrow> bool" where "is_tool_call a \<longleftrightarrow> (case a of ToolCall _ \<Rightarrow> True | _ \<Rightarrow> False)"

lemma emit_trace: "\<exists>xs. sn_trace (fst (session_emitEvent env sm et x (s, w))) = sn_trace s @ xs \<and> (\<forall>a\<in>set xs. \<exists>v ok. a = Emit v ok)"
proof (rule session_emitEvent_cases [of env sm et x s w])
  assume "fst (session_emitEvent env sm et x (s, w)) = s\<lparr>sn_eventSeq := Suc (sn_eventSeq s)\<rparr>"
  then show ?thesis by auto
qed (auto simp: emit_effect_def)

lemma emit_filter [simp]:
  assumes "\<And>v ok. \<not> P (Emit v ok)"
  shows "filter P (sn_trace (fst (session_emitEvent env sm et x (s, w)))) = filter P (sn_trace s)"
proof -
  from emit_trace [of env sm et x s w] obtain xs where "sn_trace (fst (session_emitEvent env sm et x (s, w))) = sn_trace s @ xs"
    "\<forall>a\<in>set xs. \<exists>v ok. a = Emit v ok" by blast
  then show ?thesis using assms by (auto simp: filter_empty_conv)
qed

interpretation tc: session_invariant env sm
  "\<lambda>s. sn_toolCallCount s = length (filter is_tool_call (sn_trace s)) \<and> sn_toolCallCount s \<le> MAX_TOOL_CALLS" for env sm
proof
  fix s :: session and et x w assume "sn_toolCallCount s = length (filter is_tool_call (sn_trace s)) \<and> sn_toolCallCount s \<le> MAX_TOOL_CALLS"
  then show "sn_toolCallCount (fst (session_emitEvent env sm et x (s, w))) = length (filter is_tool_call (sn_trace (fst (session_emitEvent env sm et x (s, w)))))
      \<and> sn_toolCallCount (fst (session_emitEvent env sm et x (s, w))) \<le> MAX_TOOL_CALLS"
    by (simp add: is_tool_call_def)
qed (auto simp: session_init_def count_call_def count_usage_def is_tool_call_def)

text \<open>What one response costs.\<close>

definition response_cost :: "LLMResponse \<Rightarrow> rat" where
  "response_cost r = of_int (lr_input_tokens r) * DEEPSEEK_COST_PER_INPUT_TOKEN + of_int (lr_output_tokens r) * DEEPSEEK_COST_PER_OUTPUT_TOKEN"

lemma count_usage_cost: "estimatedCostUsd (count_usage r s) = estimatedCostUsd s + response_cost r"
  by (simp add: estimatedCostUsd_def count_usage_def record_action_def response_cost_def algebra_simps)

lemma count_usage_simps [simp]:
  "sn_trace (count_usage r s) = sn_trace s @ [Chat (Inr r)]" "sn_toolCallCount (count_usage r s) = sn_toolCallCount s"
  "sn_lastHash (count_usage r s) = sn_lastHash s" "sn_eventSeq (count_usage r s) = sn_eventSeq s"
  by (simp_all add: count_usage_def)

lemma count_call_simps [simp]:
  "sn_trace (count_call n s) = sn_trace s @ [ToolCall n]" "sn_toolCallCount (count_call n s) = Suc (sn_toolCallCount s)"
  "sn_lastHash (count_call n s) = sn_lastHash s" "sn_eventSeq (count_call n s) = sn_eventSeq s"
  "estimatedCostUsd (count_call n s) = estimatedCostUsd s"
  by (simp_all add: count_call_def) (simp add: estimatedCostUsd_def)

lemma emit_chat_in [simp]: "Chat r \<in> set (sn_trace (fst (session_emitEvent env sm et x (s, w)))) \<longleftrightarrow> Chat r \<in> set (sn_trace s)"
  using emit_trace [of env sm et x s w] by auto

text \<open>The cost stays below the limit plus the cost of the dearest response.\<close>

definition cost_inv :: "session \<Rightarrow> bool" where
  "cost_inv s \<longleftrightarrow> (\<forall>d\<ge>0. (\<forall>r. Chat (Inr r) \<in> set (sn_trace s) \<longrightarrow> response_cost r \<le> d) \<longrightarrow> estimatedCostUsd s < MAX_SESSION_COST_USD + d)"

lemma cost_inv_chat:
  assumes "estimatedCostUsd s < MAX_SESSION_COST_USD"
  shows "cost_inv (count_usage r s)"
  using assms unfolding cost_inv_def count_usage_cost by force

interpretation ci: session_invariant env sm cost_inv for env sm
proof
  show "cost_inv session_init" by (simp add: cost_inv_def session_init_def estimatedCostUsd_def MAX_SESSION_COST_USD_def)
  show "cost_inv (fst (session_emitEvent env sm et x (s, w)))" if "cost_inv s" for s et x w
    using that by (simp add: cost_inv_def)
  show "cost_inv (count_call n s)" if "cost_inv s" for s n using that by (simp add: cost_inv_def)
  show "cost_inv (push_message m s)" if "cost_inv s" for s m using that by (simp add: cost_inv_def)
qed (rule cost_inv_chat)

interpretation tw: session_invariant env sm "\<lambda>s. \<forall>r. Chat (Inr r) \<in> set (sn_trace s) \<longrightarrow> \<not> tripped sm r" for env sm
  by unfold_locales (auto simp: session_init_def)

text \<open>The events the backend took are linked by their hashes, and their numbers grow.\<close>

definition accepted_events :: "session \<Rightarrow> jsval list" where
  "accepted_events s = List.map_filter (\<lambda>a. case a of Emit v True \<Rightarrow> Some v | _ \<Rightarrow> None) (sn_trace s)"

fun event_chain :: "string option \<Rightarrow> jsval list \<Rightarrow> string option \<Rightarrow> bool" where
  "event_chain h [] h' \<longleftrightarrow> h = h'"
| "event_chain h (v # vs) h' \<longleftrightarrow> jget v ''hash_prev'' = json_nullable h \<and> (\<exists>x. jget v ''hash'' = JStr x \<and> event_chain (Some x) vs h')"

definition event_seqs :: "jsval list \<Rightarrow> int list" where
  "event_seqs vs = map (\<lambda>v. int_or 0 (jget v ''seq'')) vs"

definition chain_inv :: "session \<Rightarrow> bool" where
  "chain_inv s \<longleftrightarrow> event_chain None (accepted_events s) (sn_lastHash s) \<and> sorted_wrt (<) (event_seqs (accepted_events s))
     \<and> (\<forall>n\<in>set (event_seqs (accepted_events s)). n \<le> int (sn_eventSeq s))"

lemma event_chain_snoc:
  "event_chain h (vs @ [v]) h' \<longleftrightarrow> (\<exists>m x. event_chain h vs m \<and> jget v ''hash_prev'' = json_nullable m \<and> jget v ''hash'' = JStr x \<and> h' = Some x)"
  by (induction vs arbitrary: h) auto

declare int_val_num_of_int [simp]

lemma emitted_columns:
  assumes "plain_fields x" and "v = JObj (emit_fields sm et sq ts x @ [(''hash'', JStr h), (''hash_prev'', p)])"
  shows "jget v ''hash'' = JStr h" "jget v ''hash_prev'' = p" "int_or 0 (jget v ''seq'') = int sq"
  using assms by (simp_all add: plain_fields_def emit_fields_def int_or_def map_add_def)

lemma accepted_emit_effect:
  "accepted_events (emit_effect s v h True) = accepted_events s @ [v]" "accepted_events (emit_effect s v h False) = accepted_events s"
  "sn_lastHash (emit_effect s v h ok) = h" "sn_eventSeq (emit_effect s v h ok) = Suc (sn_eventSeq s)"
  by (simp_all add: emit_effect_def accepted_events_def List.map_filter_def)

lemma chain_inv_emit:
  assumes "chain_inv s" and "plain_fields x"
  shows "chain_inv (fst (session_emitEvent env sm et x (s, w)))"
proof (rule session_emitEvent_cases [of env sm et x s w])
  assume "fst (session_emitEvent env sm et x (s, w)) = s\<lparr>sn_eventSeq := Suc (sn_eventSeq s)\<rparr>"
  then show ?thesis using assms(1) by (auto simp: chain_inv_def accepted_events_def)
next
  fix v ts json hash
  assume v: "v = JObj (emit_fields sm et (Suc (sn_eventSeq s)) ts x @ [(''hash'', JStr hash), (''hash_prev'', json_nullable (sn_lastHash s))])"
    and r: "fst (session_emitEvent env sm et x (s, w)) = emit_effect s v (sn_lastHash s) False
      \<or> fst (session_emitEvent env sm et x (s, w)) = emit_effect s v (Some hash) True"
  note C = emitted_columns [OF assms(2) v]
  have b: "int_or 0 (jget u ''seq'') < 1 + int (sn_eventSeq s)" if "u \<in> set (accepted_events s)" for u
    using assms(1) that by (force simp: chain_inv_def event_seqs_def)
  then have b': "int_or 0 (jget u ''seq'') \<le> 1 + int (sn_eventSeq s)" if "u \<in> set (accepted_events s)" for u
    using that less_imp_le by blast
  show ?thesis
    using assms(1) r C b b'
    by (auto simp: chain_inv_def accepted_emit_effect event_chain_snoc event_seqs_def sorted_wrt_append)
qed

lemma accepted_events_other [simp]:
  "accepted_events (count_call n s) = accepted_events s" "accepted_events (count_usage r s) = accepted_events s"
  "accepted_events (push_message m s) = accepted_events s" "accepted_events (record_action (Chat c) s) = accepted_events s"
  by (simp_all add: accepted_events_def List.map_filter_def)

interpretation ch: session_invariant env sm chain_inv for env sm
proof
  show "chain_inv session_init" by (simp add: chain_inv_def session_init_def accepted_events_def event_seqs_def List.map_filter_def)
qed (simp_all add: chain_inv_emit, simp_all add: chain_inv_def)

text \<open>Chats and tool calls, round by round.\<close>

lemma run_tools_chats:
  "run_tools env sm bs st = (rs, st') \<Longrightarrow> filter is_chat (sn_trace (fst st')) = filter is_chat (sn_trace (fst st))"
proof (induction bs arbitrary: st rs)
  case (Cons b bs)
  obtain i n v where b: "b = (i, n, v)" by (metis prod_cases3)
  obtain r st1 where r: "run_tool env sm i n v st = (r, st1)" by (rule prod.exhaust)
  obtain s w where st: "st = (s, w)" by (rule prod.exhaust)
  have e: "filter is_chat (sn_trace (fst (session_emitEvent env sm et x st2))) = filter is_chat (sn_trace (fst st2))" for et x st2
    by (cases st2) (simp add: is_chat_def)
  have "filter is_chat (sn_trace (fst st1)) = filter is_chat (sn_trace s)"
    using r st by (auto simp: run_tool_def special_event_def e Let_def is_chat_def split: prod.splits if_splits)
  with Cons.IH [of st1] Cons.prems b r st show ?case by (auto simp: Let_def split: prod.splits if_splits)
qed simp

definition chat_count :: "session \<Rightarrow> nat" where
  "chat_count s = length (filter is_chat (sn_trace s))"

lemma turn_chats:
  "turn env sm sys st = Inr st' \<Longrightarrow> chat_count (fst st') = Suc (chat_count (fst st))"
  "turn env sm sys st = Inl (t, st') \<Longrightarrow> chat_count (fst st') \<le> Suc (chat_count (fst st))
     \<and> (sn_toolCallCount (fst st) \<ge> MAX_TOOL_CALLS \<longrightarrow> chat_count (fst st') = chat_count (fst st))"
proof -
  obtain s w where st: "st = (s, w)" by (rule prod.exhaust)
  have e: "chat_count (fst (session_emitEvent env sm et x (s, w))) = chat_count s" for et x
    by (simp add: chat_count_def is_chat_def)
  show "turn env sm sys st = Inr st' \<Longrightarrow> chat_count (fst st') = Suc (chat_count (fst st))"
    using st by (auto simp: turn_def chat_count_def is_chat_def Let_def split: prod.splits sum.splits if_splits dest: run_tools_chats)
  show "turn env sm sys st = Inl (t, st') \<Longrightarrow> chat_count (fst st') \<le> Suc (chat_count (fst st))
     \<and> (sn_toolCallCount (fst st) \<ge> MAX_TOOL_CALLS \<longrightarrow> chat_count (fst st') = chat_count (fst st))"
    using st e by (auto simp: turn_def Let_def split: prod.splits sum.splits if_splits) (simp_all add: chat_count_def is_chat_def)
qed

lemma start_session_facts:
  shows "(\<And>v ok. \<not> P (Emit v ok)) \<Longrightarrow> filter P (sn_trace (fst (start_session env sm w))) = []"
    and "sn_toolCallCount (fst (start_session env sm w)) = 0" and "estimatedCostUsd (fst (start_session env sm w)) = 0"
proof -
  let ?e = "session_emitEvent env sm ''supervisor_run_started'' (trigger_fields sm) (session_init, w)"
  have s: "start_session env sm w = (push_message (TextMessage User (buildTriggerMessage (sm_trigger sm) (sm_triggerRunId sm))) (fst ?e), snd ?e)"
    by (simp add: start_session_def split: prod.splits)
  have i: "sn_trace session_init = []" "sn_toolCallCount session_init = 0" "estimatedCostUsd session_init = 0"
    by (simp_all add: session_init_def estimatedCostUsd_def)
  show "filter P (sn_trace (fst (start_session env sm w))) = []" if "\<And>v ok. \<not> P (Emit v ok)"
    unfolding s using emit_filter [of P env sm "''supervisor_run_started''" "trigger_fields sm" session_init w, OF that] i by simp
  show "sn_toolCallCount (fst (start_session env sm w)) = 0" "estimatedCostUsd (fst (start_session env sm w)) = 0"
    unfolding s using i by simp_all
qed

lemma execute_chats:
  assumes "execute env sm p w = (res, (s, w'))"
  shows "chat_count s \<le> MAX_TOOL_CALLS"
proof -
  define I where "I = (\<lambda>st :: session \<times> 'a. sn_toolCallCount (fst st) = length (filter is_tool_call (sn_trace (fst st)))
    \<and> sn_toolCallCount (fst st) \<le> MAX_TOOL_CALLS \<and> chat_count (fst st) \<le> sn_toolCallCount (fst st))"
  have start: "I (start_session env sm w)"
    unfolding I_def using start_session_facts(2) [of env sm w] start_session_facts(1) [of is_tool_call env sm w] start_session_facts(1) [of is_chat env sm w]
    by (simp add: chat_count_def is_tool_call_def is_chat_def)
  have keep: "I st'" if "I st" "turn env sm sys st = Inr st'" for sys st st'
    using that tc.turn_inv(1) [of st env sm sys st'] turn_chats(1) [OF that(2)] turn_progress [OF that(2)] by (simp add: I_def)
  have last: "chat_count (fst (snd r)) \<le> MAX_TOOL_CALLS" if "I st" "turn env sm sys st = Inl r" for sys st r
    using that turn_chats(2) [of env sm sys st "fst r" "snd r"] by (cases "MAX_TOOL_CALLS \<le> sn_toolCallCount (fst st)") (auto simp: I_def)
  have "chat_count (fst (snd (session_loop env sm sys (start_session env sm w)))) \<le> MAX_TOOL_CALLS" for sys
    by (rule session_loop_inv [where I = I, OF start]) (blast intro: keep last)+
  then have "chat_count (fst (snd (session_loop env sm (getSystemPrompt p (sm_config sm)) (start_session env sm w)))) \<le> MAX_TOOL_CALLS" .
  then show ?thesis using assms by (auto simp: execute_def Let_def split: prod.splits)
qed

section \<open>Properties\<close>

text \<open>
  C8: a session always ends, whatever the language model and the backend answer: it runs at most
  100 tools, reports exactly that number, and asks the model at most 100 times.
\<close>

theorem session_bounded:
  "case execute env sm p w of (res, (s, w')) \<Rightarrow>
     sr_toolCallCount res = length (filter is_tool_call (sn_trace s)) \<and> sr_toolCallCount res \<le> 100
     \<and> length (filter is_chat (sn_trace s)) \<le> 100"
proof -
  obtain res s w' where e: "execute env sm p w = (res, (s, w'))" by (metis prod_cases3)
  have r: "sr_toolCallCount res = sn_toolCallCount s" using e by (auto simp: execute_def session_result_def Let_def split: prod.splits)
  from tc.execute_inv [OF e] have "sn_toolCallCount s = length (filter is_tool_call (sn_trace s)) \<and> sn_toolCallCount s \<le> MAX_TOOL_CALLS"
    by (auto simp: tc.ended_def is_tool_call_def)
  with r e execute_chats [OF e] show ?thesis by (simp add: MAX_TOOL_CALLS_def chat_count_def)
qed

text \<open>
  A session spends at most its two dollars and one more response: when no response of the model
  costs more than \<open>d\<close>, the estimated cost of the session is below \<open>2 + d\<close>.
\<close>

theorem session_cost_bounded:
  assumes "execute env sm p w = (res, (s, w'))" and "0 \<le> d" and "\<forall>r. Chat (Inr r) \<in> set (sn_trace s) \<longrightarrow> response_cost r \<le> d"
  shows "sr_estimatedCostUsd res < 2 + d"
proof -
  have "cost_inv s"
    using ci.execute_inv [OF assms(1)] by (auto simp: ci.ended_def cost_inv_chat) (auto simp: cost_inv_def)
  moreover have "sr_estimatedCostUsd res = estimatedCostUsd s"
    using assms(1) by (auto simp: execute_def session_result_def Let_def split: prod.splits)
  ultimately show ?thesis using assms(2,3) by (auto simp: cost_inv_def MAX_SESSION_COST_USD_def)
qed


text \<open>
  The events of a session that the backend took form a chain, whichever of the others it refused:
  each names the hash of the one before it, the first names none, and their sequence
  numbers grow.
\<close>

theorem session_events_chained:
  "case execute env sm p w of (res, (s, w')) \<Rightarrow>
     event_chain None (accepted_events s) (sn_lastHash s) \<and> sorted_wrt (<) (event_seqs (accepted_events s))"
proof -
  obtain res s w' where e: "execute env sm p w = (res, (s, w'))" by (metis prod_cases3)
  from ch.execute_inv [OF e] have "chain_inv s" by (auto simp: ch.ended_def) (simp_all add: chain_inv_def)
  with e show ?thesis by (simp add: chain_inv_def)
qed

text \<open>A session with a scripted model (\<open>MockLLMProvider\<close>) and a backend that refuses everything.\<close>

definition ex_session_agent :: "LLMResponse list \<Rightarrow> nat agent_env" where
  "ex_session_agent rs = \<lparr>ag_client = (\<lambda>proc v n. (Inl ''refused'', n)), ag_randomBytes = (\<lambda>k n. (replicate k (CHR ''a''), n)),
     ag_isoNow = (\<lambda>n. (''2026-01-01T00:00:00.000Z'', n)), ag_chat = (\<lambda>sys ms n. (let (r, n') = mock_chat rs n in (Inr r, n'))),
     ag_sha256 = (\<lambda>s. s), ag_toNumber = (\<lambda>_. None), ag_typeError = (\<lambda>s. s)\<rparr>"

definition ex_session_params :: SessionParams where
  "ex_session_params = \<lparr>sm_runId = ''sup_1'', sm_runUuid = ''u1'', sm_trigger = ''budget_exceeded'', sm_triggerRunId = ''r1'',
     sm_config = \<lparr>cf_apiKey = ''a'', cf_backendUrl = ''b'', cf_llmApiKey = None, cf_model = ''m'', cf_systemPromptOverride = None,
       cf_internalKey = Some ''k1'', cf_port = num_of_int 3002, cf_mockMode = True\<rparr>\<rparr>"

definition ex_reply :: "ContentBlock list \<Rightarrow> LLMResponse" where
  "ex_reply bs = \<lparr>lr_content = bs, lr_stop_reason = tool_use, lr_input_tokens = 1000, lr_output_tokens = 100\<rparr>"

definition ex_leak_reply :: LLMResponse where
  "ex_leak_reply = ex_reply [TextBlock ''the key is k1'', ToolUse ''2'' ''escalate_to_human'' JNull]"

lemma ex_leak_trace:
  "\<exists>xs. sn_trace (fst (snd (execute (ex_session_agent [ex_leak_reply]) ex_session_params [] 0))) = xs @ [Chat (Inr ex_leak_reply)]
    \<and> filter is_chat xs = []"
proof -
  let ?a = "ex_session_agent [ex_leak_reply]"
  let ?sys = "getSystemPrompt [] (sm_config ex_session_params)"
  obtain s w where st: "start_session ?a ex_session_params 0 = (s, w)" by fastforce
  have w: "w = 0" using st
    by (auto simp: start_session_def session_emitEvent_def ex_session_agent_def Let_def split: prod.splits sum.splits option.splits)
  have f: "filter is_chat (sn_trace s) = []" "sn_toolCallCount s = 0" "estimatedCostUsd s = 0"
    using start_session_facts(2,3) [of ?a ex_session_params 0] start_session_facts(1) [of is_chat ?a ex_session_params 0] st
    by (simp_all add: is_chat_def)
  have t: "tripped ex_session_params ex_leak_reply" by code_simp
  have c: "ag_chat ?a ?sys (sn_messages s) 0 = (Inr ex_leak_reply, 1)" by (simp add: ex_session_agent_def mock_chat_def)
  have "turn ?a ex_session_params ?sys (s, 0) = Inl (T_error, (count_usage ex_leak_reply s, 1))"
    using f t c by (simp add: turn_def MAX_TOOL_CALLS_def MAX_SESSION_COST_USD_def Let_def)
  then have "session_loop ?a ex_session_params ?sys (s, 0) = (T_error, (count_usage ex_leak_reply s, 1))"
    by (subst session_loop.simps) simp
  with st w f(1) show ?thesis by (auto simp: execute_def)
qed


theorem session_cost_bounded_witness:
  "sr_estimatedCostUsd (fst (execute (ex_session_agent [ex_leak_reply]) ex_session_params [] 0)) < 2 + 1"
proof -
  obtain res s w' where e: "execute (ex_session_agent [ex_leak_reply]) ex_session_params [] 0 = (res, (s, w'))"
    by (metis prod_cases3)
  have "r = ex_leak_reply" if "Chat (Inr r) \<in> set (sn_trace s)" for r
    using that ex_leak_trace unfolding e by (fastforce simp: filter_empty_conv is_chat_def)
  moreover have "response_cost ex_leak_reply \<le> 1"
    by (simp add: response_cost_def ex_leak_reply_def ex_reply_def DEEPSEEK_COST_PER_INPUT_TOKEN_def DEEPSEEK_COST_PER_OUTPUT_TOKEN_def)
  ultimately have "\<forall>r. Chat (Inr r) \<in> set (sn_trace s) \<longrightarrow> response_cost r \<le> 1" by auto
  from session_cost_bounded [OF e _ this] e show ?thesis by simp
qed

text \<open>
  The backend refuses the events of proposals and escalations with an absent optional
  parameter: the session sends \<open>null\<close> for it, and the schema of \<open>emitEvent\<close> takes an absent
  field but not \<open>null\<close>. So a \<open>flag_for_review\<close> without \<open>target_agent\<close> and an escalation without
  recommendation, timeout or timeout action are never logged.
\<close>

theorem absent_parameter_event_refused:
  "(coalesce (jget v ''target_agent'') JNull = JNull \<longrightarrow>
     emitEvent env c (JObj (emit_fields sm et sq ts (proposal_event sm name v) @ [(''hash'', h), (''hash_prev'', hp)])) t = Inl invalid_input)
   \<and> ((\<exists>k\<in>{''recommendation'', ''timeout_seconds'', ''timeout_action''}. coalesce (jget v k) JNull = JNull) \<longrightarrow>
     emitEvent env c (JObj (emit_fields sm et sq ts (escalation_event sm v) @ [(''hash'', h), (''hash_prev'', hp)])) t = Inl invalid_input)"
proof -
  have r: "emitEvent env c u t = Inl invalid_input" if "jget u k = JNull" "(k, z_opt P) \<in> set (emit_schema env)" "\<not> P JNull" for u k P
  proof -
    have "\<not> z_object (emit_schema env) u"
      using that by (force simp: z_object_iff list_all_iff z_opt_def)
    then show ?thesis by (simp add: emitEvent_def)
  qed
  have s: "(''target_agent'', z_opt z_text) \<in> set (emit_schema env)" "(''recommendation'', z_opt z_text) \<in> set (emit_schema env)"
    "(''timeout_seconds'', z_opt (z_number z_int)) \<in> set (emit_schema env)" "(''timeout_action'', z_opt z_text) \<in> set (emit_schema env)"
    by (simp_all add: emit_schema_def)
  have n: "\<not> z_text JNull" "\<not> z_number z_int JNull" by (simp_all add: z_string_def z_number_def)
  have "emitEvent env c (JObj (emit_fields sm et sq ts (proposal_event sm name v) @ [(''hash'', h), (''hash_prev'', hp)])) t = Inl invalid_input"
    if "coalesce (jget v ''target_agent'') JNull = JNull"
    by (rule r [OF _ s(1) n(1)]) (use that in \<open>simp add: emit_fields_def proposal_event_def trigger_fields_def or_null_def\<close>)
  moreover have "emitEvent env c (JObj (emit_fields sm et sq ts (escalation_event sm v) @ [(''hash'', h), (''hash_prev'', hp)])) t = Inl invalid_input"
    if "coalesce (jget v ''recommendation'') JNull = JNull"
    by (rule r [OF _ s(2) n(1)]) (use that in \<open>simp add: emit_fields_def escalation_event_def trigger_fields_def or_null_def\<close>)
  moreover have "emitEvent env c (JObj (emit_fields sm et sq ts (escalation_event sm v) @ [(''hash'', h), (''hash_prev'', hp)])) t = Inl invalid_input"
    if "coalesce (jget v ''timeout_seconds'') JNull = JNull"
    by (rule r [OF _ s(3) n(2)]) (use that in \<open>simp add: emit_fields_def escalation_event_def trigger_fields_def or_null_def\<close>)
  moreover have "emitEvent env c (JObj (emit_fields sm et sq ts (escalation_event sm v) @ [(''hash'', h), (''hash_prev'', hp)])) t = Inl invalid_input"
    if "coalesce (jget v ''timeout_action'') JNull = JNull"
    by (rule r [OF _ s(4) n(1)]) (use that in \<open>simp add: emit_fields_def escalation_event_def trigger_fields_def or_null_def\<close>)
  ultimately show ?thesis by blast
qed

theorem absent_parameter_event_refused_witness:
  "emitEvent ex_tools_env ex_caller (JObj (emit_fields ex_session_params ''supervisor_escalation_created'' 2 ''2026-01-01''
      (escalation_event ex_session_params ex_escalation_params)
      @ [(''hash'', JStr (replicate 64 (CHR ''a''))), (''hash_prev'', JNull)])) ex_tables = Inl invalid_input"
proof -
  have "\<exists>k\<in>{''recommendation'', ''timeout_seconds'', ''timeout_action''}. coalesce (jget ex_escalation_params k) JNull = JNull"
    by code_simp
  then show ?thesis using absent_parameter_event_refused by blast
qed

end
