(* ===== verification/Supervisor_Server.thy ===== *)
theory Supervisor_Server
  imports Supervisor_Session Trigger_Queue
begin

text \<open>
  \<open>apps/supervisor/src/index.ts\<close>: the HTTP server of the AI supervisor's process, which accepts
  triggers, runs at most five sessions at a time and queues up to fifty.

  \<open>processTrigger\<close> runs until its session waits for the first time: what counts is that
  the number of sessions is raised at once. The end of a session, with or without an
  error, is the event \<open>SessionDone\<close>. A request is handled in one go, since the code does not wait
  between its look at the queue and its effect on it. \<open>sv_accepted\<close>, \<open>sv_started\<close> and
  \<open>sv_finished\<close> are the history of the server, which the code does not keep.
\<close>

section \<open>State\<close>

definition MAX_CONCURRENT :: nat where "MAX_CONCURRENT = 5"
definition MAX_QUEUE :: nat where "MAX_QUEUE = 50"

record server =
  sv_activeSessions :: nat
  sv_pendingQueue :: "jsval list"
  sv_accepted :: "jsval list"
  sv_started :: "jsval list"
  sv_finished :: nat

definition server_init :: server where
  "server_init = \<lparr>sv_activeSessions = 0, sv_pendingQueue = [], sv_accepted = [], sv_started = [], sv_finished = 0\<rparr>"

section \<open>Sessions\<close>

definition processTrigger :: "jsval \<Rightarrow> server \<Rightarrow> server" where
  "processTrigger msg s = s\<lparr>sv_activeSessions := Suc (sv_activeSessions s), sv_started := sv_started s @ [msg]\<rparr>"

function supervisor_drainQueue :: "server \<Rightarrow> server" where
  "supervisor_drainQueue s =
    (if sv_activeSessions s < MAX_CONCURRENT \<and> sv_pendingQueue s \<noteq> []
     then supervisor_drainQueue (processTrigger (hd (sv_pendingQueue s)) (s\<lparr>sv_pendingQueue := tl (sv_pendingQueue s)\<rparr>)) else s)"
  by pat_completeness auto

termination
  by (relation "measure (\<lambda>s. length (sv_pendingQueue s))") (auto simp: processTrigger_def)

declare supervisor_drainQueue.simps [simp del]

text \<open>The \<open>finally\<close> of \<open>processTrigger\<close>.\<close>

definition session_done :: "server \<Rightarrow> server" where
  "session_done s = supervisor_drainQueue (s\<lparr>sv_activeSessions := sv_activeSessions s - 1, sv_finished := Suc (sv_finished s)\<rparr>)"

section \<open>Requests\<close>

text \<open>The body is \<open>None\<close> when it is no JSON. A body of \<open>null\<close> makes the handler throw.\<close>

record http_request =
  rq_method :: string
  rq_pathname :: string
  rq_authorization :: "string option"
  rq_json :: "jsval option"

datatype http_response = Json int jsval | Throws

definition status_fields :: "server \<Rightarrow> (string \<times> jsval) list" where
  "status_fields s = [(''active_sessions'', jint (int (sv_activeSessions s))), (''queued'', jint (int (length (sv_pendingQueue s))))]"

definition error_response :: "int \<Rightarrow> string \<Rightarrow> (string \<times> jsval) list \<Rightarrow> http_response" where
  "error_response status m rest = Json status (JObj ((''error'', JStr m) # rest))"

definition authorized :: "SupervisorConfig \<Rightarrow> http_request \<Rightarrow> bool" where
  "authorized c req = (case cf_internalKey c of
     None \<Rightarrow> True | Some k \<Rightarrow> k = [] \<or> rq_authorization req = Some (''Bearer '' @ k))"

definition accept_trigger :: "jsval \<Rightarrow> server \<Rightarrow> server" where
  "accept_trigger body s =
    (let s1 = s\<lparr>sv_accepted := sv_accepted s @ [body]\<rparr> in
     if sv_activeSessions s < MAX_CONCURRENT then processTrigger body s1
     else s1\<lparr>sv_pendingQueue := sv_pendingQueue s @ [body]\<rparr>)"

definition post_trigger :: "SupervisorConfig \<Rightarrow> http_request \<Rightarrow> server \<Rightarrow> http_response \<times> server" where
  "post_trigger c req s =
    (if \<not> authorized c req then (error_response 401 ''Unauthorized'' [], s)
     else (case rq_json req of
        None \<Rightarrow> (error_response 400 ''Invalid JSON'' [], s)
      | Some body \<Rightarrow>
          if body = JNull then (Throws, s)
          else if \<not> truthy (jget body ''trigger'') \<or> \<not> truthy (jget body ''trigger_run_id'') \<or> \<not> truthy (jget body ''tenant_id'')
          then (error_response 400 ''Missing required fields: trigger, trigger_run_id, tenant_id'' [], s)
          else if sv_activeSessions s \<ge> MAX_CONCURRENT \<and> length (sv_pendingQueue s) \<ge> MAX_QUEUE
          then (error_response 503 ''Queue full'' [(''queued'', jint (int (length (sv_pendingQueue s))))], s)
          else (let s' = accept_trigger body s in (Json 200 (JObj ((''accepted'', JBool True) # status_fields s')), s'))))"

definition fetch_handler :: "SupervisorConfig \<Rightarrow> http_request \<Rightarrow> server \<Rightarrow> http_response \<times> server" where
  "fetch_handler c req s =
    (if rq_pathname req = ''/api/health'' \<and> rq_method req = ''GET'' then (Json 200 (JObj ((''status'', JStr ''ok'') # status_fields s)), s)
     else if rq_pathname req = ''/api/trigger'' \<and> rq_method req = ''POST'' then post_trigger c req s
     else (error_response 404 ''Not found'' [], s))"

section \<open>Runs of the server\<close>

inductive server_step :: "SupervisorConfig \<Rightarrow> server \<Rightarrow> server \<Rightarrow> bool" for c where
  request: "fetch_handler c req s = (resp, s') \<Longrightarrow> server_step c s s'"
| finish: "sv_activeSessions s > 0 \<Longrightarrow> server_step c s (session_done s)"

inductive server_reach :: "SupervisorConfig \<Rightarrow> server \<Rightarrow> bool" for c where
  init: "server_reach c server_init"
| step: "server_reach c s \<Longrightarrow> server_step c s s' \<Longrightarrow> server_reach c s'"

inductive_cases server_stepE: "server_step c s s'"

datatype server_event = Request http_request | SessionDone

text \<open>Without a session there is none to end.\<close>

fun server_exec :: "SupervisorConfig \<Rightarrow> server_event list \<Rightarrow> server \<Rightarrow> server" where
  "server_exec c [] s = s"
| "server_exec c (Request req # es) s = server_exec c es (snd (fetch_handler c req s))"
| "server_exec c (SessionDone # es) s = server_exec c es (if sv_activeSessions s > 0 then session_done s else s)"

definition completions :: "server_event list \<Rightarrow> nat" where
  "completions es = length (filter (\<lambda>e. e = SessionDone) es)"

section \<open>The invariant\<close>

definition server_inv :: "server \<Rightarrow> bool" where
  "server_inv s \<longleftrightarrow> sv_activeSessions s \<le> MAX_CONCURRENT \<and> length (sv_pendingQueue s) \<le> MAX_QUEUE
     \<and> (sv_pendingQueue s \<noteq> [] \<longrightarrow> sv_activeSessions s = MAX_CONCURRENT)
     \<and> sv_accepted s = sv_started s @ sv_pendingQueue s \<and> length (sv_started s) = sv_activeSessions s + sv_finished s"

lemma server_inv_init: "server_inv server_init"
  by (simp add: server_inv_def server_init_def)

text \<open>Draining starts as many of the queued triggers as there are free places.\<close>

lemma drainQueue_result:
  assumes "sv_activeSessions s \<le> MAX_CONCURRENT" and "n = min (MAX_CONCURRENT - sv_activeSessions s) (length (sv_pendingQueue s))"
  shows "supervisor_drainQueue s = s\<lparr>sv_activeSessions := sv_activeSessions s + n, sv_started := sv_started s @ take n (sv_pendingQueue s),
    sv_pendingQueue := drop n (sv_pendingQueue s)\<rparr>"
  using assms
proof (induction s arbitrary: n rule: supervisor_drainQueue.induct)
  case (1 s)
  show ?case
  proof (cases "sv_activeSessions s < MAX_CONCURRENT \<and> sv_pendingQueue s \<noteq> []")
    case True
    then obtain m q where q: "sv_pendingQueue s = m # q" by (cases "sv_pendingQueue s") auto
    let ?s = "processTrigger m (s\<lparr>sv_pendingQueue := q\<rparr>)"
    let ?n = "min (MAX_CONCURRENT - sv_activeSessions ?s) (length (sv_pendingQueue ?s))"
    have n: "n = Suc ?n" using True q 1(3) by (auto simp: processTrigger_def)
    have "supervisor_drainQueue s = supervisor_drainQueue ?s" using True q by (subst supervisor_drainQueue.simps) simp
    also have "\<dots> = ?s\<lparr>sv_activeSessions := sv_activeSessions ?s + ?n, sv_started := sv_started ?s @ take ?n (sv_pendingQueue ?s),
      sv_pendingQueue := drop ?n (sv_pendingQueue ?s)\<rparr>"
      using 1(1) [OF True, of ?n] q True by (simp add: processTrigger_def)
    also have "\<dots> = s\<lparr>sv_activeSessions := sv_activeSessions s + n, sv_started := sv_started s @ take n (sv_pendingQueue s),
      sv_pendingQueue := drop n (sv_pendingQueue s)\<rparr>"
      unfolding n using q by (simp add: processTrigger_def)
    finally show ?thesis .
  next
    case False
    then have "n = 0" using 1(2,3) by auto
    then show ?thesis using False by (subst supervisor_drainQueue.simps) auto
  qed
qed

lemma session_done_result:
  assumes "server_inv s" and "sv_activeSessions s > 0"
  shows "session_done s = (case sv_pendingQueue s of
      [] \<Rightarrow> s\<lparr>sv_activeSessions := sv_activeSessions s - 1, sv_finished := Suc (sv_finished s)\<rparr>
    | m # q \<Rightarrow> s\<lparr>sv_pendingQueue := q, sv_started := sv_started s @ [m], sv_finished := Suc (sv_finished s)\<rparr>)"
proof -
  let ?s = "s\<lparr>sv_activeSessions := sv_activeSessions s - 1, sv_finished := Suc (sv_finished s)\<rparr>"
  have a: "sv_activeSessions ?s \<le> MAX_CONCURRENT" using assms(1) by (auto simp: server_inv_def)
  show ?thesis
  proof (cases "sv_pendingQueue s")
    case Nil
    with drainQueue_result [OF a refl] show ?thesis by (simp add: session_done_def)
  next
    case (Cons m q)
    with assms(1) have f: "sv_activeSessions s = MAX_CONCURRENT" by (simp add: server_inv_def)
    with Cons have "min (MAX_CONCURRENT - sv_activeSessions ?s) (length (sv_pendingQueue ?s)) = 1" by (simp add: MAX_CONCURRENT_def)
    with drainQueue_result [OF a] Cons f show ?thesis by (simp add: session_done_def MAX_CONCURRENT_def)
  qed
qed

lemma session_done_inv: "server_inv s \<Longrightarrow> sv_activeSessions s > 0 \<Longrightarrow> server_inv (session_done s)"
  by (auto simp: session_done_result) (auto simp: server_inv_def split: list.splits)

lemma accept_trigger_inv:
  assumes "server_inv s" and "\<not> (sv_activeSessions s \<ge> MAX_CONCURRENT \<and> length (sv_pendingQueue s) \<ge> MAX_QUEUE)"
  shows "server_inv (accept_trigger body s)"
  using assms by (auto simp: server_inv_def accept_trigger_def processTrigger_def Let_def)

text \<open>A request leaves the server alone or adds one trigger.\<close>

lemma fetch_handler_effect:
  "snd (fetch_handler c req s) = s \<or> (\<exists>body. snd (fetch_handler c req s) = accept_trigger body s \<and> authorized c req \<and> rq_json req = Some body
      \<and> \<not> (sv_activeSessions s \<ge> MAX_CONCURRENT \<and> length (sv_pendingQueue s) \<ge> MAX_QUEUE))"
  by (simp add: fetch_handler_def post_trigger_def Let_def split: option.splits)

lemma fetch_handler_cases:
  obtains "snd (fetch_handler c req s) = s"
  | body where "snd (fetch_handler c req s) = accept_trigger body s" "authorized c req" "rq_json req = Some body"
      "\<not> (sv_activeSessions s \<ge> MAX_CONCURRENT \<and> length (sv_pendingQueue s) \<ge> MAX_QUEUE)"
  using fetch_handler_effect [of c req s] by blast

lemma fetch_handler_inv: "server_inv s \<Longrightarrow> server_inv (snd (fetch_handler c req s))"
  by (rule fetch_handler_cases [of c req s]) (simp_all add: accept_trigger_inv)

lemma server_reach_inv: "server_reach c s \<Longrightarrow> server_inv s"
proof (induction rule: server_reach.induct)
  case init
  show ?case by (rule server_inv_init)
next
  case (step s s')
  from step(2) show ?case
  proof (rule server_stepE)
    fix req resp assume "fetch_handler c req s = (resp, s')"
    with fetch_handler_inv [OF step(3), of c req] show ?thesis by simp
  qed (simp add: session_done_inv [OF step(3)])
qed

lemma server_exec_inv: "server_inv s \<Longrightarrow> server_inv (server_exec c es s)"
  by (induction c es s rule: server_exec.induct) (simp_all add: fetch_handler_inv session_done_inv)

text \<open>No trigger is taken back: the histories only grow.\<close>

lemma server_exec_prefix:
  assumes "server_inv s"
  shows "prefix (sv_accepted s) (sv_accepted (server_exec c es s)) \<and> prefix (sv_started s) (sv_started (server_exec c es s))"
  using assms
proof (induction c es s rule: server_exec.induct)
  case (2 c req es s)
  have "prefix (sv_accepted s) (sv_accepted (snd (fetch_handler c req s))) \<and> prefix (sv_started s) (sv_started (snd (fetch_handler c req s)))"
    by (rule fetch_handler_cases [of c req s]) (auto simp: accept_trigger_def processTrigger_def Let_def)
  with 2 show ?case by (auto simp: fetch_handler_inv intro: prefix_order.trans)
next
  case (3 c es s)
  have "prefix (sv_accepted s) (sv_accepted (session_done s)) \<and> prefix (sv_started s) (sv_started (session_done s))" if "sv_activeSessions s > 0"
    using session_done_result [OF 3(2) that] by (auto split: list.splits)
  with 3 show ?case by (auto simp: session_done_inv intro: prefix_order.trans)
qed simp

lemma server_exec_progress:
  assumes "server_inv s" and "n \<le> length (sv_accepted s)"
  shows "min n (length (sv_started s) + completions es) \<le> length (sv_started (server_exec c es s))"
  using assms
proof (induction c es s rule: server_exec.induct)
  case (2 c req es s)
  have "length (sv_started s) \<le> length (sv_started (snd (fetch_handler c req s)))
      \<and> length (sv_accepted s) \<le> length (sv_accepted (snd (fetch_handler c req s)))"
    by (rule fetch_handler_cases [of c req s]) (auto simp: accept_trigger_def processTrigger_def Let_def)
  with 2 show ?case by (auto simp: fetch_handler_inv completions_def)
next
  case (3 c es s)
  let ?s = "if sv_activeSessions s > 0 then session_done s else s"
  have i: "server_inv ?s" using 3(2) by (simp add: session_done_inv)
  have "min n (Suc (length (sv_started s))) \<le> length (sv_started ?s) \<and> length (sv_accepted ?s) = length (sv_accepted s)"
  proof (cases "sv_activeSessions s > 0")
    case True
    show ?thesis
      using 3(2,3) session_done_result [OF 3(2) True] True by (auto simp: server_inv_def split: list.splits)
  next
    case False
    with 3(2) have "sv_pendingQueue s = []" by (auto simp: server_inv_def MAX_CONCURRENT_def)
    with 3(2,3) False show ?thesis by (simp add: server_inv_def)
  qed
  with 3(1) [OF i] 3(3) show ?case by (auto simp: completions_def)
qed (simp add: completions_def)

lemma server_exec_reach: "server_reach c s \<Longrightarrow> server_reach c (server_exec c es s)"
proof (induction c es s rule: server_exec.induct)
  case (2 c req es s)
  have "server_step c s (snd (fetch_handler c req s))" by (rule server_step.request [of c req s "fst (fetch_handler c req s)"]) simp
  with 2 show ?case by (auto intro: server_reach.step)
next
  case (3 c es s)
  have "server_reach c (session_done s)" if "sv_activeSessions s > 0"
    by (rule server_reach.step [OF 3(2) server_step.finish [OF that]])
  with 3 show ?case by simp
qed simp

section \<open>The dispatcher and the server\<close>

text \<open>The request of the backend's dispatcher as the server sees it.\<close>

definition request_of :: "post_request \<Rightarrow> http_request" where
  "request_of p = \<lparr>rq_method = ''POST'', rq_pathname = ''/api/trigger'', rq_authorization = map_of (pr_headers p) ''Authorization'',
     rq_json = Some (JObj (pr_body p))\<rparr>"

section \<open>Properties\<close>

text \<open>
  C15: at every moment at most five sessions run and at most fifty triggers wait; a trigger waits
  only while all five places are taken; the triggers accepted so far are those started so
  far followed by those that wait, so that sessions start in the order of arrival and none is lost or
  started twice.
\<close>

theorem server_sessions_bounded_fifo:
  assumes "server_reach c s"
  shows "sv_activeSessions s \<le> 5 \<and> length (sv_pendingQueue s) \<le> 50 \<and> (sv_pendingQueue s \<noteq> [] \<longrightarrow> sv_activeSessions s = 5)
    \<and> sv_accepted s = sv_started s @ sv_pendingQueue s \<and> length (sv_started s) = sv_activeSessions s + sv_finished s"
  using server_reach_inv [OF assms] by (simp add: server_inv_def MAX_CONCURRENT_def MAX_QUEUE_def)

text \<open>
  C14: every trigger that waits is started: the one with \<open>i\<close> others before it is, at the latest,
  when \<open>i + 1\<close> sessions have ended, whatever requests arrive meanwhile.
\<close>

theorem queued_trigger_starts:
  assumes "server_reach c s" and "i < length (sv_pendingQueue s)" and "i < completions es"
  shows "length (sv_started s) + i < length (sv_started (server_exec c es s))
    \<and> sv_started (server_exec c es s) ! (length (sv_started s) + i) = sv_pendingQueue s ! i"
proof -
  let ?s = "server_exec c es s"
  let ?n = "length (sv_started s) + i"
  note inv = server_reach_inv [OF assms(1)]
  have a: "sv_accepted s = sv_started s @ sv_pendingQueue s" using inv by (simp add: server_inv_def)
  have a': "sv_accepted ?s = sv_started ?s @ sv_pendingQueue ?s" using server_exec_inv [OF inv, of c es] by (simp add: server_inv_def)
  have l: "?n < length (sv_started ?s)"
    using server_exec_progress [OF inv, of "Suc ?n" es c] a assms(2,3) by auto
  from server_exec_prefix [OF inv, of c es] obtain zs where "sv_accepted ?s = sv_accepted s @ zs" by (auto elim: prefixE)
  then have "(sv_started ?s @ sv_pendingQueue ?s) ! ?n = (sv_started s @ sv_pendingQueue s @ zs) ! ?n" using a a' by simp
  with l assms(2) show ?thesis by (simp add: nth_append)
qed

text \<open>
  The backend's dispatcher and the supervisor's server understand each other: a trigger with
  non-empty fields, sent with the server's own key, is accepted unless the queue is full, and is
  what the session is started with; sent with any other key it is refused with status 401 and
  changes nothing.
\<close>

theorem dispatched_trigger_accepted:
  assumes "tm_trigger m \<noteq> []" and "tm_trigger_run_id m \<noteq> []" and "tm_tenant_id m \<noteq> []"
    and "sv_activeSessions s < 5 \<or> length (sv_pendingQueue s) < 50"
  shows "(cf_internalKey c = key \<longrightarrow> (\<exists>v. fetch_handler c (request_of (dispatchTrigger env url key m)) s
        = (Json 200 v, accept_trigger (JObj (pr_body (dispatchTrigger env url key m))) s) \<and> jget v ''accepted'' = JBool True))
    \<and> (\<forall>k. cf_internalKey c = Some k \<and> k \<noteq> [] \<and> key \<noteq> Some k \<longrightarrow> fetch_handler c (request_of (dispatchTrigger env url key m)) s
        = (error_response 401 ''Unauthorized'' [], s))"
proof -
  let ?p = "dispatchTrigger env url key m"
  let ?r = "request_of ?p"
  have h: "rq_authorization ?r = (case key of None \<Rightarrow> None | Some k \<Rightarrow> if k = [] then None else Some (''Bearer '' @ k))"
    by (simp add: request_of_def dispatchTrigger_def split: option.splits)
  have b: "truthy (jget (JObj (pr_body ?p)) ''trigger'')" "truthy (jget (JObj (pr_body ?p)) ''trigger_run_id'')"
    "truthy (jget (JObj (pr_body ?p)) ''tenant_id'')" using assms(1-3) by (simp_all add: dispatchTrigger_def)
  have f: "fetch_handler c ?r s = post_trigger c ?r s" "rq_json ?r = Some (JObj (pr_body ?p))"
    by (simp_all add: fetch_handler_def request_of_def)
  have ok: "\<exists>v. post_trigger c ?r s = (Json 200 v, accept_trigger (JObj (pr_body ?p)) s) \<and> jget v ''accepted'' = JBool True" if "authorized c ?r"
    using that b f(2) assms(4) by (auto simp: post_trigger_def Let_def MAX_CONCURRENT_def MAX_QUEUE_def simp del: jget.simps intro: exI)
      (auto simp: jget.simps)
  have "authorized c ?r" if "cf_internalKey c = key" using that h by (auto simp: authorized_def split: option.splits)
  moreover have "\<not> authorized c ?r" if "cf_internalKey c = Some k" "k \<noteq> []" "key \<noteq> Some k" for k
    using that h by (auto simp: authorized_def split: option.splits)
  ultimately show ?thesis unfolding f(1) using ok by (auto simp: post_trigger_def)
qed

definition ex_trigger :: TriggerMessage where
  "ex_trigger = \<lparr>tm_trigger = ''budget_exceeded'', tm_trigger_run_id = ''r1'', tm_tenant_id = ''t1'', tm_priority = 2, tm_enqueued_at = ''2026''\<rparr>"

definition ex_dispatch_env :: dispatch_env where
  "ex_dispatch_env = \<lparr>LOOPSTORM_BACKEND_URL = None, LOOPSTORM_API_KEY = None\<rparr>"

definition ex_request :: http_request where
  "ex_request = request_of (dispatchTrigger ex_dispatch_env ''http://s'' (Some ''k1'') ex_trigger)"

definition ex_server_config :: SupervisorConfig where
  "ex_server_config = sm_config ex_session_params"

definition ex_busy :: server where
  "ex_busy = server_exec ex_server_config (replicate 6 (Request ex_request)) server_init"

lemma ex_busy_reach: "server_reach ex_server_config ex_busy"
  unfolding ex_busy_def by (intro server_exec_reach server_reach.init)

lemma ex_busy_queue: "length (sv_pendingQueue ex_busy) = 1"
  by code_simp

theorem server_sessions_bounded_fifo_witness:
  "length (sv_pendingQueue ex_busy) = 1 \<and> sv_activeSessions ex_busy = 5"
proof -
  have "sv_pendingQueue ex_busy \<noteq> []" using ex_busy_queue by auto
  with server_sessions_bounded_fifo [OF ex_busy_reach] ex_busy_queue show ?thesis by blast
qed

theorem queued_trigger_starts_witness:
  "sv_started (server_exec ex_server_config [Request ex_request, SessionDone] ex_busy) ! length (sv_started ex_busy) = sv_pendingQueue ex_busy ! 0"
proof -
  have "0 < length (sv_pendingQueue ex_busy)" "0 < completions [Request ex_request, SessionDone]"
    using ex_busy_queue by (simp_all add: completions_def)
  from queued_trigger_starts [OF ex_busy_reach this] show ?thesis by simp
qed

theorem dispatched_trigger_accepted_witness:
  "(\<exists>v. fetch_handler ex_server_config ex_request server_init
      = (Json 200 v, accept_trigger (JObj (pr_body (dispatchTrigger ex_dispatch_env ''http://s'' (Some ''k1'') ex_trigger))) server_init))
   \<and> fetch_handler ex_server_config (request_of (dispatchTrigger ex_dispatch_env ''http://s'' None ex_trigger)) server_init
      = (error_response 401 ''Unauthorized'' [], server_init)"
proof -
  have t: "tm_trigger ex_trigger \<noteq> []" "tm_trigger_run_id ex_trigger \<noteq> []" "tm_tenant_id ex_trigger \<noteq> []"
    "sv_activeSessions server_init < 5 \<or> length (sv_pendingQueue server_init) < 50"
    by (simp_all add: ex_trigger_def server_init_def)
  have k: "cf_internalKey ex_server_config = Some ''k1''" by (simp add: ex_server_config_def ex_session_params_def)
  from dispatched_trigger_accepted [OF t, of ex_server_config "Some ''k1''" ex_dispatch_env "''http://s''"]
    dispatched_trigger_accepted [OF t, of ex_server_config None ex_dispatch_env "''http://s''"] k
  show ?thesis unfolding ex_request_def by auto
qed

end
