(* ===== verification/Trigger_Pipeline.thy ===== *)
theory Trigger_Pipeline
  imports Trigger_Dispatch Supervisor_Server
begin

text \<open>
  The backend's worker (\<open>Trigger_Dispatch\<close>) and the supervisor's server (\<open>Supervisor_Server\<close>) with the network
  between them: requests are on their way, arrive in any order or get lost, and are answered or given up
  before or after they arrive. Whatever happens, every trigger that the queue has accepted is in exactly
  one place, and no trigger starts two sessions.
\<close>

section \<open>The pipeline\<close>

text \<open>\<open>pl_flight\<close>: requests that were sent and have not arrived. \<open>pl_dropped\<close>: lost, or refused by the server.\<close>

record pipeline =
  pl_dispatcher :: dispatcher
  pl_flight :: "TriggerMessage list"
  pl_server :: server
  pl_dropped :: "TriggerMessage list"

record pipeline_env =
  pe_dispatch :: dispatch_env
  pe_url :: string
  pe_key :: "string option"
  pe_config :: SupervisorConfig

datatype pipeline_op = Worker dispatch_op | Arrives TriggerMessage | Lost TriggerMessage | SessionEnds

definition session_input :: "pipeline_env \<Rightarrow> TriggerMessage \<Rightarrow> jsval" where
  "session_input e m = JObj (pr_body (dispatchTrigger (pe_dispatch e) (pe_url e) (pe_key e) m))"

definition arrival :: "pipeline_env \<Rightarrow> TriggerMessage \<Rightarrow> server \<Rightarrow> http_response \<times> server" where
  "arrival e m s = fetch_handler (pe_config e) (request_of (dispatchTrigger (pe_dispatch e) (pe_url e) (pe_key e) m)) s"

definition taken :: "http_response \<Rightarrow> bool" where
  "taken r \<longleftrightarrow> (case r of Json code _ \<Rightarrow> code = 200 | Throws \<Rightarrow> False)"

fun pipeline_step :: "pipeline_env \<Rightarrow> pipeline_op \<Rightarrow> pipeline \<Rightarrow> pipeline" where
  "pipeline_step e (Worker opn) p =
    (let d = dispatch_step (Some (pe_url e)) opn (pl_dispatcher p)
     in p\<lparr>pl_dispatcher := d, pl_flight := pl_flight p @ drop (length (dp_sent (pl_dispatcher p))) (dp_sent d)\<rparr>)"
| "pipeline_step e (Arrives m) p =
    (if m \<in> set (pl_flight p)
     then (let (r, s) = arrival e m (pl_server p); p1 = p\<lparr>pl_flight := remove1 m (pl_flight p), pl_server := s\<rparr>
           in if taken r then p1 else p1\<lparr>pl_dropped := pl_dropped p @ [m]\<rparr>)
     else p)"
| "pipeline_step e (Lost m) p =
    (if m \<in> set (pl_flight p) then p\<lparr>pl_flight := remove1 m (pl_flight p), pl_dropped := pl_dropped p @ [m]\<rparr> else p)"
| "pipeline_step e SessionEnds p =
    (if sv_activeSessions (pl_server p) > 0 then p\<lparr>pl_server := session_done (pl_server p)\<rparr> else p)"

definition pipeline_run :: "pipeline_env \<Rightarrow> pipeline_op list \<Rightarrow> pipeline \<Rightarrow> pipeline" where
  "pipeline_run e ops p = fold (pipeline_step e) ops p"

definition pipeline_init :: "pipeline_env \<Rightarrow> TriggerQueue \<Rightarrow> pipeline" where
  "pipeline_init e q = \<lparr>pl_dispatcher = startTriggerDispatch (Some (pe_url e)) q, pl_flight = [], pl_server = server_init, pl_dropped = []\<rparr>"

section \<open>Where a trigger is\<close>

lemma arrival_cases:
  assumes "arrival e m s = (r, s')"
  shows "if taken r then s' = accept_trigger (session_input e m) s
      \<and> \<not> (sv_activeSessions s \<ge> MAX_CONCURRENT \<and> length (sv_pendingQueue s) \<ge> MAX_QUEUE) else s' = s"
proof -
  have "arrival e m s = post_trigger (pe_config e) (request_of (dispatchTrigger (pe_dispatch e) (pe_url e) (pe_key e) m)) s"
    "rq_json (request_of (dispatchTrigger (pe_dispatch e) (pe_url e) (pe_key e) m)) = Some (session_input e m)"
    by (simp_all add: arrival_def fetch_handler_def request_of_def session_input_def)
  with assms show ?thesis
    by (auto simp: post_trigger_def taken_def error_response_def Let_def split: if_splits)
qed

text \<open>The requests that were sent are on their way, were dropped, or are those the server has accepted.\<close>

definition pipeline_inv :: "pipeline_env \<Rightarrow> pipeline \<Rightarrow> bool" where
  "pipeline_inv e p \<longleftrightarrow> in_order (pl_dispatcher p) \<and> server_inv (pl_server p)
     \<and> image_mset (session_input e) (mset (dp_sent (pl_dispatcher p)))
       = image_mset (session_input e) (mset (pl_flight p)) + image_mset (session_input e) (mset (pl_dropped p))
         + mset (sv_accepted (pl_server p))"

lemma remove1_image: "m \<in> set xs \<Longrightarrow> image_mset f (mset xs) = add_mset (f m) (image_mset f (mset (remove1 m xs)))"
  by (metis image_mset_add_mset insert_DiffM mset_remove1 set_mset_mset)

lemma sent_grows:
  assumes "configured url"
  shows "\<exists>new. dp_sent (dispatch_step url opn d) = dp_sent d @ new"
  using assms by (cases opn) (auto simp: resume_configured split: list.split prod.split)

lemma pipeline_inv_step:
  assumes "configured (Some (pe_url e))" and "pipeline_inv e p"
  shows "pipeline_inv e (pipeline_step e opn p)"
proof (cases opn)
  case (Worker w)
  from sent_grows [OF assms(1), of w "pl_dispatcher p"]
  obtain new where "dp_sent (dispatch_step (Some (pe_url e)) w (pl_dispatcher p)) = dp_sent (pl_dispatcher p) @ new" by blast
  with Worker assms(2) in_order_step [OF assms(1)] show ?thesis
    by (simp add: pipeline_inv_def Let_def ac_simps)
next
  case (Arrives m)
  obtain r s where a: "arrival e m (pl_server p) = (r, s)" by fastforce
  have "server_inv s"
    using arrival_cases [OF a] assms(2) accept_trigger_inv by (auto simp: pipeline_inv_def split: if_splits)
  moreover have "sv_accepted s = (if taken r then sv_accepted (pl_server p) @ [session_input e m] else sv_accepted (pl_server p))"
    using arrival_cases [OF a] by (simp add: accept_trigger_def processTrigger_def Let_def split: if_splits)
  ultimately show ?thesis
    using assms(2) remove1_image [of m "pl_flight p" "session_input e"] by (simp add: Arrives a pipeline_inv_def Let_def)
next
  case (Lost m)
  with assms(2) remove1_image [of m "pl_flight p" "session_input e"] show ?thesis
    by (simp add: pipeline_inv_def)
next
  case SessionEnds
  have "sv_accepted (session_done (pl_server p)) = sv_accepted (pl_server p)" if "sv_activeSessions (pl_server p) > 0"
    using session_done_result [OF _ that] assms(2) by (simp add: pipeline_inv_def split: list.splits)
  with SessionEnds assms(2) show ?thesis by (simp add: pipeline_inv_def session_done_inv)
qed

lemma pipeline_inv_run:
  assumes "configured (Some (pe_url e))" and "pipeline_inv e p"
  shows "pipeline_inv e (pipeline_run e ops p)"
  using assms(2) unfolding pipeline_run_def
  by (induction ops arbitrary: p) (simp_all add: pipeline_inv_step [OF assms(1)])

lemma pipeline_histories:
  assumes "pe_url e \<noteq> []" and "tq_queue q = []" and "p = pipeline_run e ops (pipeline_init e q)"
  shows "pipeline_inv e p" and "dp_accepted (pl_dispatcher p) = dp_sent (pl_dispatcher p) @ tq_queue (dp_queue (pl_dispatcher p))"
    and "sv_accepted (pl_server p) = sv_started (pl_server p) @ sv_pendingQueue (pl_server p)"
proof -
  have "configured (Some (pe_url e))" using assms(1) by (simp add: configured_def)
  moreover have "pipeline_inv e (pipeline_init e q)"
    using assms(2) server_inv_init
    by (simp add: pipeline_inv_def pipeline_init_def in_order_def startTriggerDispatch_def server_init_def)
  ultimately show "pipeline_inv e p" unfolding assms(3) by (rule pipeline_inv_run)
  then show "dp_accepted (pl_dispatcher p) = dp_sent (pl_dispatcher p) @ tq_queue (dp_queue (pl_dispatcher p))"
    and "sv_accepted (pl_server p) = sv_started (pl_server p) @ sv_pendingQueue (pl_server p)"
    by (simp_all add: pipeline_inv_def in_order_def server_inv_def)
qed

section \<open>Properties\<close>

text \<open>
  C16: Every trigger that the backend's queue has accepted is in exactly one place, whatever is lost, refused or
  answered late: in the queue, on its way to the supervisor, dropped, waiting in the supervisor, or started as a
  session. In particular no trigger starts two sessions.
\<close>

theorem trigger_accounted_for:
  assumes "pe_url e \<noteq> []" and "tq_queue q = []" and "p = pipeline_run e ops (pipeline_init e q)"
  shows "image_mset (session_input e) (mset (dp_accepted (pl_dispatcher p)))
    = image_mset (session_input e) (mset (tq_queue (dp_queue (pl_dispatcher p))) + mset (pl_flight p) + mset (pl_dropped p))
      + mset (sv_pendingQueue (pl_server p)) + mset (sv_started (pl_server p))"
  using pipeline_histories [OF assms] by (simp add: pipeline_inv_def ac_simps)

text \<open>
  A trigger that arrives while the supervisor has five sessions and fifty waiting triggers is dropped: the worker
  takes its refusal for a warning, and the trigger is in no queue any more.
\<close>

theorem full_supervisor_drops_trigger:
  assumes "pl_flight p = [m]" and "sv_activeSessions (pl_server p) \<ge> 5" and "length (sv_pendingQueue (pl_server p)) \<ge> 50"
    and "m \<in> set (dp_waiting (pl_dispatcher p))" and "tq_queue (dp_queue (pl_dispatcher p)) = []"
  shows "\<exists>p'. p' = pipeline_run e [Arrives m, Worker (Answered m (FetchStatus 503))] p
    \<and> pl_flight p' = [] \<and> pl_dropped p' = pl_dropped p @ [m] \<and> tq_queue (dp_queue (pl_dispatcher p')) = []
    \<and> pl_server p' = pl_server p"
proof -
  obtain r s where a: "arrival e m (pl_server p) = (r, s)" by fastforce
  with arrival_cases [OF a] assms(2,3) have "\<not> taken r" "s = pl_server p"
    by (auto simp: MAX_CONCURRENT_def MAX_QUEUE_def split: if_splits)
  with assms a show ?thesis
    by (simp add: pipeline_run_def resume_def drain_until_wait.simps [of "Some (pe_url e)"] dequeue_def Let_def)
qed

section \<open>The theorems at concrete inputs\<close>

definition ex_pipeline_env :: pipeline_env where
  "ex_pipeline_env = \<lparr>pe_dispatch = ex_dispatch_env, pe_url = ''u'', pe_key = Some ''k1'', pe_config = ex_server_config\<rparr>"

definition ex_pipeline :: pipeline where
  "ex_pipeline = pipeline_run ex_pipeline_env [Worker (Offer 0 ex_trigger), Worker Poll, Arrives ex_trigger]
     (pipeline_init ex_pipeline_env (new_TriggerQueue 5))"

theorem trigger_accounted_for_witness:
  "sv_started (pl_server ex_pipeline) = [session_input ex_pipeline_env ex_trigger]
   \<and> image_mset (session_input ex_pipeline_env) (mset (dp_accepted (pl_dispatcher ex_pipeline)))
     = {#session_input ex_pipeline_env ex_trigger#}"
proof -
  let ?e = ex_pipeline_env
  have c: "configured (Some ''u'')" by (simp add: configured_def)
  have d: "dispatch_step (Some ''u'') (Offer 0 ex_trigger) (startTriggerDispatch (Some ''u'') (new_TriggerQueue 5))
      = (startTriggerDispatch (Some ''u'') (new_TriggerQueue 5))\<lparr>dp_queue := (new_TriggerQueue 5)\<lparr>tq_queue := [ex_trigger],
          tq_dedup := [''r1'' \<mapsto> \<lparr>de_priority = 2, de_timestamp = 0\<rparr>]\<rparr>, dp_accepted := [ex_trigger]\<rparr>"
    by (simp add: startTriggerDispatch_def enqueue_def suppressed_def new_TriggerQueue_def ex_trigger_def Let_def)
  have k: "cf_internalKey ex_server_config = Some ''k1''" by (simp add: ex_server_config_def ex_session_params_def)
  from dispatched_trigger_accepted [of ex_trigger server_init "pe_config ?e" "pe_key ?e" "pe_dispatch ?e" "pe_url ?e"]
  obtain v where "arrival ?e ex_trigger server_init = (Json 200 v, accept_trigger (session_input ?e ex_trigger) server_init)"
    using k by (auto simp: arrival_def session_input_def ex_pipeline_env_def ex_trigger_def server_init_def)
  then have r: "pl_flight ex_pipeline = [] \<and> pl_dropped ex_pipeline = [] \<and> tq_queue (dp_queue (pl_dispatcher ex_pipeline)) = []
      \<and> pl_server ex_pipeline = accept_trigger (session_input ?e ex_trigger) server_init"
    using d by (simp add: ex_pipeline_def pipeline_run_def pipeline_init_def startTriggerDispatch_def resume_configured [OF c] taken_def
        ex_pipeline_env_def)
  have "pe_url ?e \<noteq> []" "tq_queue (new_TriggerQueue 5) = []" by (simp_all add: ex_pipeline_env_def new_TriggerQueue_def)
  from trigger_accounted_for [OF this ex_pipeline_def] r show ?thesis
    by (simp add: accept_trigger_def processTrigger_def server_init_def MAX_CONCURRENT_def)
qed

end
