(* ===== verification/Otel_Spans.thy ===== *)
theory Otel_Spans
  imports Js_Library
begin

text \<open>
  \<open>apps/otel-exporter/src\<close>: \<open>ids.ts\<close>, \<open>span-status.ts\<close>, \<open>attributes.ts\<close>, \<open>resource.ts\<close> and
  \<open>span-builder.ts\<close>, the translation of one audit event into one span.

  An event is the parsed JSON object: the reader checks only that five fields are there, so
  every field is a \<^typ>\<open>jsval\<close> and the operations that throw on a field of the wrong type
  return an error. The code that is not the exporter's own is in \<open>otel_env\<close>: the digest of
  \<open>node:crypto\<close>, \<open>Date\<close> parsing, the conversions of strings to numbers and big integers, and
  \<open>oe_sdk\<close>, what the OpenTelemetry SDK exports for a span that was started, filled and ended
  with the given data. A time is \<open>[seconds, nanoseconds]\<close>; \<open>None\<close> is \<open>[NaN, NaN]\<close>.
\<close>

datatype SpanStatusCode = UNSET | OK | ERROR

record SpanStatusResult =
  st_code :: SpanStatusCode
  st_message :: jsval

type_synonym attributes = "(string \<times> jsval) list"
type_synonym hrtime = "(int \<times> rat) option"

record timed_event =
  te_name :: string
  te_attributes :: attributes
  te_time :: hrtime

record link =
  lk_traceId :: string
  lk_spanId :: string
  lk_attributes :: attributes

record ReadableSpan =
  sp_name :: string
  sp_traceId :: string
  sp_spanId :: string
  sp_parentSpanId :: "string option"
  sp_startTime :: hrtime
  sp_endTime :: hrtime
  sp_status :: SpanStatusResult
  sp_attributes :: attributes
  sp_links :: "link list"
  sp_events :: "timed_event list"
  sp_resource :: attributes

record otel_env =
  oe_digest :: "string \<Rightarrow> string"
  oe_date :: "jsval \<Rightarrow> int option"
  oe_number :: "string \<Rightarrow> rat option"
  oe_bigint :: "string \<Rightarrow> int option"
  oe_sdk :: "ReadableSpan \<Rightarrow> ReadableSpan"

section \<open>Identifiers\<close>

definition strip_hyphens :: "string \<Rightarrow> string" where
  "strip_hyphens s = toLowerCase (filter (\<lambda>c. c \<noteq> CHR ''-'') s)"

text \<open>Only a string has a method \<open>replace\<close>.\<close>

definition traceId :: "jsval \<Rightarrow> js_error + string" where
  "traceId runId = (case runId of JStr s \<Rightarrow> Inr (strip_hyphens s)
     | _ \<Rightarrow> Inl (TypeError ''runId.replace is not a function''))"

definition BigInt :: "otel_env \<Rightarrow> jsval \<Rightarrow> js_error + int" where
  "BigInt env v = (case v of
       JNum x \<Rightarrow> if isInteger x then Inr (int_val x) else Inl (TypeError ''not an integer'')
     | JBool b \<Rightarrow> Inr (if b then 1 else 0)
     | JUndefined \<Rightarrow> Inl (TypeError ''Cannot convert undefined to a BigInt'')
     | JNull \<Rightarrow> Inl (TypeError ''Cannot convert null to a BigInt'')
     | _ \<Rightarrow> (case oe_bigint env (show_val v) of None \<Rightarrow> Inl (TypeError ''Cannot convert to a BigInt'') | Some n \<Rightarrow> Inr n))"

text \<open>\<open>writeBigUInt64BE\<close>.\<close>

definition be_bytes :: "int \<Rightarrow> string" where
  "be_bytes n = map (\<lambda>i. char_of (n div 256 ^ (7 - i) mod 256)) [0..<8]"

definition seq_bytes :: "int \<Rightarrow> js_error + string" where
  "seq_bytes n = (if 0 \<le> n \<and> n < 2 ^ 64 then Inr (be_bytes n)
     else Inl (TypeError ''The value of value is out of range''))"

text \<open>The first eight bytes of the digest, with the last one set when all are zero.\<close>

definition nonzero_id :: "string \<Rightarrow> string" where
  "nonzero_id bs = (if list_all (\<lambda>b. b = CHR 0x00) bs then bs[7 := CHR 0x01] else bs)"

definition spanId :: "otel_env \<Rightarrow> jsval \<Rightarrow> jsval \<Rightarrow> js_error + string" where
  "spanId env runId sq =
     bind_result (traceId runId) (\<lambda>runIdHex.
     bind_result (BigInt env sq) (\<lambda>n.
     bind_result (seq_bytes n) (\<lambda>seqBytes.
       Inr (to_hex (nonzero_id (take 8 (oe_digest env (from_hex runIdHex @ seqBytes))))))))"

abbreviation root_seq :: jsval where "root_seq \<equiv> JNum (Dec False 0 0)"

section \<open>Span status\<close>

definition status_only :: "SpanStatusCode \<Rightarrow> SpanStatusResult" where
  "status_only c = \<lparr>st_code = c, st_message = JUndefined\<rparr>"

definition decisionToSpanStatus :: "jsval \<Rightarrow> jsval \<Rightarrow> SpanStatusResult" where
  "decisionToSpanStatus decision reason =
    (if decision = JStr ''allow'' then status_only OK
     else if decision = JStr ''deny'' then \<lparr>st_code = ERROR, st_message = coalesce reason (JStr [])\<rparr>
     else if decision = JStr ''cooldown'' then status_only OK
     else if decision = JStr ''kill'' then \<lparr>st_code = ERROR, st_message = coalesce reason (JStr [])\<rparr>
     else if decision = JStr ''require_approval'' then status_only UNSET
     else status_only UNSET)"

definition eventTypeToSpanStatus :: "jsval \<Rightarrow> jsval \<Rightarrow> SpanStatusResult" where
  "eventTypeToSpanStatus eventType runStatus =
    (if eventType = JStr ''run_started'' then status_only UNSET
     else if eventType = JStr ''run_ended'' then
       (if runStatus = JStr ''completed'' then status_only OK else status_only ERROR)
     else if eventType = JStr ''budget_update'' then status_only UNSET
     else if eventType = JStr ''budget_soft_cap_warning'' then status_only UNSET
     else if eventType = JStr ''budget_exceeded'' then status_only ERROR
     else if eventType = JStr ''loop_detected'' then status_only UNSET
     else if eventType = JStr ''system_event'' then status_only UNSET
     else if eventType = JStr ''supervisor_run_started'' then status_only UNSET
     else if eventType = JStr ''supervisor_tool_call'' then status_only OK
     else if eventType = JStr ''supervisor_proposal_created'' then status_only OK
     else if eventType = JStr ''supervisor_escalation_created'' then status_only OK
     else status_only UNSET)"

definition spanStatusForEvent :: "jsval \<Rightarrow> jsval \<Rightarrow> jsval \<Rightarrow> jsval \<Rightarrow> SpanStatusResult" where
  "spanStatusForEvent eventType decision reason runStatus =
    (if eventType = JStr ''policy_decision'' \<and> decision \<noteq> JUndefined
     then decisionToSpanStatus decision reason
     else eventTypeToSpanStatus eventType runStatus)"

section \<open>Attributes\<close>

text \<open>\<open>if (event.field !== undefined) attrs[key] = event.field\<close>.\<close>

definition opt_attr :: "jsval \<Rightarrow> string \<times> string \<Rightarrow> attributes" where
  "opt_attr v kf = (case kf of (key, field) \<Rightarrow>
     if jget v field = JUndefined then [] else [(key, jget v field)])"

definition opt_attrs :: "(string \<times> string) list \<Rightarrow> jsval \<Rightarrow> attributes" where
  "opt_attrs kfs v = concat (map (opt_attr v) kfs)"

definition json_attr :: "string \<Rightarrow> jsval \<Rightarrow> js_error + attributes" where
  "json_attr key v = (if v = JUndefined then Inr []
     else bind_result (json_stringify v) (\<lambda>s. Inr [(key, case s of None \<Rightarrow> JUndefined | Some t \<Rightarrow> JStr t)]))"

text \<open>Reading a property of \<open>null\<close> throws; this happens when a budget or a dimension is \<open>null\<close>.\<close>

definition dimension_attrs :: "jsval \<Rightarrow> string \<Rightarrow> js_error + attributes" where
  "dimension_attrs b d =
    (let x = jget b d; p = ''loopstorm.budget.'' @ d in
     if x = JUndefined then Inr []
     else if x = JNull then Inl (TypeError ''Cannot read properties of null'')
     else Inr (opt_attrs [(p @ ''.current'', ''current''), (p @ ''.soft'', ''soft''), (p @ ''.hard'', ''hard'')] x))"

definition budget_attrs :: "jsval \<Rightarrow> js_error + attributes" where
  "budget_attrs b =
    (if b = JUndefined then Inr []
     else if b = JNull then Inl (TypeError ''Cannot read properties of null'')
     else bind_result (map_result (dimension_attrs b) [''cost_usd'', ''input_tokens'', ''output_tokens'', ''call_count''])
       (\<lambda>as. Inr (concat as)))"

definition decision_fields :: "(string \<times> string) list" where
  "decision_fields = map (\<lambda>f. (''loopstorm.'' @ f, f)) [''decision'', ''rule_id'', ''reason'', ''tool'', ''args_hash'']"

definition model_fields :: "(string \<times> string) list" where
  "model_fields = map (\<lambda>f. (''loopstorm.'' @ f, f))
     [''model'', ''input_tokens'', ''output_tokens'', ''estimated_cost_usd'', ''latency_ms'']"

definition loop_and_lifecycle_fields :: "(string \<times> string) list" where
  "loop_and_lifecycle_fields =
     [(''loopstorm.budget.dimension'', ''dimension''), (''loopstorm.loop_rule'', ''loop_rule''),
      (''loopstorm.loop_action'', ''loop_action''), (''loopstorm.cooldown_ms'', ''cooldown_ms''),
      (''loopstorm.run_status'', ''run_status''), (''loopstorm.system_event_type'', ''system_event_type'')]"

definition telemetry_fields :: "(string \<times> string) list" where
  "telemetry_fields = map (\<lambda>f. (''loopstorm.telemetry.'' @ f, f))
     [''call_seq_fingerprint'', ''inter_call_ms'', ''token_rate_delta'', ''param_shape_hash'']"

definition supervisor_fields1 :: "(string \<times> string) list" where
  "supervisor_fields1 = (''loopstorm.supervisor.run_id'', ''supervisor_run_id'')
     # map (\<lambda>f. (''loopstorm.supervisor.'' @ f, f))
         [''trigger'', ''trigger_run_id'', ''proposal_id'', ''proposal_type'', ''target_agent'', ''rationale'', ''confidence'']"

definition supervisor_fields2 :: "(string \<times> string) list" where
  "supervisor_fields2 = map (\<lambda>f. (''loopstorm.supervisor.'' @ f, f))
     [''status'', ''escalation_id'', ''severity'', ''recommendation'', ''timeout_seconds'', ''timeout_action'']"

definition buildAttributes :: "jsval \<Rightarrow> js_error + attributes" where
  "buildAttributes event =
    (let core = [(''loopstorm.schema_version'', jget event ''schema_version''),
                 (''loopstorm.hash'', jget event ''hash''),
                 (''loopstorm.hash_prev'', coalesce (jget event ''hash_prev'') (JStr []))]
     in bind_result (json_attr ''loopstorm.args_redacted'' (jget event ''args_redacted'')) (\<lambda>args.
        bind_result (budget_attrs (jget event ''budget'')) (\<lambda>budget.
        bind_result (json_attr ''loopstorm.supervisor.supporting_runs'' (jget event ''supporting_runs'')) (\<lambda>sruns.
          Inr (core @ opt_attrs decision_fields event @ args @ opt_attrs model_fields event @ budget
            @ opt_attrs loop_and_lifecycle_fields event @ opt_attrs telemetry_fields event
            @ opt_attrs supervisor_fields1 event @ sruns @ opt_attrs supervisor_fields2 event)))))"

section \<open>Resource\<close>

record ResourceConfig =
  rc_serviceName :: string
  rc_serviceVersion :: string

definition buildResource :: "jsval \<Rightarrow> ResourceConfig \<Rightarrow> attributes" where
  "buildResource firstEvent config =
    (let isSupervisor = (jget firstEvent ''event_type'' = JStr ''supervisor_run_started''
           \<or> jget firstEvent ''agent_role'' = JStr ''supervisor'');
         serviceName = (if isSupervisor then ''loopstorm-supervisor'' else rc_serviceName config)
     in [(''service.name'', JStr serviceName), (''service.version'', JStr (rc_serviceVersion config))]
        @ opt_attrs [(''loopstorm.agent.name'', ''agent_name''), (''loopstorm.agent.role'', ''agent_role''),
            (''loopstorm.policy_pack_id'', ''policy_pack_id''), (''deployment.environment'', ''environment'')] firstEvent)"

section \<open>Spans\<close>

definition hr_of :: "rat \<Rightarrow> int \<times> rat" where
  "hr_of ms = (\<lfloor>ms / 1000\<rfloor>, js_rem ms 1000 * 1000000)"

definition start_ms :: "otel_env \<Rightarrow> jsval \<Rightarrow> rat option" where
  "start_ms env ev = map_option of_int (oe_date env (jget ev ''ts''))"

text \<open>\<open>startMs + event.latency_ms\<close>: addition, or concatenation when the right operand is no number.\<close>

definition plus_ms :: "otel_env \<Rightarrow> int \<Rightarrow> jsval \<Rightarrow> rat option" where
  "plus_ms env ms v = (case v of
       JNum x \<Rightarrow> Some (of_int ms + num_val x)
     | JNull \<Rightarrow> Some (of_int ms)
     | JBool b \<Rightarrow> Some (of_int ms + (if b then 1 else 0))
     | JUndefined \<Rightarrow> None
     | _ \<Rightarrow> oe_number env (show_int ms @ show_val v))"

definition end_ms :: "otel_env \<Rightarrow> jsval \<Rightarrow> rat option" where
  "end_ms env ev =
    (if jget ev ''event_type'' = JStr ''policy_decision'' \<and> jget ev ''latency_ms'' \<noteq> JUndefined
     then (case oe_date env (jget ev ''ts'') of None \<Rightarrow> None | Some ms \<Rightarrow> plus_ms env ms (jget ev ''latency_ms''))
     else start_ms env ev)"

definition is_root :: "jsval \<Rightarrow> bool" where
  "is_root ev \<longleftrightarrow> jget ev ''event_type'' = JStr ''run_started''"

definition span_links :: "otel_env \<Rightarrow> jsval \<Rightarrow> js_error + link list" where
  "span_links env ev =
    (if jget ev ''event_type'' = JStr ''supervisor_run_started'' \<and> jget ev ''trigger_run_id'' \<noteq> JUndefined
     then bind_result (traceId (jget ev ''trigger_run_id'')) (\<lambda>t.
          bind_result (spanId env (jget ev ''trigger_run_id'') root_seq) (\<lambda>s.
            Inr [\<lparr>lk_traceId = t, lk_spanId = s,
                  lk_attributes = [(''loopstorm.link_type'', JStr ''supervisor_trigger'')]\<rparr>]))
     else Inr [])"

definition buildSpan ::
  "otel_env \<Rightarrow> jsval \<Rightarrow> attributes \<Rightarrow> string \<Rightarrow> timed_event list \<Rightarrow> js_error + ReadableSpan" where
  "buildSpan env event resource rootSpanId rootSpanEvents =
     bind_result (traceId (jget event ''run_id'')) (\<lambda>tId.
     bind_result (if is_root event then spanId env (jget event ''run_id'') root_seq
                  else spanId env (jget event ''run_id'') (jget event ''seq'')) (\<lambda>sId.
     bind_result (buildAttributes event) (\<lambda>attrs.
     bind_result (span_links env event) (\<lambda>links.
       Inr (oe_sdk env
         \<lparr>sp_name = ''loopstorm.'' @ show_val (jget event ''event_type''),
          sp_traceId = tId, sp_spanId = sId,
          sp_parentSpanId = (if is_root event then None else Some rootSpanId),
          sp_startTime = map_option hr_of (start_ms env event),
          sp_endTime = map_option hr_of (end_ms env event),
          sp_status = spanStatusForEvent (jget event ''event_type'') (jget event ''decision'')
            (jget event ''reason'') (jget event ''run_status''),
          sp_attributes = attrs, sp_links = links,
          sp_events = (if is_root event then rootSpanEvents else []),
          sp_resource = resource\<rparr>)))))"

definition buildRootSpanEvent :: "otel_env \<Rightarrow> jsval \<Rightarrow> js_error + timed_event" where
  "buildRootSpanEvent env event =
    (let t = jget event ''event_type'';
         name = (if t = JStr ''budget_soft_cap_warning'' then ''loopstorm.budget_warning''
           else if t = JStr ''budget_exceeded'' then ''loopstorm.budget_exceeded''
           else if t = JStr ''loop_detected'' then ''loopstorm.loop_detected''
           else ''loopstorm.'' @ show_val t)
     in bind_result (buildAttributes event) (\<lambda>attrs.
          Inr \<lparr>te_name = name, te_attributes = attrs, te_time = map_option hr_of (start_ms env event)\<rparr>))"

definition finalizeRootSpan ::
  "otel_env \<Rightarrow> ReadableSpan \<Rightarrow> jsval \<Rightarrow> timed_event list \<Rightarrow> attributes \<Rightarrow> ReadableSpan" where
  "finalizeRootSpan env rootSpan runEndedEvent rootSpanEvents resource = oe_sdk env
     \<lparr>sp_name = ''loopstorm.run_started'', sp_traceId = sp_traceId rootSpan, sp_spanId = sp_spanId rootSpan,
      sp_parentSpanId = None, sp_startTime = sp_startTime rootSpan,
      sp_endTime = map_option hr_of (start_ms env runEndedEvent),
      sp_status = spanStatusForEvent (JStr ''run_ended'') JUndefined JUndefined (jget runEndedEvent ''run_status''),
      sp_attributes = sp_attributes rootSpan, sp_links = [], sp_events = rootSpanEvents, sp_resource = resource\<rparr>"

definition buildIncompleteRootSpan ::
  "otel_env \<Rightarrow> ReadableSpan \<Rightarrow> timed_event list \<Rightarrow> attributes \<Rightarrow> ReadableSpan" where
  "buildIncompleteRootSpan env rootSpan rootSpanEvents resource = oe_sdk env
     \<lparr>sp_name = ''loopstorm.run_started'', sp_traceId = sp_traceId rootSpan, sp_spanId = sp_spanId rootSpan,
      sp_parentSpanId = None, sp_startTime = sp_startTime rootSpan, sp_endTime = sp_startTime rootSpan,
      sp_status = status_only UNSET, sp_attributes = sp_attributes rootSpan, sp_links = [],
      sp_events = rootSpanEvents, sp_resource = resource\<rparr>"

end
