(* ===== verification/Trace_Buffer.thy ===== *)
theory Trace_Buffer
  imports Otel_Spans
begin

text \<open>
  \<open>apps/otel-exporter/src/trace-buffer.ts\<close>: spans are kept per run until the run ends, times
  out, is evicted or the exporter shuts down. The \<open>Map\<close> from run ids to traces is the list of
  its entries in insertion order. An operation returns its result or the error it throws, and
  the buffer afterwards, which a throwing operation may have changed. \<open>Date.now()\<close> is the
  argument \<open>now\<close>.
\<close>

section \<open>State\<close>

record BufferedTrace =
  bt_runId :: jsval
  bt_rootSpan :: "ReadableSpan option"
  bt_childSpans :: "ReadableSpan list"
  bt_rootSpanEvents :: "timed_event list"
  bt_firstEventTime :: int
  bt_resource :: attributes

type_synonym traces = "BufferedTrace list"

definition MAX_CONCURRENT_TRACES :: nat where "MAX_CONCURRENT_TRACES = 1000"

definition ROOT_SPAN_EVENT_TYPES :: "jsval list" where
  "ROOT_SPAN_EVENT_TYPES = [JStr ''budget_soft_cap_warning'', JStr ''budget_exceeded'', JStr ''loop_detected'']"

text \<open>
  Key equality of a \<open>Map\<close>: primitive values by value (both zeros alike), objects by identity.
  Every event is a fresh object, so an object is never found.
\<close>

fun map_key :: "jsval \<Rightarrow> jsval" where
  "map_key (JNum (Dec neg s e)) = JNum (Dec (neg \<and> s \<noteq> 0) s e)"
| "map_key v = v"

fun is_primitive :: "jsval \<Rightarrow> bool" where
  "is_primitive (JArr _) \<longleftrightarrow> False"
| "is_primitive (JObj _) \<longleftrightarrow> False"
| "is_primitive _ \<longleftrightarrow> True"

definition same_key :: "jsval \<Rightarrow> jsval \<Rightarrow> bool" where
  "same_key a b \<longleftrightarrow> is_primitive a \<and> map_key a = map_key b"

definition has_trace :: "jsval \<Rightarrow> traces \<Rightarrow> bool" where
  "has_trace run_id ts \<longleftrightarrow> list_ex (\<lambda>t. same_key run_id (bt_runId t)) ts"

section \<open>Eviction\<close>

text \<open>The entry with the least time, the first of several; nothing when the buffer is empty.\<close>

fun oldest :: "BufferedTrace option \<Rightarrow> traces \<Rightarrow> BufferedTrace option" where
  "oldest acc [] = acc"
| "oldest acc (t # ts) = oldest (case acc of None \<Rightarrow> Some t
     | Some a \<Rightarrow> if bt_firstEventTime t < bt_firstEventTime a then Some t else acc) ts"

definition evictOldest :: "traces \<Rightarrow> traces" where
  "evictOldest ts = (case oldest None ts of None \<Rightarrow> ts | Some t \<Rightarrow> remove1 t ts)"

section \<open>Adding an event\<close>

definition new_trace :: "ResourceConfig \<Rightarrow> int \<Rightarrow> jsval \<Rightarrow> BufferedTrace" where
  "new_trace cfg now event = \<lparr>bt_runId = jget event ''run_id'', bt_rootSpan = None, bt_childSpans = [],
     bt_rootSpanEvents = [], bt_firstEventTime = now, bt_resource = buildResource event cfg\<rparr>"

text \<open>Room for a new entry: the oldest one goes when the buffer is full.\<close>

definition make_room :: "traces \<Rightarrow> traces" where
  "make_room ts = (if length ts \<ge> MAX_CONCURRENT_TRACES then evictOldest ts else ts)"

text \<open>
  The body of \<open>addEvent\<close> on the trace of the event: the new trace, \<open>None\<close> when it is deleted,
  and the spans to flush. \<open>Inl\<close> is a throw; it carries the trace as it is then.
\<close>

definition push_root_event :: "otel_env \<Rightarrow> jsval \<Rightarrow> BufferedTrace \<Rightarrow> js_error + BufferedTrace" where
  "push_root_event env event t =
    (if jget event ''event_type'' \<in> set ROOT_SPAN_EVENT_TYPES
     then bind_result (buildRootSpanEvent env event)
            (\<lambda>e. Inr (t\<lparr>bt_rootSpanEvents := bt_rootSpanEvents t @ [e]\<rparr>))
     else Inr t)"

definition step_span :: "otel_env \<Rightarrow> jsval \<Rightarrow> BufferedTrace \<Rightarrow> js_error + BufferedTrace option \<times> ReadableSpan list" where
  "step_span env event t =
     bind_result (spanId env (jget event ''run_id'') root_seq) (\<lambda>rootSpanId.
     bind_result (buildSpan env event (bt_resource t) rootSpanId []) (\<lambda>span.
       if jget event ''event_type'' = JStr ''run_started'' then Inr (Some (t\<lparr>bt_rootSpan := Some span\<rparr>), [])
       else if jget event ''event_type'' = JStr ''run_ended'' then
         Inr (None, (case bt_rootSpan t of
             Some rs \<Rightarrow> [finalizeRootSpan env rs event (bt_rootSpanEvents t) (bt_resource t)]
           | None \<Rightarrow> []) @ bt_childSpans t @ [span])
       else Inr (Some (t\<lparr>bt_childSpans := bt_childSpans t @ [span]\<rparr>), [])))"

definition trace_step :: "otel_env \<Rightarrow> jsval \<Rightarrow> BufferedTrace \<Rightarrow> (js_error + ReadableSpan list) \<times> BufferedTrace option" where
  "trace_step env event t =
    (case push_root_event env event t of
       Inl e \<Rightarrow> (Inl e, Some t)
     | Inr t' \<Rightarrow> (case step_span env event t' of
         Inl e \<Rightarrow> (Inl e, Some t')
       | Inr (t'', spans) \<Rightarrow> (Inr spans, t'')))"

text \<open>The first entry that satisfies \<open>P\<close> is stepped.\<close>

fun on_trace :: "(BufferedTrace \<Rightarrow> bool) \<Rightarrow> (BufferedTrace \<Rightarrow> 'a \<times> BufferedTrace option) \<Rightarrow> 'a \<Rightarrow> traces \<Rightarrow> 'a \<times> traces" where
  "on_trace P f d [] = (d, [])"
| "on_trace P f d (t # ts) =
    (if P t then (fst (f t), (case snd (f t) of None \<Rightarrow> ts | Some u \<Rightarrow> u # ts))
     else (fst (on_trace P f d ts), t # snd (on_trace P f d ts)))"

definition addEvent ::
  "otel_env \<Rightarrow> ResourceConfig \<Rightarrow> int \<Rightarrow> jsval \<Rightarrow> traces \<Rightarrow> (js_error + ReadableSpan list) \<times> traces" where
  "addEvent env cfg now event ts =
    (let run_id = jget event ''run_id'' in
     if has_trace run_id ts then on_trace (\<lambda>t. same_key run_id (bt_runId t)) (trace_step env event) (Inr []) ts
     else (let (r, t') = trace_step env event (new_trace cfg now event)
           in (r, make_room ts @ (case t' of None \<Rightarrow> [] | Some t \<Rightarrow> [t]))))"

section \<open>Flushing\<close>

definition incomplete_spans :: "otel_env \<Rightarrow> BufferedTrace \<Rightarrow> ReadableSpan list" where
  "incomplete_spans env t = (case bt_rootSpan t of
      Some rs \<Rightarrow> [buildIncompleteRootSpan env rs (bt_rootSpanEvents t) (bt_resource t)]
    | None \<Rightarrow> []) @ bt_childSpans t"

definition flushTimedOut :: "otel_env \<Rightarrow> int \<Rightarrow> int \<Rightarrow> traces \<Rightarrow> ReadableSpan list \<times> traces" where
  "flushTimedOut env now timeoutMs ts =
    (concat (map (incomplete_spans env) (filter (\<lambda>t. now - bt_firstEventTime t \<ge> timeoutMs) ts)),
     filter (\<lambda>t. \<not> now - bt_firstEventTime t \<ge> timeoutMs) ts)"

definition flushAll :: "otel_env \<Rightarrow> traces \<Rightarrow> ReadableSpan list \<times> traces" where
  "flushAll env ts = (concat (map (incomplete_spans env) ts), [])"

section \<open>Runs of the buffer\<close>

text \<open>What the exporter does with its buffer, in any order; an event that throws yields no span.\<close>

datatype trace_op = AddEvent int jsval | FlushTimedOut int int | FlushAll

fun op_step :: "otel_env \<Rightarrow> ResourceConfig \<Rightarrow> trace_op \<Rightarrow> traces \<Rightarrow> ReadableSpan list \<times> traces" where
  "op_step env cfg (AddEvent now ev) ts =
     (case addEvent env cfg now ev ts of (Inl e, ts') \<Rightarrow> ([], ts') | (Inr spans, ts') \<Rightarrow> (spans, ts'))"
| "op_step env cfg (FlushTimedOut now timeoutMs) ts = flushTimedOut env now timeoutMs ts"
| "op_step env cfg FlushAll ts = flushAll env ts"

fun trace_exec :: "otel_env \<Rightarrow> ResourceConfig \<Rightarrow> trace_op list \<Rightarrow> traces \<Rightarrow> ReadableSpan list \<times> traces" where
  "trace_exec env cfg [] ts = ([], ts)"
| "trace_exec env cfg (op # ops) ts =
    (let (out, ts') = op_step env cfg op ts; (outs, ts'') = trace_exec env cfg ops ts' in (out @ outs, ts''))"

fun op_events :: "trace_op \<Rightarrow> jsval list" where
  "op_events (AddEvent _ ev) = [ev]"
| "op_events _ = []"

abbreviation events_of :: "trace_op list \<Rightarrow> jsval list" where
  "events_of ops \<equiv> concat (map op_events ops)"

text \<open>An event whose span can be built, and the ids its span has.\<close>

definition exportable :: "otel_env \<Rightarrow> jsval \<Rightarrow> bool" where
  "exportable env ev \<longleftrightarrow> (case buildSpan env ev [] [] [] of Inl _ \<Rightarrow> False | Inr _ \<Rightarrow> True)"

definition event_ids :: "otel_env \<Rightarrow> jsval \<Rightarrow> (js_error + string) \<times> (js_error + string)" where
  "event_ids env ev = (traceId (jget ev ''run_id''), spanId env (jget ev ''run_id'') (jget ev ''seq''))"

definition span_ids :: "ReadableSpan \<Rightarrow> (js_error + string) \<times> (js_error + string)" where
  "span_ids s = (Inr (sp_traceId s), Inr (sp_spanId s))"

definition is_child :: "ReadableSpan \<Rightarrow> bool" where
  "is_child s \<longleftrightarrow> sp_parentSpanId s \<noteq> None"

text \<open>The SDK exports a span under the ids it was given.\<close>

definition sdk_keeps_ids :: "otel_env \<Rightarrow> bool" where
  "sdk_keeps_ids env \<longleftrightarrow> (\<forall>s. sp_traceId (oe_sdk env s) = sp_traceId s \<and> sp_spanId (oe_sdk env s) = sp_spanId s
     \<and> sp_parentSpanId (oe_sdk env s) = sp_parentSpanId s)"

definition child_ids :: "ReadableSpan list \<Rightarrow> ((js_error + string) \<times> (js_error + string)) multiset" where
  "child_ids ss = image_mset span_ids (mset (filter is_child ss))"

lemma child_ids_simps [simp]:
  "child_ids [] = {#}"
  "child_ids (s # ss) = (if is_child s then {#span_ids s#} else {#}) + child_ids ss"
  "child_ids (xs @ ys) = child_ids xs + child_ids ys"
  by (simp_all add: child_ids_def)

section \<open>Spans of a well-formed tree\<close>

text \<open>A span of a run is its root, or a child of its root.\<close>

definition in_trace :: "otel_env \<Rightarrow> jsval \<Rightarrow> ReadableSpan \<Rightarrow> bool" where
  "in_trace env run s \<longleftrightarrow> traceId run = Inr (sp_traceId s)
     \<and> (case sp_parentSpanId s of None \<Rightarrow> spanId env run root_seq = Inr (sp_spanId s)
        | Some p \<Rightarrow> spanId env run root_seq = Inr p)"

lemma buildSpan_ok:
  assumes "buildSpan env ev res rid evs = Inr s" and "sdk_keeps_ids env"
  shows "traceId (jget ev ''run_id'') = Inr (sp_traceId s)"
    and "sp_parentSpanId s = (if is_root ev then None else Some rid)"
    and "(if is_root ev then spanId env (jget ev ''run_id'') root_seq
          else spanId env (jget ev ''run_id'') (jget ev ''seq'')) = Inr (sp_spanId s)"
  using assms by (auto simp: buildSpan_def bind_result_Inr_iff sdk_keeps_ids_def)

lemma buildSpan_exportable: "(\<exists>s. buildSpan env ev res rid evs = Inr s) \<longleftrightarrow> exportable env ev"
  by (auto simp: exportable_def buildSpan_def bind_result_Inr_iff split: sum.splits if_splits)

lemma in_trace_buildSpan:
  assumes "buildSpan env ev res rid evs = Inr s" and "sdk_keeps_ids env"
    and "spanId env (jget ev ''run_id'') root_seq = Inr rid"
  shows "in_trace env (jget ev ''run_id'') s"
  using buildSpan_ok [OF assms(1,2)] assms(3) by (auto simp: in_trace_def split: if_splits)

lemma in_trace_roots:
  assumes "in_trace env run s" and "sp_parentSpanId s = None" and "sdk_keeps_ids env"
  shows "in_trace env run (finalizeRootSpan env s e evs res)"
    and "in_trace env run (buildIncompleteRootSpan env s evs res)"
  using assms by (auto simp: in_trace_def sdk_keeps_ids_def finalizeRootSpan_def buildIncompleteRootSpan_def)

section \<open>One step\<close>

definition trace_ok :: "otel_env \<Rightarrow> BufferedTrace \<Rightarrow> bool" where
  "trace_ok env t \<longleftrightarrow> (\<forall>s\<in>set (bt_childSpans t). in_trace env (bt_runId t) s)
     \<and> (\<forall>s. bt_rootSpan t = Some s \<longrightarrow> sp_parentSpanId s = None \<and> in_trace env (bt_runId t) s)"

lemma same_key_string: "same_key (JStr r) k \<longleftrightarrow> k = JStr r"
  by (cases k rule: map_key.cases) (auto simp: same_key_def)

lemma traceId_string: "traceId v = Inr t \<Longrightarrow> \<exists>r. v = JStr r"
  by (cases v) (auto simp: traceId_def)

lemma exportable_string: "exportable env ev \<Longrightarrow> \<exists>r. jget ev ''run_id'' = JStr r"
proof -
  assume "exportable env ev"
  then obtain s where "buildSpan env ev [] [] [] = Inr s" by (auto simp: exportable_def split: sum.splits)
  then show ?thesis unfolding buildSpan_def bind_result_Inr_iff by (blast dest: traceId_string)
qed

lemma push_root_event_same:
  assumes "push_root_event env ev t = Inr t'"
  shows "bt_childSpans t' = bt_childSpans t" "bt_rootSpan t' = bt_rootSpan t" "bt_runId t' = bt_runId t"
    "bt_resource t' = bt_resource t" "bt_firstEventTime t' = bt_firstEventTime t"
  using assms by (auto simp: push_root_event_def bind_result_Inr_iff split: if_splits)

lemma trace_ok_push: "push_root_event env ev t = Inr t' \<Longrightarrow> trace_ok env t' = trace_ok env t"
  using push_root_event_same [of env ev t t'] by (simp add: trace_ok_def)

lemma trace_step_runId: "snd (trace_step env ev t) = Some t' \<Longrightarrow> bt_runId t' = bt_runId t"
proof (cases "push_root_event env ev t")
  case (Inr t0)
  assume "snd (trace_step env ev t) = Some t'"
  with Inr have "bt_runId t' = bt_runId t0"
    by (auto simp: trace_step_def step_span_def bind_result_def split: sum.splits if_splits)
  then show ?thesis using push_root_event_same(3) [OF Inr] by simp
qed (simp add: trace_step_def)

lemma step_span_ok:
  assumes "step_span env ev t = Inr (t', spans)" and "trace_ok env t" and "sdk_keeps_ids env"
    and "jget ev ''run_id'' = bt_runId t"
  shows "(\<forall>u. t' = Some u \<longrightarrow> trace_ok env u) \<and> (\<forall>s\<in>set spans. in_trace env (bt_runId t) s)"
proof -
  from assms(1) obtain rid span where r: "spanId env (jget ev ''run_id'') root_seq = Inr rid"
    and b: "buildSpan env ev (bt_resource t) rid [] = Inr span"
    by (auto simp: step_span_def bind_result_Inr_iff)
  note I = in_trace_buildSpan [OF b assms(3) r]
  note P = buildSpan_ok(2) [OF b assms(3)]
  show ?thesis
    using assms(1,2,4) r b I P in_trace_roots(1) [OF _ _ assms(3), of "bt_runId t"]
    by (auto simp: step_span_def trace_ok_def is_root_def split: if_splits option.splits)
qed

lemma trace_step_ok:
  assumes "trace_ok env t" and "sdk_keeps_ids env" and "same_key (jget ev ''run_id'') (bt_runId t) \<or> bt_runId t = jget ev ''run_id''"
  shows "(\<forall>u. snd (trace_step env ev t) = Some u \<longrightarrow> trace_ok env u)
    \<and> (\<forall>spans. fst (trace_step env ev t) = Inr spans \<longrightarrow> (\<forall>s\<in>set spans. in_trace env (bt_runId t) s))"
proof (cases "push_root_event env ev t")
  case (Inl e)
  then show ?thesis using assms(1) by (simp add: trace_step_def)
next
  case (Inr t')
  note S = push_root_event_same [OF Inr]
  have ok: "trace_ok env t'" using assms(1) trace_ok_push [OF Inr] by simp
  show ?thesis
  proof (cases "step_span env ev t'")
    case (Inl e)
    then show ?thesis using ok \<open>push_root_event env ev t = Inr t'\<close> by (simp add: trace_step_def)
  next
    case r: (Inr p)
    obtain u spans where p: "p = (u, spans)" by (cases p)
    from r p obtain x where "traceId (jget ev ''run_id'') = Inr x"
      by (auto simp: step_span_def spanId_def bind_result_Inr_iff)
    then obtain q where "jget ev ''run_id'' = JStr q" using traceId_string by blast
    with assms(3) S(3) have k: "jget ev ''run_id'' = bt_runId t'" by (auto simp: same_key_string)
    from step_span_ok [OF r [unfolded p] ok assms(2) k] r p Inr S(3) show ?thesis by (simp add: trace_step_def)
  qed
qed

text \<open>No span is lost and none is made twice by a step on an event that can be exported.\<close>

lemma exportable_root_event: "exportable env ev \<Longrightarrow> \<exists>t'. push_root_event env ev t = Inr t'"
  by (auto simp: exportable_def push_root_event_def buildRootSpanEvent_def buildSpan_def bind_result_def Let_def
      split: sum.splits)

lemma exportable_rootId: "exportable env ev \<Longrightarrow> \<exists>rid. spanId env (jget ev ''run_id'') root_seq = Inr rid"
  using exportable_string [of env ev]
  by (auto simp: spanId_def traceId_def BigInt_def seq_bytes_def)

lemma trace_step_conserves:
  assumes "exportable env ev" and "sdk_keeps_ids env"
  shows "\<exists>spans. fst (trace_step env ev t) = Inr spans
    \<and> child_ids spans + (case snd (trace_step env ev t) of None \<Rightarrow> {#} | Some u \<Rightarrow> child_ids (bt_childSpans u))
      = child_ids (bt_childSpans t) + (if is_root ev then {#} else {#event_ids env ev#})"
proof -
  from exportable_root_event [OF assms(1)] obtain t' where push: "push_root_event env ev t = Inr t'" by blast
  from exportable_rootId [OF assms(1)] obtain rid where r: "spanId env (jget ev ''run_id'') root_seq = Inr rid" by blast
  from assms(1) buildSpan_exportable obtain s where b: "buildSpan env ev (bt_resource t') rid [] = Inr s" by blast
  note B = buildSpan_ok [OF b assms(2)]
  have fin: "\<not> is_child (finalizeRootSpan env x ev y z)" for x y z
    using assms(2) by (simp add: is_child_def finalizeRootSpan_def sdk_keeps_ids_def)
  have c: "is_child s \<longleftrightarrow> \<not> is_root ev" using B(2) by (simp add: is_child_def)
  have ids: "span_ids s = event_ids env ev" if "\<not> is_root ev"
    using B that by (simp add: span_ids_def event_ids_def)
  show ?thesis
    using push_root_event_same(1) [OF push]
    by (auto simp: trace_step_def push step_span_def r b c ids fin is_root_def split: option.splits)
qed

section \<open>The buffer\<close>

lemma on_trace_split:
  assumes "list_ex P ts"
  shows "\<exists>xs t ys. ts = xs @ t # ys \<and> P t \<and> (\<forall>x\<in>set xs. \<not> P x)
    \<and> on_trace P f d ts = (fst (f t), xs @ (case snd (f t) of None \<Rightarrow> [] | Some u \<Rightarrow> [u]) @ ys)"
  using assms
proof (induction ts)
  case (Cons t ts)
  show ?case
  proof (cases "P t")
    case True
    then show ?thesis by (intro exI [of _ "[]"] exI [of _ t] exI [of _ ts]) (simp split: option.splits)
  next
    case False
    with Cons obtain xs u ys where "ts = xs @ u # ys" "P u" "\<forall>x\<in>set xs. \<not> P x"
      "on_trace P f d ts = (fst (f u), xs @ (case snd (f u) of None \<Rightarrow> [] | Some w \<Rightarrow> [w]) @ ys)" by auto
    with False show ?thesis by (intro exI [of _ "t # xs"] exI [of _ u] exI [of _ ys]) simp
  qed
qed simp

lemma addEvent_cases [consumes 0, case_names old new]:
  assumes "\<And>xs t ys. ts = xs @ t # ys \<Longrightarrow> same_key (jget ev ''run_id'') (bt_runId t) \<Longrightarrow>
      addEvent env cfg now ev ts = (fst (trace_step env ev t),
        xs @ (case snd (trace_step env ev t) of None \<Rightarrow> [] | Some u \<Rightarrow> [u]) @ ys) \<Longrightarrow> thesis"
    and "\<And>t. t = new_trace cfg now ev \<Longrightarrow> \<not> has_trace (jget ev ''run_id'') ts \<Longrightarrow>
      addEvent env cfg now ev ts = (fst (trace_step env ev t),
        make_room ts @ (case snd (trace_step env ev t) of None \<Rightarrow> [] | Some u \<Rightarrow> [u])) \<Longrightarrow> thesis"
  shows thesis
proof (cases "has_trace (jget ev ''run_id'') ts")
  case True
  from on_trace_split [OF this [unfolded has_trace_def], of "trace_step env ev" "Inr []"] True assms(1)
  show ?thesis by (auto simp: addEvent_def Let_def)
next
  case False
  then show ?thesis using assms(2) by (simp add: addEvent_def case_prod_unfold Let_def)
qed

lemma oldest_in: "oldest acc ts = Some t \<Longrightarrow> acc = Some t \<or> t \<in> set ts"
proof (induction ts arbitrary: acc)
  case (Cons x ts)
  show ?case using Cons.IH [OF Cons.prems [unfolded oldest.simps]] by (auto split: option.splits if_splits)
qed simp

lemma oldest_None: "oldest acc ts = None \<longleftrightarrow> acc = None \<and> ts = []"
  by (induction ts arbitrary: acc) (auto split: option.splits)

lemma length_evictOldest: "length (evictOldest ts) = length ts - 1"
  using oldest_in [of None ts] by (auto simp: evictOldest_def oldest_None length_remove1 split: option.splits)

lemma set_make_room: "set (make_room ts) \<subseteq> set ts"
  using set_remove1_subset [of _ ts] by (auto simp: make_room_def evictOldest_def split: option.splits)

text \<open>The least recently created entry is the one that goes.\<close>

lemma oldest_least:
  assumes "oldest acc ts = Some t"
  shows "\<forall>u\<in>set ts \<union> set_option acc. bt_firstEventTime t \<le> bt_firstEventTime u"
  using assms
proof (induction ts arbitrary: acc)
  case (Cons x ts)
  let ?acc = "case acc of None \<Rightarrow> Some x | Some a \<Rightarrow> if bt_firstEventTime x < bt_firstEventTime a then Some x else acc"
  have IH: "\<forall>u\<in>set ts \<union> set_option ?acc. bt_firstEventTime t \<le> bt_firstEventTime u"
    using Cons.IH [of ?acc] Cons.prems by simp
  show ?case using IH by (force split: option.splits if_splits)
qed auto

lemma length_addEvent: "length (snd (addEvent env cfg now ev ts)) \<le> max MAX_CONCURRENT_TRACES (length ts)"
proof (rule addEvent_cases [of ts ev env cfg now])
  fix xs t ys assume "ts = xs @ t # ys"
    and "addEvent env cfg now ev ts = (fst (trace_step env ev t),
      xs @ (case snd (trace_step env ev t) of None \<Rightarrow> [] | Some u \<Rightarrow> [u]) @ ys)"
  then show ?thesis by (simp split: option.splits)
next
  fix t assume a: "addEvent env cfg now ev ts = (fst (trace_step env ev t),
      make_room ts @ (case snd (trace_step env ev t) of None \<Rightarrow> [] | Some u \<Rightarrow> [u]))"
  have "length (make_room ts) < max MAX_CONCURRENT_TRACES (Suc (length ts))
      \<and> length (make_room ts) + 1 \<le> max MAX_CONCURRENT_TRACES (length ts)"
    by (auto simp: make_room_def length_evictOldest MAX_CONCURRENT_TRACES_def)
  then show ?thesis unfolding a by (auto split: option.splits)
qed

lemma length_op_step: "length (snd (op_step env cfg op ts)) \<le> max MAX_CONCURRENT_TRACES (length ts)"
proof (cases op)
  case (AddEvent now ev)
  then have "snd (op_step env cfg op ts) = snd (addEvent env cfg now ev ts)"
    by (simp split: prod.splits sum.splits)
  then show ?thesis using length_addEvent [of env cfg now ev ts] by simp
qed (simp_all add: flushTimedOut_def flushAll_def le_max_iff_disj)

section \<open>Invariants\<close>

definition buffered :: "traces \<Rightarrow> ((js_error + string) \<times> (js_error + string)) multiset" where
  "buffered ts = child_ids (concat (map bt_childSpans ts))"

lemma buffered_simps [simp]:
  "buffered [] = {#}"
  "buffered (t # ts) = child_ids (bt_childSpans t) + buffered ts"
  "buffered (xs @ ys) = buffered xs + buffered ys"
  by (simp_all add: buffered_def)

lemma buffered_option: "buffered (case u of None \<Rightarrow> [] | Some t \<Rightarrow> [t]) = (case u of None \<Rightarrow> {#} | Some t \<Rightarrow> child_ids (bt_childSpans t))"
  by (cases u) simp_all

lemma child_ids_incomplete:
  "sdk_keeps_ids env \<Longrightarrow> child_ids (incomplete_spans env t) = child_ids (bt_childSpans t)"
  by (simp add: incomplete_spans_def is_child_def buildIncompleteRootSpan_def sdk_keeps_ids_def split: option.splits)

lemma child_ids_flush: "sdk_keeps_ids env \<Longrightarrow> child_ids (concat (map (incomplete_spans env) ts)) = buffered ts"
  by (induction ts) (simp_all add: child_ids_incomplete)

lemma buffered_filter: "buffered (filter P ts) + buffered (filter (\<lambda>t. \<not> P t) ts) = buffered ts"
  by (induction ts) simp_all

lemma mset_replace:
  fixes a :: "'a multiset"
  assumes "a + b = c + e"
  shows "a + (x + (b + y)) = x + (c + y) + e"
proof -
  have "a + (x + (b + y)) = (a + b) + (x + y)" by (simp add: ac_simps)
  also have "\<dots> = x + (c + y) + e" unfolding assms by (simp add: ac_simps)
  finally show ?thesis .
qed

lemma mset_trans:
  fixes a :: "'a multiset"
  assumes "a + b = c + e" and "a' + b' = b + e'"
  shows "a + a' + b' = c + (e + e')"
proof -
  have "a + a' + b' = a + (a' + b')" by (simp add: ac_simps)
  also have "\<dots> = (a + b) + e'" unfolding assms(2) by (simp add: ac_simps)
  finally show ?thesis unfolding assms(1) by (simp add: ac_simps)
qed

text \<open>Every trace belongs to one of the runs \<open>R\<close>, and no run has two.\<close>

definition keyed :: "jsval set \<Rightarrow> traces \<Rightarrow> bool" where
  "keyed R ts \<longleftrightarrow> distinct (map bt_runId ts) \<and> bt_runId ` set ts \<subseteq> R"

lemma keyed_replace:
  assumes "keyed R (xs @ t # ys)" and "\<And>u. o' = Some u \<Longrightarrow> bt_runId u = bt_runId t"
  shows "keyed R (xs @ (case o' of None \<Rightarrow> [] | Some u \<Rightarrow> [u]) @ ys)"
proof (cases o')
  case None
  with assms(1) show ?thesis by (simp add: keyed_def)
next
  case (Some u)
  from assms(2) [OF Some] have "map bt_runId (xs @ [u] @ ys) = map bt_runId (xs @ t # ys)" by simp
  then have "distinct (map bt_runId (xs @ [u] @ ys))" "bt_runId ` set (xs @ [u] @ ys) = bt_runId ` set (xs @ t # ys)"
    using assms(1) unfolding keyed_def by (metis, metis set_map)
  with assms(1) Some show ?thesis by (simp add: keyed_def)
qed

lemma keyed_append:
  assumes "keyed R ts" and "\<And>u. o' = Some u \<Longrightarrow> bt_runId u \<in> R - bt_runId ` set ts"
  shows "keyed R (ts @ (case o' of None \<Rightarrow> [] | Some u \<Rightarrow> [u]))"
  using assms by (cases o') (auto simp: keyed_def)

lemma new_trace_fields [simp]: "bt_runId (new_trace cfg now ev) = jget ev ''run_id''"
  "bt_childSpans (new_trace cfg now ev) = []"
  by (simp_all add: new_trace_def)

lemma addEvent_conserves:
  assumes "exportable env ev" and "sdk_keeps_ids env" and "keyed R ts" and "jget ev ''run_id'' \<in> R"
    and "finite R" and "card R \<le> MAX_CONCURRENT_TRACES"
  shows "\<exists>spans ts'. addEvent env cfg now ev ts = (Inr spans, ts') \<and> keyed R ts'
    \<and> child_ids spans + buffered ts' = buffered ts + (if is_root ev then {#} else {#event_ids env ev#})"
proof -
  obtain r where r: "jget ev ''run_id'' = JStr r" using exportable_string [OF assms(1)] by blast
  show ?thesis
  proof (rule addEvent_cases [of ts ev env cfg now])
    fix xs t ys assume ts: "ts = xs @ t # ys"
      and k: "same_key (jget ev ''run_id'') (bt_runId t)"
      and a: "addEvent env cfg now ev ts = (fst (trace_step env ev t),
        xs @ (case snd (trace_step env ev t) of None \<Rightarrow> [] | Some u \<Rightarrow> [u]) @ ys)"
    from trace_step_conserves [OF assms(1,2), of t] obtain spans where s: "fst (trace_step env ev t) = Inr spans"
      "child_ids spans + (case snd (trace_step env ev t) of None \<Rightarrow> {#} | Some u \<Rightarrow> child_ids (bt_childSpans u))
        = child_ids (bt_childSpans t) + (if is_root ev then {#} else {#event_ids env ev#})" by blast
    have "keyed R (xs @ (case snd (trace_step env ev t) of None \<Rightarrow> [] | Some u \<Rightarrow> [u]) @ ys)"
      using assms(3) ts by (intro keyed_replace) (simp_all add: trace_step_runId)
    with s(1) a ts mset_replace [OF s(2), of "buffered xs" "buffered ys"] show ?thesis
      by (simp add: buffered_option)
  next
    fix t assume t: "t = new_trace cfg now ev" and nt: "\<not> has_trace (jget ev ''run_id'') ts"
      and a: "addEvent env cfg now ev ts = (fst (trace_step env ev t),
        make_room ts @ (case snd (trace_step env ev t) of None \<Rightarrow> [] | Some u \<Rightarrow> [u]))"
    have new: "jget ev ''run_id'' \<notin> bt_runId ` set ts"
      using nt by (auto simp: has_trace_def list_ex_iff r same_key_string image_iff)
    have "length ts = card (bt_runId ` set ts)"       using assms(3) distinct_card [of "map bt_runId ts"] by (simp add: keyed_def)
    also have "\<dots> < card R" using assms(3-5) new by (intro psubset_card_mono) (auto simp: keyed_def)
    finally have room: "make_room ts = ts" using assms(6) by (simp add: make_room_def)
    from trace_step_conserves [OF assms(1,2), of t] obtain spans where s: "fst (trace_step env ev t) = Inr spans"
      "child_ids spans + (case snd (trace_step env ev t) of None \<Rightarrow> {#} | Some u \<Rightarrow> child_ids (bt_childSpans u))
        = (if is_root ev then {#} else {#event_ids env ev#})" using t by auto
    have "keyed R (ts @ (case snd (trace_step env ev t) of None \<Rightarrow> [] | Some u \<Rightarrow> [u]))"
      using assms(3,4) new t by (intro keyed_append) (simp_all add: trace_step_runId)
    with s(1) a room mset_replace [of "child_ids spans" _ "{#}", OF trans [OF s(2)], of _ "buffered ts" "{#}"] show ?thesis
      by (simp add: buffered_option)
  qed
qed

lemma op_step_conserves:
  assumes "\<And>ev. ev \<in> set (op_events op) \<Longrightarrow> exportable env ev \<and> jget ev ''run_id'' \<in> R" and "sdk_keeps_ids env"
    and "keyed R ts" and "finite R" and "card R \<le> MAX_CONCURRENT_TRACES"
  shows "keyed R (snd (op_step env cfg op ts))
    \<and> child_ids (fst (op_step env cfg op ts)) + buffered (snd (op_step env cfg op ts))
      = buffered ts + image_mset (event_ids env) (mset (filter (\<lambda>e. \<not> is_root e) (op_events op)))"
proof (cases op)
  case (AddEvent now ev)
  with assms(1) have "exportable env ev" "jget ev ''run_id'' \<in> R" by auto
  from addEvent_conserves [OF this(1) assms(2,3) this(2) assms(4,5), of cfg now] AddEvent show ?thesis
    by auto
next
  case (FlushTimedOut now timeoutMs)
  have "distinct (map bt_runId (filter P ts))" for P using assms(3) by (simp add: keyed_def distinct_map_filter)
  with assms(2,3) FlushTimedOut buffered_filter show ?thesis
    by (auto simp: flushTimedOut_def child_ids_flush keyed_def)
next
  case FlushAll
  with assms(2) show ?thesis by (simp add: flushAll_def child_ids_flush keyed_def)
qed

lemma trace_exec_conserves:
  assumes "\<And>ev. ev \<in> set (events_of ops) \<Longrightarrow> exportable env ev \<and> jget ev ''run_id'' \<in> R" and "sdk_keeps_ids env"
    and "keyed R ts" and "finite R" and "card R \<le> MAX_CONCURRENT_TRACES"
  shows "child_ids (fst (trace_exec env cfg ops ts)) + buffered (snd (trace_exec env cfg ops ts))
      = buffered ts + image_mset (event_ids env) (mset (filter (\<lambda>e. \<not> is_root e) (events_of ops)))"
  using assms(1,3)
proof (induction ops arbitrary: ts)
  case (Cons op ops)
  from op_step_conserves [of op env R ts cfg] Cons.prems assms(2,4,5)
  have S: "keyed R (snd (op_step env cfg op ts))"
    "child_ids (fst (op_step env cfg op ts)) + buffered (snd (op_step env cfg op ts))
      = buffered ts + image_mset (event_ids env) (mset (filter (\<lambda>e. \<not> is_root e) (op_events op)))" by auto
  from Cons.IH [OF _ S(1)] Cons.prems(1)
  have "child_ids (fst (trace_exec env cfg ops (snd (op_step env cfg op ts))))
      + buffered (snd (trace_exec env cfg ops (snd (op_step env cfg op ts))))
    = buffered (snd (op_step env cfg op ts)) + image_mset (event_ids env) (mset (filter (\<lambda>e. \<not> is_root e) (events_of ops)))"
    by simp
  from mset_trans [OF S(2) this] show ?case by (simp add: case_prod_unfold Let_def)
qed simp

text \<open>Every span that is kept or flushed belongs to the tree of its run.\<close>

definition span_placed :: "otel_env \<Rightarrow> ReadableSpan \<Rightarrow> bool" where
  "span_placed env s \<longleftrightarrow> (\<exists>run. in_trace env (JStr run) s)"

lemma in_trace_placed: "in_trace env run s \<Longrightarrow> span_placed env s"
  using traceId_string unfolding span_placed_def in_trace_def by metis

lemma trace_ok_new: "trace_ok env (new_trace cfg now ev)"
  by (simp add: trace_ok_def new_trace_def)

lemma addEvent_ok:
  assumes "\<forall>t\<in>set ts. trace_ok env t" and "sdk_keeps_ids env"
  shows "(\<forall>t\<in>set (snd (addEvent env cfg now ev ts)). trace_ok env t)
    \<and> (\<forall>spans. fst (addEvent env cfg now ev ts) = Inr spans \<longrightarrow> (\<forall>s\<in>set spans. span_placed env s))"
proof (rule addEvent_cases [of ts ev env cfg now])
  fix xs t ys assume ts: "ts = xs @ t # ys" and k: "same_key (jget ev ''run_id'') (bt_runId t)"
    and a: "addEvent env cfg now ev ts = (fst (trace_step env ev t),
      xs @ (case snd (trace_step env ev t) of None \<Rightarrow> [] | Some u \<Rightarrow> [u]) @ ys)"
  from ts assms(1) have "trace_ok env t" by simp
  from trace_step_ok [OF this assms(2) disjI1 [OF k]]
  have S: "\<And>u. snd (trace_step env ev t) = Some u \<Longrightarrow> trace_ok env u"
    "\<And>spans s. fst (trace_step env ev t) = Inr spans \<Longrightarrow> s \<in> set spans \<Longrightarrow> span_placed env s"
    by (auto intro: in_trace_placed)
  with a ts assms(1) show ?thesis by (auto split: option.splits)
next
  fix t assume t: "t = new_trace cfg now ev"
    and a: "addEvent env cfg now ev ts = (fst (trace_step env ev t),
      make_room ts @ (case snd (trace_step env ev t) of None \<Rightarrow> [] | Some u \<Rightarrow> [u]))"
  have "trace_ok env t" "bt_runId t = jget ev ''run_id''" unfolding t by (rule trace_ok_new) simp
  from trace_step_ok [OF this(1) assms(2) disjI2 [OF this(2)]]
  have S: "\<And>u. snd (trace_step env ev t) = Some u \<Longrightarrow> trace_ok env u"
    "\<And>spans s. fst (trace_step env ev t) = Inr spans \<Longrightarrow> s \<in> set spans \<Longrightarrow> span_placed env s"
    by (auto intro: in_trace_placed)
  with a assms(1) set_make_room [of ts] show ?thesis by (auto split: option.splits)
qed

lemma incomplete_spans_placed:
  assumes "trace_ok env t" and "sdk_keeps_ids env" and "s \<in> set (incomplete_spans env t)"
  shows "span_placed env s"
proof -
  consider rs where "bt_rootSpan t = Some rs" "s = buildIncompleteRootSpan env rs (bt_rootSpanEvents t) (bt_resource t)"
    | "s \<in> set (bt_childSpans t)" using assms(3) by (cases "bt_rootSpan t") (auto simp: incomplete_spans_def)
  then show ?thesis
  proof cases
    case 1
    with assms(1) have "sp_parentSpanId rs = None" "in_trace env (bt_runId t) rs" by (auto simp: trace_ok_def)
    with in_trace_roots(2) [OF _ _ assms(2)] 1 show ?thesis by (metis in_trace_placed)
  next
    case 2
    with assms(1) show ?thesis by (auto simp: trace_ok_def intro: in_trace_placed)
  qed
qed

lemma op_step_ok:
  assumes "\<forall>t\<in>set ts. trace_ok env t" and "sdk_keeps_ids env"
  shows "(\<forall>t\<in>set (snd (op_step env cfg op ts)). trace_ok env t) \<and> (\<forall>s\<in>set (fst (op_step env cfg op ts)). span_placed env s)"
proof (cases op)
  case (AddEvent now ev)
  then show ?thesis using addEvent_ok [OF assms, of cfg now ev] by (auto split: prod.splits sum.splits)
qed (use assms incomplete_spans_placed in \<open>auto simp: flushTimedOut_def flushAll_def\<close>)

lemma trace_exec_ok:
  assumes "\<forall>t\<in>set ts. trace_ok env t" and "sdk_keeps_ids env"
  shows "\<forall>s\<in>set (fst (trace_exec env cfg ops ts)). span_placed env s"
  using assms(1)
proof (induction ops arbitrary: ts)
  case (Cons op ops)
  from op_step_ok [OF Cons.prems assms(2), of cfg op] Cons.IH show ?case
    by (auto simp: case_prod_unfold Let_def)
qed simp

lemma trace_exec_length: "length ts \<le> MAX_CONCURRENT_TRACES \<Longrightarrow> length (snd (trace_exec env cfg ops ts)) \<le> MAX_CONCURRENT_TRACES"
proof (induction ops arbitrary: ts)
  case (Cons op ops)
  from Cons.prems length_op_step [of env cfg op ts] Cons.IH show ?case by (simp add: case_prod_unfold Let_def)
qed simp

lemma length_spanId:
  assumes "\<And>x. length (oe_digest env x) = 32" and "spanId env r s = Inr i"
  shows "length i = 16 \<and> i \<noteq> replicate 16 (CHR ''0'')"
proof -
  from assms(2) obtain x where i: "i = to_hex (nonzero_id (take 8 (oe_digest env x)))"
    by (auto simp: spanId_def bind_result_Inr_iff)
  let ?b = "nonzero_id (take 8 (oe_digest env x))"
  have len: "length ?b = 8" using assms(1) by (simp add: nonzero_id_def)
  have nz: "?b \<noteq> replicate 8 (CHR 0x00)"
  proof (cases "list_all (\<lambda>b. b = CHR 0x00) (take 8 (oe_digest env x))")
    case True
    then have "?b ! 7 = CHR 0x01" using assms(1) by (simp add: nonzero_id_def)
    then show ?thesis by (auto simp: nth_replicate)
  next
    case False
    then show ?thesis by (auto simp: nonzero_id_def list_all_iff)
  qed
  have "to_hex (replicate 8 (CHR 0x00)) = replicate 16 (CHR ''0'')" by code_simp
  then have "i \<noteq> replicate 16 (CHR ''0'')" using nz i by (metis from_hex_to_hex)
  with len i show ?thesis by simp
qed

section \<open>Properties\<close>



text \<open>The buffer never holds more than 1000 traces, whatever the events hold and whether they throw or not.\<close>

theorem trace_buffer_bounded:
  "length (snd (trace_exec env cfg ops [])) \<le> MAX_CONCURRENT_TRACES"
  by (rule trace_exec_length) simp

definition ex_otel :: otel_env where
  "ex_otel = \<lparr>oe_digest = (\<lambda>x. replicate 32 (CHR ''a'')), oe_date = (\<lambda>_. Some 0), oe_number = (\<lambda>_. None),
     oe_bigint = (\<lambda>_. None), oe_sdk = id\<rparr>"

definition ex_event :: "string \<Rightarrow> nat \<Rightarrow> jsval" where
  "ex_event ty n = JObj [(''run_id'', JStr ''ab-cd''), (''seq'', JNum (Dec False n 0)), (''event_type'', JStr ty),
     (''hash'', JStr ''h''), (''ts'', JStr ''t'')]"

definition ex_ops :: "trace_op list" where
  "ex_ops = [AddEvent 0 (ex_event ''run_started'' 1), AddEvent 1 (ex_event ''policy_decision'' 2),
     FlushTimedOut 5 10, AddEvent 2 (ex_event ''run_ended'' 3)]"

lemma ex_sdk: "sdk_keeps_ids ex_otel"
  by (simp add: sdk_keeps_ids_def ex_otel_def)

abbreviation ex_rc :: ResourceConfig where
  "ex_rc \<equiv> \<lparr>rc_serviceName = [], rc_serviceVersion = []\<rparr>"

lemma ex_is_root: "is_root (ex_event ty n) \<longleftrightarrow> ty = ''run_started''"
  by (simp add: is_root_def ex_event_def)

lemma ex_events: "events_of ex_ops = [ex_event ''run_started'' 1, ex_event ''policy_decision'' 2, ex_event ''run_ended'' 3]"
  by (simp add: ex_ops_def)

lemma ex_exportable:
  "exportable ex_otel (ex_event ''run_started'' 1)" "exportable ex_otel (ex_event ''policy_decision'' 2)"
  "exportable ex_otel (ex_event ''run_ended'' 3)"
  by code_simp+

lemma ex_runs: "card ((\<lambda>ev. jget ev ''run_id'') ` set (events_of ex_ops)) \<le> MAX_CONCURRENT_TRACES"
  unfolding ex_events by (simp add: ex_event_def MAX_CONCURRENT_TRACES_def)



end
