(* ===== verification/Jsonl_Reader.thy ===== *)
theory Jsonl_Reader
  imports Trace_Buffer
begin

text \<open>
  \<open>apps/otel-exporter/src/jsonl-reader.ts\<close>, \<open>config.ts\<close>, \<open>exporter-factory.ts\<close> and
  \<open>bin/loopstorm-otel-export.ts\<close>: the reader that follows the audit log, and the process that
  feeds its events to the trace buffer.

  \<open>disk\<close> holds the log as it is when an operation looks at it (\<open>None\<close>: no such file), the
  cursor file, and whether the cursor file can be written. \<open>re_parse\<close> is \<open>JSON.parse\<close> and
  \<open>re_decode\<close> is \<open>toString("utf8")\<close> of the bytes read. The event handler is a function on a
  state of its own that may throw.
\<close>

section \<open>The reader\<close>

record reader_env =
  re_parse :: "string \<Rightarrow> jsval option"
  re_decode :: "string \<Rightarrow> string"

record disk =
  dk_file :: "string option"
  dk_cursor :: "string option"
  dk_writable :: bool

record ReaderState =
  rd_cursor :: nat
  rd_lineNumber :: nat
  rd_partial :: string

definition reader_init :: ReaderState where
  "reader_init = \<lparr>rd_cursor = 0, rd_lineNumber = 0, rd_partial = []\<rparr>"

definition REQUIRED_EVENT_FIELDS :: "string list" where
  "REQUIRED_EVENT_FIELDS = [''run_id'', ''seq'', ''event_type'', ''hash'', ''ts'']"

definition saveCursor :: "ReaderState \<Rightarrow> disk \<Rightarrow> disk" where
  "saveCursor st d = (if dk_writable d then d\<lparr>dk_cursor := Some (show_nat (rd_cursor st))\<rparr> else d)"

definition loadCursor :: "ReaderState \<Rightarrow> disk \<Rightarrow> ReaderState \<times> disk" where
  "loadCursor st d =
    (case dk_cursor d of
       None \<Rightarrow> (st\<lparr>rd_cursor := 0\<rparr>, d)
     | Some raw \<Rightarrow>
        (case parseInt (trim raw) of
           None \<Rightarrow> (let st' = st\<lparr>rd_cursor := 0\<rparr> in (st', saveCursor st' d))
         | Some v \<Rightarrow>
             if v < 0 then (let st' = st\<lparr>rd_cursor := 0\<rparr> in (st', saveCursor st' d))
             else (case dk_file d of
                 None \<Rightarrow> (st\<lparr>rd_cursor := 0\<rparr>, d)
               | Some bytes \<Rightarrow>
                   if int (length bytes) \<ge> v then (st\<lparr>rd_cursor := nat v\<rparr>, d)
                   else (let st' = st\<lparr>rd_cursor := 0\<rparr> in (st', saveCursor st' d)))))"

text \<open>A JSON value that is no object has none of the fields.\<close>

definition parseLine :: "reader_env \<Rightarrow> (jsval \<Rightarrow> 's \<Rightarrow> js_error option \<times> 's) \<Rightarrow> string \<Rightarrow> 's \<Rightarrow> js_error option \<times> 's" where
  "parseLine env h line s =
    (case re_parse env line of
       None \<Rightarrow> (None, s)
     | Some obj \<Rightarrow> if list_ex (\<lambda>f. jget obj f = JUndefined \<or> jget obj f = JNull) REQUIRED_EVENT_FIELDS
         then (None, s) else h obj s)"

fun process_lines ::
  "reader_env \<Rightarrow> (jsval \<Rightarrow> 's \<Rightarrow> js_error option \<times> 's) \<Rightarrow> string list \<Rightarrow> nat \<Rightarrow> 's \<Rightarrow> js_error option \<times> nat \<times> 's" where
  "process_lines env h [] n s = (None, n, s)"
| "process_lines env h (line # lines) n s =
    (let trimmed = trimEnd line in
     if trimmed = [] then process_lines env h lines n s
     else (case parseLine env h trimmed s of
         (Some e, s') \<Rightarrow> (Some e, n + 1, s')
       | (None, s') \<Rightarrow> process_lines env h lines (n + 1) s'))"

definition nl :: char where "nl = CHR 0x0A"

definition readNewBytes ::
  "reader_env \<Rightarrow> (jsval \<Rightarrow> 's \<Rightarrow> js_error option \<times> 's) \<Rightarrow> ReaderState \<Rightarrow> disk \<Rightarrow> 's
   \<Rightarrow> js_error option \<times> ReaderState \<times> disk \<times> 's" where
  "readNewBytes env h st d s =
    (case dk_file d of
       None \<Rightarrow> (None, st, d, s)
     | Some bytes \<Rightarrow>
        (let size = length bytes;
             rotated = (size < rd_cursor st);
             st1 = (if rotated then st\<lparr>rd_cursor := 0, rd_partial := []\<rparr> else st);
             d1 = (if rotated then saveCursor st1 d else d)
         in if size \<le> rd_cursor st1 then (None, st1, d1, s)
            else (let chunk = re_decode env (drop (rd_cursor st1) bytes);
                      lines = split_on nl (rd_partial st1 @ chunk);
                      st2 = st1\<lparr>rd_cursor := size, rd_partial := last lines\<rparr>
                  in case process_lines env h (butlast lines) (rd_lineNumber st2) s of
                       (Some e, n, s') \<Rightarrow> (Some e, st2\<lparr>rd_lineNumber := n\<rparr>, d1, s')
                     | (None, n, s') \<Rightarrow> (let st3 = st2\<lparr>rd_lineNumber := n\<rparr> in (None, st3, saveCursor st3 d1, s')))))"

definition processOnce ::
  "reader_env \<Rightarrow> (jsval \<Rightarrow> 's \<Rightarrow> js_error option \<times> 's) \<Rightarrow> ReaderState \<Rightarrow> disk \<Rightarrow> 's
   \<Rightarrow> js_error option \<times> ReaderState \<times> disk \<times> 's" where
  "processOnce env h st d s =
    (let (st1, d1) = loadCursor st d in
     case readNewBytes env h st1 d1 s of
       (Some e, st2, d2, s2) \<Rightarrow> (Some e, st2, d2, s2)
     | (None, st2, d2, s2) \<Rightarrow> (None, st2, saveCursor st2 d2, s2))"

text \<open>
  The polls of \<open>start\<close>: the log as each poll finds it. An error of a poll is logged and the
  next poll goes on from the state it left.
\<close>

fun poll_all ::
  "reader_env \<Rightarrow> (jsval \<Rightarrow> 's \<Rightarrow> js_error option \<times> 's) \<Rightarrow> string list \<Rightarrow> ReaderState \<Rightarrow> disk \<Rightarrow> 's
   \<Rightarrow> ReaderState \<times> disk \<times> 's" where
  "poll_all env h [] st d s = (st, d, s)"
| "poll_all env h (f # fs) st d s =
    (case readNewBytes env h st (d\<lparr>dk_file := Some f\<rparr>) s of (_, st', d', s') \<Rightarrow> poll_all env h fs st' d' s')"

definition start ::
  "reader_env \<Rightarrow> (jsval \<Rightarrow> 's \<Rightarrow> js_error option \<times> 's) \<Rightarrow> string list \<Rightarrow> ReaderState \<Rightarrow> disk \<Rightarrow> 's
   \<Rightarrow> js_error option \<times> ReaderState \<times> disk \<times> 's" where
  "start env h fs st d s =
    (let (st1, d1) = loadCursor st d in
     case readNewBytes env h st1 d1 s of
       (Some e, st2, d2, s2) \<Rightarrow> (Some e, st2, d2, s2)
     | (None, st2, d2, s2) \<Rightarrow> (None, poll_all env h fs st2 d2 s2))"

section \<open>Configuration\<close>

record OtelExporterConfig =
  oc_inputPath :: string
  oc_endpoint :: string
  oc_grpc :: bool
  oc_console :: bool
  oc_once :: bool
  oc_serviceName :: string
  oc_serviceVersion :: string
  oc_batchSize :: int
  oc_flushIntervalMs :: int
  oc_pollIntervalMs :: int
  oc_bufferTimeoutMs :: int
  oc_headers :: "(string \<times> string) list"

definition parseIntOr :: "string option \<Rightarrow> int \<Rightarrow> int" where
  "parseIntOr value defaultValue = (case value of None \<Rightarrow> defaultValue
     | Some s \<Rightarrow> (case parseInt s of None \<Rightarrow> defaultValue | Some n \<Rightarrow> n))"

text \<open>\<open>result[key] = value\<close> on the entries of an object in insertion order.\<close>

definition obj_set :: "string \<Rightarrow> string \<Rightarrow> (string \<times> string) list \<Rightarrow> (string \<times> string) list" where
  "obj_set k v kvs = (if k \<in> fst ` set kvs then map (\<lambda>(a, b). if a = k then (a, v) else (a, b)) kvs else kvs @ [(k, v)])"

definition header_pair :: "(string \<times> string) list \<Rightarrow> string \<Rightarrow> (string \<times> string) list" where
  "header_pair result pair = (case indexOf (CHR ''='') pair of
      None \<Rightarrow> result
    | Some i \<Rightarrow> (let key = trim (take i pair); value = trim (drop (i + 1) pair)
                in if key = [] then result else obj_set key value result))"

definition parseOtlpHeadersInline :: "string \<Rightarrow> (string \<times> string) list" where
  "parseOtlpHeadersInline raw = (if trim raw = [] then [] else foldl header_pair [] (split_on (CHR '','') raw))"

definition parseOtlpHeaders :: "string \<Rightarrow> (string \<times> string) list" where
  "parseOtlpHeaders raw = (if trim raw = [] then [] else foldl header_pair [] (split_on (CHR '','') raw))"

text \<open>
  \<open>values\<close> is the result of \<open>parseArgs\<close> (a string or a boolean per option), \<open>env\<close> the
  environment. A call of \<open>process.exit\<close> is \<open>Inl\<close> with the exit code.
\<close>

definition opt_string :: "jsval \<Rightarrow> string option \<Rightarrow> string \<Rightarrow> string" where
  "opt_string flag var dflt = (case flag of JStr s \<Rightarrow> s | _ \<Rightarrow> (case var of Some s \<Rightarrow> s | None \<Rightarrow> dflt))"

definition parseConfig :: "(string \<Rightarrow> jsval) \<Rightarrow> (string \<Rightarrow> string option) \<Rightarrow> nat + OtelExporterConfig" where
  "parseConfig values env =
    (if truthy (values ''version'') then Inl 0
     else if truthy (values ''help'') then Inl 0
     else (let grpc = (opt_string (values ''protocol'') (env ''OTEL_EXPORTER_OTLP_PROTOCOL'') ''http/protobuf'' = ''grpc'');
               defaultEndpoint = (if grpc then ''http://localhost:4317'' else ''http://localhost:4318'');
               inputPath = opt_string (values ''input'') (env ''LOOPSTORM_AUDIT_PATH'') []
           in if inputPath = [] then Inl 1
              else Inr \<lparr>oc_inputPath = inputPath,
                oc_endpoint = opt_string (values ''endpoint'') (env ''OTEL_EXPORTER_OTLP_ENDPOINT'') defaultEndpoint,
                oc_grpc = grpc,
                oc_console = (values ''console'' = JBool True \<or> env ''OTEL_EXPORTER'' = Some ''console''),
                oc_once = (values ''once'' = JBool True),
                oc_serviceName = opt_string (values ''service-name'') (env ''OTEL_SERVICE_NAME'') ''loopstorm-engine'',
                oc_serviceVersion = opt_string (values ''service-version'') (env ''OTEL_SERVICE_VERSION'') ''0.1.0'',
                oc_batchSize = parseIntOr (str_of (values ''batch-size'')) 100,
                oc_flushIntervalMs = parseIntOr (str_of (values ''flush-interval'')) 5000,
                oc_pollIntervalMs = parseIntOr (str_of (values ''poll-interval'')) 1000,
                oc_bufferTimeoutMs = parseIntOr (str_of (values ''buffer-timeout'')) 300000,
                oc_headers = parseOtlpHeadersInline (case env ''OTEL_EXPORTER_OTLP_HEADERS'' of None \<Rightarrow> [] | Some s \<Rightarrow> s)\<rparr>))"

datatype exporter = ConsoleSpanExporter | GrpcExporter string "(string \<times> string) list" | HttpExporter string "(string \<times> string) list"

definition createExporter :: "OtelExporterConfig \<Rightarrow> exporter" where
  "createExporter config =
    (if oc_console config then ConsoleSpanExporter
     else if oc_grpc config then GrpcExporter (oc_endpoint config) (oc_headers config)
     else HttpExporter (oc_endpoint config) (oc_headers config))"

section \<open>The process\<close>

text \<open>
  The state the event handler works on: the spans handed to the batch processor so far, the
  trace buffer and the number of events seen. \<open>clock n\<close> is \<open>Date.now()\<close> at event \<open>n\<close>.
\<close>

record exporter_state =
  xs_out :: "ReadableSpan list"
  xs_traces :: traces
  xs_count :: nat

definition onEvent ::
  "otel_env \<Rightarrow> ResourceConfig \<Rightarrow> (nat \<Rightarrow> int) \<Rightarrow> jsval \<Rightarrow> exporter_state \<Rightarrow> js_error option \<times> exporter_state" where
  "onEvent env cfg clock ev x =
    (case addEvent env cfg (clock (xs_count x)) ev (xs_traces x) of
       (Inl e, ts) \<Rightarrow> (Some e, x\<lparr>xs_traces := ts, xs_count := xs_count x + 1\<rparr>)
     | (Inr spans, ts) \<Rightarrow> (None, x\<lparr>xs_out := xs_out x @ spans, xs_traces := ts, xs_count := xs_count x + 1\<rparr>))"

definition exporter_init :: exporter_state where
  "exporter_init = \<lparr>xs_out = [], xs_traces = [], xs_count = 0\<rparr>"

definition resource_of :: "OtelExporterConfig \<Rightarrow> ResourceConfig" where
  "resource_of c = \<lparr>rc_serviceName = oc_serviceName c, rc_serviceVersion = oc_serviceVersion c\<rparr>"

text \<open>\<open>main\<close> with \<open>--once\<close>: the spans exported and the disk afterwards; \<open>Inl\<close> is exit code 1.\<close>

definition main_once ::
  "reader_env \<Rightarrow> otel_env \<Rightarrow> OtelExporterConfig \<Rightarrow> (nat \<Rightarrow> int) \<Rightarrow> disk \<Rightarrow> (nat + ReadableSpan list) \<times> disk" where
  "main_once renv env config clock d =
    (case processOnce renv (onEvent env (resource_of config) clock) reader_init d exporter_init of
       (Some e, st, d', x) \<Rightarrow> (Inl 1, d')
     | (None, st, d', x) \<Rightarrow>
        (let (timedOut, ts) = flushTimedOut env (clock (xs_count x) + oc_bufferTimeoutMs config) 0 (xs_traces x);
             (remaining, ts') = flushAll env ts
         in (Inr (xs_out x @ timedOut @ remaining), d')))"

section \<open>Lines\<close>

text \<open>A handler that does not throw sees the lines one after the other, wherever the list is cut.\<close>

definition quiet :: "(jsval \<Rightarrow> 's \<Rightarrow> js_error option \<times> 's) \<Rightarrow> bool" where
  "quiet h \<longleftrightarrow> (\<forall>v s. fst (h v s) = None)"

lemma parseLine_quiet: "quiet h \<Longrightarrow> fst (parseLine env h l s) = None"
  by (simp add: parseLine_def quiet_def split: option.splits)

lemma process_lines_append:
  assumes "process_lines env h xs n s = (None, m, s')"
  shows "process_lines env h (xs @ ys) n s = process_lines env h ys m s'"
  using assms
proof (induction xs arbitrary: n s)
  case (Cons x xs)
  show ?case
  proof (cases "trimEnd x = []")
    case True
    with Cons show ?thesis by (simp add: Let_def)
  next
    case False
    with Cons show ?thesis by (auto simp: Let_def split: prod.splits option.splits)
  qed
qed simp

lemma process_lines_quiet: "quiet h \<Longrightarrow> fst (process_lines env h ls n s) = None"
proof (induction ls arbitrary: n s)
  case (Cons l ls)
  then show ?case using parseLine_quiet [OF Cons.prems, of env "trimEnd l" s]
    by (auto simp: Let_def split: prod.splits option.splits)
qed simp

text \<open>
  The reader has caught up with the bytes \<open>f\<close>: its cursor is at their end, and the handler
  has seen their complete lines.
\<close>

definition caught_up ::
  "reader_env \<Rightarrow> (jsval \<Rightarrow> 's \<Rightarrow> js_error option \<times> 's) \<Rightarrow> string \<Rightarrow> 's \<Rightarrow> ReaderState \<Rightarrow> 's \<Rightarrow> bool" where
  "caught_up env h f s0 st s \<longleftrightarrow> rd_cursor st = length f \<and> rd_partial st = last (split_on nl (re_decode env f))
     \<and> process_lines env h (butlast (split_on nl (re_decode env f))) 0 s0 = (None, rd_lineNumber st, s)"

text \<open>A poll that finds \<open>f @ c\<close>, when the bytes \<open>c\<close> do not start inside a character.\<close>

lemma readNewBytes_grow:
  assumes "caught_up env h f s0 st s" and "re_decode env (f @ c) = re_decode env f @ re_decode env c"
    and "quiet h" and "dk_file d = Some (f @ c)"
  shows "\<exists>st' d' s'. readNewBytes env h st d s = (None, st', d', s') \<and> caught_up env h (f @ c) s0 st' s'"
proof (cases "c = []")
  case True
  with assms(1,4) show ?thesis by (simp add: readNewBytes_def caught_up_def)
next
  case False
  let ?D = "re_decode env"
  let ?ls = "split_on nl (rd_partial st @ ?D c)"
  have cur: "rd_cursor st = length f" and par: "rd_partial st = last (split_on nl (?D f))"
    and pl: "process_lines env h (butlast (split_on nl (?D f))) 0 s0 = (None, rd_lineNumber st, s)"
    using assms(1) by (auto simp: caught_up_def)
  have sp: "split_on nl (?D (f @ c)) = butlast (split_on nl (?D f)) @ ?ls"
    using split_on_append [of nl "?D f" "?D c"] assms(2) par by simp
  obtain n s' where p: "process_lines env h (butlast ?ls) (rd_lineNumber st) s = (None, n, s')"
    using process_lines_quiet [OF assms(3), of env "butlast ?ls" "rd_lineNumber st" s] by (metis prod.collapse)
  have bl: "butlast (split_on nl (?D (f @ c))) = butlast (split_on nl (?D f)) @ butlast ?ls"
    unfolding sp by (simp add: butlast_append)
  have all: "process_lines env h (butlast (split_on nl (?D (f @ c)))) 0 s0 = (None, n, s')"
    unfolding bl using process_lines_append [OF pl] p by simp
  have la: "last (split_on nl (?D (f @ c))) = last ?ls" unfolding sp by simp
  have "readNewBytes env h st d s = (let st3 = st\<lparr>rd_cursor := length (f @ c), rd_partial := last ?ls, rd_lineNumber := n\<rparr>
      in (None, st3, saveCursor st3 d, s'))"
    using False cur p by (simp add: readNewBytes_def assms(4) Let_def)
  with all la show ?thesis by (simp add: caught_up_def Let_def)
qed

text \<open>
  The log grows from poll to poll, and no poll finds the first bytes of a character without
  the others.
\<close>

fun grows :: "(string \<Rightarrow> string) \<Rightarrow> string \<Rightarrow> string list \<Rightarrow> bool" where
  "grows D f [] \<longleftrightarrow> True"
| "grows D f (g # gs) \<longleftrightarrow> (let c = drop (length f) g in g = f @ c \<and> D g = D f @ D c) \<and> grows D g gs"

lemma poll_all_grow:
  assumes "caught_up env h f s0 st s" and "grows (re_decode env) f fs" and "quiet h"
    and "poll_all env h fs st d s = (st', d', s')"
  shows "caught_up env h (last (f # fs)) s0 st' s'"
  using assms(1,2,4)
proof (induction fs arbitrary: f st d s)
  case (Cons g gs)
  define c where "c = drop (length f) g"
  from Cons.prems(2) have g: "g = f @ c" and D: "re_decode env g = re_decode env f @ re_decode env c"
    by (simp_all only: grows.simps Let_def c_def)
  from readNewBytes_grow [OF Cons.prems(1) D [unfolded g] assms(3), of "d\<lparr>dk_file := Some g\<rparr>"] g
  obtain st1 d1 s1 where r: "readNewBytes env h st (d\<lparr>dk_file := Some g\<rparr>) s = (None, st1, d1, s1)"
    and c1: "caught_up env h g s0 st1 s1" by auto
  from Cons.IH [OF c1] Cons.prems(2,3) r show ?case by simp
qed simp

lemma caught_up_init: "re_decode env [] = [] \<Longrightarrow> caught_up env h [] s reader_init s"
  by (simp add: caught_up_def reader_init_def)

lemma caught_up_fun:
  "caught_up env h f s0 st s \<Longrightarrow> caught_up env h f s0 st' s' \<Longrightarrow> st = st' \<and> s = s'"
  by (auto simp: caught_up_def)

section \<open>The cursor file\<close>

lemma loadCursor_saveCursor:
  assumes "dk_writable d" and "dk_file d = Some bytes" and "rd_cursor st \<le> length bytes"
  shows "loadCursor st' (saveCursor st d) = (st'\<lparr>rd_cursor := rd_cursor st\<rparr>, saveCursor st d)"
  using assms by (simp add: loadCursor_def saveCursor_def trim_show_nat parseInt_show_nat)

lemma readNewBytes_disk:
  assumes "readNewBytes env h st d s = (r, st', d', s')"
  shows "dk_file d' = dk_file d" "dk_writable d' = dk_writable d"
  using assms by (auto simp: readNewBytes_def saveCursor_def Let_def split: option.splits prod.splits if_splits)

lemma process_lines_shift:
  "process_lines env h ls n s = (r, m, s') \<Longrightarrow> process_lines env h ls (n + k) s = (r, m + k, s')"
proof (induction ls arbitrary: n s)
  case (Cons l ls)
  show ?case
  proof (cases "trimEnd l = []")
    case True
    with Cons show ?thesis by (simp add: Let_def)
  next
    case False
    obtain e s1 where p: "parseLine env h (trimEnd l) s = (e, s1)" by fastforce
    show ?thesis using Cons.IH [of "n + 1" s1] Cons.prems False p
      by (cases e) (auto simp: Let_def add.commute add.left_commute)
  qed
qed simp

text \<open>The first run of a reader, on a log without a cursor file.\<close>

lemma processOnce_first:
  assumes "dk_file d = Some f" and "dk_cursor d = None" and "re_decode env [] = []"
  shows "processOnce env h reader_init d s =
    (if f = [] then (None, reader_init, saveCursor reader_init d, s)
     else (let ls = split_on nl (re_decode env f); st = reader_init\<lparr>rd_cursor := length f, rd_partial := last ls\<rparr>
           in case process_lines env h (butlast ls) 0 s of
                (Some e, n, s') \<Rightarrow> (Some e, st\<lparr>rd_lineNumber := n\<rparr>, d, s')
              | (None, n, s') \<Rightarrow> (None, st\<lparr>rd_lineNumber := n\<rparr>, saveCursor (st\<lparr>rd_lineNumber := n\<rparr>) d, s')))"
proof -
  have s2: "saveCursor st (saveCursor st d) = saveCursor st d" for st by (simp add: saveCursor_def)
  have "loadCursor reader_init d = (reader_init, d)" using assms(2) by (simp add: loadCursor_def reader_init_def)
  then show ?thesis
    by (simp add: processOnce_def readNewBytes_def assms(1) reader_init_def s2 Let_def split: prod.splits option.splits)
qed

text \<open>A later run that finds the cursor at the end of \<open>f\<close>.\<close>

lemma processOnce_resume:
  assumes "dk_file d = Some (f @ c)" and "dk_cursor d = Some (show_nat (length f))" and "c \<noteq> []"
  shows "fst (processOnce env h reader_init d s) = fst (process_lines env h (butlast (split_on nl (re_decode env c))) 0 s)
    \<and> snd (snd (snd (processOnce env h reader_init d s)))
      = snd (snd (process_lines env h (butlast (split_on nl (re_decode env c))) 0 s))"
proof -
  have "loadCursor reader_init d = (reader_init\<lparr>rd_cursor := length f\<rparr>, d)"
    using assms(1,2) by (simp add: loadCursor_def trim_show_nat parseInt_show_nat)
  then show ?thesis using assms(1,3)
    by (simp add: processOnce_def readNewBytes_def reader_init_def Let_def split: prod.splits option.splits)
qed

section \<open>The exporter on a log\<close>

definition line_event :: "reader_env \<Rightarrow> string \<Rightarrow> jsval option" where
  "line_event env l = (if trimEnd l = [] then None else (case re_parse env (trimEnd l) of None \<Rightarrow> None
     | Some obj \<Rightarrow> if list_ex (\<lambda>f. jget obj f = JUndefined \<or> jget obj f = JNull) REQUIRED_EVENT_FIELDS
         then None else Some obj))"

definition log_events :: "reader_env \<Rightarrow> string list \<Rightarrow> jsval list" where
  "log_events env ls = List.map_filter (line_event env) ls"

lemma log_events_simps [simp]:
  "log_events env [] = []"
  "log_events env (l # ls) = (case line_event env l of None \<Rightarrow> [] | Some v \<Rightarrow> [v]) @ log_events env ls"
  by (simp_all add: log_events_def List.map_filter_def split: option.splits)

lemma onEvent_conserves:
  assumes "exportable env ev" and "sdk_keeps_ids env" and "keyed R (xs_traces x)" and "jget ev ''run_id'' \<in> R"
    and "finite R" and "card R \<le> MAX_CONCURRENT_TRACES"
  shows "\<exists>x'. onEvent env cfg clock ev x = (None, x') \<and> keyed R (xs_traces x')
    \<and> child_ids (xs_out x') + buffered (xs_traces x')
      = child_ids (xs_out x) + buffered (xs_traces x) + image_mset (event_ids env) (mset (filter (\<lambda>e. \<not> is_root e) [ev]))"
proof -
  from addEvent_conserves [OF assms, of cfg "clock (xs_count x)"] obtain spans ts' where
    a: "addEvent env cfg (clock (xs_count x)) ev (xs_traces x) = (Inr spans, ts')" and k: "keyed R ts'"
    and c: "child_ids spans + buffered ts' = buffered (xs_traces x) + (if is_root ev then {#} else {#event_ids env ev#})"
    by blast
  have "child_ids (xs_out x) + (child_ids spans + buffered ts') = child_ids (xs_out x) + buffered (xs_traces x)
      + image_mset (event_ids env) (mset (filter (\<lambda>e. \<not> is_root e) [ev]))"
    unfolding c by simp
  with a k show ?thesis by (simp add: onEvent_def add.assoc)
qed

lemma exporter_lines:
  assumes "\<And>ev. ev \<in> set (log_events renv ls) \<Longrightarrow> exportable env ev \<and> jget ev ''run_id'' \<in> R"
    and "sdk_keeps_ids env" and "keyed R (xs_traces x)" and "finite R" and "card R \<le> MAX_CONCURRENT_TRACES"
  shows "\<exists>n' x'. process_lines renv (onEvent env cfg clock) ls n x = (None, n', x')
    \<and> child_ids (xs_out x') + buffered (xs_traces x')
      = child_ids (xs_out x) + buffered (xs_traces x)
        + image_mset (event_ids env) (mset (filter (\<lambda>e. \<not> is_root e) (log_events renv ls)))"
  using assms(1,3)
proof (induction ls arbitrary: n x)
  case (Cons l ls)
  show ?case
  proof (cases "line_event renv l")
    case None
    then have "process_lines renv (onEvent env cfg clock) (l # ls) n x
        = process_lines renv (onEvent env cfg clock) ls (if trimEnd l = [] then n else n + 1) x"
      by (auto simp: line_event_def parseLine_def Let_def split: if_splits option.splits)
    with Cons.IH [of x] Cons.prems None show ?thesis by simp
  next
    case (Some v)
    with Cons.prems(1) have v: "exportable env v" "jget v ''run_id'' \<in> R" by auto
    from onEvent_conserves [OF v(1) assms(2) Cons.prems(2) v(2) assms(4,5), of cfg clock]
    obtain x1 where x1: "onEvent env cfg clock v x = (None, x1)" "keyed R (xs_traces x1)"
      and c: "child_ids (xs_out x1) + buffered (xs_traces x1)
        = child_ids (xs_out x) + buffered (xs_traces x) + image_mset (event_ids env) (mset (filter (\<lambda>e. \<not> is_root e) [v]))"
      by blast
    have "process_lines renv (onEvent env cfg clock) (l # ls) n x = process_lines renv (onEvent env cfg clock) ls (n + 1) x1"
      using Some x1(1) by (auto simp: line_event_def parseLine_def Let_def split: if_splits option.splits)
    moreover from Cons.IH [OF _ x1(2), of "n + 1"] Cons.prems(1) Some obtain n' x' where
      "process_lines renv (onEvent env cfg clock) ls (n + 1) x1 = (None, n', x')"
      "child_ids (xs_out x') + buffered (xs_traces x') = child_ids (xs_out x1) + buffered (xs_traces x1)
        + image_mset (event_ids env) (mset (filter (\<lambda>e. \<not> is_root e) (log_events renv ls)))" by auto
    moreover have "mset (filter P (log_events renv (l # ls))) = mset (filter P [v]) + mset (filter P (log_events renv ls))" for P
      using Some by simp
    ultimately show ?thesis unfolding c by (simp only: image_mset_union add.assoc) blast
  qed
qed simp

section \<open>Properties\<close>

text \<open>
  The events that are delivered do not depend on when the log is polled: when the log
  grows from poll to poll, no poll cuts a character in two and the handler does not throw,
  all polls together leave the reader and the handler in the state that one read of the
  final log leaves them in.
\<close>

theorem polls_equal_one_read:
  assumes "grows (re_decode env) [] fs" and "fs \<noteq> []" and "re_decode env [] = []" and "quiet h"
    and "poll_all env h fs reader_init d s = (st1, d1, s1)"
    and "readNewBytes env h reader_init (d\<lparr>dk_file := Some (last fs)\<rparr>) s = (r, st2, d2, s2)"
  shows "r = None \<and> st1 = st2 \<and> s1 = s2"
proof -
  note init = caught_up_init [OF assms(3), of h s]
  have one: "caught_up env h (last fs) s st1 s1"
    using poll_all_grow [OF init assms(1,4,5)] assms(2) by simp
  have "re_decode env ([] @ last fs) = re_decode env [] @ re_decode env (last fs)" using assms(3) by simp
  moreover have "dk_file (d\<lparr>dk_file := Some (last fs)\<rparr>) = Some ([] @ last fs)" by simp
  ultimately have "\<exists>st' d' s'. readNewBytes env h reader_init (d\<lparr>dk_file := Some (last fs)\<rparr>) s = (None, st', d', s')
      \<and> caught_up env h ([] @ last fs) s st' s'"
    by (intro readNewBytes_grow [OF init _ assms(4)])
  then obtain st' d' s' where 2: "(r, st2, d2, s2) = (None, st', d', s')" and c: "caught_up env h (last fs) s st' s'"
    unfolding append_Nil assms(6) by blast
  from 2 have "r = None" "st2 = st'" "s2 = s'" by simp_all
  with caught_up_fun [OF one c] show ?thesis by simp
qed

text \<open>
  A reader that is restarted delivers every line once: when the log ended with a complete
  line at the end of the first run and the cursor file could be written, a second run by a
  new reader on the longer log leaves the handler in the state that one run on the longer log
  would have left it in.
\<close>

theorem restart_delivers_once:
  assumes "last (split_on nl (re_decode env f)) = []" and "re_decode env [] = []"
    and "re_decode env (f @ c) = re_decode env f @ re_decode env c" and "quiet h" and "f \<noteq> []"
    and "processOnce env h reader_init \<lparr>dk_file = Some f, dk_cursor = None, dk_writable = True\<rparr> s = (r1, st1, d1, s1)"
    and "processOnce env h reader_init (d1\<lparr>dk_file := Some (f @ c)\<rparr>) s1 = (r2, st2, d2, s2)"
    and "processOnce env h reader_init \<lparr>dk_file = Some (f @ c), dk_cursor = None, dk_writable = True\<rparr> s = (r3, st3, d3, s3)"
  shows "r1 = None \<and> r2 = None \<and> s2 = s3"
proof -
  let ?D = "re_decode env" and ?p = "process_lines env h"
  obtain m s' where p1: "?p (butlast (split_on nl (?D f))) 0 s = (None, m, s')"
    using process_lines_quiet [OF assms(4), of env "butlast (split_on nl (?D f))" 0 s] by (metis prod.collapse)
  obtain m' s'' where p2: "?p (butlast (split_on nl (?D c))) 0 s1 = (None, m', s'')"
    using process_lines_quiet [OF assms(4), of env "butlast (split_on nl (?D c))" 0 s1] by (metis prod.collapse)
  from assms(6) p1 assms(5) have 1: "r1 = None" "s1 = s'" "dk_cursor d1 = Some (show_nat (length f))" "dk_file d1 = Some f"
    by (auto simp: processOnce_first assms(2) Let_def saveCursor_def)
  have sp: "butlast (split_on nl (?D (f @ c))) = butlast (split_on nl (?D f)) @ butlast (split_on nl (?D c))"
    using split_on_append [of nl "?D f" "?D c"] by (simp add: assms(1,3) butlast_append)
  have "?p (butlast (split_on nl (?D (f @ c)))) 0 s = ?p (butlast (split_on nl (?D c))) m s'"
    unfolding sp by (rule process_lines_append [OF p1])
  then have "s3 = s''" using assms(5,8) p2 1(2) process_lines_shift [OF p2, of m]
    by (auto simp: processOnce_first assms(2) Let_def)
  moreover have "r2 = None \<and> s2 = s''"
  proof (cases "c = []")
    case True
    with assms(2,7) 1 p2 show ?thesis
      by (auto simp: processOnce_def loadCursor_def readNewBytes_def trim_show_nat parseInt_show_nat)
  next
    case False
    from processOnce_resume [of "d1\<lparr>dk_file := Some (f @ c)\<rparr>" f c env h s1] False 1(3) assms(7) p2 show ?thesis by simp
  qed
  ultimately show ?thesis using 1(1) by simp
qed


text \<open>
  When the handler throws on the event of a line, the lines after it in the same read are
  never delivered: the cursor is already past them, and polling the same log again delivers
  nothing.
\<close>

theorem throwing_event_drops_rest:
  assumes "butlast (split_on nl (re_decode env f)) = l # ls" and "re_decode env [] = []" and "trimEnd l \<noteq> []"
    and "parseLine env h (trimEnd l) s = (Some e, s')"
  shows "snd (snd (poll_all env h (f # replicate k f) reader_init d s)) = s'"
proof -
  from assms(1,2) have ne: "f \<noteq> []" by (cases "f = []") auto
  have r: "readNewBytes env h reader_init (d\<lparr>dk_file := Some f\<rparr>) s =
      (Some e, reader_init\<lparr>rd_cursor := length f, rd_partial := last (split_on nl (re_decode env f)), rd_lineNumber := 1\<rparr>,
       d\<lparr>dk_file := Some f\<rparr>, s')"
    using ne assms by (simp add: readNewBytes_def reader_init_def Let_def)
  have again: "snd (snd (poll_all env h (replicate k f) st d' s')) = s'" if "rd_cursor st = length f" for st d'
    using that by (induction k arbitrary: st d') (simp_all add: readNewBytes_def)
  show ?thesis using r again by simp
qed

definition collect :: "jsval \<Rightarrow> jsval list \<Rightarrow> js_error option \<times> jsval list" where
  "collect v s = (None, s @ [v])"

definition fresh_disk :: "string \<Rightarrow> disk" where
  "fresh_disk f = \<lparr>dk_file = Some f, dk_cursor = None, dk_writable = True\<rparr>"

definition ex_renv :: reader_env where
  "ex_renv = \<lparr>re_parse = (\<lambda>l. if l = ''ab'' then Some (ex_event ''policy_decision'' 2)
       else if l = ''x'' then Some (JObj [(''run_id'', JStr ''ab''), (''seq'', JStr ''q''), (''event_type'', JStr ''e''),
         (''hash'', JStr ''h''), (''ts'', JStr ''t'')]) else None),
     re_decode = id\<rparr>"

text \<open>
  A reader that is stopped while the last line of the log is incomplete and is started
  again when the line has been finished delivers the event of that line in neither run,
  although one run on the final log delivers it: the cursor that was saved lies behind the
  first half of the line, which is kept in memory only.
\<close>

theorem restart_mid_line_loses_event:
  "\<exists>env f c d1 v. snd (processOnce env collect reader_init (fresh_disk f) []) = (\<lparr>rd_cursor = 1, rd_lineNumber = 0, rd_partial = f\<rparr>, d1, [])
    \<and> snd (snd (snd (processOnce env collect reader_init (d1\<lparr>dk_file := Some (f @ c)\<rparr>) []))) = []
    \<and> snd (snd (snd (processOnce env collect reader_init (fresh_disk (f @ c)) []))) = [v]"
proof (intro exI conjI)
  show "snd (processOnce ex_renv collect reader_init (fresh_disk ''a'') [])
      = (\<lparr>rd_cursor = 1, rd_lineNumber = 0, rd_partial = ''a''\<rparr>, (fresh_disk ''a'')\<lparr>dk_cursor := Some (show_nat 1)\<rparr>, [])"
    by code_simp
  show "snd (snd (snd (processOnce ex_renv collect reader_init
      ((fresh_disk ''a'')\<lparr>dk_cursor := Some (show_nat 1)\<rparr>\<lparr>dk_file := Some (''a'' @ [CHR ''b'', nl])\<rparr>) []))) = []"
    by code_simp
  show "snd (snd (snd (processOnce ex_renv collect reader_init (fresh_disk (''a'' @ [CHR ''b'', nl])) [])))
      = [ex_event ''policy_decision'' 2]"
    by code_simp
qed

lemma quiet_collect: "quiet collect"
  by (simp add: quiet_def collect_def)

theorem polls_equal_one_read_witness:
  "\<exists>st1 d1 s1 r st2 d2 s2. poll_all ex_renv collect [''a'', [CHR ''a'', CHR ''b'', nl]] reader_init (fresh_disk []) [] = (st1, d1, s1)
    \<and> readNewBytes ex_renv collect reader_init (fresh_disk [CHR ''a'', CHR ''b'', nl]) [] = (r, st2, d2, s2)
    \<and> st1 = st2 \<and> s1 = s2"
proof -
  have g: "grows (re_decode ex_renv) [] [''a'', [CHR ''a'', CHR ''b'', nl]]" "re_decode ex_renv [] = []"
    by (simp_all add: ex_renv_def Let_def)
  have d: "(fresh_disk [])\<lparr>dk_file := Some (last [''a'', [CHR ''a'', CHR ''b'', nl]])\<rparr> = fresh_disk [CHR ''a'', CHR ''b'', nl]"
    by (simp add: fresh_disk_def)
  obtain st1 d1 s1 where 1: "poll_all ex_renv collect [''a'', [CHR ''a'', CHR ''b'', nl]] reader_init (fresh_disk []) [] = (st1, d1, s1)"
    using prod_cases3 by blast
  obtain r st2 d2 s2 where 2: "readNewBytes ex_renv collect reader_init (fresh_disk [CHR ''a'', CHR ''b'', nl]) [] = (r, st2, d2, s2)"
    using prod_cases4 by blast
  from polls_equal_one_read [OF g(1) _ g(2) quiet_collect 1 2 [folded d]] 1 2 show ?thesis by blast
qed

theorem restart_delivers_once_witness:
  "snd (snd (snd (processOnce ex_renv collect reader_init
       ((fst (snd (snd (processOnce ex_renv collect reader_init (fresh_disk [CHR ''a'', CHR ''b'', nl]) []))))\<lparr>dk_file := Some [CHR ''a'', CHR ''b'', nl, CHR ''a'', CHR ''b'', nl]\<rparr>)
       (snd (snd (snd (processOnce ex_renv collect reader_init (fresh_disk [CHR ''a'', CHR ''b'', nl]) [])))))))
   = [ex_event ''policy_decision'' 2, ex_event ''policy_decision'' 2]"
proof -
  let ?f = "[CHR ''a'', CHR ''b'', nl]"
  have A: "last (split_on nl (re_decode ex_renv ?f)) = []" "re_decode ex_renv [] = []"
    "re_decode ex_renv (?f @ ?f) = re_decode ex_renv ?f @ re_decode ex_renv ?f"
    by (simp_all add: ex_renv_def nl_def)
  obtain r1 st1 d1 s1 where 1: "processOnce ex_renv collect reader_init (fresh_disk ?f) [] = (r1, st1, d1, s1)"
    using prod_cases4 by blast
  obtain r2 st2 d2 s2 where 2: "processOnce ex_renv collect reader_init (d1\<lparr>dk_file := Some (?f @ ?f)\<rparr>) s1 = (r2, st2, d2, s2)"
    using prod_cases4 by blast
  obtain r3 st3 d3 s3 where 3: "processOnce ex_renv collect reader_init (fresh_disk (?f @ ?f)) [] = (r3, st3, d3, s3)"
    using prod_cases4 by blast
  from restart_delivers_once [OF A quiet_collect _ 1 [unfolded fresh_disk_def] 2 3 [unfolded fresh_disk_def]]
  have "s2 = s3" by simp
  moreover have "snd (snd (snd (processOnce ex_renv collect reader_init (fresh_disk (?f @ ?f)) [])))
      = [ex_event ''policy_decision'' 2, ex_event ''policy_decision'' 2]" by code_simp
  ultimately show ?thesis using 1 2 3 by simp
qed

definition ex_oconfig :: OtelExporterConfig where
  "ex_oconfig = \<lparr>oc_inputPath = ''l'', oc_endpoint = [], oc_grpc = False, oc_console = True, oc_once = True,
     oc_serviceName = [], oc_serviceVersion = [], oc_batchSize = 1, oc_flushIntervalMs = 1, oc_pollIntervalMs = 1,
     oc_bufferTimeoutMs = 1, oc_headers = []\<rparr>"


theorem throwing_event_drops_rest_witness:
  "xs_out (snd (snd (poll_all ex_renv (onEvent ex_otel ex_rc int) ([CHR ''x'', nl, CHR ''a'', CHR ''b'', nl]
      # replicate 3 [CHR ''x'', nl, CHR ''a'', CHR ''b'', nl]) reader_init (fresh_disk []) exporter_init))) = []"
proof -
  let ?f = "[CHR ''x'', nl, CHR ''a'', CHR ''b'', nl]"
  have l: "butlast (split_on nl (re_decode ex_renv ?f)) = [''x'', ''ab'']" by code_simp
  have t: "trimEnd ''x'' = ''x''" by code_simp
  let ?p = "parseLine ex_renv (onEvent ex_otel ex_rc int) (trimEnd ''x'') exporter_init"
  have p: "parseLine ex_renv (onEvent ex_otel ex_rc int) ''x'' exporter_init
      = onEvent ex_otel ex_rc int (JObj [(''run_id'', JStr ''ab''), (''seq'', JStr ''q''), (''event_type'', JStr ''e''),
         (''hash'', JStr ''h''), (''ts'', JStr ''t'')]) exporter_init"
    by (simp add: parseLine_def ex_renv_def REQUIRED_EVENT_FIELDS_def)
  obtain e x where o: "?p = (Some e, x)" "xs_out x = []"
    unfolding t p onEvent_def addEvent_def
    by (auto simp: exporter_init_def has_trace_def trace_step_def push_root_event_def ROOT_SPAN_EVENT_TYPES_def
        step_span_def buildSpan_def is_root_def spanId_def traceId_def BigInt_def seq_bytes_def ex_otel_def)
  have "trimEnd ''x'' \<noteq> []" "re_decode ex_renv [] = []" unfolding t by (simp_all add: ex_renv_def)
  from throwing_event_drops_rest [OF l this(2,1) o(1), of 3 "fresh_disk []"] o(2) show ?thesis by simp
qed

end
