(* ===== verification/Exporter_Process.thy ===== *)
theory Exporter_Process
  imports Jsonl_Reader
begin

text \<open>
  The exporter as a process that keeps running: \<open>main\<close> of \<open>apps/otel-exporter/bin/loopstorm-otel-export.ts\<close> without
  \<open>--once\<close>. A poll of the log asks for its size, reads the new bytes and then delivers their lines; while the
  bytes are on their way the log may grow, the timer may flush, another poll may start and a signal may
  arrive. As long as the log only grows and no poll starts before the one before it is over, a shutdown between two polls
  exports every event read so far, once; the two examples show what happens otherwise. The locale
  \<open>event_sink\<close> is what a reader asks of its handler, interpreted for the exporter (\<open>ex\<close>) and for the handler that
  collects events (\<open>co\<close>).
\<close>

section \<open>The process\<close>

text \<open>
  \<open>ep_reads\<close> are the chunks being read, from the old cursor to the size of the log. \<open>ep_exported\<close> is the state that
  the shutdown found, after which nothing is exported any more.
\<close>

record 's process =
  ep_reader :: ReaderState
  ep_disk :: disk
  ep_state :: 's
  ep_reads :: "(nat \<times> nat) list"
  ep_exported :: "'s option"

definition start_process :: "disk \<Rightarrow> 's \<Rightarrow> 's process" where
  "start_process d s = (let (st, d') = loadCursor reader_init d in
     \<lparr>ep_reader = st, ep_disk = d', ep_state = s, ep_reads = [], ep_exported = None\<rparr>)"

text \<open>\<open>readNewBytes\<close> in two parts: up to the reading of the chunk, and from there on.\<close>

definition begin_read :: "'s process \<Rightarrow> 's process" where
  "begin_read p = (case dk_file (ep_disk p) of
     None \<Rightarrow> p
   | Some bytes \<Rightarrow>
       (let size = length bytes; st = ep_reader p; rotated = (size < rd_cursor st);
            st1 = (if rotated then st\<lparr>rd_cursor := 0, rd_partial := []\<rparr> else st);
            p1 = p\<lparr>ep_reader := st1, ep_disk := (if rotated then saveCursor st1 (ep_disk p) else ep_disk p)\<rparr>
        in if size \<le> rd_cursor st1 then p1 else p1\<lparr>ep_reads := ep_reads p @ [(rd_cursor st1, size)]\<rparr>))"

definition readChunk :: "reader_env \<Rightarrow> nat \<times> nat \<Rightarrow> string \<Rightarrow> string" where
  "readChunk env r bytes = re_decode env (drop (fst r) (take (snd r) bytes))"

text \<open>
  An error of the handler, or of the stream when the log is gone, is logged by the poll, and the cursor is not
  saved then. (The first read of \<open>start\<close>, whose error ends the process, is \<open>Jsonl_Reader.start\<close>.)
\<close>

definition finish_read ::
  "reader_env \<Rightarrow> (jsval \<Rightarrow> 's \<Rightarrow> js_error option \<times> 's) \<Rightarrow> nat \<times> nat \<Rightarrow> 's process \<Rightarrow> 's process" where
  "finish_read env h r p = (case dk_file (ep_disk p) of
     None \<Rightarrow> p
   | Some bytes \<Rightarrow>
      (let lines = split_on nl (rd_partial (ep_reader p) @ readChunk env r bytes);
           st = (ep_reader p)\<lparr>rd_cursor := snd r, rd_partial := last lines\<rparr>
       in case process_lines env h (butlast lines) (rd_lineNumber st) (ep_state p) of
            (Some e, n, s') \<Rightarrow> p\<lparr>ep_reader := st\<lparr>rd_lineNumber := n\<rparr>, ep_state := s'\<rparr>
          | (None, n, s') \<Rightarrow> p\<lparr>ep_reader := st\<lparr>rd_lineNumber := n\<rparr>, ep_state := s',
               ep_disk := saveCursor (st\<lparr>rd_lineNumber := n\<rparr>) (ep_disk p)\<rparr>))"

datatype process_op = LogGrows string | LogReplaced "string option" | PollLog | ChunkRead "nat \<times> nat" | TimerFires int | Signal

fun process_step ::
  "reader_env \<Rightarrow> (jsval \<Rightarrow> 's \<Rightarrow> js_error option \<times> 's) \<Rightarrow> (int \<Rightarrow> 's \<Rightarrow> 's) \<Rightarrow> process_op \<Rightarrow> 's process \<Rightarrow> 's process" where
  "process_step env h tick (LogGrows c) p = p\<lparr>ep_disk := (ep_disk p)\<lparr>dk_file :=
     Some ((case dk_file (ep_disk p) of None \<Rightarrow> [] | Some f \<Rightarrow> f) @ c)\<rparr>\<rparr>"
| "process_step env h tick (LogReplaced f) p = p\<lparr>ep_disk := (ep_disk p)\<lparr>dk_file := f\<rparr>\<rparr>"
| "process_step env h tick PollLog p = (if ep_exported p = None then begin_read p else p)"
| "process_step env h tick (ChunkRead r) p = (if r \<in> set (ep_reads p)
     then finish_read env h r (p\<lparr>ep_reads := remove1 r (ep_reads p)\<rparr>) else p)"
| "process_step env h tick (TimerFires now) p = (if ep_exported p = None then p\<lparr>ep_state := tick now (ep_state p)\<rparr> else p)"
| "process_step env h tick Signal p = (if ep_exported p = None then p\<lparr>ep_exported := Some (ep_state p)\<rparr> else p)"

text \<open>The timer of \<open>main\<close> and its interval, and what \<open>shutdown\<close> has handed to the exporter in the end.\<close>

definition timeout_interval :: "int \<Rightarrow> rat" where
  "timeout_interval bufferTimeoutMs = min (of_int bufferTimeoutMs / 10) 30000"

definition timer_flush :: "otel_env \<Rightarrow> int \<Rightarrow> int \<Rightarrow> exporter_state \<Rightarrow> exporter_state" where
  "timer_flush env bufferTimeoutMs now x = (let (timedOut, ts) = flushTimedOut env now bufferTimeoutMs (xs_traces x)
     in x\<lparr>xs_out := xs_out x @ timedOut, xs_traces := ts\<rparr>)"

definition shutdown_spans :: "otel_env \<Rightarrow> exporter_state \<Rightarrow> ReadableSpan list" where
  "shutdown_spans env x = xs_out x @ fst (flushAll env (xs_traces x))"

definition main_step ::
  "reader_env \<Rightarrow> otel_env \<Rightarrow> OtelExporterConfig \<Rightarrow> (nat \<Rightarrow> int) \<Rightarrow> process_op \<Rightarrow> exporter_state process \<Rightarrow> exporter_state process" where
  "main_step renv env config clock =
     process_step renv (onEvent env (resource_of config) clock) (timer_flush env (oc_bufferTimeoutMs config))"

section \<open>A read that nothing interrupts is \<open>readNewBytes\<close>\<close>

lemma read_uninterrupted:
  assumes "readNewBytes env h (ep_reader p) (ep_disk p) (ep_state p) = (r, st, d, s)" and "ep_reads p = []"
  shows "if ep_reads (begin_read p) = [] then begin_read p = p\<lparr>ep_reader := st, ep_disk := d, ep_state := s\<rparr>
    else \<exists>ab. ep_reads (begin_read p) = [ab]
      \<and> finish_read env h ab ((begin_read p)\<lparr>ep_reads := []\<rparr>) = p\<lparr>ep_reader := st, ep_disk := d, ep_state := s\<rparr>"
proof (cases "dk_file (ep_disk p)")
  case None
  with assms show ?thesis by (simp add: begin_read_def readNewBytes_def)
next
  case (Some bytes)
  define st1 where "st1 = (if length bytes < rd_cursor (ep_reader p)
    then (ep_reader p)\<lparr>rd_cursor := 0, rd_partial := []\<rparr> else ep_reader p)"
  define d1 where "d1 = (if length bytes < rd_cursor (ep_reader p) then saveCursor st1 (ep_disk p) else ep_disk p)"
  define ls where "ls = split_on nl (rd_partial st1 @ re_decode env (drop (rd_cursor st1) bytes))"
  have f: "dk_file d1 = Some bytes" using Some by (simp add: d1_def saveCursor_def)
  have b: "begin_read p = (if length bytes \<le> rd_cursor st1 then p\<lparr>ep_reader := st1, ep_disk := d1\<rparr>
      else p\<lparr>ep_reader := st1, ep_disk := d1, ep_reads := [(rd_cursor st1, length bytes)]\<rparr>)"
    using Some assms(2) by (simp add: begin_read_def st1_def d1_def Let_def)
  have n: "readNewBytes env h (ep_reader p) (ep_disk p) (ep_state p) = (if length bytes \<le> rd_cursor st1 then (None, st1, d1, ep_state p)
      else (let st2 = st1\<lparr>rd_cursor := length bytes, rd_partial := last ls\<rparr>
        in case process_lines env h (butlast ls) (rd_lineNumber st1) (ep_state p) of
             (Some e, n, s') \<Rightarrow> (Some e, st2\<lparr>rd_lineNumber := n\<rparr>, d1, s')
           | (None, n, s') \<Rightarrow> (None, st2\<lparr>rd_lineNumber := n\<rparr>, saveCursor (st2\<lparr>rd_lineNumber := n\<rparr>) d1, s')))"
    unfolding readNewBytes_def Some option.case Let_def st1_def [symmetric] d1_def [symmetric] ls_def by simp
  obtain e k s' where q: "process_lines env h (butlast ls) (rd_lineNumber st1) (ep_state p) = (e, k, s')"
    by (metis prod_cases3)
  show ?thesis
  proof (cases "length bytes \<le> rd_cursor st1")
    case True
    with assms n b show ?thesis by simp
  next
    case False
    have fin: "finish_read env h (rd_cursor st1, length bytes) (p\<lparr>ep_reader := st1, ep_disk := d1, ep_reads := []\<rparr>)
        = p\<lparr>ep_reader := st, ep_disk := d, ep_state := s, ep_reads := []\<rparr>"
      using n q False assms(1) f
      by (cases e) (simp_all add: finish_read_def readChunk_def Let_def flip: ls_def)
    with False b assms(2) show ?thesis by simp
  qed
qed

section \<open>Polls that do not overlap\<close>

definition log_bytes :: "'s process \<Rightarrow> string" where
  "log_bytes p = (case dk_file (ep_disk p) of None \<Rightarrow> [] | Some f \<Rightarrow> f)"

text \<open>The events of the complete lines of \<open>f\<close>.\<close>

definition complete_events :: "reader_env \<Rightarrow> string \<Rightarrow> jsval list" where
  "complete_events env f = log_events env (butlast (split_on nl (re_decode env f)))"

text \<open>
  A step is \<open>calm\<close> when it does not replace the log, and, for a poll, when the one before it is over, no
  character of the log is cut in two at the cursor, and the handler can take the events of the log.
\<close>

definition calm_op :: "reader_env \<Rightarrow> (jsval \<Rightarrow> bool) \<Rightarrow> 's process \<Rightarrow> process_op \<Rightarrow> bool" where
  "calm_op env ok p opn = (case opn of LogReplaced _ \<Rightarrow> False
     | PollLog \<Rightarrow> ep_reads p = []
         \<and> re_decode env (log_bytes p) = re_decode env (take (rd_cursor (ep_reader p)) (log_bytes p))
             @ re_decode env (drop (rd_cursor (ep_reader p)) (log_bytes p))
         \<and> list_all ok (complete_events env (log_bytes p))
     | _ \<Rightarrow> True)"

inductive calm_run ::
  "reader_env \<Rightarrow> (jsval \<Rightarrow> 's \<Rightarrow> js_error option \<times> 's) \<Rightarrow> (int \<Rightarrow> 's \<Rightarrow> 's) \<Rightarrow> (jsval \<Rightarrow> bool) \<Rightarrow> 's \<Rightarrow> 's process \<Rightarrow> bool"
  for env h tick ok s0 where
  start: "dk_cursor d = None \<Longrightarrow> calm_run env h tick ok s0 (start_process d s0)"
| step: "calm_run env h tick ok s0 p \<Longrightarrow> calm_op env ok p opn \<Longrightarrow> calm_run env h tick ok s0 (process_step env h tick opn p)"

lemma log_events_append: "log_events env (xs @ ys) = log_events env xs @ log_events env ys"
  by (induction xs) simp_all

lemma log_bytes_simps [simp]:
  "log_bytes (p\<lparr>ep_reader := r\<rparr>) = log_bytes p" "log_bytes (p\<lparr>ep_state := s\<rparr>) = log_bytes p"
  "log_bytes (p\<lparr>ep_reads := rs\<rparr>) = log_bytes p" "log_bytes (p\<lparr>ep_exported := x\<rparr>) = log_bytes p"
  "log_bytes (p\<lparr>ep_disk := saveCursor st (ep_disk q)\<rparr>) = log_bytes q"
  by (simp_all add: log_bytes_def saveCursor_def)

section \<open>Handlers\<close>

text \<open>A handler takes the events that are \<open>ok\<close> without an error, and \<open>holds\<close> says which events it has been given.\<close>

locale event_sink =
  fixes h :: "jsval \<Rightarrow> 's \<Rightarrow> js_error option \<times> 's" and tick :: "int \<Rightarrow> 's \<Rightarrow> 's"
    and holds :: "jsval list \<Rightarrow> 's \<Rightarrow> bool" and ok :: "jsval \<Rightarrow> bool"
  assumes takes: "ok v \<Longrightarrow> holds evs s \<Longrightarrow> \<exists>s'. h v s = (None, s') \<and> holds (evs @ [v]) s'"
    and ticks: "holds evs s \<Longrightarrow> holds evs (tick now s)"
begin

lemma lines_held:
  assumes "list_all ok (log_events env ls)" and "holds evs s"
  shows "\<exists>n' s'. process_lines env h ls n s = (None, n', s') \<and> holds (evs @ log_events env ls) s'"
  using assms
proof (induction ls arbitrary: n evs s)
  case (Cons l ls)
  show ?case
  proof (cases "line_event env l")
    case None
    then have "process_lines env h (l # ls) n s = process_lines env h ls (if trimEnd l = [] then n else n + 1) s"
      by (auto simp: line_event_def parseLine_def Let_def split: if_splits option.splits)
    with Cons.IH [of evs s] Cons.prems None show ?thesis by simp
  next
    case (Some v)
    with Cons.prems takes [of v evs s] obtain s1 where s1: "h v s = (None, s1)" "holds (evs @ [v]) s1" by auto
    have "process_lines env h (l # ls) n s = process_lines env h ls (n + 1) s1"
      using Some s1(1) by (auto simp: line_event_def parseLine_def Let_def split: if_splits option.splits)
    with Cons.IH [OF _ s1(2), of "n + 1"] Cons.prems(1) Some show ?thesis by simp
  qed
qed simp

text \<open>
  In a calm run the handler has been given the events of the bytes before the cursor, and at most one chunk
  is on its way, the one behind the cursor.
\<close>

definition reader_at :: "reader_env \<Rightarrow> 's process \<Rightarrow> string \<Rightarrow> string \<Rightarrow> string \<Rightarrow> bool" where
  "reader_at env p f c rest \<longleftrightarrow> log_bytes p = f @ c @ rest \<and> rd_cursor (ep_reader p) = length f
     \<and> rd_partial (ep_reader p) = last (split_on nl (re_decode env f)) \<and> holds (complete_events env f) (ep_state p)
     \<and> (ep_reads p = [] \<or> c \<noteq> [] \<and> ep_reads p = [(length f, length f + length c)]
          \<and> re_decode env (f @ c) = re_decode env f @ re_decode env c \<and> list_all ok (complete_events env (f @ c)))"

definition reader_inv :: "reader_env \<Rightarrow> 's process \<Rightarrow> bool" where
  "reader_inv env p \<longleftrightarrow> (\<exists>f c rest. reader_at env p f c rest)"

lemma reader_inv_read:
  assumes "reader_inv env p"
  shows "holds (complete_events env (take (rd_cursor (ep_reader p)) (log_bytes p))) (ep_state p)"
  using assms by (auto simp: reader_inv_def reader_at_def)

lemma reader_inv_state:
  assumes "reader_inv env p" and "\<And>evs. holds evs (ep_state p) \<Longrightarrow> holds evs s"
  shows "reader_inv env (p\<lparr>ep_state := s\<rparr>)"
proof -
  from assms(1) obtain f c rest where "reader_at env p f c rest" unfolding reader_inv_def by blast
  with assms(2) have "reader_at env (p\<lparr>ep_state := s\<rparr>) f c rest" by (simp add: reader_at_def)
  then show ?thesis unfolding reader_inv_def by blast
qed

lemma finish_read_inv:
  assumes inv: "reader_inv env p" and r: "r \<in> set (ep_reads p)"
  shows "reader_inv env (finish_read env h r (p\<lparr>ep_reads := remove1 r (ep_reads p)\<rparr>))"
proof -
  let ?D = "re_decode env"
  from inv obtain f c rest where bytes: "log_bytes p = f @ c @ rest"
    and par: "rd_partial (ep_reader p) = last (split_on nl (?D f))" and held: "holds (complete_events env f) (ep_state p)"
    and run: "ep_reads p = [] \<or> c \<noteq> [] \<and> ep_reads p = [(length f, length f + length c)]
       \<and> ?D (f @ c) = ?D f @ ?D c \<and> list_all ok (complete_events env (f @ c))"
    unfolding reader_inv_def reader_at_def by blast
  have "ep_reads p \<noteq> []" using r by auto
  with run have c: "c \<noteq> []" and rds: "ep_reads p = [(length f, length f + length c)]"
    and D: "?D (f @ c) = ?D f @ ?D c" and evs: "list_all ok (complete_events env (f @ c))" by simp_all
  define ls where "ls = split_on nl (rd_partial (ep_reader p) @ ?D c)"
  have sp: "split_on nl (?D (f @ c)) = butlast (split_on nl (?D f)) @ ls"
    using split_on_append [of nl "?D f" "?D c"] by (simp add: D par ls_def)
  have ne: "ls \<noteq> []" by (simp add: ls_def)
  have ce: "complete_events env (f @ c) = complete_events env f @ log_events env (butlast ls)"
    unfolding complete_events_def sp by (simp add: butlast_append ne log_events_append)
  with evs have "list_all ok (log_events env (butlast ls))" by simp
  from lines_held [OF this held] obtain n s' where
    pl: "process_lines env h (butlast ls) (rd_lineNumber (ep_reader p)) (ep_state p) = (None, n, s')"
    and h': "holds (complete_events env (f @ c)) s'" unfolding ce by blast
  have b: "dk_file (ep_disk p) = Some (f @ c @ rest)"
    using bytes c by (auto simp: log_bytes_def split: option.splits)
  have r': "r = (length f, length f + length c)" using r rds by simp
  have chunk: "readChunk env (length f, length f + length c) (f @ c @ rest) = ?D c" by (simp add: readChunk_def)
  have la: "last ls = last (split_on nl (?D (f @ c)))" unfolding sp by (simp add: ne)
  define st where "st = (ep_reader p)\<lparr>rd_cursor := length (f @ c), rd_partial := last ls, rd_lineNumber := n\<rparr>"
  have "finish_read env h r (p\<lparr>ep_reads := remove1 r (ep_reads p)\<rparr>)
      = p\<lparr>ep_reads := [], ep_reader := st, ep_state := s', ep_disk := saveCursor st (ep_disk p)\<rparr>"
    unfolding r' using pl rds by (simp add: finish_read_def b chunk Let_def st_def flip: ls_def)
  moreover have "log_bytes (p\<lparr>ep_reads := [], ep_reader := st, ep_state := s', ep_disk := saveCursor st (ep_disk p)\<rparr>) = f @ c @ rest"
    using b by (simp add: log_bytes_def saveCursor_def)
  ultimately show ?thesis
    using h' la unfolding reader_inv_def reader_at_def by (intro exI [of _ "f @ c"] exI [of _ "[]"] exI [of _ rest]) (simp add: st_def)
qed

lemma begin_read_inv:
  assumes inv: "reader_inv env p" and calm: "calm_op env ok p PollLog"
  shows "reader_inv env (begin_read p)"
proof (cases "dk_file (ep_disk p)")
  case None
  with inv show ?thesis by (simp add: begin_read_def)
next
  case (Some bytes)
  from calm have none: "ep_reads p = []" by (simp add: calm_op_def)
  from inv obtain f rest where b: "bytes = f @ rest" and cur: "rd_cursor (ep_reader p) = length f"
    and par: "rd_partial (ep_reader p) = last (split_on nl (re_decode env f))" and held: "holds (complete_events env f) (ep_state p)"
    by (auto simp: reader_inv_def reader_at_def log_bytes_def Some)
  have bytes: "log_bytes p = f @ rest" by (simp add: log_bytes_def Some b)
  show ?thesis
  proof (cases "rest = []")
    case True
    with Some b cur inv show ?thesis by (simp add: begin_read_def Let_def)
  next
    case False
    then have "begin_read p = p\<lparr>ep_reads := [(length f, length f + length rest)]\<rparr>"
      using Some b cur none by (simp add: begin_read_def Let_def)
    moreover have "re_decode env (f @ rest) = re_decode env f @ re_decode env rest" "list_all ok (complete_events env (f @ rest))"
      using calm by (simp_all add: calm_op_def bytes cur)
    ultimately show ?thesis using False bytes cur par held
      unfolding reader_inv_def reader_at_def by (intro exI [of _ f] exI [of _ rest] exI [of _ "[]"]) simp
  qed
qed

lemma calm_run_inv:
  assumes "calm_run env h tick ok s0 p" and "holds [] s0" and "re_decode env [] = []"
  shows "reader_inv env p"
  using assms(1)
proof (induction rule: calm_run.induct)
  case (start d)
  then show ?case using assms(2,3)
    by (auto simp: reader_inv_def reader_at_def start_process_def loadCursor_def reader_init_def complete_events_def log_bytes_def)
next
  case (step p opn)
  show ?case
  proof (cases opn)
    case (LogGrows c)
    from step.IH obtain f c0 rest where at: "reader_at env p f c0 rest" unfolding reader_inv_def by blast
    then have "log_bytes (process_step env h tick opn p) = f @ c0 @ rest @ c"
      by (auto simp: reader_at_def LogGrows log_bytes_def split: option.splits)
    with at have "reader_at env (process_step env h tick opn p) f c0 (rest @ c)" by (simp add: reader_at_def LogGrows)
    then show ?thesis unfolding reader_inv_def by blast
  next
    case (LogReplaced f)
    with step.hyps show ?thesis by (simp add: calm_op_def)
  next
    case PollLog
    with step show ?thesis by (simp add: begin_read_inv)
  next
    case (ChunkRead r)
    with step.IH show ?thesis by (simp add: finish_read_inv)
  next
    case (TimerFires now)
    with step.IH show ?thesis by (simp add: reader_inv_state ticks)
  next
    case Signal
    with step.IH show ?thesis unfolding reader_inv_def reader_at_def by simp
  qed
qed

end

text \<open>
  The exporter holds the events it was given as child spans, exported or still in the buffer, and takes the
  events of at most \<open>MAX_CONCURRENT_TRACES\<close> runs \<open>R\<close>.
\<close>

definition spans_held :: "otel_env \<Rightarrow> jsval set \<Rightarrow> jsval list \<Rightarrow> exporter_state \<Rightarrow> bool" where
  "spans_held env R evs x \<longleftrightarrow> sdk_keeps_ids env \<and> finite R \<and> card R \<le> MAX_CONCURRENT_TRACES \<and> keyed R (xs_traces x)
     \<and> child_ids (xs_out x) + buffered (xs_traces x) = image_mset (event_ids env) (mset (filter (\<lambda>e. \<not> is_root e) evs))"

definition event_of_runs :: "otel_env \<Rightarrow> jsval set \<Rightarrow> jsval \<Rightarrow> bool" where
  "event_of_runs env R v \<longleftrightarrow> exportable env v \<and> jget v ''run_id'' \<in> R"

lemma spans_held_takes:
  assumes "event_of_runs env R v" and "spans_held env R evs x"
  shows "\<exists>x'. onEvent env cfg clock v x = (None, x') \<and> spans_held env R (evs @ [v]) x'"
  using onEvent_conserves [of env v R x cfg clock] assms by (auto simp: spans_held_def event_of_runs_def)

lemma keyed_filter: "keyed R ts \<Longrightarrow> keyed R (filter P ts)"
  by (auto simp: keyed_def distinct_map inj_on_def)

lemma spans_held_ticks:
  assumes "spans_held env R evs x"
  shows "spans_held env R evs (timer_flush env t now x)"
proof -
  let ?P = "\<lambda>b. t \<le> now - bt_firstEventTime b"
  from assms have "sdk_keeps_ids env" by (simp add: spans_held_def)
  with assms buffered_filter [of ?P "xs_traces x"] show ?thesis
    by (simp add: spans_held_def timer_flush_def flushTimedOut_def child_ids_flush keyed_filter add.assoc)
qed

interpretation ex: event_sink "onEvent env cfg clock" "timer_flush env t" "spans_held env R" "event_of_runs env R"
  for env cfg clock t R
  by unfold_locales (simp_all add: spans_held_takes spans_held_ticks)

interpretation co: event_sink collect "\<lambda>_ s. s" "\<lambda>evs s. s = evs" "\<lambda>_. True"
  by unfold_locales (simp_all add: collect_def)

section \<open>Properties\<close>


text \<open>A handler that collects the events has been given those before the cursor, in their order.\<close>

theorem calm_polls_deliver_in_order:
  assumes "re_decode env [] = []" and "calm_run env collect (\<lambda>_ s. s) (\<lambda>_. True) [] p"
  shows "ep_state p = complete_events env (take (rd_cursor (ep_reader p)) (log_bytes p))"
  using co.reader_inv_read [OF co.calm_run_inv [OF assms(2) refl assms(1)]] by simp

text \<open>A sequence of steps.\<close>

definition process_run ::
  "reader_env \<Rightarrow> (jsval \<Rightarrow> 's \<Rightarrow> js_error option \<times> 's) \<Rightarrow> (int \<Rightarrow> 's \<Rightarrow> 's) \<Rightarrow> process_op list \<Rightarrow> 's process \<Rightarrow> 's process" where
  "process_run env h tick ops p = foldl (\<lambda>p opn. process_step env h tick opn p) p ops"

definition ab_line :: string where "ab_line = [CHR ''a'', CHR ''b'', nl]"

text \<open>
  The callback of \<open>watchFile\<close> starts a poll without waiting for the one before. Two polls that overlap
  start from the same cursor, and the event of a line that both have read is delivered twice.
\<close>

theorem overlapping_polls_duplicate_event:
  "\<exists>env ops v. let p = process_run env collect (\<lambda>_ s. s) ops (start_process (fresh_disk []) [])
    in ep_reads p = [] \<and> ep_state p = [v, v, v] \<and> complete_events env (log_bytes p) = [v, v]"
  by (rule exI [of _ ex_renv], rule exI [of _ "[LogGrows ab_line, PollLog, LogGrows ab_line, PollLog,
    ChunkRead (0, 3), ChunkRead (0, 6)]"], rule exI [of _ "ex_event ''policy_decision'' 2"]) code_simp

text \<open>
  A signal while a chunk is on its way: its event is not exported, but the cursor that is saved lies behind
  it, so the next run does not read it either.
\<close>

theorem signal_during_read_loses_event:
  "\<exists>env ops v. let p = process_run env collect (\<lambda>_ s. s) ops (start_process (fresh_disk []) [])
    in ep_exported p = Some [] \<and> complete_events env (log_bytes p) = [v]
    \<and> snd (snd (snd (processOnce env collect reader_init (ep_disk p) []))) = []"
  by (rule exI [of _ ex_renv], rule exI [of _ "[LogGrows ab_line, PollLog, Signal, ChunkRead (0, 3)]"],
    rule exI [of _ "ex_event ''policy_decision'' 2"]) code_simp

section \<open>The theorems at concrete inputs\<close>

lemma finish_read_cursor:
  "dk_file (ep_disk p) = Some bytes \<Longrightarrow> rd_cursor (ep_reader (finish_read env h r p)) = snd r"
  by (simp add: finish_read_def Let_def split: prod.splits option.splits)

lemma finish_read_fields [simp]:
  "log_bytes (finish_read env h r p) = log_bytes p" "ep_exported (finish_read env h r p) = ep_exported p"
  "ep_reads (finish_read env h r p) = ep_reads p"
  by (simp_all add: finish_read_def log_bytes_def saveCursor_def Let_def split: prod.splits option.splits)

lemma ab_calm:
  assumes "ok (ex_event ''policy_decision'' 2)"
  shows "\<exists>p. calm_run ex_renv h tick ok s0 p
    \<and> process_run ex_renv h tick [LogGrows ab_line, PollLog, ChunkRead (0, 3)] (start_process (fresh_disk []) s0) = p
    \<and> rd_cursor (ep_reader p) = 3 \<and> log_bytes p = ab_line \<and> ep_exported p = None"
proof -
  define p0 where "p0 = start_process (fresh_disk []) s0"
  define p1 where "p1 = process_step ex_renv h tick (LogGrows ab_line) p0"
  define p2 where "p2 = process_step ex_renv h tick PollLog p1"
  define p3 where "p3 = process_step ex_renv h tick (ChunkRead (0, 3)) p2"
  have p1: "p1 = \<lparr>ep_reader = reader_init, ep_disk = fresh_disk ab_line, ep_state = s0, ep_reads = [], ep_exported = None\<rparr>"
    by (simp add: p1_def p0_def start_process_def loadCursor_def fresh_disk_def reader_init_def)
  have l: "length ab_line = 3" by (simp add: ab_line_def)
  have p2: "p2 = p1\<lparr>ep_reads := [(0, 3)]\<rparr>"
    by (simp add: p2_def p1 begin_read_def fresh_disk_def reader_init_def l)
  have b: "log_bytes p1 = ab_line" by (simp add: p1 log_bytes_def fresh_disk_def)
  have c: "complete_events ex_renv ab_line = [ex_event ''policy_decision'' 2]" by code_simp
  have "calm_run ex_renv h tick ok s0 p0" unfolding p0_def by (rule calm_run.start) (simp add: fresh_disk_def)
  then have "calm_run ex_renv h tick ok s0 p1" unfolding p1_def by (rule calm_run.step) (simp add: calm_op_def)
  then have "calm_run ex_renv h tick ok s0 p2"
    unfolding p2_def by (rule calm_run.step) (use assms in \<open>simp add: calm_op_def b c\<close>, simp add: p1 ex_renv_def)
  then have "calm_run ex_renv h tick ok s0 p3" unfolding p3_def by (rule calm_run.step) (simp add: calm_op_def)
  moreover have "rd_cursor (ep_reader p3) = 3" "log_bytes p3 = ab_line" "ep_exported p3 = None"
    using b by (simp_all add: p3_def p2) (simp_all add: p1 fresh_disk_def finish_read_cursor)
  ultimately show ?thesis by (simp add: process_run_def p3_def p2_def p1_def p0_def)
qed


theorem calm_polls_deliver_in_order_witness:
  "ep_state (process_run ex_renv collect (\<lambda>_ s. s) [LogGrows ab_line, PollLog, ChunkRead (0, 3)] (start_process (fresh_disk []) []))
    = [ex_event ''policy_decision'' 2]"
proof -
  have c: "complete_events ex_renv (take 3 ab_line) = [ex_event ''policy_decision'' 2]" by code_simp
  from ab_calm [of "\<lambda>_. True" collect "\<lambda>_ s. s" "[]"] obtain p where
    "calm_run ex_renv collect (\<lambda>_ s. s) (\<lambda>_. True) [] p" "rd_cursor (ep_reader p) = 3" "log_bytes p = ab_line"
    and p: "process_run ex_renv collect (\<lambda>_ s. s) [LogGrows ab_line, PollLog, ChunkRead (0, 3)] (start_process (fresh_disk []) []) = p"
    by auto
  with calm_polls_deliver_in_order [of ex_renv p] c show ?thesis by (simp add: ex_renv_def)
qed

end
