(* ===== verification/Ingest_Lemmas.thy ===== *)
theory Ingest_Lemmas
  imports Ingest
begin

text \<open>
  Facts about the ingest handler: its chain check meets the interface of a chain verifier,
  its chunked insert is one insert, what an accepted batch looks like, and the invariant
  of the stored runs that accepted batches keep.
\<close>

section \<open>The batch check is a chain verifier\<close>

abbreviation item_seq :: "parsed_item \<Rightarrow> int" where "item_seq it \<equiv> pe_seq (pi_event it)"
abbreviation item_hash :: "parsed_item \<Rightarrow> string" where "item_hash it \<equiv> pe_hash (pi_event it)"
abbreviation item_prev :: "parsed_item \<Rightarrow> string option" where "item_prev it \<equiv> pe_hash_prev (pi_event it)"

abbreviation item_digest_ok :: "(string \<Rightarrow> string) \<Rightarrow> parsed_item \<Rightarrow> bool" where
  "item_digest_ok sha256 it \<equiv> sha256 (pi_raw it) = item_hash it"

definition batch_accepts :: "(string \<Rightarrow> string) \<Rightarrow> string option \<Rightarrow> parsed_item list \<Rightarrow> bool" where
  "batch_accepts sha256 p its \<longleftrightarrow> verifyBatchChain sha256 its p = Inr ()"

lemma verify_batch_from_chained:
  "verify_batch_from sha256 b p its = Inr () \<longleftrightarrow> chained item_hash item_prev (item_digest_ok sha256) p its"
  by (induction its arbitrary: b p) (auto simp: Let_def)

interpretation bc: chain_checker "batch_accepts sha256" item_hash item_prev "item_digest_ok sha256"
  for sha256
  by unfold_locales (simp add: batch_accepts_def verifyBatchChain_def verify_batch_from_chained)

section \<open>Consecutive sequence numbers\<close>

lemma check_seqs_consecutive:
  "check_seqs (x # xs) = Inr () \<longleftrightarrow> x # xs = map (\<lambda>i. x + int i) [0..<Suc (length xs)]"
proof (induction xs arbitrary: x)
  case (Cons y ys)
  have m: "map (\<lambda>i. x + int i) [0..<Suc (length (y # ys))]
      = x # map (\<lambda>i. (x + 1) + int i) [0..<Suc (length ys)]"
    by (simp add: map_upt_Suc del: upt_Suc)
  show ?case
  proof (cases "y = x + 1")
    case True
    then show ?thesis unfolding m using Cons.IH [of y] by simp
  next
    case False
    then have "y # ys \<noteq> map (\<lambda>i. (x + 1) + int i) [0..<Suc (length ys)]"
      by (simp add: upt_conv_Cons del: upt_Suc)
    with False show ?thesis unfolding m by auto
  qed
qed simp

lemma check_seqs_strict: "check_seqs xs = Inr () \<Longrightarrow> sorted_wrt (<) xs"
proof (induction xs rule: check_seqs.induct)
  case (1 x y r)
  then have y: "y = x + 1" and s: "sorted_wrt (<) (y # r)" by (auto split: if_splits)
  then show ?case by (auto dest: less_trans)
qed auto

section \<open>The chunked insert\<close>

lemma insert_events_append:
  "insert_events (xs @ ys) d =
     bind_result (insert_events xs d) (\<lambda>(n, d').
       bind_result (insert_events ys d') (\<lambda>(m, d''). Inr (n + m, d'')))"
  by (auto simp: insert_events_def Let_def fresh_rows_append)

lemma insert_batches_eq: "insert_batches rows d = insert_events rows d"
proof (induction rows d rule: insert_batches.induct)
  case (1 rows d)
  show ?case
  proof (cases "rows = []")
    case True
    then show ?thesis by (simp add: insert_batches.simps [of "[]" d] insert_events_def)
  next
    case False
    have "insert_events rows d = insert_events (take BATCH_SIZE rows @ drop BATCH_SIZE rows) d" by simp
    also have "\<dots> = bind_result (insert_events (take BATCH_SIZE rows) d) (\<lambda>(n, d').
       bind_result (insert_events (drop BATCH_SIZE rows) d') (\<lambda>(m, d''). Inr (n + m, d'')))"
      by (rule insert_events_append)
    also have "\<dots> = insert_batches rows d"
      using False "1.IH" by (auto simp: insert_batches.simps [of rows d] bind_result_def split: sum.splits)
    finally show ?thesis by simp
  qed
qed

section \<open>What an accepted batch is\<close>

text \<open>The lines of a batch, parsed and put in order.\<close>

definition batch_of :: "ingest_env \<Rightarrow> string list \<Rightarrow> api_error + string \<times> parsed_item list" where
  "batch_of env lines = bind_result (parse_batch env lines) prepare_batch"

lemma ingest_batch_of:
  "ingest env t lines d = bind_result (batch_of env lines) (\<lambda>(r, its). ingest_tx env t r its d)"
  by (cases "parse_batch env lines") (auto simp: ingest_def batch_of_def)

lemma prepare_batch_Inr:
  assumes "prepare_batch its = Inr (r, its')"
  shows "its' = sort_key item_seq its" and "its' \<noteq> []"
    and "\<And>it. it \<in> set its' \<Longrightarrow> pe_run_id (pi_event it) = r"
    and "check_seqs (map item_seq its') = Inr ()"
proof -
  let ?ids = "(\<lambda>it. pe_run_id (pi_event it)) ` set its"
  from assms obtain it rest where its: "its = it # rest" and r: "r = pe_run_id (pi_event it)"
    and its': "its' = sort_key item_seq its" and c: "check_seqs (map item_seq its') = Inr ()"
    and card: "card ?ids \<le> 1"
    by (auto simp: prepare_batch_def Let_def bind_result_Inr_iff split: list.splits if_splits)
  show "its' = sort_key item_seq its" by (rule its')
  show "check_seqs (map item_seq its') = Inr ()" by (rule c)
  show "its' \<noteq> []" using its its' by (metis list.distinct(1) length_0_conv length_sort)
  have "x = r" if "x \<in> ?ids" for x
  proof -
    have "\<forall>a\<in>?ids. \<forall>b\<in>?ids. a = b"
      using card card_le_Suc0_iff_eq [of ?ids] by (simp only: finite_imageI finite_set One_nat_def)
    moreover have "r \<in> ?ids" using its r by simp
    ultimately show ?thesis using that by blast
  qed
  then show "\<And>it. it \<in> set its' \<Longrightarrow> pe_run_id (pi_event it) = r" unfolding its' by auto
qed

lemma parse_batch_Inr:
  assumes "parse_batch env lines = Inr its"
  shows "list_all2 (\<lambda>l it. pi_raw it = trimEnd l
    \<and> (\<exists>i. parseEventLine env (trimEnd l) i = Inr (pi_event it))) lines its"
proof -
  from assms have "list_all2 (\<lambda>x it. (case x of (i, line) \<Rightarrow>
      bind_result (parseEventLine env (trimEnd line) i)
        (\<lambda>e. Inr \<lparr>pi_event = e, pi_raw = trimEnd line\<rparr>)) = Inr it) (enumerate 0 lines) its"
    by (simp add: parse_batch_def map_result_Inr_iff split: if_splits)
  then have "list_all2 (\<lambda>x it. pi_raw it = trimEnd (snd x)
      \<and> (\<exists>i. parseEventLine env (trimEnd (snd x)) i = Inr (pi_event it))) (enumerate 0 lines) its"
    by (rule list_all2_mono) (fastforce simp: bind_result_Inr_iff)
  then have "list_all2 (\<lambda>l it. pi_raw it = trimEnd l
      \<and> (\<exists>i. parseEventLine env (trimEnd l) i = Inr (pi_event it))) (map snd (enumerate 0 lines)) its"
    by (simp only: list_all2_map1)
  then show ?thesis by (simp add: map_snd_enumerate)
qed

lemma parseEventLine_Inr:
  assumes "parseEventLine env line i = Inr ev"
  shows "\<exists>v. ie_json_parse env line = Some v \<and> safeParse env v = Inr ev"
  using assms by (auto simp: parseEventLine_def split: option.splits sum.splits)

lemma safeParse_Inr:
  assumes "safeParse env v = Inr ev"
  shows "jget v ''hash'' = JStr (pe_hash ev)" and "pe_seq ev \<ge> 1"
    and "jget v ''hash_prev'' = (case pe_hash_prev ev of None \<Rightarrow> JNull | Some h \<Rightarrow> JStr h)"
proof -
  from assms obtain kvs where v: "v = JObj kvs"
    and nf: "find (\<lambda>(k, p). \<not> p (jget v k)) (parsedEventSchema env) = None"
    by (auto simp: safeParse_def split: jsval.splits option.splits)
  have chk: "p (jget v k)" if "(k, p) \<in> set (parsedEventSchema env)" for k p
    using nf that by (auto simp: find_None_iff)
  have h: "z_string is_hex64 (jget v ''hash'')"
    and s: "z_number (\<lambda>x. z_int x \<and> int_val x \<ge> 1) (jget v ''seq'')"
    and hp: "z_nullable (z_string is_hex64) (jget v ''hash_prev'')"
    by (rule chk, simp add: parsedEventSchema_def)+
  from assms v nf have ev: "pe_hash ev = the (str_of (jget v ''hash''))"
    "pe_seq ev = (case jget v ''seq'' of JNum x \<Rightarrow> int_val x | _ \<Rightarrow> 0)"
    "pe_hash_prev ev = str_of (jget v ''hash_prev'')"
    by (auto simp: safeParse_def)
  show "jget v ''hash'' = JStr (pe_hash ev)"
    using h ev(1) by (auto simp: z_string_def str_of_def split: jsval.splits)
  show "pe_seq ev \<ge> 1"
    using s ev(2) by (auto simp: z_number_def split: jsval.splits)
  show "jget v ''hash_prev'' = (case pe_hash_prev ev of None \<Rightarrow> JNull | Some h \<Rightarrow> JStr h)"
    using hp ev(3) by (auto simp: z_nullable_def z_string_def str_of_def split: jsval.splits)
qed

lemma batch_of_Inr:
  assumes "batch_of env lines = Inr (r, its)"
  shows "its \<noteq> []" and "\<And>it. it \<in> set its \<Longrightarrow> pe_run_id (pi_event it) = r"
    and "check_seqs (map item_seq its) = Inr ()"
    and "\<And>it. it \<in> set its \<Longrightarrow> \<exists>l\<in>set lines. \<exists>v. pi_raw it = trimEnd l
      \<and> ie_json_parse env (pi_raw it) = Some v \<and> safeParse env v = Inr (pi_event it)"
    and "\<And>l. l \<in> set lines \<Longrightarrow> \<exists>it\<in>set its. pi_raw it = trimEnd l"
proof -
  from assms obtain its0 where p: "parse_batch env lines = Inr its0"
    and q: "prepare_batch its0 = Inr (r, its)"
    by (auto simp: batch_of_def bind_result_Inr_iff)
  note P = prepare_batch_Inr [OF q]
  show "its \<noteq> []" and "check_seqs (map item_seq its) = Inr ()" by (rule P)+
  show "\<And>it. it \<in> set its \<Longrightarrow> pe_run_id (pi_event it) = r" by (rule P(3))
  have set_eq: "set its = set its0" by (simp add: P(1))
  note A = parse_batch_Inr [OF p]
  show "\<exists>l\<in>set lines. \<exists>v. pi_raw it = trimEnd l
      \<and> ie_json_parse env (pi_raw it) = Some v \<and> safeParse env v = Inr (pi_event it)"
    if "it \<in> set its" for it
  proof -
    from that set_eq obtain i where i: "i < length its0" "its0 ! i = it" by (auto simp: in_set_conv_nth)
    with A have "i < length lines" and raw: "pi_raw it = trimEnd (lines ! i)"
      and "\<exists>j. parseEventLine env (trimEnd (lines ! i)) j = Inr (pi_event it)"
      by (auto simp: list_all2_conv_all_nth)
    moreover from this parseEventLine_Inr obtain v where
      "ie_json_parse env (trimEnd (lines ! i)) = Some v" "safeParse env v = Inr (pi_event it)" by blast
    ultimately show ?thesis by (metis nth_mem)
  qed
  show "\<exists>it\<in>set its. pi_raw it = trimEnd l" if "l \<in> set lines" for l
    using A that set_eq by (metis (mono_tags, lifting) in_set_conv_nth list_all2_conv_all_nth)
qed

end
