(* ===== verification/Verify_Router.thy ===== *)
theory Verify_Router
  imports Ingest_Lemmas
begin

text \<open>
  \<open>packages/backend/src/trpc/routers/verify.ts\<close>: the procedure \<open>verify.chain\<close>, and the
  invariant of the stored runs that connects it with the ingest: what accepted batches
  write, \<open>verify.chain\<close> verifies.
\<close>

section \<open>Fetching the events in pages\<close>

definition EVENTS_PAGE_SIZE :: nat where "EVENTS_PAGE_SIZE = 1000"

text \<open>The page after \<open>lastSeenSeq\<close>, of the rows of one run and tenant.\<close>

definition events_page :: "event_row list \<Rightarrow> int \<Rightarrow> event_row list" where
  "events_page rows lastSeenSeq =
     take EVENTS_PAGE_SIZE (sort_key er_seq (filter (\<lambda>e. er_seq e > lastSeenSeq) rows))"

function fetch_pages :: "event_row list \<Rightarrow> int \<Rightarrow> event_row list" where
  "fetch_pages rows lastSeenSeq =
    (let page = events_page rows lastSeenSeq in
     if length page < EVENTS_PAGE_SIZE then page
     else page @ fetch_pages rows (er_seq (last page)))"
  by pat_completeness auto
termination
proof (relation "measure (\<lambda>(rows, s). length (filter (\<lambda>e. er_seq e > s) rows))", goal_cases)
  case (2 rows s page)
  then have "page \<noteq> []" by (auto simp: EVENTS_PAGE_SIZE_def)
  then have "last page \<in> set page" by simp
  then have l: "last page \<in> set rows" "er_seq (last page) > s"
    using 2(1) set_take_subset by (fastforce simp: events_page_def)+
  have "length (filter (\<lambda>e. er_seq e > er_seq (last page)) rows)
      < length (filter (\<lambda>e. er_seq e > s) rows)"
  proof -
    have "filter (\<lambda>e. er_seq e > er_seq (last page)) rows
        = filter (\<lambda>e. er_seq e > er_seq (last page)) (filter (\<lambda>e. er_seq e > s) rows)"
      using l(2) by (auto simp: filter_filter intro!: filter_cong)
    moreover have "\<not> er_seq (last page) > er_seq (last page)" by simp
    moreover have "last page \<in> set (filter (\<lambda>e. er_seq e > s) rows)" using l by simp
    ultimately show ?thesis by (metis (mono_tags, lifting) length_filter_less)
  qed
  then show ?case by simp
qed simp

declare fetch_pages.simps [simp del]

section \<open>verify.chain\<close>

datatype verify_answer =
    RunNotFound string
  | RunValid string nat string               \<comment> \<open>\<open>run_id\<close>, \<open>eventCount\<close>, \<open>message\<close>\<close>
  | RunBroken string nat int string          \<comment> \<open>\<open>run_id\<close>, \<open>eventCount\<close>, \<open>brokenAtSeq\<close>, \<open>message\<close>\<close>

definition chain_event_of :: "event_row \<Rightarrow> chain_event" where
  "chain_event_of e = \<lparr>ce_seq = er_seq e, ce_hash = er_hash e, ce_hash_prev = er_hash_prev e,
     ce_raw_line = er_raw_line e, ce_extra = []\<rparr>"

definition verify_chain :: "(string \<Rightarrow> string) \<Rightarrow> string \<Rightarrow> string \<Rightarrow> db \<Rightarrow> verify_answer" where
  "verify_chain sha256 tenantId run_id d =
    (case select_run run_id tenantId d of
       None \<Rightarrow> RunNotFound run_id
     | Some _ \<Rightarrow>
        (let allEvents = map chain_event_of (fetch_pages (select_events run_id tenantId d) 0) in
         if allEvents = [] then RunValid run_id 0 ''Run has no events''
         else (case verifyChain sha256 allEvents of
            ChainValid n \<Rightarrow> RunValid run_id n (''Chain verified: '' @ show_nat n @ '' events intact'')
          | ChainBroken n s why \<Rightarrow> RunBroken run_id n s why)))"

section \<open>The pages together are the sorted rows\<close>

lemma fetch_pages_eq:
  assumes "distinct (map er_seq rows)"
  shows "fetch_pages rows s = sort_key er_seq (filter (\<lambda>e. er_seq e > s) rows)"
  using assms
proof (induction rows s rule: fetch_pages.induct)
  case (1 rows s)
  let ?S = "sort_key er_seq (filter (\<lambda>e. er_seq e > s) rows)"
  let ?c = "er_seq (last (take EVENTS_PAGE_SIZE ?S))"
  show ?case
  proof (cases "length (events_page rows s) < EVENTS_PAGE_SIZE")
    case True
    then have "events_page rows s = ?S" by (simp add: events_page_def)
    with True show ?thesis by (simp add: fetch_pages.simps [of rows s] Let_def)
  next
    case False
    then have len: "EVENTS_PAGE_SIZE \<le> length ?S" by (simp add: events_page_def)
    have d: "distinct (map er_seq ?S)"
      using 1(2) by (simp add: distinct_map inj_on_def)
    have pos: "0 < EVENTS_PAGE_SIZE" by (simp add: EVENTS_PAGE_SIZE_def)
    have ne: "take EVENTS_PAGE_SIZE ?S \<noteq> []"
    proof
      assume "take EVENTS_PAGE_SIZE ?S = []"
      then have "length (take EVENTS_PAGE_SIZE ?S) = 0" by (simp only: list.size)
      with pos len show False by simp
    qed
    then have "last (take EVENTS_PAGE_SIZE ?S) \<in> set ?S" by (meson last_in_set in_set_takeD)
    then have "?c > s" by simp
    then have "filter (\<lambda>e. er_seq e > ?c) rows = filter (\<lambda>e. er_seq e > ?c) (filter (\<lambda>e. er_seq e > s) rows)"
      by (auto simp: filter_filter intro!: filter_cong)
    then have "sort_key er_seq (filter (\<lambda>e. er_seq e > ?c) rows) = drop EVENTS_PAGE_SIZE ?S"
      using keyset_page [OF _ d pos len] by (simp add: filter_sort)
    moreover have "fetch_pages rows s
        = events_page rows s @ fetch_pages rows (er_seq (last (events_page rows s)))"
      using False by (simp add: fetch_pages.simps [of rows s] Let_def)
    moreover have "fetch_pages rows (er_seq (last (events_page rows s)))
        = sort_key er_seq (filter (\<lambda>e. er_seq e > ?c) rows)"
      using 1(1) [OF refl False] 1(2) by (simp add: events_page_def)
    ultimately show ?thesis by (simp add: events_page_def)
  qed
qed

section \<open>The invariant of the stored runs\<close>

definition row_digest_ok :: "(string \<Rightarrow> string) \<Rightarrow> event_row \<Rightarrow> bool" where
  "row_digest_ok sha256 e \<longleftrightarrow>
     (case er_raw_line e of None \<Rightarrow> False | Some l \<Rightarrow> l \<noteq> [] \<and> sha256 l = er_hash e)"

definition run_events :: "db \<Rightarrow> run_row \<Rightarrow> event_row list" where
  "run_events d row = sort_key er_seq (select_events (rr_run_id row) (rr_tenant_id row) d)"

definition row_ok :: "(string \<Rightarrow> string) \<Rightarrow> db \<Rightarrow> run_row \<Rightarrow> bool" where
  "row_ok sha256 d row \<longleftrightarrow>
     chained er_hash er_hash_prev (row_digest_ok sha256) None (run_events d row)
   \<and> tip er_hash None (run_events d row) = rr_last_hash row
   \<and> (\<forall>e\<in>set (run_events d row). 1 \<le> er_seq e \<and> er_seq e \<le> rr_last_seq row)
   \<and> rr_event_count row = int (length (run_events d row))"

definition stored_ok :: "(string \<Rightarrow> string) \<Rightarrow> db \<Rightarrow> bool" where
  "stored_ok sha256 d \<longleftrightarrow> db_wf d
   \<and> (\<forall>row\<in>set (db_runs d). row_ok sha256 d row)
   \<and> (\<forall>e\<in>set (db_events d). \<forall>row\<in>set (db_runs d).
        rr_run_id row = er_run_id e \<longrightarrow> rr_tenant_id row = er_tenant_id e)"

text \<open>
  The discipline of the sender: a batch for a known run starts after the last stored
  \<open>seq\<close>, and a run id that the tenant does not know is not in use by another tenant.
\<close>

definition in_sequence :: "string \<Rightarrow> string \<Rightarrow> parsed_item list \<Rightarrow> db \<Rightarrow> bool" where
  "in_sequence t r its d \<longleftrightarrow>
     (case select_run r t d of
        None \<Rightarrow> \<not> run_exists r d
      | Some row \<Rightarrow> rr_last_seq row < item_seq (hd its))"

lemma event_row_of_simps [simp]:
  "er_run_id (event_row_of env t it) = pe_run_id (pi_event it)"
  "er_tenant_id (event_row_of env t it) = t"
  "er_seq (event_row_of env t it) = item_seq it"
  "er_hash (event_row_of env t it) = item_hash it"
  "er_hash_prev (event_row_of env t it) = item_prev it"
  "er_raw_line (event_row_of env t it) = Some (pi_raw it)"
  by (simp_all add: event_row_of_def Let_def)

lemma updated_run_simps [simp]:
  "rr_run_id (updated_run env its r) = rr_run_id r"
  "rr_tenant_id (updated_run env its r) = rr_tenant_id r"
  "rr_last_seq (updated_run env its r) = item_seq (last its)"
  "rr_last_hash (updated_run env its r) = Some (item_hash (last its))"
  "rr_event_count (updated_run env its r) = rr_event_count r + int (length its)"
  by (simp_all add: updated_run_def Let_def)

lemma created_run_simps [simp]:
  "rr_run_id (created_run env r t its) = r"
  "rr_tenant_id (created_run env r t its) = t"
  "rr_last_seq (created_run env r t its) = item_seq (last its)"
  "rr_last_hash (created_run env r t its) = Some (item_hash (last its))"
  "rr_event_count (created_run env r t its) = int (length its)"
  by (simp_all add: created_run_def Let_def)

lemma ingest_tx_Inr:
  assumes "ingest_tx env t r its d = Inr (out, d')"
  shows "chained item_hash item_prev (item_digest_ok (ie_sha256 env))
      (case select_run r t d of None \<Rightarrow> None | Some row \<Rightarrow> rr_last_hash row) its"
    and "insert_events (map (event_row_of env t) its)
      (case select_run r t d of
         Some _ \<Rightarrow> update_run r t (updated_run env its) d
       | None \<Rightarrow> insert_run (created_run env r t its) d) = Inr (io_inserted out, d')"
    and "io_run_id out = r" and "io_total_in_batch out = length its"
  using assms
  by (auto simp: ingest_tx_def Let_def bind_result_Inr_iff insert_batches_eq verifyBatchChain_def
      verify_batch_from_chained split: if_splits)

lemma batch_seqs:
  assumes "check_seqs (map item_seq its) = Inr ()"
  shows "sorted_wrt (<) (map item_seq its)"
    and "\<And>it. it \<in> set its \<Longrightarrow> item_seq (hd its) \<le> item_seq it \<and> item_seq it \<le> item_seq (last its)"
proof -
  show s: "sorted_wrt (<) (map item_seq its)" by (rule check_seqs_strict [OF assms])
  then have "sorted (map item_seq its)" using strict_sorted_iff by blast
  then show "item_seq (hd its) \<le> item_seq it \<and> item_seq it \<le> item_seq (last its)"
    if "it \<in> set its" for it
    using that by (intro conjI sorted_hd_last)
qed

lemma chained_rows:
  assumes "chained item_hash item_prev (item_digest_ok sha256) p its"
    and "\<And>it. it \<in> set its \<Longrightarrow> pi_raw it \<noteq> []"
  shows "chained er_hash er_hash_prev (row_digest_ok sha256) p (map (event_row_of env t) its)"
  using assms by (induction its arbitrary: p) (auto simp: row_digest_ok_def)

lemma stored_ok_events_of_run:
  assumes "stored_ok sha256 d" and "select_run r t d = Some row"
    and "e \<in> set (db_events d)" and "er_run_id e = r"
  shows "er_seq e \<le> rr_last_seq row"
proof -
  note R = select_run_Some [OF assms(2)]
  from assms(1,3,4) R have "er_tenant_id e = t" by (force simp: stored_ok_def)
  then have "e \<in> set (run_events d row)" using assms(3,4) R by (simp add: run_events_def select_events_def)
  with assms(1) R show ?thesis by (auto simp: stored_ok_def row_ok_def)
qed

text \<open>Accepted in sequence, every event of the batch goes in.\<close>

lemma ingest_tx_all_inserted:
  assumes ok: "stored_ok sha256 d" and tx: "ingest_tx env t r its d = Inr (out, d')"
    and ids: "\<And>it. it \<in> set its \<Longrightarrow> pe_run_id (pi_event it) = r"
    and sq: "check_seqs (map item_seq its) = Inr ()" and seq: "in_sequence t r its d"
  shows "io_inserted out = length its"
    and "d' = (case select_run r t d of
         Some _ \<Rightarrow> update_run r t (updated_run env its) d
       | None \<Rightarrow> insert_run (created_run env r t its) d)
         \<lparr>db_events := db_events d @ map (event_row_of env t) its\<rparr>"
proof -
  let ?d1 = "case select_run r t d of Some _ \<Rightarrow> update_run r t (updated_run env its) d
       | None \<Rightarrow> insert_run (created_run env r t its) d"
  let ?rows = "map (event_row_of env t) its"
  have ev: "db_events ?d1 = db_events d" by (simp split: option.splits)
  have "distinct (map item_seq its)" using batch_seqs(1) [OF sq] strict_sorted_iff by blast
  then have dis: "distinct (map (\<lambda>e. (er_run_id e, er_seq e)) ?rows)"
    by (auto simp: distinct_map inj_on_def)
  have "\<not> event_exists (er_run_id e) (er_seq e) (db_events d)" if "e \<in> set ?rows" for e
  proof
    assume ex: "event_exists (er_run_id e) (er_seq e) (db_events d)"
    from that ids obtain it where it: "it \<in> set its" "er_run_id e = r" "er_seq e = item_seq it" by auto
    with ex obtain e' where e': "e' \<in> set (db_events d)" "er_run_id e' = r" "er_seq e' = item_seq it"
      by (auto simp: event_exists_def list_ex_iff)
    show False
    proof (cases "select_run r t d")
      case None
      with seq e' ok show False by (auto simp: in_sequence_def stored_ok_def db_wf_def)
    next
      case (Some row)
      with stored_ok_events_of_run [OF ok Some e'(1,2)] batch_seqs(2) [OF sq it(1)] seq e'
      show False by (auto simp: in_sequence_def)
    qed
  qed
  then have f: "fresh_rows (db_events ?d1) ?rows = ?rows" unfolding ev using dis by (intro fresh_rows_all)
  note I = insert_events_Inr [OF ingest_tx_Inr(2) [OF tx]]
  from I(2) f show "io_inserted out = length its" by simp
  from I(1) f ev show "d' = ?d1\<lparr>db_events := db_events d @ ?rows\<rparr>" by simp
qed

lemma run_events_append:
  assumes "db_events d' = db_events d @ rows" and "sorted_wrt (<) (map er_seq rows)"
    and "\<And>e. e \<in> set rows \<Longrightarrow> er_run_id e = r \<and> er_tenant_id e = t"
    and "\<And>e x. e \<in> set (select_events r t d) \<Longrightarrow> x \<in> set rows \<Longrightarrow> er_seq e < er_seq x"
    and "rr_run_id row = r" and "rr_tenant_id row = t" and "rr_run_id row' = r" and "rr_tenant_id row' = t"
  shows "run_events d' row' = run_events d row @ rows"
proof -
  have "select_events r t d' = select_events r t d @ rows"
    using assms(1,3) by (simp add: select_events_def filter_id_conv)
  moreover have "sort_key er_seq rows = rows"
    using assms(2) strict_sorted_iff by (blast intro: sort_key_id_if_sorted)
  ultimately show ?thesis
    using assms(4-8) by (simp add: run_events_def sort_key_append_sorted)
qed

lemma run_events_other:
  assumes "db_events d' = db_events d @ rows" and "\<And>e. e \<in> set rows \<Longrightarrow> er_run_id e \<noteq> rr_run_id row"
  shows "run_events d' row = run_events d row"
  using assms by (auto simp: run_events_def select_events_def filter_empty_conv)

lemma row_ok_extend:
  assumes old: "chained er_hash er_hash_prev (row_digest_ok sha256) None es"
      "\<And>e. e \<in> set es \<Longrightarrow> 1 \<le> er_seq e \<and> er_seq e < item_seq (hd its)"
    and new: "chained item_hash item_prev (item_digest_ok sha256) (tip er_hash None es) its"
      "\<And>it. it \<in> set its \<Longrightarrow> pi_raw it \<noteq> [] \<and> 1 \<le> item_seq it"
      "check_seqs (map item_seq its) = Inr ()" "its \<noteq> []"
    and row: "run_events d row = es @ map (event_row_of env t) its"
      "rr_last_hash row = Some (item_hash (last its))" "rr_last_seq row = item_seq (last its)"
      "rr_event_count row = int (length es + length its)"
  shows "row_ok sha256 d row"
  unfolding row_ok_def row
proof (intro conjI ballI)
  show "chained er_hash er_hash_prev (row_digest_ok sha256) None (es @ map (event_row_of env t) its)"
    using old(1) chained_rows [OF new(1)] new(2) by (auto simp: chained_append)
  show "tip er_hash None (es @ map (event_row_of env t) its) = Some (item_hash (last its))"
    using new(4) by (simp add: last_map)
  show "int (length es + length its) = int (length (es @ map (event_row_of env t) its))" by simp
  have l: "last its \<in> set its" using new(4) by simp
  fix e assume "e \<in> set (es @ map (event_row_of env t) its)"
  then consider "e \<in> set es" | it where "it \<in> set its" "e = event_row_of env t it" by auto
  then have "1 \<le> er_seq e \<and> er_seq e \<le> item_seq (last its)"
  proof cases
    case 1
    then show ?thesis using old(2) [OF 1] batch_seqs(2) [OF new(3) l] by linarith
  next
    case 2
    then show ?thesis using batch_seqs(2) [OF new(3) 2(1)] new(2) [OF 2(1)] by simp
  qed
  then show "1 \<le> er_seq e" "er_seq e \<le> item_seq (last its)" by simp_all
qed

lemma ingest_tx_new_row:
  assumes ok: "stored_ok (ie_sha256 env) d" and tx: "ingest_tx env t r its d = Inr (out, d')"
    and ids: "\<And>it. it \<in> set its \<Longrightarrow> pe_run_id (pi_event it) = r"
    and its: "\<And>it. it \<in> set its \<Longrightarrow> pi_raw it \<noteq> [] \<and> 1 \<le> item_seq it" "its \<noteq> []"
    and sq: "check_seqs (map item_seq its) = Inr ()" and seq: "in_sequence t r its d"
  shows "\<exists>new. row_ok (ie_sha256 env) d' new \<and> rr_run_id new = r \<and> rr_tenant_id new = t
    \<and> set (db_runs d') \<subseteq> insert new {row \<in> set (db_runs d). rr_run_id row \<noteq> r}"
proof -
  let ?rows = "map (event_row_of env t) its"
  note T = ingest_tx_Inr [OF tx]
  note A = ingest_tx_all_inserted [OF ok tx ids sq seq]
  have ev: "db_events d' = db_events d @ ?rows" using A(2) by (simp split: option.splits)
  have strict: "sorted_wrt (<) (map er_seq ?rows)" using batch_seqs(1) [OF sq] by (simp add: comp_def)
  have wf: "db_wf d" using ok by (simp add: stored_ok_def)
  show ?thesis
  proof (cases "select_run r t d")
    case None
    let ?new = "created_run env r t its"
    from None have ne: "\<not> run_exists r d" using seq by (simp add: in_sequence_def)
    then have none: "select_events r t d = []"
      using wf by (force simp: select_events_def filter_empty_conv db_wf_def)
    have re: "run_events d' ?new = run_events d ?new @ ?rows"
      by (rule run_events_append [OF ev strict, of r t]) (use ids none in auto)
    have "run_events d ?new = []" using none by (simp add: run_events_def)
    then have new: "row_ok (ie_sha256 env) d' ?new"
      using T(1) None re its sq by (intro row_ok_extend [where es = "[]" and its = its and env = env and t = t]) auto
    have "db_runs d' = db_runs d @ [?new]"
      using A(2) None ne by (simp add: insert_run_def run_exists_def)
    moreover have "\<forall>row\<in>set (db_runs d). rr_run_id row \<noteq> r"
      using ne by (auto simp: run_exists_def list_ex_iff)
    ultimately show ?thesis using new by (intro exI [of _ ?new]) auto
  next
    case (Some row0)
    let ?new = "updated_run env its row0"
    note R = select_run_Some [OF Some]
    have seq0: "rr_last_seq row0 < item_seq (hd its)" using seq Some by (simp add: in_sequence_def)
    have ok0: "row_ok (ie_sha256 env) d row0" using ok R by (auto simp: stored_ok_def)
    have re: "run_events d' ?new = run_events d row0 @ ?rows"
    proof (rule run_events_append [OF ev strict, of r t])
      fix e x assume "e \<in> set (select_events r t d)" "x \<in> set ?rows"
      then show "er_seq e < er_seq x"
        using ok0 R seq0 batch_seqs(2) [OF sq] by (force simp: row_ok_def run_events_def)
    qed (use ids R in auto)
    have new: "row_ok (ie_sha256 env) d' ?new"
    proof (rule row_ok_extend [where es = "run_events d row0" and its = its and env = env and t = t])
      show "1 \<le> er_seq e \<and> er_seq e < item_seq (hd its)" if "e \<in> set (run_events d row0)" for e
        using ok0 that seq0 by (force simp: row_ok_def)
    qed (use ok0 T(1) Some re its sq in \<open>auto simp: row_ok_def\<close>)
    have uniq: "row = row0" if "row \<in> set (db_runs d)" "rr_run_id row = r" for row
      using that R wf distinct_map_eq unfolding db_wf_def by metis
    have "db_runs d' = map (\<lambda>x. if rr_run_id x = r \<and> rr_tenant_id x = t then updated_run env its x else x) (db_runs d)"
      using A(2) Some by (simp add: update_run_def)
    then have "set (db_runs d') \<subseteq> insert ?new {row \<in> set (db_runs d). rr_run_id row \<noteq> r}"
      using R(3) uniq by (auto split: if_splits)
    then show ?thesis using new R by (intro exI [of _ ?new]) simp
  qed
qed

lemma ingest_tx_stored_ok:
  assumes ok: "stored_ok (ie_sha256 env) d" and tx: "ingest_tx env t r its d = Inr (out, d')"
    and ids: "\<And>it. it \<in> set its \<Longrightarrow> pe_run_id (pi_event it) = r"
    and its: "\<And>it. it \<in> set its \<Longrightarrow> pi_raw it \<noteq> [] \<and> 1 \<le> item_seq it" "its \<noteq> []"
    and sq: "check_seqs (map item_seq its) = Inr ()" and seq: "in_sequence t r its d"
  shows "stored_ok (ie_sha256 env) d'"
proof -
  let ?rows = "map (event_row_of env t) its"
  have ev: "db_events d' = db_events d @ ?rows"
    using ingest_tx_all_inserted(2) [OF ok tx ids sq seq] by (simp split: option.splits)
  from ingest_tx_new_row [OF ok tx ids its sq seq] obtain new where
    new: "row_ok (ie_sha256 env) d' new" "rr_run_id new = r" "rr_tenant_id new = t"
    and runs: "set (db_runs d') \<subseteq> insert new {row \<in> set (db_runs d). rr_run_id row \<noteq> r}" by blast
  have wf0: "db_wf d" and ok0: "\<And>row. row \<in> set (db_runs d) \<Longrightarrow> row_ok (ie_sha256 env) d row"
    and ten0: "\<And>e row. e \<in> set (db_events d) \<Longrightarrow> row \<in> set (db_runs d) \<Longrightarrow>
      rr_run_id row = er_run_id e \<Longrightarrow> rr_tenant_id row = er_tenant_id e"
    using ok by (auto simp: stored_ok_def)
  have "db_wf d'"
    using insert_events_db_wf [OF _ ingest_tx_Inr(2) [OF tx]] wf0
    by (auto simp: insert_run_db_wf update_run_db_wf split: option.splits)
  moreover have "row_ok (ie_sha256 env) d' row" if "row \<in> set (db_runs d')" for row
  proof (cases "row = new")
    case False
    then have row: "row \<in> set (db_runs d)" "rr_run_id row \<noteq> r" using runs that by auto
    then have "run_events d' row = run_events d row"
      using ev ids by (intro run_events_other [of d' d ?rows]) auto
    with ok0 [OF row(1)] show ?thesis by (simp add: row_ok_def)
  qed (use new in simp)
  moreover have "rr_tenant_id row = er_tenant_id e"
    if "e \<in> set (db_events d')" "row \<in> set (db_runs d')" "rr_run_id row = er_run_id e" for e row
  proof (cases "er_run_id e = r")
    case True
    then have "row = new" using runs that by auto
    moreover have "er_tenant_id e = t"
    proof (cases "select_run r t d")
      case None
      then have "e \<in> set ?rows" using seq wf0 that(1) True ev by (auto simp: in_sequence_def db_wf_def)
      then show ?thesis by auto
    next
      case (Some row0)
      then show ?thesis
        using ten0 [of e row0] that(1) True select_run_Some [OF Some] by (auto simp: ev)
    qed
    ultimately show ?thesis using new by simp
  next
    case False
    then have "e \<in> set (db_events d)" using that ids by (auto simp: ev)
    moreover have "row \<in> set (db_runs d)" using runs that False new by auto
    ultimately show ?thesis using ten0 that by simp
  qed
  ultimately show ?thesis by (simp add: stored_ok_def)
qed

section \<open>Databases that the ingest builds\<close>

definition empty_db :: db where "empty_db = \<lparr>db_runs = [], db_events = []\<rparr>"

inductive reachable_db :: "(string \<Rightarrow> string) \<Rightarrow> db \<Rightarrow> bool" for sha256 where
  empty: "reachable_db sha256 empty_db"
| batch: "reachable_db sha256 d \<Longrightarrow> ie_sha256 env = sha256 \<Longrightarrow> ie_json_parse env [] = None \<Longrightarrow>
    batch_of env lines = Inr (r, its) \<Longrightarrow> in_sequence t r its d \<Longrightarrow>
    ingest env t lines d = Inr (out, d') \<Longrightarrow> reachable_db sha256 d'"

lemma reachable_stored_ok: "reachable_db sha256 d \<Longrightarrow> stored_ok sha256 d"
proof (induction rule: reachable_db.induct)
  case empty
  show ?case by (simp add: stored_ok_def db_wf_def empty_db_def)
next
  case (batch d env lines r its t out d')
  note B = batch_of_Inr [OF batch(4)]
  from batch(4,6) have "ingest_tx env t r its d = Inr (out, d')" by (simp add: ingest_batch_of)
  moreover have "pi_raw it \<noteq> [] \<and> 1 \<le> item_seq it" if "it \<in> set its" for it
    using B(4) [OF that] batch(3) safeParse_Inr(2) by fastforce
  ultimately show ?case
    using ingest_tx_stored_ok [of env d t r its out d'] batch B(1-3) by auto
qed

section \<open>What verify.chain reads\<close>

lemma select_events_distinct:
  assumes "db_wf d"
  shows "distinct (map er_seq (select_events r t d))"
proof -
  have "inj_on (\<lambda>e. (er_run_id e, er_seq e)) (set (db_events d))" "distinct (db_events d)"
    using assms by (auto simp: db_wf_def distinct_map)
  then show ?thesis by (auto simp: select_events_def distinct_map inj_on_def)
qed

lemma computeEventHash_row:
  assumes "row_digest_ok sha256 e"
  shows "computeEventHash sha256 (chain_event_of e) = er_hash e"
  using assms by (auto simp: computeEventHash_def chain_event_of_def row_digest_ok_def split: option.splits)

lemma verifyChain_rows:
  assumes "chained er_hash er_hash_prev (row_digest_ok sha256) None es" and "sorted (map er_seq es)"
  shows "verifyChain sha256 (map chain_event_of es) = ChainValid (length es)"
proof -
  have "chained er_hash er_hash_prev (\<lambda>e. computeEventHash sha256 (chain_event_of e) = er_hash e) None es"
    using assms(1) chained_ok [OF assms(1)] computeEventHash_row
    by (subst chained_cong [of es er_hash er_hash er_hash_prev er_hash_prev _ "row_digest_ok sha256"]) auto
  then have "ce_chained sha256 None (map chain_event_of es)"
    by (simp add: chained_map comp_def chain_event_of_def)
  moreover have "sort_key ce_seq (map chain_event_of es) = map chain_event_of es"
    using assms(2) by (intro sort_key_id_if_sorted) (simp add: comp_def chain_event_of_def)
  ultimately have "chain_valid (verifyChain sha256 (map chain_event_of es))"
    by (simp add: verifyChain_valid_iff)
  then show ?thesis
    using verify_loop_count(1) [of sha256 "length es" None "sort_key ce_seq (map chain_event_of es)"]
    by (cases "es = []") (auto simp: chain_valid_def verifyChain_def split: ChainVerifyResult.splits)
qed

lemma fetch_pages_run_events:
  assumes "db_wf d" and "\<forall>e\<in>set (select_events r t d). 0 < er_seq e"
  shows "fetch_pages (select_events r t d) 0 = sort_key er_seq (select_events r t d)"
proof -
  have "filter (\<lambda>e. er_seq e > 0) (select_events r t d) = select_events r t d"
    using assms(2) by (simp add: filter_id_conv)
  then show ?thesis by (simp add: fetch_pages_eq [OF select_events_distinct [OF assms(1)]])
qed

end
