(* ===== verification/Ingest_Properties.thy ===== *)
theory Ingest_Properties
  imports Verify_Router
begin

text \<open>
  Properties of \<open>events.ingest\<close> as a whole: what an accepted batch is, that it is confined
  to its tenant, what happens to a batch that is sent again, and two ways in which an
  accepted batch breaks a stored run. The concrete batches use the identity as digest
  function, lines of 64 equal hexadecimal characters and a table as \<open>JSON.parse\<close>.
\<close>

section \<open>A concrete instance\<close>

definition ex_line :: "char \<Rightarrow> string" where
  "ex_line c = replicate 64 c"

definition ex_event :: "nat \<Rightarrow> char \<Rightarrow> char option \<Rightarrow> jsval" where
  "ex_event sq c p = JObj [(''schema_version'', JNum (Dec False 1 0)), (''event_type'', JStr ''policy_decision''),
     (''run_id'', JStr ''r''), (''seq'', JNum (Dec False sq 0)), (''ts'', JStr ''t''), (''hash'', JStr (ex_line c)),
     (''hash_prev'', case p of None \<Rightarrow> JNull | Some x \<Rightarrow> JStr (ex_line x))]"

definition ex_table :: "(char \<times> nat \<times> char option) list" where
  "ex_table = [(CHR ''a'', 1, None), (CHR ''b'', 2, Some (CHR ''a'')), (CHR ''c'', 2, Some (CHR ''b'')),
     (CHR ''d'', 3, Some (CHR ''c'')), (CHR ''e'', 3, None), (CHR ''f'', 3, Some (CHR ''b''))]"

definition ex_env :: ingest_env where
  "ex_env = \<lparr>ie_sha256 = (\<lambda>s. s),
     ie_json_parse = (\<lambda>l. case l of [] \<Rightarrow> None
       | c # _ \<Rightarrow> map_option (\<lambda>(sq, p). ex_event sq c p) (map_of ex_table c)),
     ie_is_uuid = (\<lambda>_. True), ie_is_datetime = (\<lambda>_. True), ie_zod_message = (\<lambda>_ _. []),
     ie_date = (\<lambda>_. 0), ie_now = 0, ie_now_iso = []\<rparr>"

definition ex_item :: "nat \<Rightarrow> char \<Rightarrow> char option \<Rightarrow> parsed_item" where
  "ex_item sq c p = \<lparr>pi_event = \<lparr>pe_event_type = ''policy_decision'', pe_run_id = ''r'', pe_seq = int sq,
     pe_ts = ''t'', pe_hash = ex_line c, pe_hash_prev = map_option ex_line p,
     pe_opt = (\<lambda>_. JUndefined)\<rparr>, pi_raw = ex_line c\<rparr>"

lemma ex_sha256 [simp]: "ie_sha256 ex_env = (\<lambda>s. s)"
  by (simp add: ex_env_def)

lemma ex_line_eq [simp]: "ex_line c = ex_line c' \<longleftrightarrow> c = c'"
  by (simp add: ex_line_def)

lemma ex_line_hex: "is_hex64 (ex_line c) \<longleftrightarrow> is_hex_char c"
  by (simp add: ex_line_def is_hex64_def list_all_iff)

lemma ex_line_trimEnd: "is_hex_char c \<Longrightarrow> trimEnd (ex_line c) = ex_line c"
  by (auto simp: ex_line_def trimEnd_def is_hex_char_def is_ws_def eval_nat_numeral)

lemma ex_safeParse:
  assumes "sq \<ge> 1" and "is_hex_char c" and "\<And>x. p = Some x \<Longrightarrow> is_hex_char x"
  shows "safeParse ex_env (ex_event sq c p) = Inr (pi_event (ex_item sq c p))"
proof -
  have "find (\<lambda>(k, q). \<not> q (jget (ex_event sq c p) k)) (parsedEventSchema ex_env) = None"
    using assms
    by (simp add: parsedEventSchema_def ex_event_def z_string_def z_number_def z_nullable_def z_optional_def
        z_int_def ex_env_def ex_line_hex split: option.splits)
  moreover have "(\<lambda>k. if k \<in> set (map fst (parsedEventSchema ex_env)) \<and> k \<notin> set required_fields
      then jget (ex_event sq c p) k else JUndefined) = (\<lambda>_. JUndefined)"
    by (rule ext) (simp add: ex_event_def required_fields_def)
  moreover obtain kvs where kvs: "ex_event sq c p = JObj kvs" by (simp add: ex_event_def)
  moreover have "jget (ex_event sq c p) ''event_type'' = JStr ''policy_decision''"
    "jget (ex_event sq c p) ''run_id'' = JStr ''r''" "jget (ex_event sq c p) ''ts'' = JStr ''t''"
    "jget (ex_event sq c p) ''seq'' = JNum (Dec False sq 0)" "jget (ex_event sq c p) ''hash'' = JStr (ex_line c)"
    "str_of (jget (ex_event sq c p) ''hash_prev'') = map_option ex_line p"
    by (simp_all add: ex_event_def str_of_def split: option.splits)
  ultimately show ?thesis
    unfolding kvs by (simp only: safeParse_def jsval.case option.case) (simp add: ex_item_def str_of_def)
qed

lemma ex_parse:
  assumes "map_of ex_table c = Some (sq, p)"
  shows "parseEventLine ex_env (ex_line c) i = Inr (pi_event (ex_item sq c p))"
    and "trimEnd (ex_line c) = ex_line c"
proof -
  have "(c, sq, p) \<in> set ex_table" using assms by (rule map_of_SomeD)
  then have ok: "is_hex_char c" "sq \<ge> 1" "\<And>x. p = Some x \<Longrightarrow> is_hex_char x"
    by (auto simp: ex_table_def is_hex_char_def)
  then show "trimEnd (ex_line c) = ex_line c" by (simp add: ex_line_trimEnd)
  have "ie_json_parse ex_env (ex_line c) = Some (ex_event sq c p)"
    using assms by (simp add: ex_env_def ex_line_def eval_nat_numeral)
  then show "parseEventLine ex_env (ex_line c) i = Inr (pi_event (ex_item sq c p))"
    using ex_safeParse ok by (simp add: parseEventLine_def)
qed

lemma ex_item_simps [simp]:
  "item_seq (ex_item sq c p) = int sq" "item_hash (ex_item sq c p) = ex_line c"
  "item_prev (ex_item sq c p) = map_option ex_line p" "pi_raw (ex_item sq c p) = ex_line c"
  "pe_run_id (pi_event (ex_item sq c p)) = ''r''" "pe_opt (pi_event (ex_item sq c p)) k = JUndefined"
  "pe_event_type (pi_event (ex_item sq c p)) = ''policy_decision''"
  by (simp_all add: ex_item_def)

lemma ex_batch1:
  assumes "map_of ex_table c = Some (sq, p)"
  shows "batch_of ex_env [ex_line c] = Inr (''r'', [ex_item sq c p])"
  using ex_parse [OF assms]
  by (simp add: batch_of_def parse_batch_def prepare_batch_def ex_line_def eval_nat_numeral ex_item_def)

lemma ex_batch2:
  assumes "map_of ex_table c = Some (sq, p)" and "map_of ex_table c' = Some (Suc sq, p')"
  shows "batch_of ex_env [ex_line c, ex_line c'] = Inr (''r'', [ex_item sq c p, ex_item (Suc sq) c' p'])"
  using ex_parse [OF assms(1)] ex_parse [OF assms(2)]
  by (simp add: batch_of_def parse_batch_def prepare_batch_def ex_line_def ex_item_def)

section \<open>Scenarios\<close>

abbreviation ia :: parsed_item where "ia \<equiv> ex_item 1 (CHR ''a'') None"
abbreviation ib :: parsed_item where "ib \<equiv> ex_item 2 (CHR ''b'') (Some (CHR ''a''))"
abbreviation ic :: parsed_item where "ic \<equiv> ex_item 2 (CHR ''c'') (Some (CHR ''b''))"
abbreviation id_item :: parsed_item where "id_item \<equiv> ex_item 3 (CHR ''d'') (Some (CHR ''c''))"
abbreviation ie_item :: parsed_item where "ie_item \<equiv> ex_item 3 (CHR ''e'') None"
abbreviation if_item :: parsed_item where "if_item \<equiv> ex_item 3 (CHR ''f'') (Some (CHR ''b''))"

abbreviation ex_ab :: "string list" where "ex_ab \<equiv> [ex_line (CHR ''a''), ex_line (CHR ''b'')]"
abbreviation ex_cd :: "string list" where "ex_cd \<equiv> [ex_line (CHR ''c''), ex_line (CHR ''d'')]"

definition ex_db1 :: db where
  "ex_db1 = \<lparr>db_runs = [created_run ex_env ''r'' ''t'' [ia, ib]],
     db_events = map (event_row_of ex_env ''t'') [ia, ib]\<rparr>"

lemma ex_batches:
  "batch_of ex_env ex_ab = Inr (''r'', [ia, ib])"
  "batch_of ex_env ex_cd = Inr (''r'', [ic, id_item])"
  "batch_of ex_env [ex_line (CHR ''e'')] = Inr (''r'', [ie_item])"
  "batch_of ex_env [ex_line (CHR ''f'')] = Inr (''r'', [if_item])"
  using ex_batch2 [of "CHR ''a''" 1 None "CHR ''b''" "Some (CHR ''a'')"]
    ex_batch2 [of "CHR ''c''" 2 "Some (CHR ''b'')" "CHR ''d''" "Some (CHR ''c'')"]
    ex_batch1 [of "CHR ''e''" 3 None] ex_batch1 [of "CHR ''f''" 3 "Some (CHR ''b'')"]
  by (simp_all add: ex_table_def eval_nat_numeral)

lemmas ex_eval = ingest_batch_of ex_batches ingest_tx_def verifyBatchChain_def Let_def insert_batches_eq
  insert_events_def event_exists_def run_exists_def insert_run_def update_run_def select_run_def

definition inserted_of :: "api_error + ingest_out \<times> db \<Rightarrow> nat option" where
  "inserted_of r = (case r of Inl _ \<Rightarrow> None | Inr (out, _) \<Rightarrow> Some (io_inserted out))"

lemma ex_ingest1: "\<exists>out. ingest ex_env ''t'' ex_ab empty_db = Inr (out, ex_db1) \<and> io_run_id out = ''r''"
  by (simp add: ex_eval empty_db_def ex_db1_def)

lemma ex_ingest2: "\<exists>out. ingest ex_env ''t'' ex_cd ex_db1 = Inr (out,
    \<lparr>db_runs = [updated_run ex_env [ic, id_item] (created_run ex_env ''r'' ''t'' [ia, ib])],
     db_events = map (event_row_of ex_env ''t'') [ia, ib, id_item]\<rparr>) \<and> io_inserted out = 1"
  by (simp add: ex_eval ex_db1_def)

lemma ex_in_sequence: "in_sequence ''t'' ''r'' [ia, ib] empty_db"
  by (simp add: in_sequence_def select_run_def run_exists_def empty_db_def)

lemma ex_reachable: "reachable_db (\<lambda>s. s) ex_db1"
proof -
  obtain out where o: "ingest ex_env ''t'' ex_ab empty_db = Inr (out, ex_db1)" using ex_ingest1 by blast
  have "ie_json_parse ex_env [] = None" by (simp add: ex_env_def)
  from reachable_db.batch [OF reachable_db.empty ex_sha256 this ex_batches(1) ex_in_sequence o]
  show ?thesis .
qed

section \<open>Properties of the ingest\<close>

lemma ingest_Inr:
  assumes "ingest env t lines d = Inr (out, d')"
  shows "\<exists>its. batch_of env lines = Inr (io_run_id out, its)
    \<and> ingest_tx env t (io_run_id out) its d = Inr (out, d')"
proof -
  from assms obtain r its where b: "batch_of env lines = Inr (r, its)"
    and tx: "ingest_tx env t r its d = Inr (out, d')"
    by (auto simp: ingest_batch_of bind_result_Inr_iff)
  with ingest_tx_Inr(3) [OF tx] show ?thesis by auto
qed

text \<open>
  C3: an accepted batch holds events of one run with consecutive sequence numbers, it
  continues the chain from the last hash stored for the run (from nothing when the tenant
  has no such run), and the hash of each event is the digest of its line.
\<close>

theorem ingest_accepts_only_continuations:
  assumes "ingest env t lines d = Inr (out, d')"
  shows "\<exists>its. batch_of env lines = Inr (io_run_id out, its) \<and> its \<noteq> []
    \<and> (\<forall>it\<in>set its. pe_run_id (pi_event it) = io_run_id out)
    \<and> map item_seq its = map (\<lambda>i. item_seq (hd its) + int i) [0..<length its]
    \<and> chained item_hash item_prev (\<lambda>it. ie_sha256 env (pi_raw it) = item_hash it)
        (case select_run (io_run_id out) t d of None \<Rightarrow> None | Some row \<Rightarrow> rr_last_hash row) its"
proof -
  from ingest_Inr [OF assms] obtain its where b: "batch_of env lines = Inr (io_run_id out, its)"
    and tx: "ingest_tx env t (io_run_id out) its d = Inr (out, d')" by blast
  note B = batch_of_Inr [OF b]
  from B(1) obtain x xs where its: "its = x # xs" by (cases its) auto
  have "map item_seq its = map (\<lambda>i. item_seq (hd its) + int i) [0..<length its]"
    using B(3) check_seqs_consecutive [of "item_seq x" "map item_seq xs"] its by simp
  with B b ingest_tx_Inr(1) [OF tx] show ?thesis by blast
qed

theorem ingest_accepts_only_continuations_witness:
  "\<exists>out its. ingest ex_env ''t'' ex_ab empty_db = Inr (out, ex_db1)
    \<and> batch_of ex_env ex_ab = Inr (io_run_id out, its)
    \<and> map item_seq its = map (\<lambda>i. item_seq (hd its) + int i) [0..<length its]"
proof -
  obtain out where o: "ingest ex_env ''t'' ex_ab empty_db = Inr (out, ex_db1)" using ex_ingest1 by blast
  from ingest_accepts_only_continuations [OF o] o show ?thesis by blast
qed

text \<open>
  C5: every line of an accepted batch is a JSON object whose own \<open>hash\<close> property is the
  digest of that whole line, the \<open>hash\<close> property included. A writer that computes the
  hash before adding it to the line, as the engine does, cannot produce such a line.
\<close>

theorem ingest_requires_self_hashing_lines:
  assumes "ingest env t lines d = Inr (out, d')" and "l \<in> set lines"
  shows "\<exists>v. ie_json_parse env (trimEnd l) = Some v
    \<and> jget v ''hash'' = JStr (ie_sha256 env (trimEnd l))"
proof -
  from ingest_Inr [OF assms(1)] obtain its where b: "batch_of env lines = Inr (io_run_id out, its)"
    and tx: "ingest_tx env t (io_run_id out) its d = Inr (out, d')" by blast
  note B = batch_of_Inr [OF b]
  from B(5) [OF assms(2)] obtain it where it: "it \<in> set its" "pi_raw it = trimEnd l" by blast
  from B(4) [OF it(1)] obtain v where v: "ie_json_parse env (pi_raw it) = Some v"
    "safeParse env v = Inr (pi_event it)" by blast
  have "ie_sha256 env (pi_raw it) = item_hash it" using chained_ok [OF ingest_tx_Inr(1) [OF tx] it(1)] .
  with v safeParse_Inr(1) [OF v(2)] it(2) show ?thesis by auto
qed

theorem ingest_requires_self_hashing_lines_witness:
  "\<exists>v. ie_json_parse ex_env (trimEnd (ex_line (CHR ''a''))) = Some v
    \<and> jget v ''hash'' = JStr (ie_sha256 ex_env (trimEnd (ex_line (CHR ''a''))))"
proof -
  obtain out where o: "ingest ex_env ''t'' ex_ab empty_db = Inr (out, ex_db1)" using ex_ingest1 by blast
  show ?thesis by (rule ingest_requires_self_hashing_lines [OF o]) simp
qed

text \<open>
  C4: tenants are isolated: an ingest on behalf of one tenant leaves the run rows and the
  event rows of every other tenant as they are.
\<close>

theorem ingest_tenant_isolation:
  assumes "ingest env t lines d = Inr (out, d')" and "t' \<noteq> t"
  shows "filter (\<lambda>r. rr_tenant_id r = t') (db_runs d') = filter (\<lambda>r. rr_tenant_id r = t') (db_runs d)
    \<and> filter (\<lambda>e. er_tenant_id e = t') (db_events d') = filter (\<lambda>e. er_tenant_id e = t') (db_events d)"
proof -
  from ingest_Inr [OF assms(1)] obtain its where
    tx: "ingest_tx env t (io_run_id out) its d = Inr (out, d')" by blast
  note I = insert_events_Inr [OF ingest_tx_Inr(2) [OF tx]]
  have up: "filter (\<lambda>r. rr_tenant_id r = t')
      (map (\<lambda>r. if rr_run_id r = i \<and> rr_tenant_id r = t then updated_run env its r else r) rs)
    = filter (\<lambda>r. rr_tenant_id r = t') rs" for i rs
    using assms(2) by (induction rs) auto
  have "filter (\<lambda>e. er_tenant_id e = t') (fresh_rows tbl (map (event_row_of env t) its)) = []" for tbl
    using fresh_rows_subset [of tbl "map (event_row_of env t) its"] assms(2)
    by (fastforce simp: filter_empty_conv)
  then show ?thesis
    using I(1) assms(2) by (auto simp: update_run_def insert_run_def up split: option.splits)
qed

theorem ingest_tenant_isolation_witness:
  "\<exists>out. ingest ex_env ''t'' ex_ab empty_db = Inr (out, ex_db1)
    \<and> filter (\<lambda>e. er_tenant_id e = ''u'') (db_events ex_db1) = filter (\<lambda>e. er_tenant_id e = ''u'') (db_events empty_db)"
proof -
  obtain out where o: "ingest ex_env ''t'' ex_ab empty_db = Inr (out, ex_db1)" using ex_ingest1 by blast
  from ingest_tenant_isolation [OF o, of "''u''"] o show ?thesis by auto
qed

text \<open>
  A batch that created its run is rejected when it is sent again, whatever happened
  to be in the rest of the database: the run now has a last hash and the first event of
  the batch does not point at it.
\<close>

theorem ingest_resent_batch_rejected:
  assumes "ingest env t lines d = Inr (out, d')" and "\<not> run_exists (io_run_id out) d"
  shows "\<exists>msg. ingest env t lines d' = Inl (TRPCError BAD_REQUEST msg)"
proof -
  let ?r = "io_run_id out"
  from ingest_Inr [OF assms(1)] obtain its where b: "batch_of env lines = Inr (?r, its)"
    and tx: "ingest_tx env t ?r its d = Inr (out, d')" by blast
  have none: "select_run ?r t d = None"
    using assms(2) select_run_exists by (cases "select_run ?r t d") auto
  have dig: "\<And>it. it \<in> set its \<Longrightarrow> ie_sha256 env (pi_raw it) = item_hash it"
    using chained_ok [OF ingest_tx_Inr(1) [OF tx]] .
  from batch_of_Inr(1) [OF b] obtain x xs where its: "its = x # xs" by (cases its) auto
  have px: "item_prev x = None" using ingest_tx_Inr(1) [OF tx] none its by simp
  have runs: "db_runs d' = db_runs (insert_run (created_run env ?r t its) d)"
    using insert_events_Inr(1) [OF ingest_tx_Inr(2) [OF tx]] none by simp
  have "select_run ?r t (insert_run (created_run env ?r t its) d) = Some (created_run env ?r t its)"
    using select_run_insert [of "created_run env ?r t its" d] assms(2) by simp
  then have "select_run ?r t d' = Some (created_run env ?r t its)" by (simp add: select_run_def runs)
  moreover have "\<exists>msg. verifyBatchChain (ie_sha256 env) its (Some h) = Inl (TRPCError BAD_REQUEST msg)" for h
    using its px dig by (simp add: verifyBatchChain_def Let_def)
  then obtain msg where
    "verifyBatchChain (ie_sha256 env) its (Some (item_hash (last its))) = Inl (TRPCError BAD_REQUEST msg)"
    by blast
  ultimately show ?thesis using b by (simp add: ingest_batch_of ingest_tx_def Let_def)
qed

theorem ingest_resent_batch_rejected_witness:
  "\<exists>msg. ingest ex_env ''t'' ex_ab ex_db1 = Inl (TRPCError BAD_REQUEST msg)"
proof -
  obtain out where o: "ingest ex_env ''t'' ex_ab empty_db = Inr (out, ex_db1)" using ex_ingest1 by blast
  show ?thesis by (rule ingest_resent_batch_rejected [OF o]) (simp add: run_exists_def empty_db_def)
qed


text \<open>
  A run id of one tenant is not protected from another. Tenant \<open>u\<close> sends an event
  for the run id that tenant \<open>t\<close> already uses: the run row is left to \<open>t\<close>, the event is
  stored under \<open>u\<close>, and the next genuine event of \<open>t\<close> with that \<open>seq\<close> is accepted but
  not stored.
\<close>

theorem ingest_run_id_squatting:
  "\<exists>env lines1 lines2 lines3 d1 d2 d3 out1 out2 out3.
     ingest env ''t'' lines1 empty_db = Inr (out1, d1) \<and> ingest env ''u'' lines2 d1 = Inr (out2, d2)
   \<and> ingest env ''t'' lines3 d2 = Inr (out3, d3)
   \<and> io_inserted out2 = 1 \<and> io_total_in_batch out3 = 1 \<and> io_inserted out3 = 0
   \<and> select_events ''r'' ''t'' d3 = select_events ''r'' ''t'' d1"
proof -
  let ?d2 = "\<lparr>db_runs = [created_run ex_env ''r'' ''t'' [ia, ib]],
     db_events = map (event_row_of ex_env ''t'') [ia, ib] @ [event_row_of ex_env ''u'' ie_item]\<rparr>"
  obtain out1 where 1: "ingest ex_env ''t'' ex_ab empty_db = Inr (out1, ex_db1)" using ex_ingest1 by blast
  have 2: "\<exists>out. ingest ex_env ''u'' [ex_line (CHR ''e'')] ex_db1 = Inr (out, ?d2) \<and> io_inserted out = 1"
    by (simp add: ex_eval ex_db1_def)
  have 3: "\<exists>out d3. ingest ex_env ''t'' [ex_line (CHR ''f'')] ?d2 = Inr (out, d3)
      \<and> io_total_in_batch out = 1 \<and> io_inserted out = 0 \<and> db_events d3 = db_events ?d2"
    by (simp add: ex_eval)
  have "select_events ''r'' ''t'' d3 = select_events ''r'' ''t'' ex_db1" if "db_events d3 = db_events ?d2" for d3
    by (simp only: select_events_def that) (simp add: ex_db1_def)
  with 1 2 3 show ?thesis by blast
qed

section \<open>Properties of the verification\<close>

text \<open>
  C1: ingest and verification agree. In a database built by accepted batches that were
  sent in sequence (each starts after the last stored \<open>seq\<close> of its run, and run ids are
  not shared by tenants), \<open>verify.chain\<close> finds every run of the tenant valid, and counts
  as many events as the run row does.
\<close>

theorem ingested_runs_verify:
  assumes "reachable_db sha256 d" and "select_run r t d = Some row"
  shows "\<exists>n msg. verify_chain sha256 t r d = RunValid r n msg \<and> int n = rr_event_count row"
proof -
  have ok: "stored_ok sha256 d" by (rule reachable_stored_ok [OF assms(1)])
  note R = select_run_Some [OF assms(2)]
  have row: "row_ok sha256 d row" and wf: "db_wf d" using ok R by (auto simp: stored_ok_def)
  have es: "run_events d row = sort_key er_seq (select_events r t d)" using R by (simp add: run_events_def)
  have "\<forall>e\<in>set (select_events r t d). 0 < er_seq e" using row by (force simp: row_ok_def es)
  then have f: "fetch_pages (select_events r t d) 0 = run_events d row"
    by (simp add: fetch_pages_run_events [OF wf] es)
  have v: "verifyChain sha256 (map chain_event_of (run_events d row)) = ChainValid (length (run_events d row))"
    using row by (intro verifyChain_rows) (simp_all add: row_ok_def es)
  show ?thesis
    using assms(2) row v by (simp add: verify_chain_def f Let_def row_ok_def)
qed

theorem ingested_runs_verify_witness:
  "\<exists>n msg. verify_chain (\<lambda>s. s) ''t'' ''r'' ex_db1 = RunValid ''r'' n msg \<and> int n = 2"
proof -
  have "select_run ''r'' ''t'' ex_db1 = Some (created_run ex_env ''r'' ''t'' [ia, ib])"
    by (simp add: select_run_def ex_db1_def)
  from ingested_runs_verify [OF ex_reachable this] show ?thesis by simp
qed

text \<open>
  C2: whatever the stored rows are (hashes, links and lines altered at will, within the
  constraints of the schema), \<open>verify.chain\<close> calls a run valid exactly when all its rows
  of the tenant, in the order of \<open>seq\<close> and over every page, form a hash chain; the count
  it gives is the number of rows.
\<close>

theorem verify_chain_reads_all_pages:
  assumes "db_wf d" and "\<forall>e\<in>set (select_events r t d). 0 < er_seq e"
  shows "(\<exists>msg. verify_chain sha256 t r d = RunValid r n msg) \<longleftrightarrow>
    select_run r t d \<noteq> None \<and> n = length (select_events r t d)
    \<and> chained er_hash er_hash_prev (\<lambda>e. computeEventHash sha256 (chain_event_of e) = er_hash e) None
        (sort_key er_seq (select_events r t d))"
proof (cases "select_run r t d")
  case (Some row)
  let ?es = "sort_key er_seq (select_events r t d)"
  have c: "chained er_hash er_hash_prev (\<lambda>e. computeEventHash sha256 (chain_event_of e) = er_hash e) None ?es
      \<longleftrightarrow> chain_valid (verifyChain sha256 (map chain_event_of ?es))"
  proof -
    have "sort_key ce_seq (map chain_event_of ?es) = map chain_event_of ?es"
      by (intro sort_key_id_if_sorted) (simp add: comp_def chain_event_of_def)
    then show ?thesis by (simp add: verifyChain_valid_iff chained_map comp_def chain_event_of_def)
  qed
  have n: "m = length ?es" if "verifyChain sha256 (map chain_event_of ?es) = ChainValid m" for m
    using that verify_loop_count(1) [of sha256 _ None "sort_key ce_seq (map chain_event_of ?es)"]
    by (auto simp: verifyChain_def split: if_splits)
  show ?thesis
    using Some n unfolding c verify_chain_def fetch_pages_run_events [OF assms]
    by (auto simp: Let_def chain_valid_def verifyChain_def split: ChainVerifyResult.splits)
qed (simp add: verify_chain_def)

theorem verify_chain_reads_all_pages_witness:
  "(\<exists>msg. verify_chain (\<lambda>s. s) ''t'' ''r'' ex_db1 = RunValid ''r'' 2 msg) \<longleftrightarrow>
    select_run ''r'' ''t'' ex_db1 \<noteq> None \<and> 2 = length (select_events ''r'' ''t'' ex_db1)
    \<and> chained er_hash er_hash_prev (\<lambda>e. computeEventHash (\<lambda>s. s) (chain_event_of e) = er_hash e) None
        (sort_key er_seq (select_events ''r'' ''t'' ex_db1))"
  by (rule verify_chain_reads_all_pages)
    (simp_all add: db_wf_def run_exists_def select_events_def ex_db1_def)

end
