(* ===== verification/Ipc_Client.thy ===== *)
theory Ipc_Client
  imports Json_Values
begin

text \<open>
  \<open>packages/ipc-client/src\<close>: the messages (\<open>protocol.ts\<close>), the errors (\<open>errors.ts\<close>) and
  the connection to the engine (\<open>connection.ts\<close>), which the shim and the MCP proxy share.

  The connection is a state machine over what the operating system and the engine do. The
  record \<open>net\<close> holds the fields of \<open>EngineConnection\<close> (\<open>nt_connected\<close>: the socket is not
  null; \<open>nt_buffer\<close>: the bytes received) and the script of the environment: the outcome
  of every connection attempt and of every write (\<open>None\<close> for success, otherwise the error
  message) and the socket events that are delivered to a waiting \<open>recvResponse\<close>. It also
  records the lines passed to \<open>write\<close> and the pauses made. A promise that waits for an
  event the script does not hold is \<open>Pending\<close>; an error thrown out of an event listener
  settles no promise and is \<open>Uncaught\<close>.

  Bytes are characters. \<open>parse\<close>, a parameter, is \<open>JSON.parse\<close> after UTF-8 decoding.
\<close>

section \<open>Messages\<close>

text \<open>Optional fields are \<open>JUndefined\<close> when absent.\<close>

record DecisionRequest =
  rq_schema_version :: int
  rq_run_id :: string
  rq_seq :: int
  rq_tool :: jsval
  rq_args_hash :: string
  rq_ts :: string
  rq_args_redacted :: jsval
  rq_agent_role :: jsval
  rq_agent_name :: jsval
  rq_model :: jsval
  rq_input_tokens :: jsval
  rq_output_tokens :: jsval
  rq_estimated_cost_usd :: jsval
  rq_environment :: jsval

definition opt_field :: "string \<Rightarrow> jsval \<Rightarrow> (string \<times> jsval) list" where
  "opt_field k v = (if v = JUndefined then [] else [(k, v)])"

definition toDict :: "DecisionRequest \<Rightarrow> (string \<times> jsval) list" where
  "toDict r =
    [(''schema_version'', JNum (num_of_int (rq_schema_version r))),
     (''run_id'', JStr (rq_run_id r)),
     (''seq'', JNum (num_of_int (rq_seq r))),
     (''tool'', rq_tool r),
     (''args_hash'', JStr (rq_args_hash r)),
     (''ts'', JStr (rq_ts r))]
    @ opt_field ''args_redacted'' (rq_args_redacted r)
    @ opt_field ''agent_role'' (rq_agent_role r)
    @ opt_field ''agent_name'' (rq_agent_name r)
    @ opt_field ''model'' (rq_model r)
    @ opt_field ''input_tokens'' (rq_input_tokens r)
    @ opt_field ''output_tokens'' (rq_output_tokens r)
    @ opt_field ''estimated_cost_usd'' (rq_estimated_cost_usd r)
    @ opt_field ''environment'' (rq_environment r)"

definition newline :: char where "newline = CHR 0x0A"

definition toNdjson :: "DecisionRequest \<Rightarrow> js_error + string" where
  "toNdjson r = bind_result (json_stringify (JObj (toDict r)))
     (\<lambda>s. Inr (utf8 ((case s of None \<Rightarrow> ''undefined'' | Some t \<Rightarrow> t) @ [newline])))"

text \<open>The response as the constructor fills it in; nothing checks the types.\<close>

record DecisionResponse =
  rs_schema_version :: jsval
  rs_run_id :: jsval
  rs_seq :: jsval
  rs_decision :: jsval
  rs_rule_id :: jsval
  rs_reason :: jsval
  rs_cooldown_ms :: jsval
  rs_cooldown_message :: jsval
  rs_approval_id :: jsval
  rs_approval_timeout_ms :: jsval
  rs_approval_timeout_action :: jsval
  rs_budget_remaining :: jsval
  rs_ts :: jsval

definition response_of :: "jsval \<Rightarrow> DecisionResponse" where
  "response_of d =
    \<lparr>rs_schema_version = jget d ''schema_version'', rs_run_id = jget d ''run_id'',
     rs_seq = jget d ''seq'', rs_decision = jget d ''decision'', rs_rule_id = jget d ''rule_id'',
     rs_reason = jget d ''reason'', rs_cooldown_ms = jget d ''cooldown_ms'',
     rs_cooldown_message = jget d ''cooldown_message'', rs_approval_id = jget d ''approval_id'',
     rs_approval_timeout_ms = jget d ''approval_timeout_ms'',
     rs_approval_timeout_action = jget d ''approval_timeout_action'',
     rs_budget_remaining = jget d ''budget_remaining'', rs_ts = jget d ''ts''\<rparr>"

section \<open>Errors\<close>

datatype exn =
    EngineUnavailableError string
  | PolicyDeniedError jsval jsval                  \<comment> \<open>\<open>ruleId\<close>, \<open>reason\<close>\<close>
  | CooldownError jsval jsval                      \<comment> \<open>\<open>cooldownMs\<close>, \<open>cooldownMessage\<close>\<close>
  | RunTerminatedError jsval jsval                 \<comment> \<open>\<open>ruleId\<close>, \<open>reason\<close>\<close>
  | ApprovalRequiredError jsval jsval jsval        \<comment> \<open>\<open>approvalId\<close>, \<open>timeoutMs\<close>, \<open>timeoutAction\<close>\<close>
  | ConnectionClosedError
  | MessageTooLargeError nat
  | JsError string                                 \<comment> \<open>\<open>SyntaxError\<close>, \<open>TypeError\<close>, by message\<close>

definition rule_parts :: "string \<Rightarrow> jsval \<Rightarrow> jsval \<Rightarrow> string list" where
  "rule_parts what ruleId reason =
     [what] @ (if truthy ruleId then [''rule='' @ show_val ruleId] else [])
            @ (if truthy reason then [show_val reason] else [])"

fun exn_message :: "exn \<Rightarrow> string" where
  "exn_message (EngineUnavailableError m) = m"
| "exn_message (PolicyDeniedError r w) = join '': '' (rule_parts ''policy denied'' r w)"
| "exn_message (CooldownError ms m) =
     ''cooldown '' @ show_val ms @ ''ms'' @ (if truthy m then '': '' @ show_val m else [])"
| "exn_message (RunTerminatedError r w) = join '': '' (rule_parts ''run terminated'' r w)"
| "exn_message (ApprovalRequiredError i t a) =
     ''approval required: id='' @ show_val i @ '', timeout='' @ show_val t @ ''ms, action='' @ show_val a"
| "exn_message ConnectionClosedError = ''Engine closed the connection unexpectedly''"
| "exn_message (MessageTooLargeError n) =
     ''message size '' @ show_nat n @ '' exceeds 65536 byte limit''"
| "exn_message (JsError m) = m"

definition fromJson :: "(string \<Rightarrow> jsval option) \<Rightarrow> string \<Rightarrow> exn + DecisionResponse" where
  "fromJson parse line =
    (case parse line of
       None \<Rightarrow> Inl (JsError ''SyntaxError'')
     | Some v \<Rightarrow> if v = JNull then Inl (JsError ''TypeError'') else Inr (response_of v))"

section \<open>Promises\<close>

datatype 'a outcome = Resolved 'a | Rejected exn | Uncaught exn | Pending

text \<open>\<open>await\<close>, and \<open>try ... catch\<close> around an awaited expression.\<close>

definition await :: "'a outcome \<times> 's \<Rightarrow> ('a \<Rightarrow> 's \<Rightarrow> 'b outcome \<times> 's) \<Rightarrow> 'b outcome \<times> 's" where
  "await r k = (case r of (Resolved a, s) \<Rightarrow> k a s | (Rejected e, s) \<Rightarrow> (Rejected e, s)
     | (Uncaught e, s) \<Rightarrow> (Uncaught e, s) | (Pending, s) \<Rightarrow> (Pending, s))"

definition catch :: "'a outcome \<times> 's \<Rightarrow> (exn \<Rightarrow> 's \<Rightarrow> 'a outcome \<times> 's) \<Rightarrow> 'a outcome \<times> 's" where
  "catch r h = (case r of (Rejected e, s) \<Rightarrow> h e s | _ \<Rightarrow> r)"

lemma await_simps [simp]:
  "await (Resolved a, s) k = k a s"
  "await (Rejected e, s) k = (Rejected e, s)"
  "await (Uncaught e, s) k = (Uncaught e, s)"
  "await (Pending, s) k = (Pending, s)"
  by (simp_all add: await_def)

lemma catch_simps [simp]:
  "catch (Resolved a, s) h = (Resolved a, s)"
  "catch (Rejected e, s) h = h e s"
  "catch (Uncaught e, s) h = (Uncaught e, s)"
  "catch (Pending, s) h = (Pending, s)"
  by (simp_all add: catch_def)

lemma await_Resolved:
  "await r k = (Resolved b, s') \<longleftrightarrow> (\<exists>a s. r = (Resolved a, s) \<and> k a s = (Resolved b, s'))"
  by (cases r; cases "fst r") (auto simp: await_def)

lemma catch_Resolved:
  "catch r h = (Resolved b, s') \<longleftrightarrow>
     r = (Resolved b, s') \<or> (\<exists>e s. r = (Rejected e, s) \<and> h e s = (Resolved b, s'))"
  by (cases r; cases "fst r") (auto simp: catch_def)

section \<open>EngineConnection\<close>

definition MAX_MESSAGE_SIZE :: nat where "MAX_MESSAGE_SIZE = 65536"

definition default_socket_path :: "bool \<Rightarrow> string" where
  "default_socket_path win32 =
     (if win32 then [CHR 0x5C, CHR 0x5C] @ ''.'' @ [CHR 0x5C] @ ''pipe'' @ [CHR 0x5C] @ ''loopstorm-engine''
      else ''/tmp/loopstorm-engine.sock'')"

definition resolveSocketPath :: "string option \<Rightarrow> string option \<Rightarrow> bool \<Rightarrow> string" where
  "resolveSocketPath socketPath envPath win32 =
     (if socketPath \<noteq> None \<and> socketPath \<noteq> Some [] then the socketPath
      else if envPath \<noteq> None \<and> envPath \<noteq> Some [] then the envPath
      else default_socket_path win32)"

datatype sock_event = SockData string | SockError string | SockClose | SockTimeout

record net =
  nt_connected :: bool
  nt_buffer :: string
  nt_connects :: "string option list"
  nt_writes :: "string option list"
  nt_events :: "sock_event list"
  nt_written :: "string list"
  nt_waits :: "jsval list"

definition connect :: "net \<Rightarrow> unit outcome \<times> net" where
  "connect n =
    (case nt_connects n of
       [] \<Rightarrow> (Pending, n)
     | None # cs \<Rightarrow> (Resolved (), n\<lparr>nt_connected := True, nt_buffer := [], nt_connects := cs\<rparr>)
     | Some m # cs \<Rightarrow> (Rejected (EngineUnavailableError m), n\<lparr>nt_connects := cs\<rparr>))"

definition ensureConnected :: "net \<Rightarrow> unit outcome \<times> net" where
  "ensureConnected n = (if nt_connected n then (Resolved (), n) else connect n)"

definition write_line :: "string \<Rightarrow> net \<Rightarrow> unit outcome \<times> net" where
  "write_line line n =
    (let n' = n\<lparr>nt_written := nt_written n @ [line], nt_writes := tl (nt_writes n)\<rparr> in
     case nt_writes n of
       [] \<Rightarrow> (Pending, n')
     | None # _ \<Rightarrow> (Resolved (), n')
     | Some m # _ \<Rightarrow> (Rejected (EngineUnavailableError m), n'))"

definition sendRequest :: "DecisionRequest \<Rightarrow> net \<Rightarrow> unit outcome \<times> net" where
  "sendRequest req n = await (ensureConnected n) (\<lambda>_ n.
     case toNdjson req of
       Inl (TypeError m) \<Rightarrow> (Rejected (JsError m), n)
     | Inr line \<Rightarrow>
         if length line > MAX_MESSAGE_SIZE
         then (Rejected (MessageTooLargeError (length line)), n)
         else write_line line n)"

text \<open>The first line of the buffer, when it holds one, and what follows it.\<close>

fun split_line :: "string \<Rightarrow> (string \<times> string) option" where
  "split_line [] = None"
| "split_line (c # cs) = (if c = newline then Some ([], cs)
     else (case split_line cs of None \<Rightarrow> None | Some (l, r) \<Rightarrow> Some (c # l, r)))"

text \<open>The listeners of \<open>recvResponse\<close>, on the events that arrive while it waits.\<close>

fun recv_events ::
  "(string \<Rightarrow> jsval option) \<Rightarrow> string \<Rightarrow> sock_event list \<Rightarrow>
   DecisionResponse outcome \<times> string \<times> sock_event list" where
  "recv_events parse buf [] = (Pending, buf, [])"
| "recv_events parse buf (SockData chunk # es) =
    (let buf' = buf @ chunk in
     if length buf' > MAX_MESSAGE_SIZE
     then (Rejected (MessageTooLargeError (length buf')), buf', es)
     else (case split_line buf' of
         None \<Rightarrow> recv_events parse buf' es
       | Some (line, rest) \<Rightarrow>
          (case fromJson parse line of
             Inl e \<Rightarrow> (Uncaught e, rest, es)
           | Inr r \<Rightarrow> (Resolved r, rest, es))))"
| "recv_events parse buf (SockError m # es) = (Rejected (EngineUnavailableError m), buf, es)"
| "recv_events parse buf (SockClose # es) = (Rejected ConnectionClosedError, buf, es)"
| "recv_events parse buf (SockTimeout # es) =
     (Rejected (EngineUnavailableError ''socket timeout''), buf, es)"

definition recvResponse :: "(string \<Rightarrow> jsval option) \<Rightarrow> net \<Rightarrow> DecisionResponse outcome \<times> net" where
  "recvResponse parse n =
    (if \<not> nt_connected n then (Rejected (EngineUnavailableError ''not connected''), n)
     else (case split_line (nt_buffer n) of
       Some (line, rest) \<Rightarrow>
         ((case fromJson parse line of Inl e \<Rightarrow> Rejected e | Inr r \<Rightarrow> Resolved r),
          n\<lparr>nt_buffer := rest\<rparr>)
     | None \<Rightarrow>
         (let (r, buf, es) = recv_events parse (nt_buffer n) (nt_events n)
          in (r, n\<lparr>nt_buffer := buf, nt_events := es\<rparr>))))"

definition request :: "(string \<Rightarrow> jsval option) \<Rightarrow> DecisionRequest \<Rightarrow> net \<Rightarrow> DecisionResponse outcome \<times> net" where
  "request parse req n = await (sendRequest req n) (\<lambda>_ n. recvResponse parse n)"

definition close :: "net \<Rightarrow> net" where
  "close n = (if nt_connected n then n\<lparr>nt_connected := False, nt_buffer := []\<rparr> else n)"

definition reconnect :: "net \<Rightarrow> unit outcome \<times> net" where
  "reconnect n = connect (close n)"

section \<open>Line framing\<close>

lemma split_line_None: "split_line s = None \<longleftrightarrow> newline \<notin> set s"
  by (induction s) (auto split: option.splits)

lemma split_line_Some:
  "split_line s = Some (l, r) \<longleftrightarrow> s = l @ newline # r \<and> newline \<notin> set l"
proof (induction s arbitrary: l)
  case (Cons c s)
  note IH = Cons.IH
  show ?case
  proof (cases "c = newline")
    case True
    then show ?thesis by (cases l) auto
  next
    case False
    show ?thesis
    proof (cases l)
      case Nil
      with False show ?thesis by (auto split: option.splits)
    next
      case (Cons d l')
      have "split_line (c # s) = Some (l, r) \<longleftrightarrow> c = d \<and> split_line s = Some (l', r)"
        using False Cons by (auto split: option.splits)
      with IH False Cons show ?thesis by auto
    qed
  qed
qed simp

text \<open>What is left over for the next response: the rest of the buffer and the later chunks.\<close>

fun pending_bytes :: "sock_event list \<Rightarrow> string" where
  "pending_bytes (SockData c # es) = c @ pending_bytes es"
| "pending_bytes _ = []"

lemma recv_events_reassembles:
  assumes "buf @ concat chunks = line @ newline # rest" and "newline \<notin> set line" and "newline \<notin> set buf"
    and "length (line @ newline # rest) \<le> MAX_MESSAGE_SIZE" and "fromJson parse line = Inr r"
  shows "\<exists>buf' es'. recv_events parse buf (map SockData chunks) = (Resolved r, buf', es')
    \<and> buf' @ pending_bytes es' = rest"
  using assms
proof (induction chunks arbitrary: buf)
  case Nil
  then have "newline \<in> set buf" by simp
  with Nil show ?case by simp
next
  case (Cons c cs)
  have len: "length (buf @ c) \<le> MAX_MESSAGE_SIZE"
  proof -
    have "length (buf @ c) \<le> length (buf @ concat (c # cs))" by simp
    with Cons.prems(1,4) show ?thesis by simp
  qed
  have pend: "pending_bytes (map SockData xs) = concat xs" for xs by (induction xs) auto
  show ?case
  proof (cases "split_line (buf @ c)")
    case None
    then have "newline \<notin> set (buf @ c)" by (simp add: split_line_None)
    with Cons.IH [of "buf @ c"] Cons.prems obtain buf' es' where
      "recv_events parse (buf @ c) (map SockData cs) = (Resolved r, buf', es')" "buf' @ pending_bytes es' = rest"
      by auto
    with None len show ?thesis by (simp add: Let_def)
  next
    case (Some p)
    then obtain l x where lx: "split_line (buf @ c) = Some (l, x)" by (cases p) auto
    then have eq: "buf @ c = l @ newline # x" "newline \<notin> set l" by (auto simp: split_line_Some)
    have "l @ newline # (x @ concat cs) = (l @ newline # x) @ concat cs" by simp
    also have "\<dots> = line @ newline # rest" using Cons.prems(1) by (simp flip: eq(1))
    finally have "split_line (line @ newline # rest) = Some (l, x @ concat cs)"
      using eq(2) by (simp add: split_line_Some)
    moreover have "split_line (line @ newline # rest) = Some (line, rest)"
      using Cons.prems(2) by (simp add: split_line_Some)
    ultimately have "l = line \<and> x @ concat cs = rest" by simp
    with lx len Cons.prems(5) show ?thesis by (simp add: pend Let_def)
  qed
qed

section \<open>What is written\<close>

lemma write_line_simps:
  "nt_written (snd (write_line l n)) = nt_written n @ [l]"
  "nt_connected (snd (write_line l n)) = nt_connected n"
  by (simp_all add: write_line_def Let_def split: list.splits option.splits)

lemma connect_written [simp]: "nt_written (snd (connect n)) = nt_written n"
  by (simp add: connect_def split: list.splits option.splits)

lemma close_written [simp]: "nt_written (close n) = nt_written n"
  by (simp add: close_def)

lemma connect_waits [simp]: "nt_waits (snd (connect n)) = nt_waits n"
  by (simp add: connect_def split: list.splits option.splits)

lemma recvResponse_written [simp]: "nt_written (snd (recvResponse parse n)) = nt_written n"
  by (simp add: recvResponse_def split: option.splits prod.splits)

lemma sendRequest_written:
  "nt_written (snd (sendRequest req n)) = nt_written n \<or>
   (\<exists>l. toNdjson req = Inr l \<and> length l \<le> MAX_MESSAGE_SIZE
      \<and> nt_written (snd (sendRequest req n)) = nt_written n @ [l])"
proof -
  obtain o1 n1 where e: "ensureConnected n = (o1, n1)" by (cases "ensureConnected n") auto
  then have "nt_written n1 = nt_written n"
    using connect_written [of n] unfolding ensureConnected_def by (metis prod.inject snd_conv)
  then show ?thesis
    by (cases o1)
      (auto simp: sendRequest_def e write_line_simps not_less split: sum.splits js_error.splits)
qed

lemma request_written:
  "nt_written (snd (request parse req n)) = nt_written n \<or>
   (\<exists>l. toNdjson req = Inr l \<and> length l \<le> MAX_MESSAGE_SIZE
      \<and> nt_written (snd (request parse req n)) = nt_written n @ [l])"
proof -
  obtain o1 n1 where s: "sendRequest req n = (o1, n1)" by (cases "sendRequest req n") auto
  then have "nt_written (snd (request parse req n)) = nt_written n1"
    by (cases o1) (simp_all add: request_def)
  with sendRequest_written [of req n] s show ?thesis by simp
qed

section \<open>Properties\<close>

text \<open>
  C17: the response read is independent of how the bytes were split into chunks: when the
  buffer and the chunks that arrive together hold a line of at most 64 KiB, the promise of
  \<open>recvResponse\<close> resolves to that line, and buffer and unused chunks together hold what
  follows it.
\<close>

theorem recvResponse_any_chunking:
  assumes "nt_connected n" and "newline \<notin> set (nt_buffer n)" and "nt_events n = map SockData chunks"
    and "nt_buffer n @ concat chunks = line @ newline # rest" and "newline \<notin> set line"
    and "length (line @ newline # rest) \<le> MAX_MESSAGE_SIZE" and "fromJson parse line = Inr r"
  shows "\<exists>n'. recvResponse parse n = (Resolved r, n')
    \<and> nt_buffer n' @ pending_bytes (nt_events n') = rest"
proof -
  from recv_events_reassembles [OF assms(4,5,2,6,7)] obtain buf' es' where
    "recv_events parse (nt_buffer n) (map SockData chunks) = (Resolved r, buf', es')"
    "buf' @ pending_bytes es' = rest" by blast
  with assms(1-3) show ?thesis by (simp add: recvResponse_def split_line_None [THEN iffD2])
qed

theorem recvResponse_any_chunking_witness:
  "\<exists>n'. recvResponse (\<lambda>s. Some (JStr s)) \<lparr>nt_connected = True, nt_buffer = ''a'', nt_connects = [],
      nt_writes = [], nt_events = map SockData [''b'', [newline, CHR ''c''], ''d''], nt_written = [], nt_waits = []\<rparr>
    = (Resolved (response_of (JStr ''ab'')), n')
    \<and> nt_buffer n' @ pending_bytes (nt_events n') = ''cd''"
  by (rule recvResponse_any_chunking [where line = "''ab''" and chunks = "[''b'', [newline, CHR ''c''], ''d'']"])
    (simp_all add: newline_def fromJson_def MAX_MESSAGE_SIZE_def)

end
