(* ===== verification/Guard_Shim.thy ===== *)
theory Guard_Shim
  imports Ipc_Client Complex_Main
begin

text \<open>
  \<open>apps/shim-ts/src\<close>: the class \<open>Guard\<close> (\<open>guard.ts\<close>), which asks the engine before every
  tool call, and the adapter for OpenAI clients (\<open>openai.ts\<close>), which relies on it through
  the interface \<open>GuardLike\<close>. SHA-256, \<open>JSON.parse\<close>, the clock and the random run id are
  parameters.
\<close>

section \<open>State and options\<close>

record GuardOptions =
  go_socketPath :: "string option"
  go_failOpen :: "bool option"
  go_runId :: "string option"
  go_agentRole :: jsval
  go_agentName :: jsval
  go_environment :: jsval
  go_model :: jsval
  go_timeout :: "rat option"

record guard =
  gd_socketPath :: string
  gd_timeoutMs :: rat
  gd_failOpen :: bool
  gd_runId :: string
  gd_agentRole :: jsval
  gd_agentName :: jsval
  gd_environment :: jsval
  gd_model :: jsval
  gd_seq :: nat
  gd_net :: net

record check_options =
  co_args :: jsval
  co_inputTokens :: jsval
  co_outputTokens :: jsval
  co_estimatedCostUsd :: jsval

record DecisionResult =
  dr_decision :: jsval
  dr_ruleId :: jsval
  dr_reason :: jsval
  dr_cooldownMs :: jsval
  dr_cooldownMessage :: jsval
  dr_budgetRemaining :: "(string \<times> jsval) list option"

definition new_Guard :: "GuardOptions \<Rightarrow> string option \<Rightarrow> bool \<Rightarrow> string \<Rightarrow> net \<Rightarrow> guard" where
  "new_Guard opts envPath win32 uuid n =
    \<lparr>gd_socketPath = resolveSocketPath (go_socketPath opts) envPath win32,
     gd_timeoutMs = (case go_timeout opts of None \<Rightarrow> 10 | Some t \<Rightarrow> t) * 1000,
     gd_failOpen = (case go_failOpen opts of None \<Rightarrow> True | Some b \<Rightarrow> b),
     gd_runId = (case go_runId opts of None \<Rightarrow> uuid | Some r \<Rightarrow> r),
     gd_agentRole = go_agentRole opts, gd_agentName = go_agentName opts,
     gd_environment = go_environment opts, gd_model = go_model opts,
     gd_seq = 0, gd_net = n\<lparr>nt_connected := False, nt_buffer := []\<rparr>\<rparr>"

section \<open>Asking the engine\<close>

definition send :: "(string \<Rightarrow> jsval option) \<Rightarrow> bool \<Rightarrow> DecisionRequest \<Rightarrow> net
    \<Rightarrow> DecisionResponse option outcome \<times> net" where
  "send parse failOpen req n =
     catch (await (request parse req n) (\<lambda>r n. (Resolved (Some r), n))) (\<lambda>_ n.
       catch (await (reconnect n) (\<lambda>_ n. await (request parse req n) (\<lambda>r n. (Resolved (Some r), n))))
         (\<lambda>retryErr n. if failOpen then (Resolved None, n)
            else (Rejected (EngineUnavailableError (exn_message retryErr)), n)))"

text \<open>\<open>ms > 0\<close> for the number the engine sent.\<close>

definition is_positive :: "jsval \<Rightarrow> bool" where
  "is_positive v = (case v of JNum (Dec neg s _) \<Rightarrow> \<not> neg \<and> s \<noteq> 0 | JNum (Infinity neg) \<Rightarrow> \<not> neg
     | JBool b \<Rightarrow> b | _ \<Rightarrow> False)"

definition budget_of :: "jsval \<Rightarrow> (string \<times> jsval) list option" where
  "budget_of br = (if \<not> truthy br then None else Some
     (opt_field ''costUsd'' (jget br ''cost_usd'') @ opt_field ''inputTokens'' (jget br ''input_tokens'')
      @ opt_field ''outputTokens'' (jget br ''output_tokens'') @ opt_field ''callCount'' (jget br ''call_count'')))"

definition handleDecision :: "DecisionResponse \<Rightarrow> net \<Rightarrow> DecisionResult outcome \<times> net" where
  "handleDecision r n =
    (let d = rs_decision r in
     if d = JStr ''allow'' then
       (Resolved \<lparr>dr_decision = d, dr_ruleId = rs_rule_id r, dr_reason = rs_reason r,
          dr_cooldownMs = rs_cooldown_ms r, dr_cooldownMessage = rs_cooldown_message r,
          dr_budgetRemaining = budget_of (rs_budget_remaining r)\<rparr>, n)
     else if d = JStr ''deny'' then (Rejected (PolicyDeniedError (rs_rule_id r) (rs_reason r)), n)
     else if d = JStr ''cooldown'' then
       (let ms = coalesce (rs_cooldown_ms r) (JNum (num_of_int 0)) in
        (Rejected (CooldownError ms (rs_cooldown_message r)),
         if is_positive ms then n\<lparr>nt_waits := nt_waits n @ [ms]\<rparr> else n))
     else if d = JStr ''kill'' then (Rejected (RunTerminatedError (rs_rule_id r) (rs_reason r)), n)
     else if d = JStr ''require_approval'' then
       (Rejected (ApprovalRequiredError (coalesce (rs_approval_id r) (JStr []))
          (coalesce (rs_approval_timeout_ms r) (JNum (num_of_int 0)))
          (coalesce (rs_approval_timeout_action r) (JStr ''deny''))), n)
     else (Rejected (RunTerminatedError JUndefined (JStr (''unknown decision: '' @ show_val d))), n))"

definition check_request :: "guard \<Rightarrow> string \<Rightarrow> string \<Rightarrow> jsval \<Rightarrow> check_options \<Rightarrow> DecisionRequest" where
  "check_request g hash now toolName options =
    \<lparr>rq_schema_version = 1, rq_run_id = gd_runId g, rq_seq = int (gd_seq g + 1), rq_tool = toolName,
     rq_args_hash = hash, rq_ts = now, rq_args_redacted = co_args options,
     rq_agent_role = gd_agentRole g, rq_agent_name = gd_agentName g, rq_model = gd_model g,
     rq_input_tokens = co_inputTokens options, rq_output_tokens = co_outputTokens options,
     rq_estimated_cost_usd = co_estimatedCostUsd options, rq_environment = gd_environment g\<rparr>"

record guard_env =
  ge_sha256 :: "string \<Rightarrow> string"
  ge_parse :: "string \<Rightarrow> jsval option"
  ge_now :: string

text \<open>
  What \<open>check\<close> does with the outcome of \<open>send\<close>: \<open>None\<close>, the engine is unavailable and the
  guard fails open, allows the call.
\<close>

definition open_result :: DecisionResult where
  "open_result = \<lparr>dr_decision = JStr ''allow'', dr_ruleId = JUndefined, dr_reason = JUndefined,
     dr_cooldownMs = JUndefined, dr_cooldownMessage = JUndefined, dr_budgetRemaining = None\<rparr>"

definition enforce_response ::
  "guard \<Rightarrow> DecisionResponse option \<Rightarrow> net \<Rightarrow> DecisionResult outcome \<times> net" where
  "enforce_response g response n =
    (case response of
       None \<Rightarrow> (Resolved open_result, n)
     | Some resp \<Rightarrow>
         if rs_seq resp \<noteq> JNum (num_of_int (int (gd_seq g))) \<or> rs_run_id resp \<noteq> JStr (gd_runId g)
         then (Rejected (RunTerminatedError JUndefined
            (JStr ''protocol error: seq/run_id mismatch in engine response'')), n)
         else handleDecision resp n)"

text \<open>\<open>fst\<close> of the result is the promise, \<open>snd\<close> the guard afterwards.\<close>

definition check :: "guard_env \<Rightarrow> jsval \<Rightarrow> check_options \<Rightarrow> guard \<Rightarrow> DecisionResult outcome \<times> guard" where
  "check env toolName options g =
    (let g1 = g\<lparr>gd_seq := gd_seq g + 1\<rparr> in
     case argsHash (ge_sha256 env) (coalesce (co_args options) JNull) of
       Inl (TypeError m) \<Rightarrow> (Rejected (JsError m), g1)
     | Inr hash \<Rightarrow>
        (let (r, n) = await (send (ge_parse env) (gd_failOpen g)
               (check_request g hash (ge_now env) toolName options) (gd_net g)) (enforce_response g1)
         in (r, g1\<lparr>gd_net := n\<rparr>)))"

definition close_guard :: "guard \<Rightarrow> guard" where
  "close_guard g = g\<lparr>gd_net := close (gd_net g)\<rparr>"

text \<open>
  \<open>wrap\<close>: the wrapped function acts on a world of its own; it is called only when \<open>check\<close>
  resolves.
\<close>

definition call_args :: "jsval list \<Rightarrow> jsval" where
  "call_args args = JObj (map (\<lambda>(i, a). (''arg'' @ show_nat i, a)) (enumerate 0 args))"

definition args_only :: "jsval \<Rightarrow> check_options" where
  "args_only args = \<lparr>co_args = args, co_inputTokens = JUndefined, co_outputTokens = JUndefined,
     co_estimatedCostUsd = JUndefined\<rparr>"

definition wrap :: "guard_env \<Rightarrow> jsval \<Rightarrow> (jsval list \<Rightarrow> 'w \<Rightarrow> 'r outcome \<times> 'w)
    \<Rightarrow> jsval list \<Rightarrow> guard \<times> 'w \<Rightarrow> 'r outcome \<times> guard \<times> 'w" where
  "wrap env toolName f args s =
    (case check env toolName (args_only (call_args args)) (fst s) of
       (Resolved _, g) \<Rightarrow> (let (r, w) = f args (snd s) in (r, g, w))
     | (Rejected e, g) \<Rightarrow> (Rejected e, g, snd s)
     | (Uncaught e, g) \<Rightarrow> (Uncaught e, g, snd s)
     | (Pending, g) \<Rightarrow> (Pending, g, snd s))"

section \<open>The OpenAI adapter\<close>

text \<open>Property access, \<open>for ... of\<close>; both throw on \<open>null\<close> and \<open>undefined\<close>.\<close>

definition js_prop :: "jsval \<Rightarrow> string \<Rightarrow> exn + jsval" where
  "js_prop v k = (if v = JUndefined \<or> v = JNull then Inl (JsError ''TypeError'') else Inr (jget v k))"

definition js_iter :: "jsval \<Rightarrow> exn + jsval list" where
  "js_iter v = (case v of JArr vs \<Rightarrow> Inr vs | JStr s \<Rightarrow> Inr (map (\<lambda>c. JStr [c]) s)
     | _ \<Rightarrow> Inl (JsError ''TypeError''))"

text \<open>The tool calls of one choice, none when \<open>message\<close> or \<open>tool_calls\<close> is falsy.\<close>

definition choice_calls :: "jsval \<Rightarrow> exn + jsval list" where
  "choice_calls choice =
    (let msg = jget choice ''message'' in
     if \<not> truthy msg then Inr []
     else (let toolCalls = jget msg ''tool_calls'' in
       if \<not> truthy toolCalls then Inr [] else js_iter toolCalls))"

text \<open>Name and parsed arguments of a tool call.\<close>

definition tool_call :: "(string \<Rightarrow> jsval option) \<Rightarrow> jsval \<Rightarrow> exn + jsval \<times> jsval" where
  "tool_call parse tc =
    bind_result (js_prop tc ''function'') (\<lambda>f.
    bind_result (js_prop f ''arguments'') (\<lambda>a.
      case parse (show_val a) of
        None \<Rightarrow> Inl (JsError ''SyntaxError'')
      | Some args \<Rightarrow> Inr (jget f ''name'', args)))"

type_synonym 's guard_check = "jsval \<Rightarrow> jsval \<Rightarrow> 's \<Rightarrow> DecisionResult outcome \<times> 's"

fun check_calls :: "(string \<Rightarrow> jsval option) \<Rightarrow> 's guard_check \<Rightarrow> jsval list \<Rightarrow> 's \<Rightarrow> unit outcome \<times> 's" where
  "check_calls parse chk [] s = (Resolved (), s)"
| "check_calls parse chk (tc # tcs) s =
    (case tool_call parse tc of
       Inl e \<Rightarrow> (Rejected e, s)
     | Inr (name, args) \<Rightarrow> await (chk name args s) (\<lambda>_ s. check_calls parse chk tcs s))"

fun check_choices :: "(string \<Rightarrow> jsval option) \<Rightarrow> 's guard_check \<Rightarrow> jsval list \<Rightarrow> 's \<Rightarrow> unit outcome \<times> 's" where
  "check_choices parse chk [] s = (Resolved (), s)"
| "check_choices parse chk (c # cs) s =
    (case choice_calls c of
       Inl e \<Rightarrow> (Rejected e, s)
     | Inr tcs \<Rightarrow> await (check_calls parse chk tcs s) (\<lambda>_ s. check_choices parse chk cs s))"

definition checkToolCalls :: "(string \<Rightarrow> jsval option) \<Rightarrow> 's guard_check \<Rightarrow> jsval \<Rightarrow> 's \<Rightarrow> unit outcome \<times> 's" where
  "checkToolCalls parse chk response s =
    (case bind_result (js_prop response ''choices'') js_iter of
       Inl e \<Rightarrow> (Rejected e, s)
     | Inr choices \<Rightarrow> check_choices parse chk choices s)"

text \<open>\<open>create\<close>, given what the wrapped client's \<open>create\<close> does.\<close>

definition create :: "(string \<Rightarrow> jsval option) \<Rightarrow> 's guard_check \<Rightarrow> jsval outcome \<Rightarrow> 's \<Rightarrow> jsval outcome \<times> 's" where
  "create parse chk answer s =
     await (answer, s) (\<lambda>response s.
       await (checkToolCalls parse chk response s) (\<lambda>_ s. (Resolved response, s)))"

definition guard_like_check :: "guard_env \<Rightarrow> guard guard_check" where
  "guard_like_check env name args = check env name (args_only args)"

text \<open>All tool calls a response holds, in order.\<close>

definition response_calls :: "jsval \<Rightarrow> jsval list" where
  "response_calls response = (case bind_result (js_prop response ''choices'') js_iter of Inl _ \<Rightarrow> []
     | Inr cs \<Rightarrow> concat (map (\<lambda>c. case choice_calls c of Inl _ \<Rightarrow> [] | Inr tcs \<Rightarrow> tcs) cs))"

text \<open>The calls of a list are permitted one after the other, from the first state to the last.\<close>

inductive permitted_run ::
  "(string \<Rightarrow> jsval option) \<Rightarrow> ('s \<Rightarrow> jsval \<Rightarrow> jsval \<Rightarrow> 's \<Rightarrow> bool) \<Rightarrow> 's \<Rightarrow> jsval list \<Rightarrow> 's \<Rightarrow> bool"
  for parse permits where
  nil: "permitted_run parse permits s [] s"
| call: "tool_call parse tc = Inr (name, args) \<Longrightarrow> permits s name args s1 \<Longrightarrow>
    permitted_run parse permits s1 tcs s2 \<Longrightarrow> permitted_run parse permits s (tc # tcs) s2"

lemma permitted_run_append:
  "permitted_run parse permits s xs s1 \<Longrightarrow> permitted_run parse permits s1 ys s2 \<Longrightarrow>
    permitted_run parse permits s (xs @ ys) s2"
  by (induction rule: permitted_run.induct) (auto intro: permitted_run.intros)

section \<open>The interface \<open>GuardLike\<close>\<close>

text \<open>
  What the adapter relies on: a \<open>check\<close> that resolves had the permission of the guard. Permission
  is given per call, in the state in which the call is checked.
\<close>

locale guard_like =
  fixes chk :: "'s guard_check" and permits :: "'s \<Rightarrow> jsval \<Rightarrow> jsval \<Rightarrow> 's \<Rightarrow> bool"
  assumes check_sound: "chk name args s = (Resolved r, s') \<Longrightarrow> permits s name args s'"
begin

lemma check_calls_permitted:
  "check_calls parse chk tcs s = (Resolved (), s') \<Longrightarrow> permitted_run parse permits s tcs s'"
proof (induction tcs arbitrary: s)
  case (Cons tc tcs)
  then obtain name args r s1 where tc: "tool_call parse tc = Inr (name, args)"
    and c: "chk name args s = (Resolved r, s1)" "check_calls parse chk tcs s1 = (Resolved (), s')"
    by (auto simp: await_Resolved split: sum.splits)
  show ?case by (rule permitted_run.call [OF tc check_sound [OF c(1)] Cons.IH [OF c(2)]])
qed (auto intro: permitted_run.intros)

lemma check_choices_permitted:
  "check_choices parse chk cs s = (Resolved (), s') \<Longrightarrow>
    permitted_run parse permits s (concat (map (\<lambda>c. case choice_calls c of Inl _ \<Rightarrow> [] | Inr tcs \<Rightarrow> tcs) cs)) s'"
proof (induction cs arbitrary: s)
  case (Cons c cs)
  then obtain tcs s1 where c: "choice_calls c = Inr tcs" "check_calls parse chk tcs s = (Resolved (), s1)"
    "check_choices parse chk cs s1 = (Resolved (), s')"
    by (auto simp: await_Resolved split: sum.splits)
  from permitted_run_append [OF check_calls_permitted [OF c(2)] Cons.IH [OF c(3)]] c(1)
  show ?case by simp
qed (auto intro: permitted_run.intros)

lemma create_permitted:
  assumes "create parse chk answer s = (Resolved response, s')"
  shows "answer = Resolved response \<and> permitted_run parse permits s (response_calls response) s'"
proof -
  from assms have a: "answer = Resolved response"
    and "checkToolCalls parse chk response s = (Resolved (), s')"
    by (auto simp: create_def await_Resolved)
  then have "permitted_run parse permits s (response_calls response) s'"
    using check_choices_permitted by (auto simp: checkToolCalls_def response_calls_def split: sum.splits)
  with a show ?thesis by simp
qed

end

section \<open>What \<open>send\<close> and \<open>check\<close> do\<close>

text \<open>The engine answers the request, at once or after the one reconnect.\<close>

definition engine_answers ::
  "(string \<Rightarrow> jsval option) \<Rightarrow> DecisionRequest \<Rightarrow> net \<Rightarrow> DecisionResponse \<Rightarrow> net \<Rightarrow> bool" where
  "engine_answers parse req n resp n' \<longleftrightarrow> request parse req n = (Resolved resp, n') \<or>
     (\<exists>e n1 n2. request parse req n = (Rejected e, n1) \<and> reconnect n1 = (Resolved (), n2)
        \<and> request parse req n2 = (Resolved resp, n'))"

text \<open>Both attempts fail.\<close>

definition engine_fails :: "(string \<Rightarrow> jsval option) \<Rightarrow> DecisionRequest \<Rightarrow> net \<Rightarrow> net \<Rightarrow> bool" where
  "engine_fails parse req n n' \<longleftrightarrow> (\<exists>e n1. request parse req n = (Rejected e, n1) \<and>
     ((\<exists>e2. reconnect n1 = (Rejected e2, n')) \<or>
      (\<exists>n2 e2. reconnect n1 = (Resolved (), n2) \<and> request parse req n2 = (Rejected e2, n'))))"

lemma await_Rejected:
  "await r k = (Rejected e, s') \<longleftrightarrow> r = (Rejected e, s') \<or> (\<exists>a s. r = (Resolved a, s) \<and> k a s = (Rejected e, s'))"
  by (cases r; cases "fst r") (auto simp: await_def)

lemma send_answer:
  "send parse fo req n = (Resolved (Some resp), n') \<longleftrightarrow> engine_answers parse req n resp n'"
  by (auto simp: send_def catch_Resolved await_Resolved await_Rejected engine_answers_def)

lemma send_open:
  "send parse fo req n = (Resolved None, n') \<longleftrightarrow> fo \<and> engine_fails parse req n n'"
  by (auto simp: send_def catch_Resolved await_Resolved await_Rejected engine_fails_def)

lemma handleDecision_Resolved:
  "handleDecision r n = (Resolved res, n') \<Longrightarrow> rs_decision r = JStr ''allow'' \<and> n' = n"
  by (auto simp: handleDecision_def Let_def split: if_splits)

text \<open>The permission a resolved \<open>check\<close> stands for.\<close>

definition allowed_by :: "guard \<Rightarrow> DecisionResponse \<Rightarrow> bool" where
  "allowed_by g resp \<longleftrightarrow> rs_decision resp = JStr ''allow'' \<and> rs_run_id resp = JStr (gd_runId g)
     \<and> rs_seq resp = JNum (num_of_int (int (gd_seq g + 1)))"

definition guard_permits :: "guard_env \<Rightarrow> guard \<Rightarrow> jsval \<Rightarrow> check_options \<Rightarrow> guard \<Rightarrow> bool" where
  "guard_permits env g tool options g' \<longleftrightarrow>
    (\<exists>hash. argsHash (ge_sha256 env) (coalesce (co_args options) JNull) = Inr hash \<and>
      (let req = check_request g hash (ge_now env) tool options in
       (\<exists>resp. engine_answers (ge_parse env) req (gd_net g) resp (gd_net g') \<and> allowed_by g resp)
       \<or> gd_failOpen g \<and> engine_fails (ge_parse env) req (gd_net g) (gd_net g')))"

lemma check_permits:
  assumes "check env tool options g = (Resolved res, g')"
  shows "guard_permits env g tool options g'"
proof -
  from assms obtain hash where h: "argsHash (ge_sha256 env) (coalesce (co_args options) JNull) = Inr hash"
    by (auto simp: check_def Let_def split: sum.splits js_error.splits)
  let ?req = "check_request g hash (ge_now env) tool options"
  from assms h obtain o1 n1 where s: "send (ge_parse env) (gd_failOpen g) ?req (gd_net g) = (Resolved o1, n1)"
    and k: "enforce_response (g\<lparr>gd_seq := gd_seq g + 1\<rparr>) o1 n1 = (Resolved res, gd_net g')"
    by (auto simp: check_def Let_def await_Resolved split: prod.splits)
  show ?thesis
  proof (cases o1)
    case None
    with k have "gd_net g' = n1" by (simp add: enforce_response_def)
    with s h None show ?thesis by (auto simp: guard_permits_def send_open Let_def)
  next
    case (Some resp)
    with k have hd: "handleDecision resp n1 = (Resolved res, gd_net g')"
      and "rs_seq resp = JNum (num_of_int (int (gd_seq g + 1)))" "rs_run_id resp = JStr (gd_runId g)"
      by (auto simp: enforce_response_def split: if_splits)
    with s h Some handleDecision_Resolved [OF hd] show ?thesis
      by (auto simp: guard_permits_def send_answer allowed_by_def Let_def)
  qed
qed

interpretation gl: guard_like "guard_like_check env"
  "\<lambda>g name args g'. guard_permits env g name (args_only args) g'" for env
  by unfold_locales (simp add: guard_like_check_def check_permits)

lemma check_seq [simp]: "gd_seq (snd (check env tool options g)) = gd_seq g + 1"
  by (simp add: check_def Let_def split: sum.splits js_error.splits prod.splits)

lemma handleDecision_written [simp]: "nt_written (snd (handleDecision r n)) = nt_written n"
  by (simp add: handleDecision_def Let_def)

text \<open>Every line a request writes is the encoding of the request, written at most twice.\<close>

lemma send_written:
  "\<exists>k l. k \<le> 2 \<and> nt_written (snd (send parse fo req n)) = nt_written n @ replicate k l
    \<and> (k > 0 \<longrightarrow> toNdjson req = Inr l \<and> length l \<le> MAX_MESSAGE_SIZE)"
proof -
  obtain o1 n1 where r1: "request parse req n = (o1, n1)" by (cases "request parse req n") auto
  obtain o2 n2 where r2: "reconnect n1 = (o2, n2)" by (cases "reconnect n1") auto
  obtain o3 n3 where r3: "request parse req n2 = (o3, n3)" by (cases "request parse req n2") auto
  have w2: "nt_written n2 = nt_written n1"
    using connect_written [of "close n1"] r2 by (simp add: reconnect_def del: connect_written)
  have w1: "nt_written n1 = nt_written n \<or>
      (\<exists>l. toNdjson req = Inr l \<and> length l \<le> MAX_MESSAGE_SIZE \<and> nt_written n1 = nt_written n @ [l])"
    using request_written [of parse req n] r1 by simp
  have w3: "nt_written n3 = nt_written n2 \<or>
      (\<exists>l. toNdjson req = Inr l \<and> length l \<le> MAX_MESSAGE_SIZE \<and> nt_written n3 = nt_written n2 @ [l])"
    using request_written [of parse req n2] r3 by simp
  have fin: "snd (send parse fo req n) \<in> {n1, n2, n3}"
    by (cases o1; cases o2; cases o3) (auto simp: send_def r1 r2 r3)
  have one: "\<exists>k l. k \<le> 2 \<and> nt_written n1 = nt_written n @ replicate k l
      \<and> (k > 0 \<longrightarrow> toNdjson req = Inr l \<and> length l \<le> MAX_MESSAGE_SIZE)"
    using w1 by (metis append_Nil2 le0 less_numeral_extra(3) replicate_0 replicate_Suc one_le_numeral
        One_nat_def)
  have two: "\<exists>k l. k \<le> 2 \<and> nt_written n3 = nt_written n @ replicate k l
      \<and> (k > 0 \<longrightarrow> toNdjson req = Inr l \<and> length l \<le> MAX_MESSAGE_SIZE)"
  proof (cases "nt_written n3 = nt_written n2")
    case True
    with one w2 show ?thesis by simp
  next
    case False
    with w3 obtain l where l: "toNdjson req = Inr l" "length l \<le> MAX_MESSAGE_SIZE" "nt_written n3 = nt_written n1 @ [l]"
      using w2 by auto
    show ?thesis
    proof (cases "nt_written n1 = nt_written n")
      case True
      with l show ?thesis by (intro exI [of _ 1] exI [of _ l]) simp
    next
      case False
      with w1 l have "nt_written n3 = nt_written n @ replicate 2 l" by (auto simp: numeral_2_eq_2)
      with l show ?thesis by (intro exI [of _ 2] exI [of _ l]) simp
    qed
  qed
  from fin one two w2 show ?thesis by auto
qed

section \<open>Properties\<close>

text \<open>
  C6: a guard that does not fail open is an enforcement point: the wrapped function acts
  only if the engine answered the request for this very call (its run id, its sequence
  number, the hash of its arguments) with \<open>allow\<close>, at once or after one reconnect.
\<close>

theorem wrap_acts_only_when_allowed:
  assumes "wrap env tool f args (g, w) = (r, g', w')" and "w' \<noteq> w" and "\<not> gd_failOpen g"
  shows "\<exists>hash resp. argsHash (ge_sha256 env) (call_args args) = Inr hash
    \<and> engine_answers (ge_parse env)
        (check_request g hash (ge_now env) tool (args_only (call_args args))) (gd_net g) resp (gd_net g')
    \<and> rs_decision resp = JStr ''allow'' \<and> rs_run_id resp = JStr (gd_runId g)
    \<and> rs_seq resp = JNum (num_of_int (int (gd_seq g + 1)))"
proof -
  from assms(1,2) obtain res where "check env tool (args_only (call_args args)) g = (Resolved res, g')"
    by (auto simp: wrap_def split: prod.splits outcome.splits)
  from check_permits [OF this] assms(3) show ?thesis
    by (auto simp: guard_permits_def Let_def allowed_by_def args_only_def coalesce_def call_args_def)
qed

definition ex_response :: jsval where
  "ex_response = JObj [(''run_id'', JStr ''r''), (''seq'', JNum (Dec False 1 0)), (''decision'', JStr ''allow'')]"

definition ex_net :: net where
  "ex_net = \<lparr>nt_connected = False, nt_buffer = [], nt_connects = [None], nt_writes = [None],
     nt_events = [SockData ''x'', SockData [newline]], nt_written = [], nt_waits = []\<rparr>"

definition ex_guard :: "bool \<Rightarrow> net \<Rightarrow> guard" where
  "ex_guard failOpen n = \<lparr>gd_socketPath = ''s'', gd_timeoutMs = 10000, gd_failOpen = failOpen, gd_runId = ''r'',
     gd_agentRole = JUndefined, gd_agentName = JUndefined, gd_environment = JUndefined,
     gd_model = JUndefined, gd_seq = 0, gd_net = n\<rparr>"

definition ex_genv :: guard_env where
  "ex_genv = \<lparr>ge_sha256 = (\<lambda>s. s), ge_parse = (\<lambda>s. if s = ''x'' then Some ex_response else None), ge_now = ''n''\<rparr>"

lemma ex_check:
  assumes "argsHash (ge_sha256 ex_genv) (coalesce (co_args options) JNull) = Inr hash"
    and "toNdjson (check_request (ex_guard False ex_net) hash ''n'' (JStr ''t'') options) = Inr line"
    and "length line \<le> 400"
  shows "\<exists>res g'. check ex_genv (JStr ''t'') options (ex_guard False ex_net) = (Resolved res, g')"
proof -
  have "\<not> length line > MAX_MESSAGE_SIZE" using assms(3) by (simp add: MAX_MESSAGE_SIZE_def)
  moreover have "num_of_int 1 = Dec False 1 0" by code_simp
  moreover have "ge_now ex_genv = ''n''" "gd_net (ex_guard False ex_net) = ex_net" "gd_failOpen (ex_guard False ex_net) = False"
    "gd_seq (ex_guard False ex_net) = 0" "gd_runId (ex_guard False ex_net) = ''r''"
    by (simp_all add: ex_genv_def ex_guard_def)
  moreover have "recvResponse (ge_parse ex_genv) (ex_net\<lparr>nt_connected := True, nt_buffer := [], nt_connects := [],
      nt_written := [line], nt_writes := []\<rparr>) = (Resolved (response_of ex_response),
      ex_net\<lparr>nt_connected := True, nt_buffer := [], nt_connects := [], nt_written := [line], nt_writes := [], nt_events := []\<rparr>)"
    by (simp add: recvResponse_def ex_net_def ex_genv_def fromJson_def ex_response_def newline_def MAX_MESSAGE_SIZE_def)
  moreover have "rs_seq (response_of ex_response) = JNum (Dec False 1 0)" "rs_run_id (response_of ex_response) = JStr ''r''"
    "rs_decision (response_of ex_response) = JStr ''allow''"
    by (simp_all add: response_of_def ex_response_def)
  ultimately show ?thesis
    using assms(1,2)
    by (simp add: check_def Let_def send_def request_def sendRequest_def ensureConnected_def connect_def
        ex_net_def write_line_def enforce_response_def handleDecision_def)
qed

theorem wrap_acts_only_when_allowed_witness:
  "\<exists>hash resp g'. argsHash (ge_sha256 ex_genv) (call_args []) = Inr hash
    \<and> engine_answers (ge_parse ex_genv) (check_request (ex_guard False ex_net) hash (ge_now ex_genv)
        (JStr ''t'') (args_only (call_args []))) (gd_net (ex_guard False ex_net)) resp g'
    \<and> rs_decision resp = JStr ''allow'' \<and> rs_run_id resp = JStr (gd_runId (ex_guard False ex_net))"
proof -
  let ?o = "args_only (call_args [])"
  have h: "argsHash (ge_sha256 ex_genv) (coalesce (co_args ?o) JNull) = Inr ''{}''" by code_simp
  have "case toNdjson (check_request (ex_guard False ex_net) ''{}'' ''n'' (JStr ''t'') ?o) of
      Inl _ \<Rightarrow> False | Inr l \<Rightarrow> length l \<le> 400" by code_simp
  then obtain l where l: "toNdjson (check_request (ex_guard False ex_net) ''{}'' ''n'' (JStr ''t'') ?o) = Inr l"
    "length l \<le> 400" by (auto split: sum.splits)
  from ex_check [OF h l] obtain res g' where
    "check ex_genv (JStr ''t'') ?o (ex_guard False ex_net) = (Resolved res, g')" by blast
  then have w: "wrap ex_genv (JStr ''t'') (\<lambda>_ k. (Resolved (), Suc k)) [] (ex_guard False ex_net, 0)
      = (Resolved (), g', Suc 0)"
    by (simp add: wrap_def)
  have "\<not> gd_failOpen (ex_guard False ex_net)" by (simp add: ex_guard_def)
  from wrap_acts_only_when_allowed [OF w nat.distinct(2) this] show ?thesis by blast
qed

text \<open>
  C20: every \<open>check\<close>, whatever its outcome, uses up one sequence number; all it writes to
  the socket is the encoding of the request with that number, of at most 64 KiB, once or
  twice.
\<close>

theorem check_sequence_discipline:
  "gd_seq (snd (check env tool options g)) = gd_seq g + 1
   \<and> gd_runId (snd (check env tool options g)) = gd_runId g
   \<and> (\<exists>k hash line. k \<le> 2
      \<and> nt_written (gd_net (snd (check env tool options g))) = nt_written (gd_net g) @ replicate k line
      \<and> (k = 0 \<or> (toNdjson (check_request g hash (ge_now env) tool options) = Inr line
            \<and> length line \<le> MAX_MESSAGE_SIZE)))"
proof (cases "argsHash (ge_sha256 env) (coalesce (co_args options) JNull)")
  case (Inl e)
  then show ?thesis by (cases e) (auto simp: check_def Let_def)
next
  case (Inr hash)
  let ?req = "check_request g hash (ge_now env) tool options"
  let ?g1 = "g\<lparr>gd_seq := gd_seq g + 1\<rparr>"
  obtain o1 n1 where s: "send (ge_parse env) (gd_failOpen g) ?req (gd_net g) = (o1, n1)"
    by (cases "send (ge_parse env) (gd_failOpen g) ?req (gd_net g)") auto
  have c: "nt_written (snd (enforce_response ?g1 resp n)) = nt_written n" for resp n
    by (simp add: enforce_response_def split: option.splits)
  have "nt_written (snd (await (o1, n1) (enforce_response ?g1))) = nt_written n1"
    using c by (cases o1) (simp_all del: One_nat_def add_Suc_right)
  then have w: "nt_written (gd_net (snd (check env tool options g))) = nt_written n1"
    by (simp add: check_def Let_def Inr s case_prod_beta)
  have runid: "gd_runId (snd (check env tool options g)) = gd_runId g"
    by (simp add: check_def Let_def Inr split: prod.splits)
  from send_written [of "ge_parse env" "gd_failOpen g" ?req "gd_net g"] s obtain k l where
    kl: "k \<le> 2" "nt_written n1 = nt_written (gd_net g) @ replicate k l"
      "k > 0 \<longrightarrow> toNdjson ?req = Inr l \<and> length l \<le> MAX_MESSAGE_SIZE" by auto
  then have "k = 0 \<or> (toNdjson ?req = Inr l \<and> length l \<le> MAX_MESSAGE_SIZE)" by blast
  with kl(1,2) w runid show ?thesis by (intro conjI exI [of _ k] exI [of _ hash] exI [of _ l]) auto
qed

text \<open>
  C21: \<open>create\<close> of the guarded OpenAI client hands out a response only after every tool
  call in it, in order, was permitted by the guard in the state left by the call before.
\<close>

theorem openai_response_fully_checked:
  assumes "create parse (guard_like_check env) answer g = (Resolved response, g')"
  shows "answer = Resolved response
    \<and> permitted_run parse (\<lambda>g name args g'. guard_permits env g name (args_only args) g')
        g (response_calls response) g'"
  using assms by (rule gl.create_permitted)

definition ex_choices :: jsval where
  "ex_choices = JObj [(''choices'', JArr [JObj [(''message'', JObj [(''tool_calls'',
     JArr [JObj [(''function'', JObj [(''name'', JStr ''t''), (''arguments'', JStr ''x'')])]])])]])]"

theorem openai_response_fully_checked_witness:
  "\<exists>g'. response_calls ex_choices \<noteq> [] \<and> permitted_run (ge_parse ex_genv)
     (\<lambda>g name args g'. guard_permits ex_genv g name (args_only args) g')
     (ex_guard False ex_net) (response_calls ex_choices) g'"
proof -
  let ?o = "args_only ex_response"
  let ?h = "''{'' @ quote_json ''decision'' @ '':'' @ quote_json ''allow'' @ '','' @ quote_json ''run_id'' @ '':''
    @ quote_json ''r'' @ '','' @ quote_json ''seq'' @ '':1}''"
  have h: "argsHash (ge_sha256 ex_genv) (coalesce (co_args ?o) JNull) = Inr ?h" by code_simp
  have "case toNdjson (check_request (ex_guard False ex_net) ?h ''n'' (JStr ''t'') ?o) of
      Inl _ \<Rightarrow> False | Inr l \<Rightarrow> length l \<le> 400" by code_simp
  then obtain l where l: "toNdjson (check_request (ex_guard False ex_net) ?h ''n'' (JStr ''t'') ?o) = Inr l"
    "length l \<le> 400" by (auto split: sum.splits)
  from ex_check [OF h l] obtain res g' where
    c: "check ex_genv (JStr ''t'') ?o (ex_guard False ex_net) = (Resolved res, g')" by blast
  note ev = ex_choices_def js_prop_def js_iter_def choice_calls_def
  have "create (ge_parse ex_genv) (guard_like_check ex_genv) (Resolved ex_choices) (ex_guard False ex_net)
      = (Resolved ex_choices, g')"
    using c by (simp add: create_def checkToolCalls_def ev tool_call_def guard_like_check_def ex_genv_def)
  from openai_response_fully_checked [OF this] show ?thesis
    by (auto simp: response_calls_def ev)
qed

text \<open>
  With the default \<open>failOpen\<close>, a request whose encoding exceeds 64 KiB is allowed
  without the engine ever seeing it, although the engine is connected and reachable.
\<close>

theorem oversized_request_fails_open:
  assumes "gd_failOpen g" and "nt_connected (gd_net g)" and "nt_connects (gd_net g) = None # cs"
    and "argsHash (ge_sha256 env) (coalesce (co_args options) JNull) = Inr hash"
    and "toNdjson (check_request g hash (ge_now env) tool options) = Inr line"
    and "length line > MAX_MESSAGE_SIZE"
  shows "fst (check env tool options g) = Resolved open_result
    \<and> nt_written (gd_net (snd (check env tool options g))) = nt_written (gd_net g)"
  using assms
  by (simp add: check_def Let_def send_def request_def sendRequest_def ensureConnected_def reconnect_def
      close_def connect_def enforce_response_def)

theorem oversized_request_fails_open_witness:
  "\<exists>options. fst (check ex_genv (JStr ''t'') options (ex_guard True (ex_net\<lparr>nt_connected := True\<rparr>))) = Resolved open_result"
proof -
  let ?g = "ex_guard True (ex_net\<lparr>nt_connected := True\<rparr>)"
  let ?o = "args_only (JStr (replicate 65536 (CHR ''x'')))"
  have q: "length (quote_json s) \<ge> length s" for s
    by (induction s) (auto simp: quote_json_def json_escape_char_def Let_def)
  have h: "argsHash (ge_sha256 ex_genv) (coalesce (co_args ?o) JNull) = Inr (quote_json (replicate 65536 (CHR ''x'')))"
    by (simp add: argsHash_def coalesce_def args_only_def ex_genv_def)
  let ?req = "check_request ?g (quote_json (replicate 65536 (CHR ''x''))) (ge_now ex_genv) (JStr ''t'') ?o"
  have qx: "length (quote_json (replicate 65536 (CHR ''x''))) \<ge> 65536"
    using q [of "replicate 65536 (CHR ''x'')"] by simp
  have "\<exists>s. json_stringify (JObj (toDict ?req)) = Inr (Some s) \<and> length s \<ge> 65537"
    using qx by (simp add: toDict_def opt_field_def check_request_def ex_guard_def args_only_def del: length_replicate)
  then obtain s where s: "json_stringify (JObj (toDict ?req)) = Inr (Some s)" "length s \<ge> 65537" by blast
  then have l: "toNdjson ?req = Inr (utf8 (s @ [newline]))" by (simp add: toNdjson_def)
  have big: "length (utf8 (s @ [newline])) > MAX_MESSAGE_SIZE"
    using length_utf8_ge [of "s @ [newline]"] s(2) by (simp add: MAX_MESSAGE_SIZE_def)
  have "gd_failOpen ?g" "nt_connected (gd_net ?g)" "nt_connects (gd_net ?g) = [None]"
    by (simp_all add: ex_guard_def ex_net_def)
  from oversized_request_fails_open [OF this h l big] show ?thesis by blast
qed

end
