(* ===== verification/Mcp_Proxy.thy ===== *)
theory Mcp_Proxy
  imports Ipc_Client "HOL-Library.AList"
begin

text \<open>
  \<open>apps/mcp-proxy/src\<close>: the configuration check (\<open>config.ts\<close>), the translation between
  MCP calls and decision requests (\<open>mapping.ts\<close>, \<open>errors.ts\<close>) and the proxy (\<open>proxy.ts\<close>),
  which consults the engine for every \<open>tools/call\<close> and forwards what is allowed. The MCP
  SDK is a parameter: the tool lists and the answers of the upstream servers. The calls
  forwarded are recorded in \<open>px_forwarded\<close>.
\<close>

section \<open>config.ts\<close>

record UpstreamConfig =
  uc_id :: string
  uc_type :: string
  uc_args :: jsval
  uc_command :: jsval
  uc_url :: jsval
  uc_headers :: jsval
  uc_prefix :: jsval

record ProxyConfig =
  pc_schema_version :: int
  pc_engine_socket :: jsval
  pc_type :: string
  pc_port :: jsval
  pc_host :: jsval
  pc_agent_name :: jsval
  pc_agent_role :: jsval
  pc_environment :: jsval
  pc_upstreams :: "UpstreamConfig list"

definition LOOPBACK_ADDRESSES :: "jsval list" where
  "LOOPBACK_ADDRESSES = [JStr ''127.0.0.1'', JStr ''localhost'', JStr ''::1'']"

definition up_at :: "nat \<Rightarrow> string \<Rightarrow> string" where
  "up_at i rest = ''upstreams['' @ show_nat i @ ''].'' @ rest"

definition parse_upstream :: "nat \<Rightarrow> jsval \<Rightarrow> string + UpstreamConfig" where
  "parse_upstream i up =
    (let ut = jget up ''transport''; ty = jget ut ''type'' in
     if up = JNull \<or> up = JUndefined then Inl ''TypeError''
     else (case jget up ''id'' of
       JStr uid \<Rightarrow>
         if uid = [] then Inl (up_at i ''id is required'')
         else if \<not> truthy ut \<or> \<not> truthy ty then Inl (up_at i ''transport.type is required'')
         else if ty \<noteq> JStr ''stdio'' \<and> ty \<noteq> JStr ''http'' \<and> ty \<noteq> JStr ''sse''
           then Inl (''Invalid '' @ up_at i ''transport.type: '' @ show_val ty)
         else if ty = JStr ''stdio'' \<and> \<not> truthy (jget ut ''command'')
           then Inl (up_at i ''transport.command is required for stdio transport'')
         else if (ty = JStr ''http'' \<or> ty = JStr ''sse'') \<and> \<not> truthy (jget ut ''url'')
           then Inl (up_at i ''transport.url is required for '' @ show_val ty @ '' transport'')
         else Inr \<lparr>uc_id = uid, uc_type = show_val ty, uc_args = coalesce (jget ut ''args'') (JArr []),
           uc_command = jget ut ''command'', uc_url = jget ut ''url'', uc_headers = jget ut ''headers'',
           uc_prefix = coalesce (jget up ''prefix'') (JBool False)\<rparr>
     | _ \<Rightarrow> Inl (up_at i ''id is required'')))"

definition validateConfig :: "bool \<Rightarrow> jsval \<Rightarrow> string + ProxyConfig" where
  "validateConfig win32 doc =
    (let transport = jget doc ''transport''; ty = jget transport ''type'';
         host = coalesce (jget transport ''host'') (JStr ''127.0.0.1'');
         upstreams = jget doc ''upstreams'' in
     if doc = JNull \<or> doc = JUndefined then Inl ''TypeError''
     else if jget doc ''schema_version'' \<noteq> JNum (Dec False 1 0)
       then Inl (''Unsupported schema_version: '' @ show_val (jget doc ''schema_version'') @ '' (expected 1)'')
     else if \<not> truthy transport \<or> \<not> truthy ty then Inl ''transport.type is required (stdio or http)''
     else if ty \<noteq> JStr ''stdio'' \<and> ty \<noteq> JStr ''http''
       then Inl (''Invalid transport.type: '' @ show_val ty @ '' (expected stdio or http)'')
     else if ty = JStr ''http'' \<and> host \<notin> set LOOPBACK_ADDRESSES
       then Inl (''Non-loopback transport.host '' @ [CHR 0x22] @ show_val host @ [CHR 0x22]
         @ '' is not supported in v1.1. Use 127.0.0.1, localhost, or ::1.'')
     else (case upstreams of
         JArr ups \<Rightarrow>
           if ups = [] then Inl ''At least one upstream is required''
           else bind_result (map_result (\<lambda>(i, u). parse_upstream i u) (enumerate 0 ups)) (\<lambda>parsed.
             Inr \<lparr>pc_schema_version = 1,
               pc_engine_socket = coalesce (jget doc ''engine_socket'') (JStr (default_socket_path win32)),
               pc_type = show_val ty, pc_port = coalesce (jget transport ''port'') (JNum (Dec False 31 2)),
               pc_host = host, pc_agent_name = jget doc ''agent_name'', pc_agent_role = jget doc ''agent_role'',
               pc_environment = jget doc ''environment'', pc_upstreams = parsed\<rparr>)
       | _ \<Rightarrow> Inl ''At least one upstream is required''))"

section \<open>errors.ts and mapping.ts\<close>

definition LOOPSTORM_DENIED :: int where "LOOPSTORM_DENIED = - 32001"
definition LOOPSTORM_COOLDOWN :: int where "LOOPSTORM_COOLDOWN = - 32002"
definition LOOPSTORM_KILLED :: int where "LOOPSTORM_KILLED = - 32003"
definition LOOPSTORM_APPROVAL_REQUIRED :: int where "LOOPSTORM_APPROVAL_REQUIRED = - 32004"
definition LOOPSTORM_ENGINE_UNAVAILABLE :: int where "LOOPSTORM_ENGINE_UNAVAILABLE = - 32005"

definition buildErrorData :: "(string \<times> jsval) list \<Rightarrow> jsval" where
  "buildErrorData fs = JObj ((''loopstorm'', JBool True) # fs)"

record McpErrorResult =
  me_code :: int
  me_message :: string
  me_data :: jsval

record McpToolCallParams =
  tp_name :: string
  tp_arguments :: jsval
  tp_meta :: jsval

record RunContext =
  rc_runId :: string
  rc_seq :: nat
  rc_agentName :: jsval
  rc_agentRole :: jsval
  rc_environment :: jsval

definition mcpToolCallToDecisionRequest ::
  "(string \<Rightarrow> string) \<Rightarrow> string \<Rightarrow> McpToolCallParams \<Rightarrow> RunContext \<Rightarrow> exn + DecisionRequest" where
  "mcpToolCallToDecisionRequest sha256 now params ctx =
    (let args = coalesce (tp_arguments params) JNull in
     case argsHash sha256 args of
       Inl (TypeError m) \<Rightarrow> Inl (JsError m)
     | Inr hash \<Rightarrow> Inr
         \<lparr>rq_schema_version = 1, rq_run_id = rc_runId ctx, rq_seq = int (rc_seq ctx),
          rq_tool = JStr (tp_name params), rq_args_hash = hash, rq_ts = now, rq_args_redacted = args,
          rq_agent_role = rc_agentRole ctx, rq_agent_name = rc_agentName ctx, rq_model = JUndefined,
          rq_input_tokens = JUndefined, rq_output_tokens = JUndefined,
          rq_estimated_cost_usd = JUndefined, rq_environment = rc_environment ctx\<rparr>)"

definition decisionResponseToMcpError :: "DecisionResponse \<Rightarrow> McpErrorResult option" where
  "decisionResponseToMcpError r =
    (let d = rs_decision r in
     if d = JStr ''allow'' then None
     else if d = JStr ''deny'' then Some \<lparr>me_code = LOOPSTORM_DENIED, me_message = ''Tool call denied by policy'',
       me_data = buildErrorData [(''rule_id'', rs_rule_id r), (''reason'', rs_reason r)]\<rparr>
     else if d = JStr ''cooldown'' then Some \<lparr>me_code = LOOPSTORM_COOLDOWN,
       me_message = ''Tool call paused: loop detected'',
       me_data = buildErrorData [(''cooldown_ms'', rs_cooldown_ms r), (''cooldown_message'', rs_cooldown_message r)]\<rparr>
     else if d = JStr ''kill'' then Some \<lparr>me_code = LOOPSTORM_KILLED, me_message = ''Run terminated'',
       me_data = buildErrorData [(''rule_id'', rs_rule_id r), (''reason'', rs_reason r)]\<rparr>
     else if d = JStr ''require_approval'' then Some \<lparr>me_code = LOOPSTORM_APPROVAL_REQUIRED,
       me_message = ''Tool call held for human approval'',
       me_data = buildErrorData [(''approval_id'', rs_approval_id r), (''approval_timeout_ms'', rs_approval_timeout_ms r)]\<rparr>
     else Some \<lparr>me_code = LOOPSTORM_KILLED, me_message = ''Unknown decision: '' @ show_val d,
       me_data = buildErrorData [(''reason'', JStr (''Unknown decision type: '' @ show_val d))]\<rparr>)"

section \<open>proxy.ts\<close>

record tool_info =
  ti_name :: string
  ti_description :: jsval
  ti_inputSchema :: jsval

record UpstreamClient =
  ups_config :: UpstreamConfig
  ups_tools :: "(string \<times> tool_info) list"

text \<open>What is sent to an upstream server: its id, the tool and the arguments.\<close>

type_synonym forwarded = "string \<times> string \<times> jsval"

record proxy =
  px_config :: ProxyConfig
  px_engine :: net
  px_upstreams :: "UpstreamClient list"
  px_runId :: string
  px_runIdLocked :: bool
  px_seq :: nat
  px_forwarded :: "forwarded list"

record proxy_env =
  xe_sha256 :: "string \<Rightarrow> string"
  xe_parse :: "string \<Rightarrow> jsval option"
  xe_now :: string
  xe_callTool :: "forwarded \<Rightarrow> jsval outcome"

datatype call_result =
    ErrorObject jsval      \<comment> \<open>\<open>isError\<close>, the text is this object in JSON\<close>
  | ErrorText string       \<comment> \<open>\<open>isError\<close> with this text\<close>
  | UpstreamResult jsval

definition new_LoopStormProxy :: "ProxyConfig \<Rightarrow> string \<Rightarrow> net \<Rightarrow> proxy" where
  "new_LoopStormProxy config uuid n =
    \<lparr>px_config = config, px_engine = n\<lparr>nt_connected := False, nt_buffer := []\<rparr>, px_upstreams = [],
     px_runId = uuid, px_runIdLocked = False, px_seq = 0, px_forwarded = []\<rparr>"

definition list_tools :: "proxy \<Rightarrow> tool_info list" where
  "list_tools p = concat (map (\<lambda>u. map (\<lambda>(d, t). t\<lparr>ti_name := d\<rparr>) (ups_tools u)) (px_upstreams p))"

definition findUpstreamForTool :: "UpstreamClient list \<Rightarrow> string \<Rightarrow> UpstreamClient option" where
  "findUpstreamForTool us toolName = find (\<lambda>u. map_of (ups_tools u) toolName \<noteq> None) us"

text \<open>The run id override of the first call.\<close>

definition lock_run_id :: "McpToolCallParams \<Rightarrow> proxy \<Rightarrow> proxy" where
  "lock_run_id params p =
    (if px_runIdLocked p then p
     else (case jget (tp_meta params) ''loopstorm_run_id'' of
        JStr s \<Rightarrow> if s \<noteq> [] then p\<lparr>px_runId := s, px_runIdLocked := True\<rparr> else p\<lparr>px_runIdLocked := True\<rparr>
      | _ \<Rightarrow> p\<lparr>px_runIdLocked := True\<rparr>))"

definition original_name :: "UpstreamConfig \<Rightarrow> string \<Rightarrow> string" where
  "original_name c toolName = (if truthy (uc_prefix c) then drop (length (uc_id c) + 1) toolName else toolName)"

definition forward :: "proxy_env \<Rightarrow> McpToolCallParams \<Rightarrow> proxy \<Rightarrow> call_result outcome \<times> proxy" where
  "forward env params p =
    (case findUpstreamForTool (px_upstreams p) (tp_name params) of
       None \<Rightarrow> (Resolved (ErrorText (''No upstream server found for tool: '' @ tp_name params)), p)
     | Some u \<Rightarrow>
        (let f = (uc_id (ups_config u), original_name (ups_config u) (tp_name params), tp_arguments params)
         in await (xe_callTool env f, p\<lparr>px_forwarded := px_forwarded p @ [f]\<rparr>)
              (\<lambda>v p. (Resolved (UpstreamResult v), p))))"

definition error_object :: "int \<Rightarrow> string \<Rightarrow> jsval \<Rightarrow> jsval" where
  "error_object code message data =
     JObj [(''code'', JNum (num_of_int code)), (''message'', JStr message), (''data'', data)]"

text \<open>What the handler does with the engine's response.\<close>

definition apply_decision ::
  "proxy_env \<Rightarrow> McpToolCallParams \<Rightarrow> DecisionResponse \<Rightarrow> proxy \<Rightarrow> call_result outcome \<times> proxy" where
  "apply_decision env params r p =
    (case decisionResponseToMcpError r of
       Some e \<Rightarrow>
         (Resolved (ErrorObject (error_object (me_code e) (me_message e) (me_data e))),
          if rs_decision r = JStr ''cooldown'' \<and> truthy (rs_cooldown_ms r)
          then p\<lparr>px_engine := (px_engine p)\<lparr>nt_waits := nt_waits (px_engine p) @ [rs_cooldown_ms r]\<rparr>\<rparr> else p)
     | None \<Rightarrow> forward env params p)"

definition call_tool :: "proxy_env \<Rightarrow> McpToolCallParams \<Rightarrow> proxy \<Rightarrow> call_result outcome \<times> proxy" where
  "call_tool env params p0 =
    (let p1 = lock_run_id params p0; p = p1\<lparr>px_seq := px_seq p1 + 1\<rparr>;
         ctx = \<lparr>rc_runId = px_runId p, rc_seq = px_seq p, rc_agentName = pc_agent_name (px_config p),
           rc_agentRole = pc_agent_role (px_config p), rc_environment = pc_environment (px_config p)\<rparr> in
     case mcpToolCallToDecisionRequest (xe_sha256 env) (xe_now env) params ctx of
       Inl e \<Rightarrow> (Rejected e, p)
     | Inr req \<Rightarrow>
        (let (r, n) = request (xe_parse env) req (px_engine p); p' = p\<lparr>px_engine := n\<rparr> in
         case r of
           Resolved resp \<Rightarrow> apply_decision env params resp p'
         | Rejected (EngineUnavailableError m) \<Rightarrow>
             (Resolved (ErrorObject (error_object LOOPSTORM_ENGINE_UNAVAILABLE ''LoopStorm engine unavailable''
                (buildErrorData [(''reason'', JStr m)]))), p')
         | Rejected e \<Rightarrow> (Rejected e, p')
         | Uncaught e \<Rightarrow> (Uncaught e, p')
         | Pending \<Rightarrow> (Pending, p')))"

text \<open>
  \<open>connectUpstreams\<close>, given the tool list of each server; an error of a server stops it,
  with the upstreams connected so far in place.
\<close>

definition display_name :: "UpstreamConfig \<Rightarrow> string \<Rightarrow> string" where
  "display_name c name = (if truthy (uc_prefix c) then uc_id c @ ''.'' @ name else name)"

definition tool_map :: "UpstreamConfig \<Rightarrow> tool_info list \<Rightarrow> (string \<times> tool_info) list" where
  "tool_map c ts = foldl (\<lambda>m t. AList.update (display_name c (ti_name t)) t m) [] ts"

fun connect_all :: "(UpstreamConfig \<Rightarrow> string + tool_info list) \<Rightarrow> UpstreamConfig list
    \<Rightarrow> UpstreamClient list \<Rightarrow> (string + unit) \<times> UpstreamClient list" where
  "connect_all listTools [] us = (Inr (), us)"
| "connect_all listTools (c # cs) us =
    (if uc_type c \<noteq> ''stdio'' then connect_all listTools cs us
     else (case listTools c of
        Inl m \<Rightarrow> (Inl m, us)
      | Inr ts \<Rightarrow> connect_all listTools cs (us @ [\<lparr>ups_config = c, ups_tools = tool_map c ts\<rparr>])))"

definition connectUpstreams :: "(UpstreamConfig \<Rightarrow> string + tool_info list) \<Rightarrow> proxy \<Rightarrow> (string + unit) \<times> proxy" where
  "connectUpstreams listTools p =
    (let (r, us) = connect_all listTools (pc_upstreams (px_config p)) (px_upstreams p)
     in (r, p\<lparr>px_upstreams := us\<rparr>))"

definition shutdown :: "proxy \<Rightarrow> proxy" where
  "shutdown p = p\<lparr>px_engine := close (px_engine p)\<rparr>"

section \<open>Tool names\<close>

lemma original_display [simp]: "original_name c (display_name c n) = n"
  by (simp add: original_name_def display_name_def)

text \<open>Every entry of the catalogue of an upstream is one of its tools under its display name.\<close>

definition catalogue_ok :: "UpstreamClient \<Rightarrow> bool" where
  "catalogue_ok u \<longleftrightarrow> distinct (map fst (ups_tools u))
     \<and> (\<forall>(d, t)\<in>set (ups_tools u). d = display_name (ups_config u) (ti_name t))"

lemma tool_map_ok: "catalogue_ok \<lparr>ups_config = c, ups_tools = tool_map c ts\<rparr>"
proof -
  have "distinct (map fst m) \<and> (\<forall>(d, t)\<in>set m. d = display_name c (ti_name t)) \<Longrightarrow>
    distinct (map fst (foldl (\<lambda>m t. AList.update (display_name c (ti_name t)) t m) m ts))
    \<and> (\<forall>(d, t)\<in>set (foldl (\<lambda>m t. AList.update (display_name c (ti_name t)) t m) m ts).
        d = display_name c (ti_name t))" for m
  proof (induction ts arbitrary: m)
    case (Cons t ts)
    have "set (AList.update k v m) \<subseteq> insert (k, v) (set m)" for k v by (induction m) auto
    then have "\<forall>(d, t')\<in>set (AList.update (display_name c (ti_name t)) t m). d = display_name c (ti_name t')"
      using Cons.prems by fastforce
    moreover have "distinct (map fst (AList.update (display_name c (ti_name t)) t m))"
      using Cons.prems by (simp add: distinct_update)
    ultimately show ?case using Cons.IH by simp
  qed simp
  from this [of "[]"] show ?thesis by (simp add: catalogue_ok_def tool_map_def)
qed

lemma connect_all_ok:
  "\<forall>u\<in>set us. catalogue_ok u \<Longrightarrow> u \<in> set (snd (connect_all listTools cs us)) \<Longrightarrow> catalogue_ok u"
  by (induction listTools cs us rule: connect_all.induct)
    (auto simp: tool_map_ok split: if_splits sum.splits)

lemma findUpstreamForTool_Some:
  assumes "findUpstreamForTool us n = Some u"
  shows "u \<in> set us \<and> (\<exists>t. map_of (ups_tools u) n = Some t)"
proof -
  from assms obtain i where "i < length us" "map_of (ups_tools (us ! i)) n \<noteq> None" "u = us ! i"
    by (auto simp: findUpstreamForTool_def find_Some_iff)
  then show ?thesis by auto
qed

lemma forwarded_name:
  assumes "\<forall>u\<in>set us. catalogue_ok u" and "findUpstreamForTool us n = Some u"
  shows "\<exists>t. (n, t) \<in> set (ups_tools u) \<and> original_name (ups_config u) n = ti_name t"
proof -
  from findUpstreamForTool_Some [OF assms(2)] obtain t where t: "u \<in> set us" "(n, t) \<in> set (ups_tools u)"
    by (auto dest: map_of_SomeD)
  with assms(1) have "n = display_name (ups_config u) (ti_name t)" by (force simp: catalogue_ok_def)
  with t show ?thesis by auto
qed

section \<open>The handler\<close>

lemma lock_run_id_simps [simp]:
  "px_seq (lock_run_id params p) = px_seq p" "px_engine (lock_run_id params p) = px_engine p"
  "px_forwarded (lock_run_id params p) = px_forwarded p" "px_upstreams (lock_run_id params p) = px_upstreams p"
  "px_config (lock_run_id params p) = px_config p" "px_runIdLocked (lock_run_id params p)"
  by (simp_all add: lock_run_id_def split: jsval.splits)

lemma lock_run_id_locked: "px_runIdLocked p \<Longrightarrow> lock_run_id params p = p"
  by (simp add: lock_run_id_def)

definition call_request :: "proxy_env \<Rightarrow> McpToolCallParams \<Rightarrow> proxy \<Rightarrow> exn + DecisionRequest" where
  "call_request env params p =
     mcpToolCallToDecisionRequest (xe_sha256 env) (xe_now env) params
       \<lparr>rc_runId = px_runId (lock_run_id params p), rc_seq = px_seq p + 1,
        rc_agentName = pc_agent_name (px_config p), rc_agentRole = pc_agent_role (px_config p),
        rc_environment = pc_environment (px_config p)\<rparr>"

lemma call_request_fields:
  assumes "call_request env params p = Inr req"
  shows "rq_tool req = JStr (tp_name params)" "rq_seq req = int (px_seq p + 1)"
    "rq_run_id req = px_runId (lock_run_id params p)" "rq_args_redacted req = coalesce (tp_arguments params) JNull"
  using assms by (auto simp: call_request_def mcpToolCallToDecisionRequest_def Let_def split: sum.splits js_error.splits)

lemma forward_simps [simp]:
  "px_seq (snd (forward env params p)) = px_seq p" "px_runId (snd (forward env params p)) = px_runId p"
  "px_runIdLocked (snd (forward env params p)) = px_runIdLocked p"
  "px_upstreams (snd (forward env params p)) = px_upstreams p" "px_config (snd (forward env params p)) = px_config p"
  by (auto simp: forward_def Let_def await_def split: option.splits outcome.splits)

lemma apply_decision_simps [simp]:
  "px_seq (snd (apply_decision env params r p)) = px_seq p"
  "px_runId (snd (apply_decision env params r p)) = px_runId p"
  "px_runIdLocked (snd (apply_decision env params r p)) = px_runIdLocked p"
  "px_upstreams (snd (apply_decision env params r p)) = px_upstreams p"
  "px_config (snd (apply_decision env params r p)) = px_config p"
  by (simp_all add: apply_decision_def split: option.splits)

lemma call_tool_eq:
  "call_tool env params p =
    (let p1 = (lock_run_id params p)\<lparr>px_seq := px_seq p + 1\<rparr> in
     case call_request env params p of
       Inl e \<Rightarrow> (Rejected e, p1)
     | Inr req \<Rightarrow> (case request (xe_parse env) req (px_engine p) of
         (Resolved resp, n) \<Rightarrow> apply_decision env params resp (p1\<lparr>px_engine := n\<rparr>)
       | (Rejected e, n) \<Rightarrow> ((case e of EngineUnavailableError m \<Rightarrow>
             Resolved (ErrorObject (error_object LOOPSTORM_ENGINE_UNAVAILABLE ''LoopStorm engine unavailable''
                (buildErrorData [(''reason'', JStr m)]))) | _ \<Rightarrow> Rejected e), p1\<lparr>px_engine := n\<rparr>)
       | (Uncaught e, n) \<Rightarrow> (Uncaught e, p1\<lparr>px_engine := n\<rparr>)
       | (Pending, n) \<Rightarrow> (Pending, p1\<lparr>px_engine := n\<rparr>)))"
  by (auto simp: call_tool_def call_request_def Let_def split: sum.splits outcome.splits exn.splits prod.splits)

lemma call_tool_simps [simp]:
  "px_seq (snd (call_tool env params p)) = px_seq p + 1"
  "px_runId (snd (call_tool env params p)) = px_runId (lock_run_id params p)"
  "px_runIdLocked (snd (call_tool env params p))"
  "px_upstreams (snd (call_tool env params p)) = px_upstreams p"
  "px_config (snd (call_tool env params p)) = px_config p"
  by (auto simp: call_tool_eq Let_def split: sum.splits outcome.splits prod.splits)

section \<open>States of the proxy\<close>

inductive proxy_reachable :: "proxy \<Rightarrow> bool" where
  start: "proxy_reachable (new_LoopStormProxy config uuid n)"
| connect: "proxy_reachable p \<Longrightarrow> proxy_reachable (snd (connectUpstreams listTools p))"
| call: "proxy_reachable p \<Longrightarrow> proxy_reachable (snd (call_tool env params p))"
| shutdown: "proxy_reachable p \<Longrightarrow> proxy_reachable (shutdown p)"

lemma reachable_catalogue: "proxy_reachable p \<Longrightarrow> \<forall>u\<in>set (px_upstreams p). catalogue_ok u"
proof (induction rule: proxy_reachable.induct)
  case (connect p listTools)
  then show ?case
    using connect_all_ok [of "px_upstreams p" _ listTools "pc_upstreams (px_config p)"]
    by (auto simp: connectUpstreams_def split: prod.splits)
qed (simp_all add: new_LoopStormProxy_def shutdown_def)

fun serve :: "(proxy_env \<times> McpToolCallParams) list \<Rightarrow> proxy \<Rightarrow> proxy" where
  "serve [] p = p"
| "serve ((env, params) # cs) p = serve cs (snd (call_tool env params p))"

lemma serve_seq: "px_seq (serve cs p) = px_seq p + length cs"
  by (induction cs p rule: serve.induct) simp_all

lemma serve_locked: "px_runIdLocked p \<Longrightarrow> px_runId (serve cs p) = px_runId p"
  by (induction cs p rule: serve.induct) (simp_all add: lock_run_id_locked)

section \<open>Properties\<close>

text \<open>
  C7: the proxy forwards a tool call only if the engine was asked about this call and the
  answer read was \<open>allow\<close>; it forwards it once, to an upstream whose catalogue lists the
  tool, under the name that upstream itself gave the tool, with the caller's arguments.
\<close>

theorem proxy_forwards_only_allowed_calls:
  assumes "proxy_reachable p" and "call_tool env params p = (r, p')" and "px_forwarded p' \<noteq> px_forwarded p"
  shows "\<exists>req resp n u t. call_request env params p = Inr req
    \<and> request (xe_parse env) req (px_engine p) = (Resolved resp, n) \<and> rs_decision resp = JStr ''allow''
    \<and> u \<in> set (px_upstreams p) \<and> (tp_name params, t) \<in> set (ups_tools u)
    \<and> px_forwarded p' = px_forwarded p @ [(uc_id (ups_config u), ti_name t, tp_arguments params)]"
proof -
  from assms(2,3) obtain req resp n where req: "call_request env params p = Inr req"
    and rq: "request (xe_parse env) req (px_engine p) = (Resolved resp, n)"
    and ad: "apply_decision env params resp ((lock_run_id params p)\<lparr>px_seq := px_seq p + 1, px_engine := n\<rparr>) = (r, p')"
    by (auto simp: call_tool_eq Let_def split: sum.splits outcome.splits prod.splits)
  from ad assms(3) have al: "rs_decision resp = JStr ''allow''"
    and fw: "forward env params ((lock_run_id params p)\<lparr>px_seq := px_seq p + 1, px_engine := n\<rparr>) = (r, p')"
    by (auto simp: apply_decision_def decisionResponseToMcpError_def Let_def split: if_splits)
  from fw assms(3) obtain u where u: "findUpstreamForTool (px_upstreams p) (tp_name params) = Some u"
    by (auto simp: forward_def split: option.splits)
  from forwarded_name [OF reachable_catalogue [OF assms(1)] u] obtain t where
    t: "(tp_name params, t) \<in> set (ups_tools u)" "original_name (ups_config u) (tp_name params) = ti_name t" by blast
  have "px_forwarded p' = px_forwarded p @ [(uc_id (ups_config u), ti_name t, tp_arguments params)]"
    using fw u t(2) by (auto simp: forward_def Let_def await_def split: outcome.splits)
  with req rq al t(1) findUpstreamForTool_Some [OF u] show ?thesis by blast
qed

text \<open>
  All requests of a proxy belong to one run and are numbered in order: whatever the
  outcome of each call, the \<open>i\<close>-th of a sequence of calls asks the engine with the next
  sequence number, and every one of them with the run id fixed by the first.
\<close>

theorem proxy_requests_one_run:
  assumes "i < length cs" and "cs ! i = (env, params)"
    and "call_request env params (serve (take i cs) p) = Inr req"
  shows "rq_seq req = int (px_seq p + i + 1) \<and> rq_run_id req = px_runId (serve cs p)"
proof -
  let ?q = "serve (take i cs) p"
  have app: "serve (xs @ ys) s = serve ys (serve xs s)" for xs ys s
    by (induction xs s rule: serve.induct) simp_all
  have "cs = take i cs @ (env, params) # drop (Suc i) cs"
    using id_take_nth_drop [OF assms(1)] assms(2) by simp
  then have "serve cs p = serve ((env, params) # drop (Suc i) cs) ?q" using app by metis
  then have "px_runId (serve cs p) = px_runId (lock_run_id params ?q)"
    by (simp add: serve_locked)
  moreover have "px_seq ?q = px_seq p + i" using assms(1) by (simp add: serve_seq)
  ultimately show ?thesis using call_request_fields [OF assms(3)] by simp
qed

text \<open>\<open>tools/list\<close> names exactly the tools that \<open>tools/call\<close> finds an upstream for.\<close>

theorem listed_tools_are_callable:
  "n \<in> ti_name ` set (list_tools p) \<longleftrightarrow> findUpstreamForTool (px_upstreams p) n \<noteq> None"
proof -
  have "n \<in> ti_name ` set (list_tools p) \<longleftrightarrow> (\<exists>u\<in>set (px_upstreams p). n \<in> fst ` set (ups_tools u))"
    by (force simp: list_tools_def image_iff)
  also have "\<dots> \<longleftrightarrow> (\<exists>u\<in>set (px_upstreams p). map_of (ups_tools u) n \<noteq> None)"
    by (simp add: map_of_eq_None_iff)
  also have "\<dots> \<longleftrightarrow> findUpstreamForTool (px_upstreams p) n \<noteq> None"
    by (auto simp: findUpstreamForTool_def find_None_iff)
  finally show ?thesis .
qed

text \<open>
  A configuration that \<open>validateConfig\<close> accepts has at least one upstream, listens on
  a loopback address when its transport is HTTP, and every upstream has an id, a known
  transport and the command or URL that the transport needs.
\<close>

theorem validateConfig_accepts:
  assumes "validateConfig win32 doc = Inr c"
  shows "pc_upstreams c \<noteq> [] \<and> pc_type c \<in> {''stdio'', ''http''}
    \<and> (pc_type c = ''http'' \<longrightarrow> pc_host c \<in> set LOOPBACK_ADDRESSES)
    \<and> (\<forall>u\<in>set (pc_upstreams c). uc_id u \<noteq> []
        \<and> (uc_type u = ''stdio'' \<and> truthy (uc_command u)
           \<or> uc_type u \<in> {''http'', ''sse''} \<and> truthy (uc_url u)))"
proof -
  from assms obtain ups where ups: "jget doc ''upstreams'' = JArr ups" "ups \<noteq> []"
    and m: "map_result (\<lambda>(i, u). parse_upstream i u) (enumerate 0 ups) = Inr (pc_upstreams c)"
    and t: "pc_type c \<in> {''stdio'', ''http''}" "pc_type c = ''http'' \<longrightarrow> pc_host c \<in> set LOOPBACK_ADDRESSES"
    by (auto simp: validateConfig_def Let_def bind_result_Inr_iff split: if_splits jsval.splits)
  from m have l: "list_all2 (\<lambda>x y. (case x of (i, u) \<Rightarrow> parse_upstream i u) = Inr y) (enumerate 0 ups) (pc_upstreams c)"
    by (simp add: map_result_Inr_iff)
  have one: "uc_id u \<noteq> [] \<and> (uc_type u = ''stdio'' \<and> truthy (uc_command u)
      \<or> uc_type u \<in> {''http'', ''sse''} \<and> truthy (uc_url u))" if "parse_upstream i x = Inr u" for i x u
    using that by (auto simp: parse_upstream_def Let_def split: if_splits jsval.splits)
  have "\<forall>u\<in>set (pc_upstreams c). \<exists>i x. parse_upstream i x = Inr u"
  proof
    fix u assume "u \<in> set (pc_upstreams c)"
    then obtain k where "k < length (pc_upstreams c)" "u = pc_upstreams c ! k" by (auto simp: in_set_conv_nth)
    with l show "\<exists>i x. parse_upstream i x = Inr u"
      unfolding list_all2_conv_all_nth case_prod_beta by metis
  qed
  moreover have "pc_upstreams c \<noteq> []" using l ups(2) by (auto simp: list_all2_conv_all_nth)
  ultimately show ?thesis using one t by blast
qed

section \<open>Concrete instances\<close>

definition ex_config :: jsval where
  "ex_config = JObj [(''schema_version'', JNum (Dec False 1 0)),
     (''transport'', JObj [(''type'', JStr ''http''), (''host'', JStr ''localhost'')]),
     (''upstreams'', JArr [JObj [(''id'', JStr ''u''), (''prefix'', JBool True),
        (''transport'', JObj [(''type'', JStr ''stdio''), (''command'', JStr ''c'')])]])]"

theorem validateConfig_accepts_witness:
  "\<exists>c. validateConfig False ex_config = Inr c \<and> pc_upstreams c \<noteq> []"
proof -
  have "\<not> (case validateConfig False ex_config of Inl _ \<Rightarrow> True | Inr _ \<Rightarrow> False)" by code_simp
  then obtain c where c: "validateConfig False ex_config = Inr c" by (auto split: sum.splits)
  from validateConfig_accepts [OF c] c show ?thesis by blast
qed

definition ex_tool :: "string \<Rightarrow> tool_info" where
  "ex_tool n = \<lparr>ti_name = n, ti_description = JUndefined, ti_inputSchema = JObj []\<rparr>"

definition ex_params :: "string \<Rightarrow> McpToolCallParams" where
  "ex_params n = \<lparr>tp_name = n, tp_arguments = JObj [], tp_meta = JUndefined\<rparr>"

definition ex_uconfig :: UpstreamConfig where
  "ex_uconfig = \<lparr>uc_id = ''u'', uc_type = ''stdio'', uc_args = JArr [], uc_command = JStr ''c'',
     uc_url = JUndefined, uc_headers = JUndefined, uc_prefix = JBool True\<rparr>"

definition ex_pconfig :: ProxyConfig where
  "ex_pconfig = \<lparr>pc_schema_version = 1, pc_engine_socket = JStr ''s'', pc_type = ''stdio'', pc_port = JUndefined,
     pc_host = JStr ''localhost'', pc_agent_name = JUndefined, pc_agent_role = JUndefined,
     pc_environment = JUndefined, pc_upstreams = [ex_uconfig]\<rparr>"

definition ex_pnet :: "sock_event list \<Rightarrow> net" where
  "ex_pnet es = \<lparr>nt_connected = False, nt_buffer = [], nt_connects = [None], nt_writes = [None, None],
     nt_events = es, nt_written = [], nt_waits = []\<rparr>"

definition ex_allow :: jsval where
  "ex_allow = JObj [(''run_id'', JStr ''r''), (''seq'', JNum (Dec False 1 0)), (''decision'', JStr ''allow'')]"

definition ex_penv :: proxy_env where
  "ex_penv = \<lparr>xe_sha256 = (\<lambda>s. s), xe_parse = (\<lambda>s. if s = ''x'' then Some ex_allow else None), xe_now = ''n'',
     xe_callTool = (\<lambda>_. Resolved JNull)\<rparr>"

definition ex_proxy :: "sock_event list \<Rightarrow> proxy" where
  "ex_proxy es = snd (connectUpstreams (\<lambda>_. Inr [ex_tool ''a'', ex_tool ''b''])
     (new_LoopStormProxy ex_pconfig ''r'' (ex_pnet es)))"

lemma ex_proxy_eq: "ex_proxy es = \<lparr>px_config = ex_pconfig, px_engine = ex_pnet es,
    px_upstreams = [\<lparr>ups_config = ex_uconfig, ups_tools = [(''u.a'', ex_tool ''a''), (''u.b'', ex_tool ''b'')]\<rparr>],
    px_runId = ''r'', px_runIdLocked = False, px_seq = 0, px_forwarded = []\<rparr>"
  by (simp add: ex_proxy_def connectUpstreams_def new_LoopStormProxy_def ex_pconfig_def ex_uconfig_def
      ex_pnet_def tool_map_def display_name_def ex_tool_def)

lemma ex_proxy_reachable: "proxy_reachable (ex_proxy es)"
  unfolding ex_proxy_def by (intro proxy_reachable.intros)

lemma request_sent:
  assumes "ensureConnected n = (Resolved (), n1)" and "toNdjson req = Inr line"
    and "length line \<le> 400" and "nt_writes n1 = None # ws"
  shows "request parse req n = recvResponse parse (n1\<lparr>nt_written := nt_written n1 @ [line], nt_writes := ws\<rparr>)"
  using assms by (simp add: request_def sendRequest_def write_line_def MAX_MESSAGE_SIZE_def)

definition ex_ctx :: "nat \<Rightarrow> RunContext" where
  "ex_ctx k = \<lparr>rc_runId = ''r'', rc_seq = k, rc_agentName = JUndefined, rc_agentRole = JUndefined,
     rc_environment = JUndefined\<rparr>"

lemma ex_requests:
  assumes "(k, n) \<in> {(1, ''u.a''), (2, ''u.b'')}"
  shows "\<exists>req line. mcpToolCallToDecisionRequest (xe_sha256 ex_penv) (xe_now ex_penv) (ex_params n) (ex_ctx k) = Inr req
    \<and> toNdjson req = Inr line \<and> length line \<le> 400"
proof -
  have "case mcpToolCallToDecisionRequest (xe_sha256 ex_penv) (xe_now ex_penv) (ex_params ''u.a'') (ex_ctx 1) of
      Inl _ \<Rightarrow> False | Inr req \<Rightarrow> (case toNdjson req of Inl _ \<Rightarrow> False | Inr l \<Rightarrow> length l \<le> 400)"
    by code_simp
  moreover have "case mcpToolCallToDecisionRequest (xe_sha256 ex_penv) (xe_now ex_penv) (ex_params ''u.b'') (ex_ctx 2) of
      Inl _ \<Rightarrow> False | Inr req \<Rightarrow> (case toNdjson req of Inl _ \<Rightarrow> False | Inr l \<Rightarrow> length l \<le> 400)"
    by code_simp
  ultimately show ?thesis using assms by (auto split: sum.splits)
qed

definition ex_line_x :: string where "ex_line_x = [CHR ''x'', newline]"

lemma ex_recv:
  assumes "nt_connected n" and "nt_buffer n = []" and "nt_events n = SockData ex_line_x # es"
  shows "recvResponse (xe_parse ex_penv) n = (Resolved (response_of ex_allow), n\<lparr>nt_buffer := [], nt_events := es\<rparr>)"
  using assms
  by (simp add: recvResponse_def ex_penv_def ex_line_x_def newline_def fromJson_def ex_allow_def MAX_MESSAGE_SIZE_def)

lemma ex_allow_decision: "rs_decision (response_of ex_allow) = JStr ''allow''"
  by (simp add: response_of_def ex_allow_def)

lemma ex_call_request:
  assumes "px_runId p = ''r''" "px_config p = ex_pconfig"
  shows "call_request ex_penv (ex_params n) p =
    mcpToolCallToDecisionRequest (xe_sha256 ex_penv) (xe_now ex_penv) (ex_params n) (ex_ctx (px_seq p + 1))"
  using assms by (simp add: call_request_def ex_ctx_def ex_pconfig_def lock_run_id_def ex_params_def)

text \<open>The first call is allowed.\<close>

lemma ex_call_a: "\<exists>p'. call_tool ex_penv (ex_params ''u.a'') (ex_proxy [SockData ex_line_x]) = (Resolved (UpstreamResult JNull), p')
    \<and> px_forwarded p' = [(''u'', ''a'', JObj [])]"
proof -
  let ?p = "ex_proxy [SockData ex_line_x]"
  from ex_requests [of 1 "''u.a''"] obtain req line where
    r: "mcpToolCallToDecisionRequest (xe_sha256 ex_penv) (xe_now ex_penv) (ex_params ''u.a'') (ex_ctx 1) = Inr req"
      "toNdjson req = Inr line" "length line \<le> 400" by auto
  have c: "call_request ex_penv (ex_params ''u.a'') ?p = Inr req"
    using r(1) by (subst ex_call_request) (simp_all add: ex_proxy_eq)
  have e: "ensureConnected (px_engine ?p) = (Resolved (), (ex_pnet [SockData ex_line_x])\<lparr>nt_connected := True, nt_connects := []\<rparr>)"
    by (simp add: ensureConnected_def connect_def ex_proxy_eq ex_pnet_def)
  have "\<exists>n. request (xe_parse ex_penv) req (px_engine ?p) = (Resolved (response_of ex_allow), n)"
    by (subst request_sent [OF e r(2,3)], simp add: ex_pnet_def, subst ex_recv) (simp_all add: ex_pnet_def)
  then obtain n where q: "request (xe_parse ex_penv) req (px_engine ?p) = (Resolved (response_of ex_allow), n)" by blast
  show ?thesis
    using c q
    by (simp add: call_tool_eq Let_def apply_decision_def decisionResponseToMcpError_def ex_allow_decision forward_def
        findUpstreamForTool_def ex_proxy_eq ex_params_def lock_run_id_def original_name_def ex_uconfig_def ex_penv_def)
qed

theorem proxy_forwards_only_allowed_calls_witness:
  "\<exists>req resp n. call_request ex_penv (ex_params ''u.a'') (ex_proxy [SockData ex_line_x]) = Inr req
    \<and> request (xe_parse ex_penv) req (px_engine (ex_proxy [SockData ex_line_x])) = (Resolved resp, n)
    \<and> rs_decision resp = JStr ''allow''"
proof -
  let ?p = "ex_proxy [SockData ex_line_x]"
  from ex_call_a obtain p' where c: "call_tool ex_penv (ex_params ''u.a'') ?p = (Resolved (UpstreamResult JNull), p')"
    and f: "px_forwarded p' = [(''u'', ''a'', JObj [])]" by blast
  have "px_forwarded p' \<noteq> px_forwarded ?p" using f by (simp add: ex_proxy_eq)
  from proxy_forwards_only_allowed_calls [OF ex_proxy_reachable c this] show ?thesis by blast
qed

theorem proxy_requests_one_run_witness:
  "\<exists>req. call_request ex_penv (ex_params ''u.a'') (ex_proxy []) = Inr req
    \<and> rq_seq req = 1 \<and> rq_run_id req = px_runId (serve [(ex_penv, ex_params ''u.a'')] (ex_proxy []))"
proof -
  from ex_requests [of 1 "''u.a''"] obtain req where
    r: "mcpToolCallToDecisionRequest (xe_sha256 ex_penv) (xe_now ex_penv) (ex_params ''u.a'') (ex_ctx 1) = Inr req" by auto
  have c: "call_request ex_penv (ex_params ''u.a'') (ex_proxy []) = Inr req"
    using r by (subst ex_call_request) (simp_all add: ex_proxy_eq)
  with proxy_requests_one_run [of 0 "[(ex_penv, ex_params ''u.a'')]" ex_penv "ex_params ''u.a''" "ex_proxy []" req]
  show ?thesis by (simp add: ex_proxy_eq)
qed

text \<open>
  The proxy does not compare the sequence number of a response with the request. When
  the first call times out and the engine's answer to it arrives while the proxy waits for
  the answer to the second, the second call, to another tool, is forwarded on the strength
  of the answer to the first.
\<close>

theorem proxy_applies_stale_response:
  "\<exists>env params1 params2 p p1 p2 r1 req2 resp n.
     proxy_reachable p \<and> call_tool env params1 p = (Resolved r1, p1) \<and> px_forwarded p1 = []
   \<and> call_request env params2 p1 = Inr req2 \<and> request (xe_parse env) req2 (px_engine p1) = (Resolved resp, n)
   \<and> rq_seq req2 = 2 \<and> rs_seq resp = JNum (num_of_int 1)
   \<and> snd (call_tool env params2 p1) = p2 \<and> px_forwarded p2 = [(''u'', ''b'', JObj [])]"
proof -
  let ?es = "[SockTimeout, SockData ex_line_x]"
  let ?p = "ex_proxy ?es"
  from ex_requests [of 1 "''u.a''"] obtain req line where
    r: "mcpToolCallToDecisionRequest (xe_sha256 ex_penv) (xe_now ex_penv) (ex_params ''u.a'') (ex_ctx 1) = Inr req"
      "toNdjson req = Inr line" "length line \<le> 400" by auto
  from ex_requests [of 2 "''u.b''"] obtain req2 line2 where
    r2: "mcpToolCallToDecisionRequest (xe_sha256 ex_penv) (xe_now ex_penv) (ex_params ''u.b'') (ex_ctx 2) = Inr req2"
      "toNdjson req2 = Inr line2" "length line2 \<le> 400" by auto
  let ?n1 = "(ex_pnet [SockData ex_line_x])\<lparr>nt_connected := True, nt_connects := [], nt_writes := [None], nt_written := [line]\<rparr>"
  let ?p1 = "?p\<lparr>px_runIdLocked := True, px_seq := 1, px_engine := ?n1\<rparr>"
  have c: "call_request ex_penv (ex_params ''u.a'') ?p = Inr req"
    using r(1) by (subst ex_call_request) (simp_all add: ex_proxy_eq)
  have e: "ensureConnected (px_engine ?p) = (Resolved (), (ex_pnet ?es)\<lparr>nt_connected := True, nt_connects := []\<rparr>)"
    by (simp add: ensureConnected_def connect_def ex_proxy_eq ex_pnet_def)
  have q: "request (xe_parse ex_penv) req (px_engine ?p) = (Rejected (EngineUnavailableError ''socket timeout''), ?n1)"
    by (subst request_sent [OF e r(2,3)]) (simp_all add: ex_pnet_def recvResponse_def)
  have 1: "\<exists>r1. call_tool ex_penv (ex_params ''u.a'') ?p = (Resolved r1, ?p1)"
    using c q by (simp add: call_tool_eq Let_def) (simp add: ex_proxy_eq lock_run_id_def ex_params_def)
  have c2: "call_request ex_penv (ex_params ''u.b'') ?p1 = Inr req2"
    using r2(1) by (subst ex_call_request) (simp_all add: ex_proxy_eq numeral_2_eq_2)
  have e2: "ensureConnected ?n1 = (Resolved (), ?n1)" by (simp add: ensureConnected_def)
  have "\<exists>n. request (xe_parse ex_penv) req2 ?n1 = (Resolved (response_of ex_allow), n)"
    by (subst request_sent [OF e2 r2(2,3)], simp add: ex_pnet_def, subst ex_recv) (simp_all add: ex_pnet_def)
  then obtain n where q2: "request (xe_parse ex_penv) req2 ?n1 = (Resolved (response_of ex_allow), n)" by blast
  have 2: "px_forwarded (snd (call_tool ex_penv (ex_params ''u.b'') ?p1)) = [(''u'', ''b'', JObj [])]"
    using c2 q2
    by (simp add: call_tool_eq Let_def apply_decision_def decisionResponseToMcpError_def ex_allow_decision forward_def
        findUpstreamForTool_def ex_proxy_eq ex_params_def lock_run_id_def original_name_def ex_uconfig_def ex_penv_def)
  have "num_of_int 1 = Dec False 1 0" by code_simp
  then have "rq_seq req2 = 2 \<and> rs_seq (response_of ex_allow) = JNum (num_of_int 1)"
    using call_request_fields(2) [OF c2] by (simp add: response_of_def ex_allow_def)
  moreover have "px_forwarded ?p1 = []" "px_engine ?p1 = ?n1" by (simp_all add: ex_proxy_eq)
  ultimately show ?thesis using 1 2 c2 q2 ex_proxy_reachable [of ?es] by metis
qed

end
