(* ===== verification/Mcp_Process.thy ===== *)
theory Mcp_Process
  imports Mcp_Proxy Js_Library
begin

text \<open>
  \<open>apps/mcp-proxy/bin/loopstorm-mcp-proxy.ts\<close>: the command line of the proxy and its start. The result of the
  YAML parser on the configuration file (\<open>None\<close>: no such file or a syntax error) and the tool lists of the
  upstream servers are parameters.
\<close>

record proxy_args =
  ag_config :: string
  ag_transport :: "string option"
  ag_port :: "jsval option"

definition default_args :: "string option \<Rightarrow> proxy_args" where
  "default_args var = \<lparr>ag_config = (case var of Some s \<Rightarrow> s | None \<Rightarrow> ''loopstorm-proxy.yaml''),
     ag_transport = None, ag_port = None\<rparr>"

text \<open>
  \<open>parseArgs\<close> on the arguments after the script. \<open>Inl\<close> is the exit code of \<open>--version\<close> and \<open>--help\<close>; an option whose
  value is missing or empty, and any other argument, is passed over.
\<close>

definition port_value :: "string \<Rightarrow> jsval" where
  "port_value s = (case parseInt s of None \<Rightarrow> JNum NaN | Some n \<Rightarrow> JNum (num_of_int n))"

function parseArgs :: "string list \<Rightarrow> proxy_args \<Rightarrow> nat + proxy_args" where
  "parseArgs [] a = Inr a"
| "parseArgs (arg # rest) a =
    (let value = (case rest of [] \<Rightarrow> [] | v # _ \<Rightarrow> v) in
     if arg = ''--config'' \<and> value \<noteq> [] then parseArgs (tl rest) (a\<lparr>ag_config := value\<rparr>)
     else if arg = ''--transport'' \<and> value \<noteq> [] then parseArgs (tl rest) (a\<lparr>ag_transport := Some value\<rparr>)
     else if arg = ''--port'' \<and> value \<noteq> [] then parseArgs (tl rest) (a\<lparr>ag_port := Some (port_value value)\<rparr>)
     else if arg = ''--version'' then Inl 0
     else if arg = ''--help'' then Inl 0
     else parseArgs rest a)"
  by pat_completeness auto
termination by (relation "measure (length \<circ> fst)") auto

definition override_transport :: "proxy_args \<Rightarrow> ProxyConfig \<Rightarrow> ProxyConfig" where
  "override_transport a c =
    (let c1 = (case ag_transport a of None \<Rightarrow> c | Some t \<Rightarrow> if t \<noteq> [] then c\<lparr>pc_type := t\<rparr> else c)
     in (case ag_port a of None \<Rightarrow> c1 | Some p \<Rightarrow> c1\<lparr>pc_port := p\<rparr>))"

text \<open>\<open>Exited\<close>: the exit code, and the upstreams that were connected and are not closed.\<close>

datatype proxy_process = Exited nat "UpstreamClient list" | Serving proxy

record main_env =
  mn_load :: "string \<Rightarrow> jsval option"
  mn_win32 :: bool
  mn_listTools :: "UpstreamConfig \<Rightarrow> string + tool_info list"
  mn_connect :: bool                       \<comment> \<open>\<open>getServer().connect\<close> of stdio succeeds\<close>
  mn_uuid :: string
  mn_net :: net

definition loadConfig :: "main_env \<Rightarrow> string \<Rightarrow> string + ProxyConfig" where
  "loadConfig env path = (case mn_load env path of None \<Rightarrow> Inl ''Error'' | Some doc \<Rightarrow> validateConfig (mn_win32 env) doc)"

definition proxy_main :: "main_env \<Rightarrow> string option \<Rightarrow> string list \<Rightarrow> proxy_process" where
  "proxy_main env var argv =
    (case parseArgs argv (default_args var) of
       Inl code \<Rightarrow> Exited code []
     | Inr a \<Rightarrow> (case loadConfig env (ag_config a) of
         Inl m \<Rightarrow> Exited 1 []
       | Inr c \<Rightarrow>
          (let config = override_transport a c in
           case connectUpstreams (mn_listTools env) (new_LoopStormProxy config (mn_uuid env) (mn_net env)) of
             (Inl m, p) \<Rightarrow> Exited 1 (px_upstreams p)
           | (Inr _, p) \<Rightarrow> if pc_type config = ''stdio'' then (if mn_connect env then Serving p else Exited 1 (px_upstreams p))
                else Exited 1 (px_upstreams p))))"

text \<open>A signal shuts the proxy down, which closes every upstream.\<close>

definition proxy_signal :: "proxy_process \<Rightarrow> proxy_process" where
  "proxy_signal s = (case s of Serving p \<Rightarrow> Exited 0 [] | Exited n us \<Rightarrow> Exited n us)"

section \<open>Properties\<close>

text \<open>The last of several values of an option counts; values are not looked at as options.\<close>

lemma parseArgs_option:
  "v \<noteq> [] \<Longrightarrow> parseArgs (''--config'' # v # rest) a = parseArgs rest (a\<lparr>ag_config := v\<rparr>)"
  "v \<noteq> [] \<Longrightarrow> parseArgs (''--transport'' # v # rest) a = parseArgs rest (a\<lparr>ag_transport := Some v\<rparr>)"
  "v \<noteq> [] \<Longrightarrow> parseArgs (''--port'' # v # rest) a = parseArgs rest (a\<lparr>ag_port := Some (port_value v)\<rparr>)"
  by (simp_all add: Let_def)

lemma connect_all_configs:
  assumes "connect_all listTools cs us = (Inr u, us')"
  shows "map ups_config us' = map ups_config us @ filter (\<lambda>c. uc_type c = ''stdio'') cs
    \<and> (\<forall>x\<in>set us'. x \<in> set us \<or> (\<exists>ts. listTools (ups_config x) = Inr ts \<and> ups_tools x = tool_map (ups_config x) ts))"
  using assms
proof (induction cs arbitrary: us)
  case (Cons c cs)
  show ?case
  proof (cases "uc_type c = ''stdio''")
    case True
    with Cons.prems obtain ts where ts: "listTools c = Inr ts"
      and r: "connect_all listTools cs (us @ [\<lparr>ups_config = c, ups_tools = tool_map c ts\<rparr>]) = (Inr u, us')"
      by (auto split: sum.splits)
    from Cons.IH [OF r] True ts show ?thesis by fastforce
  next
    case False
    with Cons show ?thesis by simp
  qed
qed simp

text \<open>
  The proxy serves only over stdio, from a configuration that passed the check, and then with every stdio
  upstream of the configuration connected, in its order, its tools those of its list. It has forwarded nothing yet, and what it forwards from here on is what
  the engine allows.
\<close>

theorem proxy_serves_configured_upstreams:
  assumes "proxy_main env var argv = Serving p"
  shows "\<exists>a c. parseArgs argv (default_args var) = Inr a \<and> loadConfig env (ag_config a) = Inr c
    \<and> px_config p = override_transport a c \<and> pc_type (px_config p) = ''stdio''
    \<and> map ups_config (px_upstreams p) = filter (\<lambda>u. uc_type u = ''stdio'') (pc_upstreams c)
    \<and> (\<forall>u\<in>set (px_upstreams p). \<exists>ts. mn_listTools env (ups_config u) = Inr ts \<and> ups_tools u = tool_map (ups_config u) ts)
    \<and> proxy_reachable p \<and> px_forwarded p = []"
proof -
  from assms obtain a where a: "parseArgs argv (default_args var) = Inr a"
    by (auto simp: proxy_main_def split: sum.splits)
  with assms obtain c where c: "loadConfig env (ag_config a) = Inr c"
    by (auto simp: proxy_main_def split: sum.splits)
  let ?p0 = "new_LoopStormProxy (override_transport a c) (mn_uuid env) (mn_net env)"
  from assms a c obtain u where con: "connectUpstreams (mn_listTools env) ?p0 = (Inr u, p)"
    and ty: "pc_type (override_transport a c) = ''stdio''"
    by (auto simp: proxy_main_def Let_def split: sum.splits prod.splits if_splits)
  then obtain us where all: "connect_all (mn_listTools env) (pc_upstreams (override_transport a c)) [] = (Inr u, us)"
    and p: "p = ?p0\<lparr>px_upstreams := us\<rparr>"
    by (auto simp: connectUpstreams_def new_LoopStormProxy_def split: prod.splits)
  have ups: "pc_upstreams (override_transport a c) = pc_upstreams c"
    by (simp add: override_transport_def Let_def split: option.splits)
  from connect_all_configs [OF all [unfolded ups]]
  have m: "map ups_config us = filter (\<lambda>u. uc_type u = ''stdio'') (pc_upstreams c)"
    and t: "\<forall>x\<in>set us. \<exists>ts. mn_listTools env (ups_config x) = Inr ts \<and> ups_tools x = tool_map (ups_config x) ts" by auto
  have "proxy_reachable p"
    using proxy_reachable.connect [OF proxy_reachable.start, of "mn_listTools env"] con by (metis snd_conv)
  with a c ty m t show ?thesis unfolding p by (simp add: new_LoopStormProxy_def)
qed

text \<open>
  A configuration for the http transport, which the check accepts and \<open>--help\<close> offers, ends the process with
  exit code 1, after the upstream servers were started, and they are not closed.
\<close>

theorem http_transport_exits:
  assumes "parseArgs argv (default_args var) = Inr a" and "loadConfig env (ag_config a) = Inr c"
    and "pc_type (override_transport a c) \<noteq> ''stdio''"
  shows "\<exists>us. proxy_main env var argv = Exited 1 us"
  using assms by (simp add: proxy_main_def Let_def split: prod.splits sum.splits)

section \<open>The theorems at concrete inputs\<close>

definition ex_main :: main_env where
  "ex_main = \<lparr>mn_load = (\<lambda>_. Some ex_config), mn_win32 = False, mn_listTools = (\<lambda>_. Inr [ex_tool ''a'']), mn_connect = True,
     mn_uuid = ''r'', mn_net = ex_pnet []\<rparr>"

theorem proxy_serves_configured_upstreams_witness:
  "\<exists>p. proxy_main ex_main None [''--transport'', ''stdio''] = Serving p \<and> length (px_upstreams p) = 1"
proof -
  have "case proxy_main ex_main None [''--transport'', ''stdio''] of Serving p \<Rightarrow> length (px_upstreams p) = 1
      \<and> pc_type (px_config p) = ''stdio'' | Exited _ _ \<Rightarrow> False" by code_simp
  then obtain p where p: "proxy_main ex_main None [''--transport'', ''stdio''] = Serving p" "length (px_upstreams p) = 1"
    by (auto split: proxy_process.splits)
  from proxy_serves_configured_upstreams [OF p(1)] p show ?thesis by blast
qed

theorem http_transport_exits_witness:
  "\<exists>us. proxy_main ex_main None [] = Exited 1 us \<and> us \<noteq> []"
proof -
  have c: "case loadConfig ex_main ''loopstorm-proxy.yaml'' of Inl _ \<Rightarrow> False | Inr c \<Rightarrow> pc_type c \<noteq> ''stdio''" by code_simp
  then obtain c where c: "loadConfig ex_main ''loopstorm-proxy.yaml'' = Inr c" "pc_type c \<noteq> ''stdio''" by (auto split: sum.splits)
  have a: "parseArgs [] (default_args None) = Inr (default_args None)" by simp
  have d: "ag_config (default_args None) = ''loopstorm-proxy.yaml''" "override_transport (default_args None) c = c"
    by (simp_all add: default_args_def override_transport_def)
  from http_transport_exits [OF a, of ex_main c] c obtain us where us: "proxy_main ex_main None [] = Exited 1 us"
    unfolding d by auto
  have "case proxy_main ex_main None [] of Exited _ us \<Rightarrow> us \<noteq> [] | _ \<Rightarrow> False" by code_simp
  with us show ?thesis by simp
qed

end
