(* ===== verification/Api_Keys.thy ===== *)
theory Api_Keys
  imports Backend_Db Guarded_Updates Pagination
begin

text \<open>
  API keys: generation (\<open>packages/backend/src/lib/api-key-gen.ts\<close>), the procedures
  \<open>apiKeys.create\<close>, \<open>list\<close> and \<open>revoke\<close> (\<open>trpc/routers/api-keys.ts\<close>), authentication of a request
  (\<open>middleware/api-key.ts\<close>) and the authentication middlewares of \<open>trpc/trpc.ts\<close> that use
  it. SHA-256, the random bytes, the session lookup and the tenant provisioning of Better
  Auth are parameters; times are milliseconds.
\<close>

section \<open>api-key-gen.ts\<close>

definition KEY_PREFIX :: string where "KEY_PREFIX = ''lsg_''"
definition KEY_RANDOM_BYTES :: nat where "KEY_RANDOM_BYTES = 16"

text \<open>\<open>Buffer.toString("hex")\<close>\<close>

definition hex_of_bytes :: "nat list \<Rightarrow> string" where
  "hex_of_bytes bs = concat (map (\<lambda>b. [hex_digit (b div 16), hex_digit (b mod 16)]) bs)"

record GeneratedApiKey =
  gk_rawKey :: string
  gk_keyHash :: string
  gk_keyPrefix :: string

definition hashApiKey :: "(string \<Rightarrow> string) \<Rightarrow> string \<Rightarrow> string" where
  "hashApiKey sha256 rawKey = sha256 rawKey"

definition extractKeyPrefix :: "string \<Rightarrow> string" where
  "extractKeyPrefix rawKey = take 8 rawKey"

definition generateApiKey :: "(string \<Rightarrow> string) \<Rightarrow> nat list \<Rightarrow> GeneratedApiKey" where
  "generateApiKey sha256 randomBytes =
    (let rawKey = KEY_PREFIX @ hex_of_bytes randomBytes
     in \<lparr>gk_rawKey = rawKey, gk_keyHash = hashApiKey sha256 rawKey, gk_keyPrefix = take 8 rawKey\<rparr>)"

definition hex_chars :: string where "hex_chars = ''0123456789abcdef''"

definition isValidKeyFormat :: "string \<Rightarrow> bool" where
  "isValidKeyFormat key \<longleftrightarrow> startsWith key ''lsg_'' \<and> length key = 36
     \<and> list_all (\<lambda>c. c \<in> set hex_chars) (drop 4 key)"

section \<open>The table and its procedures\<close>

record api_key_row =
  ak_id :: string
  ak_tenant_id :: string
  ak_user_id :: string
  ak_name :: string
  ak_key_prefix :: string
  ak_key_hash :: string
  ak_scopes :: "string list"
  ak_last_used_at :: "int option"
  ak_expires_at :: "int option"
  ak_is_revoked :: bool
  ak_created_at :: int

record create_key_input =
  ck_name :: string
  ck_scopes :: "string list"
  ck_expires_in_days :: "int option"

definition create_key_ok :: "create_key_input \<Rightarrow> bool" where
  "create_key_ok i \<longleftrightarrow> 1 \<le> length (ck_name i) \<and> length (ck_name i) \<le> 255 \<and> ck_scopes i \<noteq> []
     \<and> list_all (\<lambda>s. s \<in> set [''ingest'', ''read'', ''supervisor'']) (ck_scopes i)
     \<and> (case ck_expires_in_days i of None \<Rightarrow> True | Some n \<Rightarrow> 1 \<le> n \<and> n \<le> 365)"

record created_key =
  cr_id :: string
  cr_key :: string
  cr_key_prefix :: string

definition apiKeys_create ::
  "(string \<Rightarrow> string) \<Rightarrow> nat list \<Rightarrow> string \<Rightarrow> string \<Rightarrow> string \<Rightarrow> int \<Rightarrow> create_key_input \<Rightarrow> api_key_row list
   \<Rightarrow> api_error + created_key \<times> api_key_row list" where
  "apiKeys_create sha256 randomBytes new_id tenantId userId now i rows =
    (if \<not> create_key_ok i then Inl invalid_input
     else (let k = generateApiKey sha256 randomBytes;
               r = \<lparr>ak_id = new_id, ak_tenant_id = tenantId, ak_user_id = userId, ak_name = ck_name i,
                 ak_key_prefix = gk_keyPrefix k, ak_key_hash = gk_keyHash k, ak_scopes = ck_scopes i,
                 ak_last_used_at = None,
                 ak_expires_at = (case ck_expires_in_days i of None \<Rightarrow> None
                    | Some n \<Rightarrow> Some (now + n * 24 * 60 * 60 * 1000)),
                 ak_is_revoked = False, ak_created_at = now\<rparr>
           in Inr (\<lparr>cr_id = new_id, cr_key = gk_rawKey k, cr_key_prefix = gk_keyPrefix k\<rparr>, rows @ [r])))"

text \<open>What \<open>list\<close> returns of a row: neither the hash, nor the tenant, nor the user.\<close>

record key_item =
  ki_id :: string
  ki_name :: string
  ki_key_prefix :: string
  ki_scopes :: "string list"
  ki_last_used_at :: "int option"
  ki_expires_at :: "int option"
  ki_is_revoked :: bool
  ki_created_at :: int

definition key_item_of :: "api_key_row \<Rightarrow> key_item" where
  "key_item_of r = \<lparr>ki_id = ak_id r, ki_name = ak_name r, ki_key_prefix = ak_key_prefix r, ki_scopes = ak_scopes r,
     ki_last_used_at = ak_last_used_at r, ki_expires_at = ak_expires_at r, ki_is_revoked = ak_is_revoked r,
     ki_created_at = ak_created_at r\<rparr>"

definition tenant_keys :: "string \<Rightarrow> api_key_row list \<Rightarrow> key_item list" where
  "tenant_keys tenantId rows = map key_item_of (filter (\<lambda>r. ak_tenant_id r = tenantId) rows)"

definition apiKeys_list ::
  "string \<Rightarrow> nat \<Rightarrow> int option \<Rightarrow> api_key_row list \<Rightarrow> key_item list \<times> int option" where
  "apiKeys_list tenantId limit cursor rows = page ki_created_at limit cursor (tenant_keys tenantId rows)"

interpretation al: cursor_list "apiKeys_list tenantId" "tenant_keys tenantId" ki_created_at
  for tenantId
  by unfold_locales (simp add: apiKeys_list_def)

definition apiKeys_revoke :: "string \<Rightarrow> string \<Rightarrow> api_key_row list \<Rightarrow> api_error + string \<times> api_key_row list" where
  "apiKeys_revoke tenantId kid rows =
    (case find (\<lambda>r. ak_id r = kid \<and> ak_tenant_id r = tenantId) rows of
       None \<Rightarrow> Inl (TRPCError NOT_FOUND ''API key not found'')
     | Some r \<Rightarrow>
        if ak_is_revoked r then Inr (ak_id r, rows)
        else Inr (kid, fst (update_where (\<lambda>r. ak_id r = kid \<and> ak_tenant_id r = tenantId)
               (\<lambda>r. r\<lparr>ak_is_revoked := True\<rparr>) rows)))"

section \<open>authenticateApiKey\<close>

record ApiKeyAuthResult =
  ar_tenant_id :: string
  ar_api_key_id :: string
  ar_scopes :: "string list"

definition bearer_key :: "string option \<Rightarrow> string option" where
  "bearer_key authHeader =
    (case authHeader of
       None \<Rightarrow> None
     | Some h \<Rightarrow> if \<not> startsWith h ''Bearer '' then None
         else (let k = trim (drop 7 h) in if k = [] then None else Some k))"

definition candidates :: "string \<Rightarrow> api_key_row list \<Rightarrow> api_key_row list" where
  "candidates rawKey rows = take 5 (filter (\<lambda>r. ak_key_prefix r = take 8 rawKey \<and> \<not> ak_is_revoked r) rows)"

definition authenticateApiKey ::
  "(string \<Rightarrow> string) \<Rightarrow> int \<Rightarrow> string option \<Rightarrow> api_key_row list \<Rightarrow> ApiKeyAuthResult option \<times> api_key_row list" where
  "authenticateApiKey sha256 now authHeader rows =
    (case bearer_key authHeader of
       None \<Rightarrow> (None, rows)
     | Some rawKey \<Rightarrow>
        (case find (\<lambda>r. ak_key_hash r = sha256 rawKey) (candidates rawKey rows) of
           None \<Rightarrow> (None, rows)
         | Some r \<Rightarrow>
            if (case ak_expires_at r of None \<Rightarrow> False | Some t \<Rightarrow> t < now) then (None, rows)
            else (Some \<lparr>ar_tenant_id = ak_tenant_id r, ar_api_key_id = ak_id r, ar_scopes = ak_scopes r\<rparr>,
              fst (update_where (\<lambda>x. ak_id x = ak_id r) (\<lambda>x. x\<lparr>ak_last_used_at := Some now\<rparr>) rows))))"

section \<open>The middlewares of trpc.ts\<close>

record session_user =
  su_id :: string
  su_tenant_id :: "string option"

record auth_ctx =
  ax_userId :: "string option"
  ax_tenantId :: string

text \<open>
  The session branch: \<open>session\<close> is what \<open>getSession\<close> gives or throws, \<open>ensure\<close> the result of
  \<open>ensureTenantId\<close> for the user. An empty tenant id counts as missing.
\<close>

definition session_ctx :: "api_error + session_user \<Rightarrow> (string \<Rightarrow> string option) \<Rightarrow> api_error + auth_ctx" where
  "session_ctx session ensure = bind_result session (\<lambda>u.
     let tenant = (case su_tenant_id u of Some t \<Rightarrow> if t \<noteq> [] then Some t else ensure (su_id u)
           | None \<Rightarrow> ensure (su_id u))
     in case tenant of
          Some t \<Rightarrow> if t \<noteq> [] then Inr \<lparr>ax_userId = Some (su_id u), ax_tenantId = t\<rparr>
            else Inl (TRPCError FORBIDDEN ''No tenant associated with this account'')
        | None \<Rightarrow> Inl (TRPCError FORBIDDEN ''No tenant associated with this account''))"

definition authMiddleware :: "api_error + session_user \<Rightarrow> (string \<Rightarrow> string option) \<Rightarrow> api_error + auth_ctx" where
  "authMiddleware session ensure = session_ctx session ensure"

definition apiKeyMiddleware ::
  "(string \<Rightarrow> string) \<Rightarrow> int \<Rightarrow> string option \<Rightarrow> api_key_row list \<Rightarrow> (api_error + auth_ctx) \<times> api_key_row list" where
  "apiKeyMiddleware sha256 now authHeader rows =
    (case authenticateApiKey sha256 now authHeader rows of
       (None, rows') \<Rightarrow> (Inl (TRPCError UNAUTHORIZED ''Valid API key required''), rows')
     | (Some a, rows') \<Rightarrow> (Inr \<lparr>ax_userId = None, ax_tenantId = ar_tenant_id a\<rparr>, rows'))"

definition dualAuthMiddleware ::
  "(string \<Rightarrow> string) \<Rightarrow> int \<Rightarrow> string option \<Rightarrow> api_error + session_user \<Rightarrow> (string \<Rightarrow> string option) \<Rightarrow>
   api_key_row list \<Rightarrow> (api_error + auth_ctx) \<times> api_key_row list" where
  "dualAuthMiddleware sha256 now authHeader session ensure rows =
    (if (case authHeader of None \<Rightarrow> False | Some h \<Rightarrow> startsWith h ''Bearer '') then
       (case authenticateApiKey sha256 now authHeader rows of
          (Some a, rows') \<Rightarrow> (Inr \<lparr>ax_userId = None, ax_tenantId = ar_tenant_id a\<rparr>, rows')
        | (None, rows') \<Rightarrow> (Inl (TRPCError UNAUTHORIZED ''Invalid API key''), rows'))
     else (session_ctx session ensure, rows))"

section \<open>Lemmas\<close>

lemma authenticate_Some:
  assumes "authenticateApiKey sha256 now h rows = (Some a, rows')"
  shows "\<exists>k r. bearer_key h = Some k \<and> r \<in> set rows \<and> \<not> ak_is_revoked r \<and> ak_key_hash r = sha256 k
    \<and> (\<forall>t. ak_expires_at r = Some t \<longrightarrow> now \<le> t)
    \<and> a = \<lparr>ar_tenant_id = ak_tenant_id r, ar_api_key_id = ak_id r, ar_scopes = ak_scopes r\<rparr>"
proof -
  from assms obtain k r where k: "bearer_key h = Some k"
    and f: "find (\<lambda>r. ak_key_hash r = sha256 k) (candidates k rows) = Some r"
    and e: "\<forall>t. ak_expires_at r = Some t \<longrightarrow> now \<le> t"
    and a: "a = \<lparr>ar_tenant_id = ak_tenant_id r, ar_api_key_id = ak_id r, ar_scopes = ak_scopes r\<rparr>"
    by (auto simp: authenticateApiKey_def split: option.splits if_splits)
  from find_Some_iff2 [OF f] have "r \<in> set (candidates k rows)" "ak_key_hash r = sha256 k" by auto
  moreover from this(1) have "r \<in> set rows \<and> \<not> ak_is_revoked r"
    by (auto simp: candidates_def dest!: in_set_takeD)
  ultimately show ?thesis using k e a by blast
qed

lemma hex_digit_set: "d < 16 \<Longrightarrow> hex_digit d \<in> set hex_chars"
proof -
  have "list_all (\<lambda>d. hex_digit d \<in> set hex_chars) [0..<16]" by code_simp
  then show "d < 16 \<Longrightarrow> hex_digit d \<in> set hex_chars" by (auto simp: list_all_iff)
qed

lemma hex_of_bytes_set:
  assumes "\<forall>b\<in>set bs. b < 256"
  shows "set (hex_of_bytes bs) \<subseteq> set hex_chars"
proof -
  have "hex_digit (b div 16) \<in> set hex_chars \<and> hex_digit (b mod 16) \<in> set hex_chars"
    if "b < 256" for b :: nat
    using that by (intro conjI hex_digit_set) auto
  with assms show ?thesis by (auto simp: hex_of_bytes_def)
qed

lemma length_hex_of_bytes: "length (hex_of_bytes bs) = 2 * length bs"
  by (induction bs) (simp_all add: hex_of_bytes_def)

lemma trim_id:
  assumes "\<forall>c\<in>set s. \<not> is_ws c"
  shows "trim s = s"
proof -
  have d: "dropWhile is_ws t = t" if "\<forall>c\<in>set t. \<not> is_ws c" for t
    using that by (cases t) auto
  show ?thesis using assms by (simp add: trim_def trimEnd_def d)
qed

lemma key_chars_no_ws:
  assumes "\<forall>b\<in>set bs. b < 256" and "c \<in> set (KEY_PREFIX @ hex_of_bytes bs)"
  shows "\<not> is_ws c"
proof -
  have "list_all (\<lambda>c. \<not> is_ws c) (''lsg_'' @ hex_chars)" by code_simp
  moreover have "c \<in> set (''lsg_'' @ hex_chars)"
    using assms(2) hex_of_bytes_set [OF assms(1)] by (auto simp: KEY_PREFIX_def)
  ultimately show ?thesis by (metis list_all_iff)
qed

lemma bearer_key_generated:
  assumes "\<forall>b\<in>set bs. b < 256"
  shows "bearer_key (Some (''Bearer '' @ KEY_PREFIX @ hex_of_bytes bs)) = Some (KEY_PREFIX @ hex_of_bytes bs)"
proof -
  have "trim (KEY_PREFIX @ hex_of_bytes bs) = KEY_PREFIX @ hex_of_bytes bs"
    by (rule trim_id) (use key_chars_no_ws [OF assms] in blast)
  then show ?thesis by (simp add: bearer_key_def startsWith_def KEY_PREFIX_def)
qed

section \<open>Properties\<close>

text \<open>
  A generated key has the format that \<open>isValidKeyFormat\<close> checks, and its stored prefix is
  the one that authentication looks up.
\<close>

theorem generated_key_wellformed:
  assumes "length bs = KEY_RANDOM_BYTES" and "\<forall>b\<in>set bs. b < 256"
  shows "isValidKeyFormat (gk_rawKey (generateApiKey sha256 bs))
    \<and> gk_keyPrefix (generateApiKey sha256 bs) = extractKeyPrefix (gk_rawKey (generateApiKey sha256 bs))
    \<and> gk_keyHash (generateApiKey sha256 bs) = hashApiKey sha256 (gk_rawKey (generateApiKey sha256 bs))"
proof -
  have "list_all (\<lambda>c. c \<in> set hex_chars) (hex_of_bytes bs)"
    using hex_of_bytes_set [OF assms(2)] unfolding list_all_iff by blast
  then show ?thesis
    using assms(1)
    by (simp add: isValidKeyFormat_def generateApiKey_def Let_def extractKeyPrefix_def hashApiKey_def startsWith_def
        KEY_PREFIX_def length_hex_of_bytes KEY_RANDOM_BYTES_def)
qed

definition ex_bytes :: "nat list" where "ex_bytes = replicate 16 171"

theorem generated_key_wellformed_witness: "isValidKeyFormat (gk_rawKey (generateApiKey (\<lambda>s. s) ex_bytes))"
  using generated_key_wellformed [of ex_bytes "\<lambda>s. s"] by (simp add: ex_bytes_def KEY_RANDOM_BYTES_def)


definition ex_key_input :: create_key_input where
  "ex_key_input = \<lparr>ck_name = ''n'', ck_scopes = [''ingest''], ck_expires_in_days = Some 1\<rparr>"

lemma ex_create: "\<exists>c r. apiKeys_create (\<lambda>s. s) ex_bytes ''k'' ''t'' ''u'' 0 ex_key_input rows = Inr (c, rows @ [r])
    \<and> cr_key c = KEY_PREFIX @ hex_of_bytes ex_bytes \<and> cr_key_prefix c = take 8 (KEY_PREFIX @ hex_of_bytes ex_bytes)"
  by (simp add: apiKeys_create_def create_key_ok_def ex_key_input_def Let_def generateApiKey_def)


text \<open>
  C31: revocation is effective at once and permanent for authentication: no header
  authenticates as a key after it was revoked, and a key of another tenant cannot be
  revoked.
\<close>

theorem revoked_key_rejected:
  assumes "apiKeys_revoke t kid rows = Inr (x, rows')" and "distinct (map ak_id rows)"
    and "authenticateApiKey sha256 now h rows' = (Some a, rows'')"
  shows "ar_api_key_id a \<noteq> kid \<and> (\<exists>r\<in>set rows. ak_id r = kid \<and> ak_tenant_id r = t)"
proof -
  from assms(1) obtain r where f: "find (\<lambda>r. ak_id r = kid \<and> ak_tenant_id r = t) rows = Some r"
    by (auto simp: apiKeys_revoke_def split: option.splits)
  from find_Some_iff2 [OF f] have r: "r \<in> set rows" "ak_id r = kid" "ak_tenant_id r = t" by auto
  have rev: "\<forall>y\<in>set rows'. ak_id y = kid \<longrightarrow> ak_is_revoked y"
  proof (cases "ak_is_revoked r")
    case True
    then have "rows' = rows" using assms(1) f by (simp add: apiKeys_revoke_def)
    then show ?thesis using True r distinct_map_eq [OF assms(2)] by metis
  next
    case False
    then have "rows' = map (\<lambda>y. if ak_id y = kid \<and> ak_tenant_id y = t then y\<lparr>ak_is_revoked := True\<rparr> else y) rows"
      using assms(1) f by (auto simp: apiKeys_revoke_def update_where_def)
    then show ?thesis using r distinct_map_eq [OF assms(2)] by (auto split: if_splits)
  qed
  from authenticate_Some [OF assms(3)] rev r show ?thesis by fastforce
qed

theorem revoked_key_rejected_witness:
  "\<exists>rows rows' a. apiKeys_revoke ''t'' ''k'' rows = Inr (''k'', rows') \<and> ar_api_key_id a \<noteq> ''k''
    \<and> fst (authenticateApiKey (\<lambda>s. s) 0 (Some ''Bearer y'') rows') = Some a"
proof -
  let ?r = "\<lparr>ak_id = ''k'', ak_tenant_id = ''t'', ak_user_id = ''u'', ak_name = ''n'', ak_key_prefix = ''x'',
    ak_key_hash = ''x'', ak_scopes = [], ak_last_used_at = None, ak_expires_at = None, ak_is_revoked = False, ak_created_at = 0\<rparr>"
  let ?s = "?r\<lparr>ak_id := ''l'', ak_key_prefix := ''y'', ak_key_hash := ''y''\<rparr>"
  have rv: "apiKeys_revoke ''t'' ''k'' [?r, ?s] = Inr (''k'', [?r\<lparr>ak_is_revoked := True\<rparr>, ?s])"
    by (simp add: apiKeys_revoke_def update_where_def)
  have b: "bearer_key (Some ''Bearer y'') = Some ''y''" by code_simp
  have "\<exists>a rows''. authenticateApiKey (\<lambda>s. s) 0 (Some ''Bearer y'') [?r\<lparr>ak_is_revoked := True\<rparr>, ?s] = (Some a, rows'')"
    by (simp add: authenticateApiKey_def b candidates_def)
  then obtain a rows'' where a: "authenticateApiKey (\<lambda>s. s) 0 (Some ''Bearer y'') [?r\<lparr>ak_is_revoked := True\<rparr>, ?s] = (Some a, rows'')"
    by blast
  have d: "distinct (map ak_id [?r, ?s])" by simp
  from revoked_key_rejected [OF rv d a] have "ar_api_key_id a \<noteq> ''k''" by blast
  moreover from a have "fst (authenticateApiKey (\<lambda>s. s) 0 (Some ''Bearer y'') [?r\<lparr>ak_is_revoked := True\<rparr>, ?s]) = Some a"
    by simp
  ultimately show ?thesis using rv by blast
qed

text \<open>
  Only five unrevoked keys with the same prefix, of all tenants together, are ever
  compared. When five older ones exist, a newly created key is never accepted.
\<close>

theorem sixth_key_of_prefix_rejected:
  assumes "apiKeys_create sha256 bs kid t u now i rows = Inr (c, rows')" and "\<forall>b\<in>set bs. b < 256"
    and "5 \<le> length (filter (\<lambda>r. ak_key_prefix r = cr_key_prefix c \<and> \<not> ak_is_revoked r) rows)"
    and "\<forall>r\<in>set rows. ak_key_hash r \<noteq> sha256 (cr_key c)"
  shows "fst (authenticateApiKey sha256 now' (Some (''Bearer '' @ cr_key c)) rows') = None"
proof -
  let ?k = "KEY_PREFIX @ hex_of_bytes bs"
  from assms(1) obtain r where rows': "rows' = rows @ [r]" and c: "cr_key c = ?k" "cr_key_prefix c = take 8 ?k"
    by (auto simp: apiKeys_create_def Let_def generateApiKey_def split: if_splits)
  have "candidates ?k rows' = take 5 (filter (\<lambda>r. ak_key_prefix r = take 8 ?k \<and> \<not> ak_is_revoked r) rows)"
    using assms(3) by (simp add: candidates_def rows' c)
  then have "find (\<lambda>r. ak_key_hash r = sha256 ?k) (candidates ?k rows') = None"
    using assms(4) by (auto simp: find_None_iff c dest!: in_set_takeD)
  then show ?thesis
    by (simp only: authenticateApiKey_def c bearer_key_generated [OF assms(2)] option.case fst_conv)
qed

theorem sixth_key_of_prefix_rejected_witness:
  "\<exists>rows c rows'. apiKeys_create (\<lambda>s. s) ex_bytes ''k'' ''t'' ''u'' 0 ex_key_input rows = Inr (c, rows')
    \<and> fst (authenticateApiKey (\<lambda>s. s) 0 (Some (''Bearer '' @ cr_key c)) rows') = None"
proof -
  let ?p = "take 8 (KEY_PREFIX @ hex_of_bytes ex_bytes)"
  let ?r = "\<lparr>ak_id = ''o'', ak_tenant_id = ''other'', ak_user_id = ''u'', ak_name = ''n'', ak_key_prefix = ?p,
    ak_key_hash = [], ak_scopes = [], ak_last_used_at = None, ak_expires_at = None, ak_is_revoked = False, ak_created_at = 0\<rparr>"
  let ?rows = "replicate 5 ?r"
  from ex_create [of ?rows] obtain c r where
    c: "apiKeys_create (\<lambda>s. s) ex_bytes ''k'' ''t'' ''u'' 0 ex_key_input ?rows = Inr (c, ?rows @ [r])"
    and k: "cr_key c = KEY_PREFIX @ hex_of_bytes ex_bytes" "cr_key_prefix c = ?p" by blast
  have "\<forall>b\<in>set ex_bytes. b < 256" by (simp add: ex_bytes_def)
  moreover have "5 \<le> length (filter (\<lambda>r. ak_key_prefix r = cr_key_prefix c \<and> \<not> ak_is_revoked r) ?rows)"
    by (simp add: k filter_replicate)
  moreover have "\<forall>r\<in>set ?rows. ak_key_hash r \<noteq> cr_key c" by (simp add: k KEY_PREFIX_def)
  ultimately show ?thesis using sixth_key_of_prefix_rejected [OF c] c by blast
qed

end
