(* ===== verification/Tenant_Accounts.thy ===== *)
theory Tenant_Accounts
  imports Api_Keys
begin

text \<open>
  \<open>packages/backend/src/auth.ts\<close>: the tenant of a new user, its repair on a later request, and the
  audit log of the e-mails sent, around the authentication service.

  The statements of \<open>provisionTenantForUser\<close> and \<open>ensureTenantId\<close> are not in a transaction: \<open>ensure_step\<close>
  is one statement, so that the requests of one user can be interleaved, and a statement can
  fail (\<open>fault\<close>). \<open>ensureTenantId\<close> is the five statements in a row. Parameters: the ids the database
  generates, the random bytes of the slug, and what the mail provider answers.
\<close>

section \<open>Tables\<close>

record tenant_row =
  tn_id :: string
  tn_name :: string
  tn_slug :: string
  tn_plan :: string
  tn_is_active :: bool

record user_row =
  us_id :: string
  us_name :: string
  us_email :: string
  us_tenant_id :: "string option"

record session_row =
  sx_token :: string
  sx_user_id :: string
  sx_tenant_id :: "string option"

record accounts =
  ac_tenants :: "tenant_row list"
  ac_users :: "user_row list"
  ac_sessions :: "session_row list"

section \<open>deriveSlug\<close>

definition is_alnum :: "char \<Rightarrow> bool" where
  "is_alnum c = (let n = of_char c :: nat in 48 \<le> n \<and> n \<le> 57 \<or> 97 \<le> n \<and> n \<le> 122)"

text \<open>\<open>s.replace(/[P]+/g, "-")\<close>: each run of characters with \<open>P\<close> becomes one hyphen.\<close>

function collapse_runs :: "(char \<Rightarrow> bool) \<Rightarrow> string \<Rightarrow> string" where
  "collapse_runs P [] = []"
| "collapse_runs P (c # s) = (if P c then CHR ''-'' # collapse_runs P (dropWhile P s) else c # collapse_runs P s)"
  by pat_completeness auto

termination
  by (relation "measure (\<lambda>(P, s). length s)") (auto simp: less_Suc_eq_le length_dropWhile_le)

text \<open>\<open>s.replace(/^-|-$/g, "")\<close>\<close>

definition strip_hyphens1 :: "string \<Rightarrow> string" where
  "strip_hyphens1 s = (let t = (if startsWith s ''-'' then tl s else s)
     in if t \<noteq> [] \<and> last t = CHR ''-'' then butlast t else t)"

definition base36 :: "char \<Rightarrow> char" where
  "base36 b = (let d = of_char b mod 36 :: nat in if d < 10 then char_of (48 + d) else char_of (87 + d))"

definition deriveSlug :: "string \<Rightarrow> string \<Rightarrow> string" where
  "deriveSlug randoms email =
    (let loc = hd (split_on (CHR ''@'') email);
         base = take 40 (strip_hyphens1 (collapse_runs (\<lambda>c. c = CHR ''-'') (collapse_runs (\<lambda>c. \<not> is_alnum c) (toLowerCase loc))))
     in base @ ''-'' @ map base36 randoms)"

section \<open>Provisioning\<close>

record account_user =
  au_id :: string
  au_name :: string
  au_email :: string

record provision_env =
  pv_newId :: string
  pv_randoms :: string

definition new_tenant :: "provision_env \<Rightarrow> account_user \<Rightarrow> tenant_row" where
  "new_tenant env u = \<lparr>tn_id = pv_newId env, tn_name = (if trim (au_name u) \<noteq> [] then trim (au_name u) else au_email u),
     tn_slug = deriveSlug (pv_randoms env) (au_email u), tn_plan = ''free'', tn_is_active = True\<rparr>"

text \<open>The slug is unique.\<close>

definition insert_tenant :: "tenant_row \<Rightarrow> accounts \<Rightarrow> accounts option" where
  "insert_tenant r a = (if tn_slug r \<in> tn_slug ` set (ac_tenants a) then None else Some (a\<lparr>ac_tenants := ac_tenants a @ [r]\<rparr>))"

definition set_user_tenant :: "string \<Rightarrow> string \<Rightarrow> accounts \<Rightarrow> accounts" where
  "set_user_tenant uid tid a = a\<lparr>ac_users := map (\<lambda>r. if us_id r = uid then r\<lparr>us_tenant_id := Some tid\<rparr> else r) (ac_users a)\<rparr>"

definition set_session_tenants :: "string \<Rightarrow> string \<Rightarrow> accounts \<Rightarrow> accounts" where
  "set_session_tenants uid tid a = a\<lparr>ac_sessions := map (\<lambda>r. if sx_user_id r = uid then r\<lparr>sx_tenant_id := Some tid\<rparr> else r) (ac_sessions a)\<rparr>"

text \<open>\<open>row?.tenant_id\<close>; an empty text is falsy.\<close>

definition user_tenant :: "string \<Rightarrow> accounts \<Rightarrow> string option" where
  "user_tenant uid a = (case find (\<lambda>r. us_id r = uid) (ac_users a) of None \<Rightarrow> None | Some r \<Rightarrow> us_tenant_id r)"

text \<open>Where a call of \<open>ensureTenantId\<close> stands: before its next statement, or at its end.\<close>

datatype ensure_pc =
    ReadUser
  | InsertTenant
  | UpdateUser string
  | UpdateSessions string
  | RereadUser
  | Returned "string option"
  | Threw

definition ensure_step :: "provision_env \<Rightarrow> account_user \<Rightarrow> bool \<Rightarrow> ensure_pc \<Rightarrow> accounts \<Rightarrow> ensure_pc \<times> accounts" where
  "ensure_step env u fault pc a =
    (case pc of
       ReadUser \<Rightarrow> if fault then (Threw, a) else
         (case user_tenant (au_id u) a of
            None \<Rightarrow> (InsertTenant, a) | Some t \<Rightarrow> if t = [] then (InsertTenant, a) else (Returned (Some t), a))
     | InsertTenant \<Rightarrow> if fault then (Returned None, a) else
         (case insert_tenant (new_tenant env u) a of None \<Rightarrow> (Returned None, a) | Some a' \<Rightarrow> (UpdateUser (pv_newId env), a'))
     | UpdateUser t \<Rightarrow> if fault then (Returned None, a) else (UpdateSessions t, set_user_tenant (au_id u) t a)
     | UpdateSessions t \<Rightarrow> if fault then (Returned None, a) else (RereadUser, set_session_tenants (au_id u) t a)
     | RereadUser \<Rightarrow> if fault then (Threw, a) else (Returned (user_tenant (au_id u) a), a)
     | _ \<Rightarrow> (pc, a))"

definition ensureTenantId :: "provision_env \<Rightarrow> account_user \<Rightarrow> (nat \<Rightarrow> bool) \<Rightarrow> accounts \<Rightarrow> ensure_pc \<times> accounts" where
  "ensureTenantId env u fault a =
    (let step = (\<lambda>i (pc, a). ensure_step env u (fault i) pc a)
     in step 4 (step 3 (step 2 (step 1 (step 0 (ReadUser, a))))))"

text \<open>The hook after the creation of a user: the statements of \<open>provisionTenantForUser\<close>; an error is only logged.\<close>

definition user_created_hook :: "provision_env \<Rightarrow> account_user \<Rightarrow> (nat \<Rightarrow> bool) \<Rightarrow> accounts \<Rightarrow> accounts" where
  "user_created_hook env u fault a =
    (let step = (\<lambda>i (pc, a). ensure_step env u (fault i) pc a)
     in snd (step 2 (step 1 (step 0 (InsertTenant, a)))))"

section \<open>E-mails\<close>

datatype send_status = pending | sent | failed

datatype EmailAuditType = password_reset | verification | resend_verification

record EmailRequestContext =
  ec_ip :: string
  ec_user_agent :: string
  ec_nonce :: string

record audit_row =
  al_user_id :: "string option"
  al_tenant_id :: "string option"
  al_email :: string
  al_email_type :: EmailAuditType
  al_ip :: "string option"
  al_user_agent :: "string option"
  al_status :: send_status
  al_message_id :: "string option"
  al_nonce :: string

text \<open>What \<open>resend.emails.send\<close> does: it throws, reports an error, or gives a message id.\<close>

datatype send_result = SendThrows string | SendError | SendOk "string option"

definition set_status :: "string \<Rightarrow> send_status \<Rightarrow> string option \<Rightarrow> audit_row list \<Rightarrow> audit_row list" where
  "set_status nonce st mid rows = map (\<lambda>r. if al_nonce r = nonce
     then (if st = sent then r\<lparr>al_status := st, al_message_id := mid\<rparr> else r\<lparr>al_status := st\<rparr>) else r) rows"

text \<open>The insert and the update may fail, which is only logged. The nonce is unique. \<open>Inl\<close> is what is thrown.\<close>

definition logEmailSend ::
  "EmailRequestContext option \<Rightarrow> string \<Rightarrow> string \<Rightarrow> string option \<Rightarrow> EmailAuditType \<Rightarrow> send_result \<Rightarrow> bool \<Rightarrow> bool \<Rightarrow> bool
   \<Rightarrow> accounts \<Rightarrow> audit_row list \<Rightarrow> (string + unit) \<times> audit_row list" where
  "logEmailSend ctx uuid email userId etype result lookupFault insertFault updateFault a rows =
    (let nonce = (case ctx of None \<Rightarrow> uuid | Some c \<Rightarrow> ec_nonce c);
         tenantId = (case userId of None \<Rightarrow> None | Some u \<Rightarrow> if u = [] \<or> lookupFault then None else user_tenant u a);
         row = \<lparr>al_user_id = userId, al_tenant_id = tenantId, al_email = email, al_email_type = etype, al_ip = map_option ec_ip ctx,
           al_user_agent = map_option ec_user_agent ctx, al_status = pending, al_message_id = None, al_nonce = nonce\<rparr>;
         rows1 = (if insertFault \<or> nonce \<in> al_nonce ` set rows then rows else rows @ [row]);
         st = (case result of SendOk m \<Rightarrow> (sent, m) | _ \<Rightarrow> (failed, None));
         rows2 = (if updateFault then rows1 else set_status nonce (fst st) (snd st) rows1)
     in (case result of SendThrows e \<Rightarrow> Inl e | _ \<Rightarrow> Inr (), rows2))"

definition verification_type :: "EmailRequestContext option \<Rightarrow> EmailAuditType" where
  "verification_type ctx = (case ctx of None \<Rightarrow> verification | Some _ \<Rightarrow> resend_verification)"

section \<open>Lemmas\<close>

lemma find_user_set:
  "find (\<lambda>r. us_id r = i) (map (\<lambda>r. if us_id r = uid then r\<lparr>us_tenant_id := Some t\<rparr> else r) us) =
    (if i = uid then map_option (\<lambda>r. r\<lparr>us_tenant_id := Some t\<rparr>) (find (\<lambda>r. us_id r = i) us) else find (\<lambda>r. us_id r = i) us)"
  by (induction us) auto

definition user_known :: "string \<Rightarrow> accounts \<Rightarrow> bool" where
  "user_known uid a \<longleftrightarrow> find (\<lambda>r. us_id r = uid) (ac_users a) \<noteq> None"

lemma user_tenant_set:
  "user_tenant i (set_user_tenant uid t a) = (if i = uid \<and> user_known uid a then Some t else user_tenant i a)"
  by (cases "i = uid"; cases "find (\<lambda>r. us_id r = uid) (ac_users a)")
    (simp_all add: user_tenant_def set_user_tenant_def find_user_set user_known_def)

lemma user_known_set [simp]:
  "user_known i (set_user_tenant uid t a) = user_known i a" "user_known i (set_session_tenants uid t a) = user_known i a"
  "user_known i (a\<lparr>ac_tenants := ts\<rparr>) = user_known i a"
  by (simp_all add: user_known_def set_user_tenant_def set_session_tenants_def find_user_set)

lemma user_tenant_other [simp]:
  "user_tenant i (set_session_tenants uid t a) = user_tenant i a" "user_tenant i (a\<lparr>ac_tenants := ts\<rparr>) = user_tenant i a"
  by (simp_all add: user_tenant_def set_session_tenants_def)

lemma set_tenant_fields [simp]:
  "ac_tenants (set_user_tenant u t a) = ac_tenants a" "ac_sessions (set_user_tenant u t a) = ac_sessions a"
  "ac_tenants (set_session_tenants u t a) = ac_tenants a" "ac_users (set_session_tenants u t a) = ac_users a"
  by (simp_all add: set_user_tenant_def set_session_tenants_def)

lemma insert_tenant_Some: "insert_tenant r a = Some a' \<longleftrightarrow> tn_slug r \<notin> tn_slug ` set (ac_tenants a) \<and> a' = a\<lparr>ac_tenants := ac_tenants a @ [r]\<rparr>"
  by (auto simp: insert_tenant_def)

text \<open>What a request that provisions leaves behind, and what it leaves alone.\<close>

definition provisioned :: "provision_env \<Rightarrow> account_user \<Rightarrow> accounts \<Rightarrow> accounts" where
  "provisioned env u a = set_session_tenants (au_id u) (pv_newId env)
     (set_user_tenant (au_id u) (pv_newId env) (a\<lparr>ac_tenants := ac_tenants a @ [new_tenant env u]\<rparr>))"

lemma ensureTenantId_known:
  assumes "user_tenant (au_id u) a = Some t" and "t \<noteq> []"
  shows "ensureTenantId env u (\<lambda>_. False) a = (Returned (Some t), a)"
  using assms by (simp add: ensureTenantId_def ensure_step_def)

lemma ensureTenantId_new:
  assumes "user_tenant (au_id u) a \<in> {None, Some []}" and "user_known (au_id u) a"
    and "deriveSlug (pv_randoms env) (au_email u) \<notin> tn_slug ` set (ac_tenants a)"
  shows "ensureTenantId env u (\<lambda>_. False) a = (Returned (Some (pv_newId env)), provisioned env u a)"
  using assms
  by (auto simp: ensureTenantId_def ensure_step_def provisioned_def insert_tenant_def new_tenant_def user_tenant_set)

lemma provisioned_frame:
  "filter (\<lambda>r. us_id r \<noteq> au_id u) (ac_users (provisioned env u a)) = filter (\<lambda>r. us_id r \<noteq> au_id u) (ac_users a)"
  "filter (\<lambda>s. sx_user_id s \<noteq> au_id u) (ac_sessions (provisioned env u a)) = filter (\<lambda>s. sx_user_id s \<noteq> au_id u) (ac_sessions a)"
proof -
  have f: "filter (\<lambda>r. k r \<noteq> i) (map (\<lambda>r. if k r = i then g r else r) xs) = filter (\<lambda>r. k r \<noteq> i) xs" if "\<And>r. k (g r) = k r" for k i g xs
    using that by (induction xs) auto
  show "filter (\<lambda>r. us_id r \<noteq> au_id u) (ac_users (provisioned env u a)) = filter (\<lambda>r. us_id r \<noteq> au_id u) (ac_users a)"
    by (simp add: provisioned_def set_user_tenant_def f)
  show "filter (\<lambda>s. sx_user_id s \<noteq> au_id u) (ac_sessions (provisioned env u a)) = filter (\<lambda>s. sx_user_id s \<noteq> au_id u) (ac_sessions a)"
    by (simp add: provisioned_def set_session_tenants_def f)
qed

text \<open>The next statements of one call.\<close>

definition ensure_run :: "account_user \<Rightarrow> bool \<Rightarrow> provision_env list \<Rightarrow> ensure_pc \<times> accounts \<Rightarrow> ensure_pc \<times> accounts" where
  "ensure_run u fault es = fold (\<lambda>e (pc, a). ensure_step e u fault pc a) es"

lemma new_tenant_slug [simp]: "tn_slug (new_tenant env u) = deriveSlug (pv_randoms env) (au_email u)"
  by (simp add: new_tenant_def)

section \<open>Properties\<close>


definition ex_accounts :: accounts where
  "ex_accounts = \<lparr>ac_tenants = [], ac_users = [\<lparr>us_id = ''u'', us_name = ''Ann'', us_email = ''ann@x'', us_tenant_id = None\<rparr>],
     ac_sessions = [\<lparr>sx_token = ''s'', sx_user_id = ''u'', sx_tenant_id = None\<rparr>]\<rparr>"

definition ex_user :: account_user where
  "ex_user = \<lparr>au_id = ''u'', au_name = ''Ann'', au_email = ''ann@x''\<rparr>"

definition ex_provision :: "string \<Rightarrow> provision_env" where
  "ex_provision i = \<lparr>pv_newId = i, pv_randoms = i\<rparr>"


text \<open>
  Two requests of a user without a tenant that overlap both provision: each creates a tenant, the
  first one answers with its own while the user ends up with the second's, so that what the
  first request goes on to store belongs to a tenant the user never sees again.
\<close>

theorem concurrent_provision_two_tenants:
  assumes "user_tenant (au_id u) a = None" and "user_known (au_id u) a"
    and "deriveSlug (pv_randoms e1) (au_email u) \<notin> tn_slug ` set (ac_tenants a)"
    and "deriveSlug (pv_randoms e2) (au_email u) \<notin> tn_slug ` set (ac_tenants a)"
    and "deriveSlug (pv_randoms e1) (au_email u) \<noteq> deriveSlug (pv_randoms e2) (au_email u)"
  shows "\<exists>a1 a2. ensure_run u False [e1] (ReadUser, a) = (InsertTenant, a) \<and> ensure_run u False [e2] (ReadUser, a) = (InsertTenant, a)
    \<and> ensure_run u False [e1, e1, e1, e1] (InsertTenant, a) = (Returned (Some (pv_newId e1)), a1)
    \<and> ensure_run u False [e2, e2, e2, e2] (InsertTenant, a1) = (Returned (Some (pv_newId e2)), a2)
    \<and> user_tenant (au_id u) a2 = Some (pv_newId e2) \<and> ac_tenants a2 = ac_tenants a @ [new_tenant e1 u, new_tenant e2 u]"
  using assms
  by (simp add: ensure_run_def ensure_step_def insert_tenant_def user_tenant_set)

end
