(* ===== verification/Rate_Limit.thy ===== *)
theory Rate_Limit
  imports Js_Library
begin

text \<open>
  \<open>packages/backend/src/lib/rate-limit-store.ts\<close>, the fixed-window counters in the database,
  and \<open>middleware/email-rate-limit.ts\<close>, which limits the requests that send e-mails. The
  table is the count of every (key, start of window), 0 where there is no row. SHA-256,
  the clock (milliseconds) and the outcome of the SQL statement are arguments.
\<close>

section \<open>incrementBucket\<close>

type_synonym buckets = "string \<times> nat \<Rightarrow> nat"

record RateLimitResult =
  rl_allowed :: bool
  rl_count :: nat
  rl_retryAfter :: nat

definition window_start :: "nat \<Rightarrow> nat \<Rightarrow> nat" where
  "window_start windowSec nowSec = nowSec - nowSec mod windowSec"

definition incrementBucket ::
  "bool \<Rightarrow> nat \<Rightarrow> string \<Rightarrow> nat \<Rightarrow> nat \<Rightarrow> buckets \<Rightarrow> RateLimitResult \<times> buckets" where
  "incrementBucket db_ok now key windowSec limit t =
    (let nowSec = now div 1000; ws = window_start windowSec nowSec in
     if db_ok then
       (let count = t (key, ws) + 1 in
        (\<lparr>rl_allowed = (count \<le> limit), rl_count = count, rl_retryAfter = max 1 (windowSec - (nowSec - ws))\<rparr>,
         t((key, ws) := count)))
     else (\<lparr>rl_allowed = False, rl_count = limit + 1, rl_retryAfter = windowSec\<rparr>, t))"

definition hashEmailKey :: "(string \<Rightarrow> string) \<Rightarrow> string \<Rightarrow> string" where
  "hashEmailKey sha256 email = sha256 (toLowerCase (trim email))"

section \<open>emailRateLimit\<close>

definition FORGET_PASSWORD_PATH :: string where "FORGET_PASSWORD_PATH = ''/api/auth/forget-password''"
definition SEND_VERIFICATION_PATH :: string where "SEND_VERIFICATION_PATH = ''/api/auth/send-verification-email''"
definition RL_WINDOW_HOUR_SEC :: nat where "RL_WINDOW_HOUR_SEC = 3600"
definition RL_WINDOW_DAY_SEC :: nat where "RL_WINDOW_DAY_SEC = 86400"

record email_request =
  eq_path :: string
  eq_method :: string
  eq_body :: "jsval option"            \<comment> \<open>\<open>None\<close> when the body is not JSON\<close>
  eq_vercel_ip :: "string option"      \<comment> \<open>\<open>x-vercel-forwarded-for\<close>\<close>
  eq_forwarded :: "string option"      \<comment> \<open>\<open>x-forwarded-for\<close>\<close>
  eq_user_agent :: "string option"

record email_env =
  ee_sha256 :: "string \<Rightarrow> string"
  ee_db_ok :: bool
  ee_now :: nat
  ee_per_hour :: nat
  ee_cooldown_seconds :: nat
  ee_per_day :: nat
  ee_nonce :: string

datatype email_answer =
    PassThrough
  | Limited nat                          \<comment> \<open>429, \<open>Retry-After\<close>\<close>
  | Proceed string string string         \<comment> \<open>the context: \<open>ip\<close>, \<open>user_agent\<close>, \<open>nonce\<close>\<close>

definition first_value :: "string \<Rightarrow> string" where
  "first_value h = (let v = trim (takeWhile (\<lambda>c. c \<noteq> CHR '','') h) in if v = [] then ''unknown'' else v)"

definition extractIp :: "email_request \<Rightarrow> string" where
  "extractIp q =
    (case eq_vercel_ip q of
       Some v \<Rightarrow> if v \<noteq> [] then first_value v
         else (case eq_forwarded q of Some x \<Rightarrow> if x \<noteq> [] then first_value x else ''unknown'' | None \<Rightarrow> ''unknown'')
     | None \<Rightarrow> (case eq_forwarded q of Some x \<Rightarrow> if x \<noteq> [] then first_value x else ''unknown'' | None \<Rightarrow> ''unknown''))"

text \<open>One bucket after the other; the first that is full answers the request.\<close>

fun check_buckets ::
  "bool \<Rightarrow> nat \<Rightarrow> (string \<times> nat \<times> nat) list \<Rightarrow> buckets \<Rightarrow> nat option \<times> buckets" where
  "check_buckets db_ok now [] t = (None, t)"
| "check_buckets db_ok now ((key, windowSec, limit) # bs) t =
    (let (r, t') = incrementBucket db_ok now key windowSec limit t in
     if rl_allowed r then check_buckets db_ok now bs t' else (Some (rl_retryAfter r), t'))"

definition addr_key :: "bool \<Rightarrow> string \<Rightarrow> string" where
  "addr_key isResend emailHash = (if isResend then ''email:resend:addr:'' else ''email:forget:addr:'') @ emailHash"

definition email_buckets :: "email_env \<Rightarrow> bool \<Rightarrow> string \<Rightarrow> string \<Rightarrow> (string \<times> nat \<times> nat) list" where
  "email_buckets env isResend ip emailHash =
    [((if isResend then ''email:resend:ip:'' else ''email:forget:ip:'') @ ip, RL_WINDOW_HOUR_SEC, ee_per_hour env),
     (addr_key isResend emailHash, RL_WINDOW_HOUR_SEC, ee_per_hour env)]
    @ (if isResend then
         [(''email:resend:cooldown:'' @ emailHash, ee_cooldown_seconds env, 1),
          (''email:resend:daily:'' @ emailHash, RL_WINDOW_DAY_SEC, ee_per_day env)] else [])"

text \<open>The address in the request, empty when there is none.\<close>

definition request_email :: "jsval \<Rightarrow> string" where
  "request_email raw = (case jget raw ''email'' of JStr s \<Rightarrow> toLowerCase (trim s) | _ \<Rightarrow> [])"

definition emailRateLimit :: "email_env \<Rightarrow> email_request \<Rightarrow> buckets \<Rightarrow> email_answer \<times> buckets" where
  "emailRateLimit env q t =
    (let isForget = (eq_path q = FORGET_PASSWORD_PATH); isResend = (eq_path q = SEND_VERIFICATION_PATH) in
     if \<not> isForget \<and> \<not> isResend then (PassThrough, t)
     else if eq_method q \<noteq> ''POST'' then (PassThrough, t)
     else (case eq_body q of
         None \<Rightarrow> (PassThrough, t)
       | Some raw \<Rightarrow>
          (let email = request_email raw; ip = extractIp q;
               ua = take 512 (case eq_user_agent q of None \<Rightarrow> [] | Some s \<Rightarrow> s) in
           if email = [] then (PassThrough, t)
           else (case check_buckets (ee_db_ok env) (ee_now env)
                   (email_buckets env isResend ip (hashEmailKey (ee_sha256 env) email)) t of
               (Some retryAfter, t') \<Rightarrow> (Limited retryAfter, t')
             | (None, t') \<Rightarrow> (Proceed ip ua (ee_nonce env), t')))))"

section \<open>The counters\<close>

lemma incrementBucket_mono: "t b \<le> snd (incrementBucket ok now key w l t) b"
  by (simp add: incrementBucket_def Let_def)

lemma check_buckets_mono: "t b \<le> snd (check_buckets ok now bs t) b"
proof (induction ok now bs t rule: check_buckets.induct)
  case (2 ok now key w l bs t)
  obtain r t' where i: "incrementBucket ok now key w l t = (r, t')" by (cases "incrementBucket ok now key w l t") auto
  have "t b \<le> t' b" using incrementBucket_mono [of t b ok now key w l] i by simp
  with 2 i show ?case by (auto intro: order_trans)
qed simp

lemma emailRateLimit_mono: "t b \<le> snd (emailRateLimit env q t) b"
proof -
  have m: "t b \<le> t' b" if "check_buckets ok now bs t = (r, t')" for ok now bs r t'
    using check_buckets_mono [of t b ok now bs] that by simp
  then show ?thesis
    by (auto simp: emailRateLimit_def Let_def split: option.splits prod.splits)
qed

text \<open>A request that passes all buckets was counted in each of them, within its limit.\<close>

lemma check_buckets_pass:
  assumes "check_buckets ok now bs t = (None, t')" and "(key, w, l) \<in> set bs"
  shows "t (key, window_start w (now div 1000)) + 1 \<le> t' (key, window_start w (now div 1000))
    \<and> t (key, window_start w (now div 1000)) + 1 \<le> l"
  using assms
proof (induction ok now bs t rule: check_buckets.induct)
  case (2 ok now k w' l' bs t)
  let ?b = "(key, window_start w (now div 1000))"
  obtain r t1 where i: "incrementBucket ok now k w' l' t = (r, t1)" by (cases "incrementBucket ok now k w' l' t") auto
  with 2(2) have al: "rl_allowed r" and c: "check_buckets ok now bs t1 = (None, t')"
    by (auto split: if_splits)
  from al i have t1: "t1 = t((k, window_start w' (now div 1000)) := t (k, window_start w' (now div 1000)) + 1)"
    and lmt: "t (k, window_start w' (now div 1000)) + 1 \<le> l'"
    by (auto simp: incrementBucket_def Let_def split: if_splits)
  have mono: "t1 ?b \<le> t' ?b" using check_buckets_mono [of t1 ?b ok now bs] c by simp
  show ?case
  proof (cases "(key, w, l) = (k, w', l')")
    case True
    with t1 lmt mono show ?thesis by simp
  next
    case False
    with 2(3) have "(key, w, l) \<in> set bs" by auto
    from "2.IH" [OF i [symmetric] refl al c this] have "t1 ?b + 1 \<le> t' ?b \<and> t1 ?b + 1 \<le> l" .
    moreover have "t ?b \<le> t1 ?b" by (simp add: t1)
    ultimately show ?thesis by linarith
  qed
qed simp

section \<open>Properties\<close>

text \<open>The results of a sequence of calls of \<open>incrementBucket\<close> (database outcome, time, key, window, limit).\<close>

type_synonym bucket_call = "bool \<times> nat \<times> string \<times> nat \<times> nat"

fun bucket_results :: "bucket_call list \<Rightarrow> buckets \<Rightarrow> RateLimitResult list" where
  "bucket_results [] t = []"
| "bucket_results ((ok, now, key, w, l) # cs) t =
    (let (r, t') = incrementBucket ok now key w l t in r # bucket_results cs t')"

fun bucket_of :: "bucket_call \<Rightarrow> string \<times> nat" where
  "bucket_of (ok, now, key, w, l) = (key, window_start w (now div 1000))"

fun counted :: "bucket_call \<Rightarrow> bool" where
  "counted (ok, now, key, w, l) \<longleftrightarrow> ok"

fun limit_of :: "bucket_call \<Rightarrow> nat" where
  "limit_of (ok, now, key, w, l) = l"

lemma length_bucket_results [simp]: "length (bucket_results cs t) = length cs"
  by (induction cs t rule: bucket_results.induct) (auto simp: Let_def split: prod.splits)

lemma bucket_results_nth:
  "i < length cs \<Longrightarrow> rl_allowed (bucket_results cs t ! i) \<longleftrightarrow> counted (cs ! i)
    \<and> t (bucket_of (cs ! i)) + length (filter (\<lambda>c. counted c \<and> bucket_of c = bucket_of (cs ! i)) (take i cs)) < limit_of (cs ! i)"
proof (induction cs t arbitrary: i rule: bucket_results.induct)
  case (2 ok now key w l cs t)
  obtain r t' where rt: "incrementBucket ok now key w l t = (r, t')" by (cases "incrementBucket ok now key w l t") auto
  show ?case
  proof (cases i)
    case 0
    with rt show ?thesis by (auto simp: incrementBucket_def Let_def split: if_splits)
  next
    case (Suc k)
    have "t' (bucket_of (cs ! k)) = t (bucket_of (cs ! k))
        + (if ok \<and> (key, window_start w (now div 1000)) = bucket_of (cs ! k) then 1 else 0)"
      using rt by (auto simp: incrementBucket_def Let_def split: if_splits)
    with "2.IH" [OF rt [symmetric] refl, of k] "2.prems" Suc rt show ?thesis by simp
  qed
qed simp

text \<open>
  From an empty table, a call of \<open>incrementBucket\<close> is allowed exactly when it reaches the
  database and fewer than \<open>limit\<close> earlier calls were counted for the same key in the same
  window: the limit is exact per window, and an error denies.
\<close>

theorem incrementBucket_exact:
  assumes "i < length cs"
  shows "rl_allowed (bucket_results cs (\<lambda>_. 0) ! i) \<longleftrightarrow> counted (cs ! i)
    \<and> length (filter (\<lambda>c. counted c \<and> bucket_of c = bucket_of (cs ! i)) (take i cs)) < limit_of (cs ! i)"
  using bucket_results_nth [OF assms, of "\<lambda>_. 0"] by simp

theorem incrementBucket_exact_witness:
  "\<not> rl_allowed (bucket_results [(True, 0, ''k'', 60, 1), (True, 59000, ''k'', 60, 1)] (\<lambda>_. 0) ! 1)"
  using incrementBucket_exact [of 1 "[(True, 0, ''k'', 60, 1), (True, 59000, ''k'', 60, 1)]"]
  by (simp add: window_start_def)

text \<open>A sequence of requests, each with the environment it meets.\<close>

fun email_answers :: "(email_env \<times> email_request) list \<Rightarrow> buckets \<Rightarrow> email_answer list" where
  "email_answers [] t = []"
| "email_answers ((env, q) # qs) t = (let (a, t') = emailRateLimit env q t in a # email_answers qs t')"

text \<open>The request sends an e-mail to the address with this hash, from this endpoint, in this hour.\<close>

definition sends_to :: "bool \<Rightarrow> string \<Rightarrow> nat \<Rightarrow> (email_env \<times> email_request) \<times> email_answer \<Rightarrow> bool" where
  "sends_to isResend h hour x = (case x of ((env, q), a) \<Rightarrow>
     (\<exists>ip ua n. a = Proceed ip ua n)
     \<and> eq_path q = (if isResend then SEND_VERIFICATION_PATH else FORGET_PASSWORD_PATH)
     \<and> (\<exists>raw. eq_body q = Some raw \<and> hashEmailKey (ee_sha256 env) (request_email raw) = h)
     \<and> window_start RL_WINDOW_HOUR_SEC (ee_now env div 1000) = hour)"

lemma sends_to_counted:
  assumes "emailRateLimit env q t = (a, t')" and "sends_to isResend h hour ((env, q), a)"
  shows "t (addr_key isResend h, hour) + 1 \<le> t' (addr_key isResend h, hour)
    \<and> t (addr_key isResend h, hour) + 1 \<le> ee_per_hour env"
proof -
  have paths: "SEND_VERIFICATION_PATH \<noteq> FORGET_PASSWORD_PATH"
    by (simp add: SEND_VERIFICATION_PATH_def FORGET_PASSWORD_PATH_def)
  from assms obtain raw where raw: "eq_body q = Some raw" "hashEmailKey (ee_sha256 env) (request_email raw) = h"
    and hour: "window_start RL_WINDOW_HOUR_SEC (ee_now env div 1000) = hour"
    and path: "eq_path q = (if isResend then SEND_VERIFICATION_PATH else FORGET_PASSWORD_PATH)"
    and a: "\<exists>ip ua n. a = Proceed ip ua n"
    by (auto simp: sends_to_def)
  from path paths have res: "(eq_path q = SEND_VERIFICATION_PATH) = isResend" by auto
  from assms(1) a raw(1) have
    "check_buckets (ee_db_ok env) (ee_now env) (email_buckets env isResend (extractIp q) h) t = (None, t')"
    unfolding emailRateLimit_def Let_def res raw(2) [symmetric]
    by (auto split: if_splits option.splits prod.splits)
  from check_buckets_pass [OF this, of "addr_key isResend h" RL_WINDOW_HOUR_SEC "ee_per_hour env"] hour
  show ?thesis by (simp add: email_buckets_def)
qed

lemma sends_bounded:
  assumes "\<forall>(env, q)\<in>set qs. ee_per_hour env = lmt"
  shows "length (filter (sends_to isResend h hour) (zip qs (email_answers qs t))) + t (addr_key isResend h, hour)
    \<le> max (t (addr_key isResend h, hour)) lmt"
  using assms
proof (induction qs t rule: email_answers.induct)
  case (2 env q qs t)
  let ?b = "(addr_key isResend h, hour)"
  obtain a t' where e: "emailRateLimit env q t = (a, t')" by (cases "emailRateLimit env q t") auto
  have IH: "length (filter (sends_to isResend h hour) (zip qs (email_answers qs t'))) + t' ?b \<le> max (t' ?b) lmt"
    using "2.IH" [OF e [symmetric] refl] "2.prems" by simp
  have mono: "t ?b \<le> t' ?b" using emailRateLimit_mono [of t ?b env q] e by simp
  show ?case
  proof (cases "sends_to isResend h hour ((env, q), a)")
    case True
    with sends_to_counted [OF e True] "2.prems" have "t ?b + 1 \<le> t' ?b" "t ?b + 1 \<le> lmt" by auto
    with True e IH show ?thesis by (auto simp: max_def split: if_splits)
  next
    case False
    with e IH mono show ?thesis by (auto simp: max_def split: if_splits)
  qed
qed simp

text \<open>
  Inbox protection: whatever the sources of the requests, at most
  \<open>RATE_LIMIT_EMAIL_PER_HOUR\<close> requests of an endpoint for one address pass the middleware in
  one clock hour.
\<close>

theorem emails_per_address_bounded:
  assumes "\<forall>(env, q)\<in>set qs. ee_per_hour env = lmt"
  shows "length (filter (sends_to isResend h hour) (zip qs (email_answers qs (\<lambda>_. 0)))) \<le> lmt"
  using sends_bounded [OF assms, where t = "\<lambda>_. 0"] by simp

definition ex_resend :: email_request where
  "ex_resend = \<lparr>eq_path = SEND_VERIFICATION_PATH, eq_method = ''POST'', eq_body = Some (JObj [(''email'', JStr ''a@b'')]),
     eq_vercel_ip = None, eq_forwarded = None, eq_user_agent = None\<rparr>"

definition ex_eenv :: "nat \<Rightarrow> email_env" where
  "ex_eenv now = \<lparr>ee_sha256 = (\<lambda>s. s), ee_db_ok = True, ee_now = now, ee_per_hour = 5, ee_cooldown_seconds = 60,
     ee_per_day = 5, ee_nonce = ''n''\<rparr>"

theorem emails_per_address_bounded_witness:
  "length (filter (sends_to True ''a@b'' 0) (zip [(ex_eenv 0, ex_resend)] (email_answers [(ex_eenv 0, ex_resend)] (\<lambda>_. 0)))) \<le> 5"
  by (rule emails_per_address_bounded) (simp add: ex_eenv_def)

text \<open>
  The resend cooldown is a fixed window and not a distance in time: two resends to one
  address one second apart, on both sides of a minute, both pass.
\<close>

theorem resend_cooldown_not_enforced:
  "\<exists>now. ee_cooldown_seconds (ex_eenv now) = 60
    \<and> email_answers [(ex_eenv now, ex_resend), (ex_eenv (now + 1000), ex_resend)] (\<lambda>_. 0)
      = [Proceed ''unknown'' [] ''n'', Proceed ''unknown'' [] ''n'']"
proof (intro exI [of _ 59000] conjI)
  have em: "request_email (JObj [(''email'', JStr ''a@b'')]) = ''a@b''" by code_simp
  have hk: "hashEmailKey (\<lambda>s. s) ''a@b'' = ''a@b''" by code_simp
  have ip: "extractIp ex_resend = ''unknown''" by (simp add: extractIp_def ex_resend_def)
  show "email_answers [(ex_eenv 59000, ex_resend), (ex_eenv (59000 + 1000), ex_resend)] (\<lambda>_. 0)
      = [Proceed ''unknown'' [] ''n'', Proceed ''unknown'' [] ''n'']"
    unfolding email_answers.simps emailRateLimit_def Let_def ip
    by (simp add: ex_resend_def ex_eenv_def SEND_VERIFICATION_PATH_def FORGET_PASSWORD_PATH_def em hk
        email_buckets_def addr_key_def incrementBucket_def window_start_def RL_WINDOW_HOUR_SEC_def RL_WINDOW_DAY_SEC_def)
qed (simp add: ex_eenv_def)

end
