(* ===== verification/Env_Config.thy ===== *)
theory Env_Config
  imports Js_Library
begin

text \<open>
  \<open>packages/backend/src/env.ts\<close>: the environment variables of the API and their validation at start-up,
  the list of allowed origins that \<open>app.ts\<close> and \<open>auth.ts\<close> both derive from it, and the port that
  \<open>src/index.ts\<close> listens on.

  \<open>process.env\<close> is a map. \<open>urlProtocol\<close> is a parameter: the protocol of \<open>new URL(s)\<close>, or \<open>None\<close> when the constructor
  throws. The defaults and the coercions of the zod schema are written out.
\<close>

section \<open>Number(text)\<close>

text \<open>
  \<open>Number(s)\<close> on a text: white space around it, a decimal literal with a sign, hexadecimal, octal and binary
  literals, \<open>Infinity\<close>; the empty text is zero. A decimal is kept exactly.
\<close>

fun digits_of :: "nat \<Rightarrow> string \<Rightarrow> nat option" where
  "digits_of b [] = Some 0"
| "digits_of b (c # cs) = (case digits_of b cs of None \<Rightarrow> None | Some n \<Rightarrow>
     (case hex_val c of None \<Rightarrow> None | Some d \<Rightarrow> if d < b then Some (d * b ^ length cs + n) else None))"

definition jnum_of :: "bool \<Rightarrow> nat \<Rightarrow> int \<Rightarrow> jnum" where
  "jnum_of neg m e = (if m = 0 then Dec neg 0 0 else (case strip_zeros m e of (m', e') \<Rightarrow> Dec neg m' e'))"

definition radix_literal :: "nat \<Rightarrow> string \<Rightarrow> jnum" where
  "radix_literal b ds = (if ds = [] then NaN else (case digits_of b ds of None \<Rightarrow> NaN | Some n \<Rightarrow> jnum_of False n 0))"

definition signed :: "string \<Rightarrow> bool \<times> string" where
  "signed s = (case s of [] \<Rightarrow> (False, []) | c # cs \<Rightarrow>
     if c = CHR ''-'' then (True, cs) else if c = CHR ''+'' then (False, cs) else (False, s))"

definition exponent_part :: "string \<Rightarrow> int option" where
  "exponent_part s = (case s of
      [] \<Rightarrow> Some 0
    | c # cs \<Rightarrow> (case signed cs of (neg, ds) \<Rightarrow>
        if c \<in> {CHR ''e'', CHR ''E''} \<and> ds \<noteq> [] \<and> list_all is_digit ds then Some ((if neg then - 1 else 1) * int (digits_val ds)) else None))"

definition decimal_literal :: "string \<Rightarrow> jnum" where
  "decimal_literal s =
    (let (neg, u) = signed s; ip = takeWhile is_digit u; r = dropWhile is_digit u;
         dot = (r \<noteq> [] \<and> hd r = CHR ''.'');
         fp = (if dot then takeWhile is_digit (tl r) else []); ex = (if dot then dropWhile is_digit (tl r) else r)
     in if ip = [] \<and> fp = [] then NaN
        else (case exponent_part ex of None \<Rightarrow> NaN | Some x \<Rightarrow> jnum_of neg (digits_val (ip @ fp)) (x - int (length fp))))"

definition js_Number :: "string \<Rightarrow> jnum" where
  "js_Number s =
    (let t = trim s; pre = toLowerCase (take 2 t)
     in if t = [] then Dec False 0 0
        else if t = ''Infinity'' \<or> t = ''+Infinity'' then Infinity False
        else if t = ''-Infinity'' then Infinity True
        else if pre = ''0x'' then radix_literal 16 (drop 2 t)
        else if pre = ''0o'' then radix_literal 8 (drop 2 t)
        else if pre = ''0b'' then radix_literal 2 (drop 2 t)
        else decimal_literal t)"

section \<open>The schema\<close>

type_synonym process_env = "string \<Rightarrow> string option"

record Env =
  en_DATABASE_URL :: string
  en_BETTER_AUTH_SECRET :: string
  en_BETTER_AUTH_URL :: string
  en_GOOGLE_CLIENT_ID :: "string option"
  en_GOOGLE_CLIENT_SECRET :: "string option"
  en_RESEND_API_KEY :: "string option"
  en_PORT :: jnum
  en_NODE_ENV :: string
  en_ALLOWED_ORIGINS :: "string list"
  en_RATE_LIMIT_EMAIL_PER_HOUR :: int
  en_RATE_LIMIT_RESEND_PER_DAY :: int
  en_RATE_LIMIT_RESEND_COOLDOWN_SECONDS :: int
  en_GIT_COMMIT :: "string option"

definition allowedOriginsSchema :: "string option \<Rightarrow> string list" where
  "allowedOriginsSchema val = (case val of None \<Rightarrow> [] | Some v \<Rightarrow>
     if v = [] then [] else filter (\<lambda>o'. o' \<noteq> []) (map trim (split_on (CHR '','') v)))"

text \<open>\<open>z.string().url()\<close>, \<open>z.string().min(n)\<close>, \<open>z.coerce.number().int().min(lo).max(hi).default(d)\<close>.\<close>

definition z_url :: "(string \<Rightarrow> string option) \<Rightarrow> string option \<Rightarrow> string option" where
  "z_url urlProtocol v = Option.bind v (\<lambda>s. if urlProtocol s = None then None else Some s)"

definition z_min :: "nat \<Rightarrow> string option \<Rightarrow> string option" where
  "z_min n v = Option.bind v (\<lambda>s. if length s < n then None else Some s)"

definition z_coerce_int :: "int \<Rightarrow> int \<Rightarrow> int \<Rightarrow> string option \<Rightarrow> int option" where
  "z_coerce_int lo hi d v = (case v of None \<Rightarrow> Some d | Some s \<Rightarrow>
     (let x = js_Number s in if isInteger x \<and> lo \<le> int_val x \<and> int_val x \<le> hi then Some (int_val x) else None))"

definition z_node_env :: "string option \<Rightarrow> string option" where
  "z_node_env v = (case v of None \<Rightarrow> Some ''development'' | Some s \<Rightarrow>
     if s \<in> {''development'', ''production'', ''test''} then Some s else None)"

text \<open>\<open>None\<close> is a validation error.\<close>

definition envSchema :: "(string \<Rightarrow> string option) \<Rightarrow> process_env \<Rightarrow> Env option" where
  "envSchema urlProtocol p =
    Option.bind (z_url urlProtocol (p ''DATABASE_URL'')) (\<lambda>db.
    Option.bind (z_min 32 (p ''BETTER_AUTH_SECRET'')) (\<lambda>secret.
    Option.bind (z_url urlProtocol (p ''BETTER_AUTH_URL'')) (\<lambda>url.
    Option.bind (z_coerce_int 1 65535 3001 (p ''PORT'')) (\<lambda>port.
    Option.bind (z_node_env (p ''NODE_ENV'')) (\<lambda>nodeEnv.
    Option.bind (z_coerce_int 1 1000 5 (p ''RATE_LIMIT_EMAIL_PER_HOUR'')) (\<lambda>perHour.
    Option.bind (z_coerce_int 1 1000 5 (p ''RATE_LIMIT_RESEND_PER_DAY'')) (\<lambda>perDay.
    Option.bind (z_coerce_int 1 3600 60 (p ''RATE_LIMIT_RESEND_COOLDOWN_SECONDS'')) (\<lambda>cooldown.
      Some \<lparr>en_DATABASE_URL = db, en_BETTER_AUTH_SECRET = secret, en_BETTER_AUTH_URL = url,
        en_GOOGLE_CLIENT_ID = p ''GOOGLE_CLIENT_ID'', en_GOOGLE_CLIENT_SECRET = p ''GOOGLE_CLIENT_SECRET'',
        en_RESEND_API_KEY = p ''RESEND_API_KEY'', en_PORT = num_of_int port, en_NODE_ENV = nodeEnv,
        en_ALLOWED_ORIGINS = allowedOriginsSchema (p ''ALLOWED_ORIGINS''), en_RATE_LIMIT_EMAIL_PER_HOUR = perHour,
        en_RATE_LIMIT_RESEND_PER_DAY = perDay, en_RATE_LIMIT_RESEND_COOLDOWN_SECONDS = cooldown, en_GIT_COMMIT = p ''GIT_COMMIT''\<rparr>))))))))"

section \<open>loadEnv\<close>

datatype startup_error = EnvInvalid | OriginsRequired | InvalidOrigins "string list"

definition validateProductionOrigins :: "(string \<Rightarrow> string option) \<Rightarrow> string list \<Rightarrow> string \<Rightarrow> startup_error option" where
  "validateProductionOrigins urlProtocol origins nodeEnv =
    (if nodeEnv \<noteq> ''production'' then None
     else if origins = [] then Some OriginsRequired
     else (let invalid = filter (\<lambda>o'. urlProtocol o' \<notin> {Some ''https:'', Some ''http:''}) origins
           in if invalid \<noteq> [] then Some (InvalidOrigins invalid) else None))"

definition test_stub :: "process_env \<Rightarrow> Env" where
  "test_stub p = (let or_else = (\<lambda>k d. case p k of None \<Rightarrow> d | Some v \<Rightarrow> v) in
     \<lparr>en_DATABASE_URL = or_else ''DATABASE_URL'' ''postgres://localhost:5432/loopstorm_test'',
       en_BETTER_AUTH_SECRET = or_else ''BETTER_AUTH_SECRET'' ''test-secret-that-is-at-least-32-chars-long'',
       en_BETTER_AUTH_URL = or_else ''BETTER_AUTH_URL'' ''http://localhost:3001'',
       en_GOOGLE_CLIENT_ID = p ''GOOGLE_CLIENT_ID'', en_GOOGLE_CLIENT_SECRET = p ''GOOGLE_CLIENT_SECRET'',
       en_RESEND_API_KEY = p ''RESEND_API_KEY'',
       en_PORT = (case p ''PORT'' of None \<Rightarrow> num_of_int 3001 | Some s \<Rightarrow> js_Number s), en_NODE_ENV = ''test'', en_ALLOWED_ORIGINS = [],
       en_RATE_LIMIT_EMAIL_PER_HOUR = 5, en_RATE_LIMIT_RESEND_PER_DAY = 5, en_RATE_LIMIT_RESEND_COOLDOWN_SECONDS = 60,
       en_GIT_COMMIT = p ''GIT_COMMIT''\<rparr>)"

definition isTest :: "process_env \<Rightarrow> bool" where
  "isTest p \<longleftrightarrow> p ''NODE_ENV'' = Some ''test'' \<or> p ''BUN_ENV'' = Some ''test''"

definition loadEnv :: "(string \<Rightarrow> string option) \<Rightarrow> process_env \<Rightarrow> startup_error + Env" where
  "loadEnv urlProtocol p =
    (case envSchema urlProtocol p of
       None \<Rightarrow> if isTest p then Inr (test_stub p) else Inl EnvInvalid
     | Some e \<Rightarrow> (case validateProductionOrigins urlProtocol (en_ALLOWED_ORIGINS e) (en_NODE_ENV e) of
         Some err \<Rightarrow> Inl err | None \<Rightarrow> Inr e))"

section \<open>What the application derives\<close>

text \<open>\<open>allowedOrigins\<close> of \<open>app.ts\<close> and \<open>trustedOrigins\<close> of \<open>auth.ts\<close>.\<close>

definition allowedOrigins :: "Env \<Rightarrow> string list" where
  "allowedOrigins e = (if en_ALLOWED_ORIGINS e \<noteq> [] then en_ALLOWED_ORIGINS e
     else if en_NODE_ENV e = ''production'' then [] else [''http://localhost:3000''])"

definition trustedOrigins :: "Env \<Rightarrow> string list" where
  "trustedOrigins e = (if length (en_ALLOWED_ORIGINS e) > 0 then en_ALLOWED_ORIGINS e
     else if en_NODE_ENV e = ''production'' then [] else [''http://localhost:3000''])"

text \<open>\<open>Number(process.env.PORT) || env.PORT\<close>; an unset variable is \<open>NaN\<close>.\<close>

definition listen_port :: "process_env \<Rightarrow> Env \<Rightarrow> jnum" where
  "listen_port p e = (let x = (case p ''PORT'' of None \<Rightarrow> NaN | Some s \<Rightarrow> js_Number s)
     in if truthy (JNum x) then x else en_PORT e)"

record social_provider =
  so_clientId :: string
  so_clientSecret :: string

definition present :: "string option \<Rightarrow> bool" where
  "present v \<longleftrightarrow> v \<noteq> None \<and> v \<noteq> Some []"

definition socialProviders :: "Env \<Rightarrow> social_provider option" where
  "socialProviders e = (case (en_GOOGLE_CLIENT_ID e, en_GOOGLE_CLIENT_SECRET e) of
      (Some i, Some s) \<Rightarrow> if i \<noteq> [] \<and> s \<noteq> [] then Some \<lparr>so_clientId = i, so_clientSecret = s\<rparr> else None
    | _ \<Rightarrow> None)"

definition requireEmailVerification :: "Env \<Rightarrow> bool" where
  "requireEmailVerification e \<longleftrightarrow> present (en_RESEND_API_KEY e)"

section \<open>Lemmas\<close>

lemma z_coerce_int_Some:
  "z_coerce_int lo hi d v = Some n \<Longrightarrow> lo \<le> d \<Longrightarrow> d \<le> hi \<Longrightarrow> lo \<le> n \<and> n \<le> hi"
  by (auto simp: z_coerce_int_def Let_def split: option.splits if_splits)

lemma envSchema_Some:
  assumes "envSchema urlProtocol p = Some e"
  shows "urlProtocol (en_DATABASE_URL e) \<noteq> None" "32 \<le> length (en_BETTER_AUTH_SECRET e)"
    "z_coerce_int 1 65535 3001 (p ''PORT'') = Some (int_val (en_PORT e))"
    "1 \<le> en_RATE_LIMIT_EMAIL_PER_HOUR e" "1 \<le> en_RATE_LIMIT_RESEND_PER_DAY e" "1 \<le> en_RATE_LIMIT_RESEND_COOLDOWN_SECONDS e"
    "en_ALLOWED_ORIGINS e = allowedOriginsSchema (p ''ALLOWED_ORIGINS'')" "z_node_env (p ''NODE_ENV'') = Some (en_NODE_ENV e)"
proof -
  from assms [unfolded envSchema_def bind_eq_Some_conv] obtain db secret port nodeEnv ph pd cd where
    e: "z_url urlProtocol (p ''DATABASE_URL'') = Some db" "z_min 32 (p ''BETTER_AUTH_SECRET'') = Some secret"
      "z_coerce_int 1 65535 3001 (p ''PORT'') = Some port" "z_node_env (p ''NODE_ENV'') = Some nodeEnv"
      "z_coerce_int 1 1000 5 (p ''RATE_LIMIT_EMAIL_PER_HOUR'') = Some ph" "z_coerce_int 1 1000 5 (p ''RATE_LIMIT_RESEND_PER_DAY'') = Some pd"
      "z_coerce_int 1 3600 60 (p ''RATE_LIMIT_RESEND_COOLDOWN_SECONDS'') = Some cd"
    and f: "en_DATABASE_URL e = db" "en_BETTER_AUTH_SECRET e = secret" "en_PORT e = num_of_int port" "en_NODE_ENV e = nodeEnv"
      "en_RATE_LIMIT_EMAIL_PER_HOUR e = ph" "en_RATE_LIMIT_RESEND_PER_DAY e = pd" "en_RATE_LIMIT_RESEND_COOLDOWN_SECONDS e = cd"
      "en_ALLOWED_ORIGINS e = allowedOriginsSchema (p ''ALLOWED_ORIGINS'')"
    by (elim exE conjE) (simp only: Env.simps option.inject, metis Env.select_convs)
  show "urlProtocol (en_DATABASE_URL e) \<noteq> None" using e(1) f(1) by (auto simp: z_url_def bind_eq_Some_conv split: if_splits)
  show "32 \<le> length (en_BETTER_AUTH_SECRET e)" using e(2) f(2) by (auto simp: z_min_def bind_eq_Some_conv split: if_splits)
  show "z_coerce_int 1 65535 3001 (p ''PORT'') = Some (int_val (en_PORT e))" using e(3) f(3) by (simp add: int_val_num_of_int)
  show "1 \<le> en_RATE_LIMIT_EMAIL_PER_HOUR e" "1 \<le> en_RATE_LIMIT_RESEND_PER_DAY e" "1 \<le> en_RATE_LIMIT_RESEND_COOLDOWN_SECONDS e"
    using z_coerce_int_Some [OF e(5)] z_coerce_int_Some [OF e(6)] z_coerce_int_Some [OF e(7)] f by simp_all
  show "en_ALLOWED_ORIGINS e = allowedOriginsSchema (p ''ALLOWED_ORIGINS'')" by (rule f(8))
  show "z_node_env (p ''NODE_ENV'') = Some (en_NODE_ENV e)" using e(4) f(4) by simp
qed

lemma allowedOriginsSchema_elem: "o' \<in> set (allowedOriginsSchema v) \<Longrightarrow> o' \<noteq> [] \<and> (\<exists>s. o' = trim s)"
  by (auto simp: allowedOriginsSchema_def split: option.splits if_splits)

lemma loadEnv_Inr:
  "loadEnv urlProtocol p = Inr e \<longleftrightarrow>
    envSchema urlProtocol p = Some e \<and> validateProductionOrigins urlProtocol (en_ALLOWED_ORIGINS e) (en_NODE_ENV e) = None
    \<or> envSchema urlProtocol p = None \<and> isTest p \<and> e = test_stub p"
  by (auto simp: loadEnv_def split: option.splits)

lemma listen_port_env:
  assumes "envSchema urlProtocol p = Some e"
  shows "int_val (listen_port p e) = int_val (en_PORT e)"
proof (cases "p ''PORT''")
  case (Some s)
  with envSchema_Some(3) [OF assms] have x: "isInteger (js_Number s)" "1 \<le> int_val (js_Number s)" "int_val (js_Number s) = int_val (en_PORT e)"
    by (auto simp: z_coerce_int_def Let_def split: if_splits)
  moreover from x(1,2) have "truthy (JNum (js_Number s))" by (cases "js_Number s") (auto intro: ccontr)
  ultimately show ?thesis using Some by (simp add: listen_port_def Let_def)
qed (simp add: listen_port_def)

lemma trusted_are_allowed: "trustedOrigins e = allowedOrigins e"
  by (simp add: trustedOrigins_def allowedOrigins_def)

section \<open>Properties\<close>

text \<open>
  An API that starts outside test mode has a valid configuration: database URL, a secret of at least 32
  characters, the port it listens on between 1 and 65535 and the limits positive; in production the allowed
  origins, which the CORS check and the authentication service share, are not empty and each parses as an http or https URL.
\<close>

theorem started_configuration_valid:
  assumes "loadEnv urlProtocol p = Inr e" and "\<not> isTest p"
  shows "urlProtocol (en_DATABASE_URL e) \<noteq> None \<and> 32 \<le> length (en_BETTER_AUTH_SECRET e)
    \<and> 1 \<le> int_val (listen_port p e) \<and> int_val (listen_port p e) \<le> 65535
    \<and> 1 \<le> en_RATE_LIMIT_EMAIL_PER_HOUR e \<and> 1 \<le> en_RATE_LIMIT_RESEND_PER_DAY e \<and> 1 \<le> en_RATE_LIMIT_RESEND_COOLDOWN_SECONDS e
    \<and> trustedOrigins e = allowedOrigins e
    \<and> (p ''NODE_ENV'' = Some ''production'' \<longrightarrow> allowedOrigins e \<noteq> []
        \<and> (\<forall>o'\<in>set (allowedOrigins e). urlProtocol o' \<in> {Some ''https:'', Some ''http:''} \<and> (\<exists>s. o' = trim s)))"
proof -
  from assms have s: "envSchema urlProtocol p = Some e"
    and v: "validateProductionOrigins urlProtocol (en_ALLOWED_ORIGINS e) (en_NODE_ENV e) = None" by (auto simp: loadEnv_Inr)
  note es = envSchema_Some [OF s]
  have "p ''NODE_ENV'' = Some ''production'' \<longrightarrow> allowedOrigins e \<noteq> []
      \<and> (\<forall>o'\<in>set (allowedOrigins e). urlProtocol o' \<in> {Some ''https:'', Some ''http:''} \<and> (\<exists>s. o' = trim s))"
    using v es(8) by (auto simp: z_node_env_def validateProductionOrigins_def Let_def filter_empty_conv allowedOrigins_def es(7)
        split: if_splits dest: allowedOriginsSchema_elem)
  with es z_coerce_int_Some [OF es(3)] listen_port_env [OF s] trusted_are_allowed show ?thesis by simp
qed

definition ex_process_env :: process_env where
  "ex_process_env = [''DATABASE_URL'' \<mapsto> ''postgres:db'', ''BETTER_AUTH_SECRET'' \<mapsto> replicate 32 (CHR ''s''), ''BETTER_AUTH_URL'' \<mapsto> ''https:api'',
     ''NODE_ENV'' \<mapsto> ''production'', ''PORT'' \<mapsto> '' 0x50'', ''ALLOWED_ORIGINS'' \<mapsto> ''https:app, http:dash,'']"

definition ex_urlProtocol :: "string \<Rightarrow> string option" where
  "ex_urlProtocol s = (if CHR '':'' \<in> set s then Some (takeWhile (\<lambda>c. c \<noteq> CHR '':'') s @ '':'') else None)"

theorem started_configuration_valid_witness:
  "\<exists>e. loadEnv ex_urlProtocol ex_process_env = Inr e \<and> allowedOrigins e = [''https:app'', ''http:dash''] \<and> int_val (listen_port ex_process_env e) = 80
    \<and> (\<forall>o'\<in>set (allowedOrigins e). ex_urlProtocol o' \<in> {Some ''https:'', Some ''http:''})"
proof -
  obtain e where e: "loadEnv ex_urlProtocol ex_process_env = Inr e" "allowedOrigins e = [''https:app'', ''http:dash'']"
    "int_val (listen_port ex_process_env e) = 80"
  proof -
    have "case loadEnv ex_urlProtocol ex_process_env of Inl _ \<Rightarrow> False | Inr e \<Rightarrow>
        allowedOrigins e = [''https:app'', ''http:dash''] \<and> int_val (listen_port ex_process_env e) = 80" by code_simp
    then show thesis using that by (auto split: sum.splits)
  qed
  have t: "\<not> isTest ex_process_env" and n: "ex_process_env ''NODE_ENV'' = Some ''production''" by code_simp+
  from started_configuration_valid [OF e(1) t] n e show ?thesis by blast
qed

end
