(* ===== verification/Email_Messages.thy ===== *)
theory Email_Messages
  imports Tenant_Accounts Rate_Limit Env_Config
begin

text \<open>
  The e-mails of \<open>packages/backend/src/auth.ts\<close>: the two callbacks that Better Auth calls, the message each
  hands to Resend, and the way there through \<open>middleware/email-rate-limit.ts\<close>, which leaves the context of
  the request for them. Better Auth is a parameter, \<open>handler\<close>: the callback it calls for a request, if any. Resend is
  another, \<open>me_send\<close>. The outbox is what Resend has been handed, with the time of the request.
\<close>

section \<open>The callbacks\<close>

definition FROM_ADDRESS :: string where
  "FROM_ADDRESS = ''LoopStorm Guard <noreply@loop-storm.com>''"

record email_message =
  em_from :: string
  em_to :: string
  em_subject :: string
  em_html :: string

record auth_user =
  bu_id :: string
  bu_email :: string

definition anchor_html :: "string \<Rightarrow> string \<Rightarrow> string" where
  "anchor_html url label = ''<p><a href='' @ [CHR 0x22] @ url @ [CHR 0x22] @ ''>'' @ label @ ''</a></p>''"

definition reset_message :: "auth_user \<Rightarrow> string \<Rightarrow> email_message" where
  "reset_message u url = \<lparr>em_from = FROM_ADDRESS, em_to = bu_email u, em_subject = ''Reset your LoopStorm Guard password'',
     em_html = ''<p>Click the link below to reset your password. This link expires in 1 hour.</p>''
       @ anchor_html url ''Reset Password''
       @ ''<p>If you did not request a password reset, you can ignore this email.</p>''\<rparr>"

definition verification_message :: "auth_user \<Rightarrow> string \<Rightarrow> email_message" where
  "verification_message u url = \<lparr>em_from = FROM_ADDRESS, em_to = bu_email u, em_subject = ''Verify your LoopStorm Guard account'',
     em_html = ''<p>Click the link below to verify your email address and activate your account.</p>''
       @ anchor_html url ''Verify Email''
       @ ''<p>If you did not create a LoopStorm Guard account, you can ignore this email.</p>''\<rparr>"

text \<open>\<open>me_resend\<close>: \<open>RESEND_API_KEY\<close> is set. The audit log may fail, which is only logged.\<close>

record mail_env =
  me_resend :: bool
  me_send :: "email_message \<Rightarrow> send_result"
  me_uuid :: string
  me_lookupFault :: bool
  me_insertFault :: bool
  me_updateFault :: bool

text \<open>\<open>resend\<close> of the module: there is a client when the key is set and not empty.\<close>

definition resend_client :: "Env \<Rightarrow> mail_env \<Rightarrow> mail_env" where
  "resend_client e me = me\<lparr>me_resend := present (en_RESEND_API_KEY e)\<rparr>"

text \<open>What is thrown, the audit log and the messages handed to Resend.\<close>

definition logged_send ::
  "mail_env \<Rightarrow> EmailRequestContext option \<Rightarrow> auth_user \<Rightarrow> EmailAuditType \<Rightarrow> email_message \<Rightarrow> accounts \<Rightarrow> audit_row list
   \<Rightarrow> (string + unit) \<times> audit_row list \<times> email_message list" where
  "logged_send me ctx u ty m a rows =
    (case logEmailSend ctx (me_uuid me) (bu_email u) (Some (bu_id u)) ty (me_send me m)
        (me_lookupFault me) (me_insertFault me) (me_updateFault me) a rows of (r, rows') \<Rightarrow> (r, rows', [m]))"

definition sendResetPassword ::
  "mail_env \<Rightarrow> EmailRequestContext option \<Rightarrow> auth_user \<Rightarrow> string \<Rightarrow> accounts \<Rightarrow> audit_row list
   \<Rightarrow> (string + unit) \<times> audit_row list \<times> email_message list" where
  "sendResetPassword me ctx u url a rows =
    (if \<not> me_resend me then (Inr (), rows, [])
     else logged_send me ctx u password_reset (reset_message u url) a rows)"

definition sendVerificationCallback ::
  "mail_env \<Rightarrow> EmailRequestContext option \<Rightarrow> auth_user \<Rightarrow> string \<Rightarrow> accounts \<Rightarrow> audit_row list
   \<Rightarrow> (string + unit) \<times> audit_row list \<times> email_message list" where
  "sendVerificationCallback me ctx u url a rows =
    (if \<not> me_resend me then (Inr (), rows, [])
     else logged_send me ctx u (verification_type ctx) (verification_message u url) a rows)"

section \<open>A request\<close>

datatype auth_callback = ResetPassword auth_user string | VerifyEmail auth_user string

record mail_state =
  ms_buckets :: buckets
  ms_rows :: "audit_row list"
  ms_outbox :: "(nat \<times> email_message) list"

fun callback ::
  "mail_env \<Rightarrow> EmailRequestContext option \<Rightarrow> auth_callback option \<Rightarrow> accounts \<Rightarrow> audit_row list
   \<Rightarrow> (string + unit) \<times> audit_row list \<times> email_message list" where
  "callback me ctx None a rows = (Inr (), rows, [])"
| "callback me ctx (Some (ResetPassword u url)) a rows = sendResetPassword me ctx u url a rows"
| "callback me ctx (Some (VerifyEmail u url)) a rows = sendVerificationCallback me ctx u url a rows"

text \<open>The context in which \<open>next\<close> runs; \<open>None\<close> when it is not called.\<close>

fun next_context :: "email_answer \<Rightarrow> EmailRequestContext option option" where
  "next_context PassThrough = Some None"
| "next_context (Limited n) = None"
| "next_context (Proceed ip ua nonce) = Some (Some \<lparr>ec_ip = ip, ec_user_agent = ua, ec_nonce = nonce\<rparr>)"

definition mail_request ::
  "(email_request \<Rightarrow> auth_callback option) \<Rightarrow> mail_env \<times> email_env \<times> email_request \<Rightarrow> accounts \<Rightarrow> mail_state \<Rightarrow> mail_state" where
  "mail_request handler x a st =
    (let (me, env, q) = x; (ans, t) = emailRateLimit env q (ms_buckets st) in
     case next_context ans of
       None \<Rightarrow> st\<lparr>ms_buckets := t\<rparr>
     | Some ctx \<Rightarrow> (case callback me ctx (handler q) a (ms_rows st) of
         (r, rows, ms) \<Rightarrow> \<lparr>ms_buckets = t, ms_rows = rows, ms_outbox = ms_outbox st @ map (\<lambda>m. (ee_now env, m)) ms\<rparr>))"

definition mail_run ::
  "(email_request \<Rightarrow> auth_callback option) \<Rightarrow> (mail_env \<times> email_env \<times> email_request) list \<Rightarrow> accounts \<Rightarrow> mail_state \<Rightarrow> mail_state" where
  "mail_run handler xs a st = foldl (\<lambda>st x. mail_request handler x a st) st xs"

definition no_mail :: mail_state where
  "no_mail = \<lparr>ms_buckets = (\<lambda>_. 0), ms_rows = [], ms_outbox = []\<rparr>"

section \<open>Better Auth\<close>

text \<open>
  What is used of Better Auth: it calls \<open>sendResetPassword\<close> only for a \<open>POST\<close> of the forget-password endpoint, with
  the user whose address is in the body, up to the case of its letters and the spaces around it.
\<close>

definition resets_on_request :: "(email_request \<Rightarrow> auth_callback option) \<Rightarrow> bool" where
  "resets_on_request handler \<longleftrightarrow> (\<forall>q u url. handler q = Some (ResetPassword u url) \<longrightarrow>
     eq_path q = FORGET_PASSWORD_PATH \<and> eq_method q = ''POST''
     \<and> (\<exists>raw. eq_body q = Some raw \<and> request_email raw \<noteq> [] \<and> request_email raw = toLowerCase (trim (bu_email u))))"

text \<open>A reset message to an address with this hash, of a request in this clock hour.\<close>

definition reset_mail :: "(string \<Rightarrow> string) \<Rightarrow> string \<Rightarrow> nat \<Rightarrow> nat \<times> email_message \<Rightarrow> bool" where
  "reset_mail sha h hour x \<longleftrightarrow> em_subject (snd x) = ''Reset your LoopStorm Guard password''
     \<and> hashEmailKey sha (toLowerCase (trim (em_to (snd x)))) = h
     \<and> window_start RL_WINDOW_HOUR_SEC (fst x div 1000) = hour"

text \<open>The messages of a callback.\<close>

fun mails_of :: "mail_env \<Rightarrow> auth_callback option \<Rightarrow> email_message list" where
  "mails_of me None = []"
| "mails_of me (Some (ResetPassword u url)) = (if me_resend me then [reset_message u url] else [])"
| "mails_of me (Some (VerifyEmail u url)) = (if me_resend me then [verification_message u url] else [])"

lemma callback_mails: "snd (snd (callback me ctx c a rows)) = mails_of me c"
  by (cases "(me, c)" rule: mails_of.cases)
     (auto simp: sendResetPassword_def sendVerificationCallback_def logged_send_def split: prod.splits)

lemma mail_request_cases:
  assumes "emailRateLimit env q (ms_buckets st) = (ans, t)"
  shows "ms_buckets (mail_request handler (me, env, q) a st) = t"
    and "ms_outbox (mail_request handler (me, env, q) a st) = ms_outbox st
      @ (if next_context ans = None then [] else map (Pair (ee_now env)) (mails_of me (handler q)))"
  by (auto simp: mail_request_def assms split: option.splits prod.splits)
     (metis callback_mails snd_conv)

lemma one_reset_per_pass:
  assumes "resets_on_request handler" and "emailRateLimit env q (ms_buckets st) = (ans, t)" and "ee_sha256 env = sha"
  shows "length (filter (reset_mail sha h hour) (ms_outbox (mail_request handler (me, env, q) a st)))
    \<le> length (filter (reset_mail sha h hour) (ms_outbox st)) + (if sends_to False h hour ((env, q), ans) then 1 else 0)"
proof (cases "\<exists>u url. handler q = Some (ResetPassword u url)")
  case False
  then show ?thesis
    by (cases "(me, handler q)" rule: mails_of.cases)
       (auto simp: mail_request_cases [OF assms(2)] reset_mail_def verification_message_def)
next
  case True
  then obtain u url where c: "handler q = Some (ResetPassword u url)" by blast
  with assms(1) obtain raw where q: "eq_path q = FORGET_PASSWORD_PATH" "eq_method q = ''POST''" "eq_body q = Some raw"
    "request_email raw \<noteq> []" and e: "request_email raw = toLowerCase (trim (bu_email u))"
    unfolding resets_on_request_def by blast
  have "ans \<noteq> PassThrough"
    using assms(2) q by (auto simp: emailRateLimit_def Let_def split: option.splits prod.splits)
  then show ?thesis
    using q e assms(3)
    by (cases ans) (auto simp: mail_request_cases [OF assms(2)] c reset_mail_def reset_message_def sends_to_def)
qed

lemma resets_bounded:
  assumes "resets_on_request handler" and "\<forall>(me, env, q)\<in>set xs. ee_per_hour env = lmt \<and> ee_sha256 env = sha"
  shows "length (filter (reset_mail sha h hour) (ms_outbox (mail_run handler xs a st)))
    \<le> length (filter (reset_mail sha h hour) (ms_outbox st))
      + length (filter (sends_to False h hour) (zip (map snd xs) (email_answers (map snd xs) (ms_buckets st))))"
  using assms(2)
proof (induction xs arbitrary: st)
  case (Cons x xs)
  obtain me env q where x: "x = (me, env, q)" by (cases x) auto
  obtain ans t where e: "emailRateLimit env q (ms_buckets st) = (ans, t)" by fastforce
  let ?st = "mail_request handler (me, env, q) a st"
  have b: "ms_buckets ?st = t" by (rule mail_request_cases(1) [OF e])
  have run: "mail_run handler (x # xs) a st = mail_run handler xs a ?st" by (simp add: mail_run_def x)
  from Cons.prems x have "ee_sha256 env = sha" by simp
  from one_reset_per_pass [OF assms(1) e this, of h hour me a] Cons.IH [of ?st] Cons.prems
  show ?case unfolding run by (cases "sends_to False h hour ((env, q), ans)") (auto simp: x e b)
qed (simp add: mail_run_def)

section \<open>Properties\<close>


text \<open>What the audit log says of a message, given what Resend does with it.\<close>

definition status_of :: "send_result \<Rightarrow> send_status \<times> string option" where
  "status_of r = (case r of SendOk m \<Rightarrow> (sent, m) | _ \<Rightarrow> (failed, None))"

definition audits :: "(email_message \<Rightarrow> send_result) \<Rightarrow> audit_row \<Rightarrow> nat \<times> email_message \<Rightarrow> bool" where
  "audits send r x \<longleftrightarrow> al_email r = em_to (snd x) \<and> (al_status r, al_message_id r) = status_of (send (snd x))
     \<and> (al_email_type r = password_reset \<longleftrightarrow> em_subject (snd x) = ''Reset your LoopStorm Guard password'')"

lemma set_status_other: "nonce \<notin> al_nonce ` set rows \<Longrightarrow> set_status nonce s m rows = rows"
  unfolding set_status_def by (rule map_idI) auto

lemma logEmailSend_appends:
  assumes "logEmailSend ctx uuid email u ty res f False False a rows = (r, rows')"
    and "(case ctx of None \<Rightarrow> uuid | Some c \<Rightarrow> ec_nonce c) \<notin> al_nonce ` set rows"
  shows "\<exists>row. rows' = rows @ [row] \<and> al_email row = email \<and> al_email_type row = ty
    \<and> (al_status row, al_message_id row) = status_of res \<and> al_nonce row = (case ctx of None \<Rightarrow> uuid | Some c \<Rightarrow> ec_nonce c)"
  using assms set_status_other [OF assms(2)]
  by (cases res) (auto simp: logEmailSend_def Let_def set_status_def status_of_def)

lemma callback_audited:
  assumes "callback me ctx c a rows = (r, rows', ms)" and "\<not> me_insertFault me" and "\<not> me_updateFault me"
    and "(case ctx of None \<Rightarrow> me_uuid me | Some x \<Rightarrow> ec_nonce x) \<notin> al_nonce ` set rows"
  shows "\<exists>new. rows' = rows @ new \<and> list_all2 (audits (me_send me)) new (map (Pair now) ms)
    \<and> al_nonce ` set new \<subseteq> {case ctx of None \<Rightarrow> me_uuid me | Some x \<Rightarrow> ec_nonce x}"
proof (cases "(me, c)" rule: mails_of.cases)
  case (2 me' u url)
  then show ?thesis using assms logEmailSend_appends [OF _ assms(4)]
    by (fastforce simp: sendResetPassword_def logged_send_def audits_def reset_message_def split: if_splits prod.splits)
next
  case (3 me' u url)
  then show ?thesis using assms logEmailSend_appends [OF _ assms(4)]
    by (fastforce simp: sendVerificationCallback_def logged_send_def audits_def verification_message_def verification_type_def
        split: if_splits prod.splits option.splits)
qed (use assms in simp)

text \<open>
  When the audit log can be written and the random nonces are fresh, every message that Resend was handed
  has its row, in order: the address, the kind of the message, and whether Resend took it.
\<close>

theorem every_send_audited:
  assumes "\<forall>(me, env, q)\<in>set xs. \<not> me_insertFault me \<and> \<not> me_updateFault me \<and> me_send me = send"
    and "distinct (concat (map (\<lambda>(me, env, q). [me_uuid me, ee_nonce env]) xs))"
  shows "list_all2 (audits send) (ms_rows (mail_run handler xs a no_mail)) (ms_outbox (mail_run handler xs a no_mail))"
proof -
  define used where "used xs = set (concat (map (\<lambda>(me, env, q). [me_uuid me, ee_nonce env]) xs))"
    for xs :: "(mail_env \<times> email_env \<times> email_request) list"
  have "list_all2 (audits send) (ms_rows (mail_run handler xs a st)) (ms_outbox (mail_run handler xs a st))"
    if "list_all2 (audits send) (ms_rows st) (ms_outbox st)" "al_nonce ` set (ms_rows st) \<inter> used xs = {}" for st
    using that assms
  proof (induction xs arbitrary: st)
    case (Cons x xs)
    obtain me env q where x: "x = (me, env, q)" by (cases x) auto
    obtain ans t where e: "emailRateLimit env q (ms_buckets st) = (ans, t)" by fastforce
    let ?st = "mail_request handler x a st"
    have ux: "used (x # xs) = {me_uuid me, ee_nonce env} \<union> used xs" by (simp add: used_def x)
    have me: "\<not> me_insertFault me" "\<not> me_updateFault me" "me_send me = send" using Cons.prems(3) x by auto
    have "list_all2 (audits send) (ms_rows ?st) (ms_outbox ?st) \<and> al_nonce ` set (ms_rows ?st) \<inter> used xs = {}"
    proof (cases "next_context ans")
      case None
      with Cons.prems(1,2) ux show ?thesis by (auto simp: mail_request_def x e)
    next
      case (Some ctx)
      obtain r rows' ms where c: "callback me ctx (handler q) a (ms_rows st) = (r, rows', ms)" by (metis prod_cases3)
      have n: "(case ctx of None \<Rightarrow> me_uuid me | Some x \<Rightarrow> ec_nonce x) \<in> {me_uuid me, ee_nonce env}"
        using Some e by (cases ans) (auto simp: emailRateLimit_def Let_def split: if_splits option.splits prod.splits)
      with Cons.prems(2) ux have "(case ctx of None \<Rightarrow> me_uuid me | Some x \<Rightarrow> ec_nonce x) \<notin> al_nonce ` set (ms_rows st)" by auto
      from callback_audited [OF c me(1,2) this, of "ee_now env", unfolded me(3)] obtain new where new: "rows' = ms_rows st @ new"
        "list_all2 (audits send) new (map (Pair (ee_now env)) ms)"
        and "al_nonce ` set new \<subseteq> {case ctx of None \<Rightarrow> me_uuid me | Some x \<Rightarrow> ec_nonce x}"
        by (elim exE conjE) (rule that)
      with n have nonces: "al_nonce ` set new \<subseteq> {me_uuid me, ee_nonce env}" by auto
      have st: "?st = \<lparr>ms_buckets = t, ms_rows = rows', ms_outbox = ms_outbox st @ map (Pair (ee_now env)) ms\<rparr>"
        by (simp add: mail_request_def x e Some c)
      have "used xs \<inter> {me_uuid me, ee_nonce env} = {}" using Cons.prems(4) x by (auto simp: used_def)
      with nonces Cons.prems(2) ux have "al_nonce ` set (ms_rows st @ new) \<inter> used xs = {}"
        unfolding set_append image_Un by blast
      with new(1) list_all2_appendI [OF Cons.prems(1) new(2)] show ?thesis unfolding st by simp
    qed
    with Cons.IH [of ?st] Cons.prems(3,4) show ?case by (simp add: mail_run_def)
  qed (simp add: mail_run_def)
  then show ?thesis by (simp add: no_mail_def)
qed

text \<open>
  Nobody is locked out for want of a message: whenever verification is required, the callback hands the message
  for the user's own address to Resend, whatever fails in the audit log.
\<close>

theorem required_verification_is_sent:
  assumes "requireEmailVerification e"
  shows "snd (snd (sendVerificationCallback (resend_client e me) ctx u url a rows)) = [verification_message u url]
    \<and> em_to (verification_message u url) = bu_email u"
  using assms callback_mails [of "resend_client e me" ctx "Some (VerifyEmail u url)" a rows]
  by (simp add: requireEmailVerification_def resend_client_def verification_message_def)

text \<open>The rules of Better Auth's own limiter: path, seconds, requests.\<close>

definition customRules :: "nat \<Rightarrow> (string \<times> nat \<times> nat) list" where
  "customRules perHour =
    [(''/sign-in/email'', 60, 10), (''/sign-up/email'', 3600, 20), (''/forget-password'', 3600, perHour),
     (''/send-verification-email'', 3600, perHour), (''/verify-email'', 3600, perHour)]"

text \<open>On the e-mail endpoints the two limiters agree: an hour, and \<open>RATE_LIMIT_EMAIL_PER_HOUR\<close> requests.\<close>

theorem limiters_agree:
  "\<exists>key. (key, the (map_of (customRules (ee_per_hour env)) (drop (length ''/api/auth'')
      (if isResend then SEND_VERIFICATION_PATH else FORGET_PASSWORD_PATH)))) \<in> set (email_buckets env isResend ip h)"
  by (auto simp: customRules_def SEND_VERIFICATION_PATH_def FORGET_PASSWORD_PATH_def email_buckets_def RL_WINDOW_HOUR_SEC_def)

section \<open>The theorems at concrete inputs\<close>

definition ex_forget :: email_request where
  "ex_forget = ex_resend\<lparr>eq_path := FORGET_PASSWORD_PATH\<rparr>"

definition ex_handler :: "email_request \<Rightarrow> auth_callback option" where
  "ex_handler q = (if q = ex_forget then Some (ResetPassword \<lparr>bu_id = ''u'', bu_email = ''a@b''\<rparr> ''link'') else None)"

definition ex_menv :: "string \<Rightarrow> mail_env" where
  "ex_menv uuid = \<lparr>me_resend = True, me_send = (\<lambda>_. SendOk (Some ''m'')), me_uuid = uuid, me_lookupFault = False,
     me_insertFault = False, me_updateFault = False\<rparr>"

lemma ex_handler_resets: "resets_on_request ex_handler"
proof -
  have "request_email (JObj [(''email'', JStr ''a@b'')]) = toLowerCase (trim ''a@b'')"
    "request_email (JObj [(''email'', JStr ''a@b'')]) \<noteq> []" by code_simp+
  then show ?thesis by (simp add: resets_on_request_def ex_handler_def ex_forget_def ex_resend_def)
qed


theorem every_send_audited_witness:
  "\<exists>xs. list_all2 (audits (\<lambda>_. SendOk (Some ''m''))) (ms_rows (mail_run ex_handler xs ex_accounts no_mail))
      (ms_outbox (mail_run ex_handler xs ex_accounts no_mail))
    \<and> map (em_to \<circ> snd) (ms_outbox (mail_run ex_handler xs ex_accounts no_mail)) = [''a@b'']"
proof (intro exI [of _ "[(ex_menv ''1'', ex_eenv 0, ex_forget)]"] conjI)
  show "list_all2 (audits (\<lambda>_. SendOk (Some ''m''))) (ms_rows (mail_run ex_handler [(ex_menv ''1'', ex_eenv 0, ex_forget)] ex_accounts no_mail))
      (ms_outbox (mail_run ex_handler [(ex_menv ''1'', ex_eenv 0, ex_forget)] ex_accounts no_mail))"
    by (rule every_send_audited) (simp_all add: ex_menv_def ex_eenv_def)
  show "map (em_to \<circ> snd) (ms_outbox (mail_run ex_handler [(ex_menv ''1'', ex_eenv 0, ex_forget)] ex_accounts no_mail)) = [''a@b'']"
    by code_simp
qed

end
