(* ===== verification/Tenant_Transactions.thy ===== *)
theory Tenant_Transactions
  imports Tenant_Accounts
begin

text \<open>
  The tenant transaction around every authenticated procedure: \<open>setTenantRlsContext\<close> of
  \<open>packages/backend/src/middleware/tenant.ts\<close>, \<open>db.transaction\<close> of the three middlewares of
  \<open>packages/backend/src/trpc/trpc.ts\<close>, the pool of \<open>packages/backend/src/db/client.ts\<close>, and the policies of
  \<open>packages/backend/drizzle/0002_enable_rls.sql\<close> and \<open>0004_rate_limit_and_email_audit.sql\<close> that read
  the setting.

  The pool is a list of connections; what several requests do on them is interleaved statement by
  statement (\<open>pool_step\<close>). The writes of a transaction are kept in the connection until it commits, so
  that a statement reads the committed rows and the transaction's own writes. Parameters: \<open>jsonTenant\<close>,
  which is \<open>(claims::json->>'tenant_id')::uuid\<close>, and whether the database role bypasses row-level security.
\<close>

section \<open>Rows and policies\<close>

datatype rls_table = api_keys | runs | events | supervisor_proposals | supervisor_escalations | policy_packs | email_audit_log | rate_limit_buckets

record 'a trow =
  tr_table :: rls_table
  tr_tenant :: "string option"
  tr_data :: 'a

type_synonym 'a rows = "'a trow list"

text \<open>\<open>current_tenant_id()\<close>: null when the setting is missing.\<close>

definition current_tenant_id :: "(string \<Rightarrow> string option) \<Rightarrow> string option \<Rightarrow> string option" where
  "current_tenant_id jsonTenant claims = (case claims of None \<Rightarrow> None | Some c \<Rightarrow> jsonTenant c)"

text \<open>\<open>USING\<close>, which is also the \<open>WITH CHECK\<close> of each table. A comparison with null is not true.\<close>

definition policy_using :: "string option \<Rightarrow> 'a trow \<Rightarrow> bool" where
  "policy_using tenant r = (case tr_table r of
     rate_limit_buckets \<Rightarrow> False
   | _ \<Rightarrow> tr_tenant r \<noteq> None \<and> tr_tenant r = tenant)"

definition allowed :: "bool \<Rightarrow> string option \<Rightarrow> 'a trow \<Rightarrow> bool" where
  "allowed bypass tenant r \<longleftrightarrow> bypass \<or> policy_using tenant r"

section \<open>Statements\<close>

datatype 'a stmt =
    Select "'a trow \<Rightarrow> bool"
  | Insert "'a trow"
  | Update "'a trow \<Rightarrow> bool" "'a trow \<Rightarrow> 'a trow"
  | Delete "'a trow \<Rightarrow> bool"

text \<open>
  Only visible rows are read, updated or deleted; a new row that fails the check makes the statement
  fail (\<open>None\<close>). The second component is the table after it.
\<close>

definition exec_stmt :: "bool \<Rightarrow> string option \<Rightarrow> 'a stmt \<Rightarrow> 'a rows \<Rightarrow> ('a rows \<times> 'a rows) option" where
  "exec_stmt bypass tenant q rows =
    (case q of
       Select P \<Rightarrow> Some (filter (\<lambda>r. allowed bypass tenant r \<and> P r) rows, rows)
     | Insert r \<Rightarrow> if allowed bypass tenant r then Some ([r], rows @ [r]) else None
     | Update P f \<Rightarrow>
        (let hit = filter (\<lambda>r. allowed bypass tenant r \<and> P r) rows
         in if \<forall>r\<in>set hit. allowed bypass tenant (f r)
            then Some (map f hit, map (\<lambda>r. if allowed bypass tenant r \<and> P r then f r else r) rows) else None)
     | Delete P \<Rightarrow> Some (filter (\<lambda>r. allowed bypass tenant r \<and> P r) rows, filter (\<lambda>r. \<not> (allowed bypass tenant r \<and> P r)) rows))"

text \<open>A statement of a transaction that has failed before fails too; the commit of such a transaction rolls back.\<close>

fun replay :: "bool \<Rightarrow> string option \<Rightarrow> 'a stmt list \<Rightarrow> 'a rows \<Rightarrow> 'a rows option" where
  "replay bypass tenant [] rows = Some rows"
| "replay bypass tenant (q # qs) rows =
    (case exec_stmt bypass tenant q rows of None \<Rightarrow> None | Some (_, rows') \<Rightarrow> replay bypass tenant qs rows')"

section \<open>Connections and the middleware\<close>

datatype 'a phase =
    Idle
  | Begun string
  | InHandler string "'a stmt list"

record 'a connection =
  cn_claims :: "string option"
  cn_phase :: "'a phase"

text \<open>\<open>JSON.stringify({ tenant_id: tenantId })\<close> and \<open>set_config('request.jwt.claims', claims, true)\<close>.\<close>

definition tenant_claims :: "string \<Rightarrow> string" where
  "tenant_claims tenantId = (case json_stringify (JObj [(''tenant_id'', JStr tenantId)]) of Inr (Some s) \<Rightarrow> s | _ \<Rightarrow> [])"

definition setTenantRlsContext :: "string \<Rightarrow> 'a connection \<Rightarrow> 'a connection" where
  "setTenantRlsContext tenantId c = c\<lparr>cn_claims := Some (tenant_claims tenantId)\<rparr>"

definition clearTenantRlsContext :: "'a connection \<Rightarrow> 'a connection" where
  "clearTenantRlsContext c = c\<lparr>cn_claims := Some []\<rparr>"

text \<open>The end of a transaction, either way, also ends its local setting.\<close>

definition end_transaction :: "'a connection \<Rightarrow> 'a connection" where
  "end_transaction c = c\<lparr>cn_claims := None, cn_phase := Idle\<rparr>"

record 'a pool_state =
  pl_conns :: "'a connection list"
  pl_rows :: "'a rows"

text \<open>
  What a step does, by connection: a middleware opens a transaction for the tenant it found, sets
  the context, passes the client to the handler, which runs statements with some answer, and the
  transaction ends. \<open>Plain\<close> is a statement on the \<open>db\<close> singleton, outside every transaction.
\<close>

datatype 'a action =
    Begin nat string
  | SetContext nat
  | Run nat "'a stmt" "'a rows"
  | Commit nat
  | Rollback nat
  | Plain nat "'a stmt" "'a rows"

definition tenant_on :: "(string \<Rightarrow> string option) \<Rightarrow> 'a pool_state \<Rightarrow> nat \<Rightarrow> string option" where
  "tenant_on jt s i = current_tenant_id jt (cn_claims (pl_conns s ! i))"

definition set_conn :: "nat \<Rightarrow> 'a connection \<Rightarrow> 'a pool_state \<Rightarrow> 'a pool_state" where
  "set_conn i c s = s\<lparr>pl_conns := (pl_conns s)[i := c]\<rparr>"

inductive pool_step :: "bool \<Rightarrow> (string \<Rightarrow> string option) \<Rightarrow> 'a pool_state \<Rightarrow> 'a action \<Rightarrow> 'a pool_state \<Rightarrow> bool"
  for bypass :: bool and jt :: "string \<Rightarrow> string option" where
  begin_tx: "\<lbrakk>i < length (pl_conns s); cn_phase (pl_conns s ! i) = Idle\<rbrakk> \<Longrightarrow>
    pool_step bypass jt s (Begin i t) (set_conn i ((pl_conns s ! i)\<lparr>cn_phase := Begun t\<rparr>) s)"
| set_context: "\<lbrakk>i < length (pl_conns s); cn_phase (pl_conns s ! i) = Begun t\<rbrakk> \<Longrightarrow>
    pool_step bypass jt s (SetContext i) (set_conn i (setTenantRlsContext t ((pl_conns s ! i)\<lparr>cn_phase := InHandler t []\<rparr>)) s)"
| run_stmt: "\<lbrakk>i < length (pl_conns s); cn_phase (pl_conns s ! i) = InHandler t qs;
    replay bypass (tenant_on jt s i) qs (pl_rows s) = Some own; exec_stmt bypass (tenant_on jt s i) q own = Some (out, own')\<rbrakk> \<Longrightarrow>
    pool_step bypass jt s (Run i q out) (set_conn i ((pl_conns s ! i)\<lparr>cn_phase := InHandler t (qs @ [q])\<rparr>) s)"
| commit: "\<lbrakk>i < length (pl_conns s); cn_phase (pl_conns s ! i) = InHandler t qs;
    replay bypass (tenant_on jt s i) qs (pl_rows s) = Some rows'\<rbrakk> \<Longrightarrow>
    pool_step bypass jt s (Commit i) (set_conn i (end_transaction (pl_conns s ! i)) s\<lparr>pl_rows := rows'\<rparr>)"
| rollback: "\<lbrakk>i < length (pl_conns s); cn_phase (pl_conns s ! i) \<noteq> Idle\<rbrakk> \<Longrightarrow>
    pool_step bypass jt s (Rollback i) (set_conn i (end_transaction (pl_conns s ! i)) s)"
| plain: "\<lbrakk>i < length (pl_conns s); cn_phase (pl_conns s ! i) = Idle; exec_stmt bypass (tenant_on jt s i) q (pl_rows s) = Some (out, rows')\<rbrakk> \<Longrightarrow>
    pool_step bypass jt s (Plain i q out) (s\<lparr>pl_rows := rows'\<rparr>)"

inductive pool_run :: "bool \<Rightarrow> (string \<Rightarrow> string option) \<Rightarrow> 'a pool_state \<Rightarrow> 'a action list \<Rightarrow> 'a pool_state \<Rightarrow> bool"
  for bypass :: bool and jt :: "string \<Rightarrow> string option" where
  run_nil: "pool_run bypass jt s [] s"
| run_snoc: "\<lbrakk>pool_run bypass jt s as s'; pool_step bypass jt s' a s''\<rbrakk> \<Longrightarrow> pool_run bypass jt s (as @ [a]) s''"

text \<open>\<open>postgres(url, { max: 10 })\<close>\<close>

definition initial_pool :: "'a rows \<Rightarrow> 'a pool_state" where
  "initial_pool rows = \<lparr>pl_conns = replicate 10 \<lparr>cn_claims = None, cn_phase = Idle\<rparr>, pl_rows = rows\<rparr>"

text \<open>
  The promise that a middleware waits for, and \<open>db.transaction(callback)\<close>: the transaction commits when
  the callback's promise resolves and rolls back when it rejects. \<open>next\<close> is a parameter: what
  \<open>next({ ctx })\<close> of tRPC gives for a handler that returned or threw.
\<close>

datatype 'v settled = Resolved 'v | Rejected api_error

datatype 'v middleware_result = MiddlewareOk 'v | MiddlewareError api_error

definition db_transaction :: "'v settled \<times> 'a rows \<Rightarrow> 'a rows \<Rightarrow> 'v settled \<times> 'a rows" where
  "db_transaction after rows = (case after of (Resolved v, rows') \<Rightarrow> (Resolved v, rows') | (Rejected e, _) \<Rightarrow> (Rejected e, rows))"

definition tenant_procedure ::
  "(api_error + 'v \<Rightarrow> 'v middleware_result settled) \<Rightarrow> (string \<Rightarrow> 'a rows \<Rightarrow> (api_error + 'v) \<times> 'a rows) \<Rightarrow> string \<Rightarrow> 'a rows
   \<Rightarrow> 'v middleware_result settled \<times> 'a rows" where
  "tenant_procedure next handler tenantId rows = db_transaction (map_prod next id (handler tenantId rows)) rows"

text \<open>
  The session branch of the middlewares with the tables that \<open>ensureTenantId\<close> reads and writes;
  an error of its reads is an internal error.
\<close>

definition session_request ::
  "provision_env \<Rightarrow> account_user \<Rightarrow> (nat \<Rightarrow> bool) \<Rightarrow> api_error + session_user \<Rightarrow> accounts \<Rightarrow> (api_error + auth_ctx) \<times> accounts" where
  "session_request env u fault session a =
    (case session of
       Inl e \<Rightarrow> (Inl e, a)
     | Inr su \<Rightarrow>
        if su_tenant_id su \<in> {None, Some []} then
          (case ensureTenantId env u fault a of
             (Returned t, a') \<Rightarrow> (authMiddleware session (\<lambda>_. t), a')
           | (_, a') \<Rightarrow> (Inl (TRPCError INTERNAL_SERVER_ERROR ''query failed''), a'))
        else (authMiddleware session (\<lambda>_. None), a))"

section \<open>Lemmas\<close>

lemma exec_stmt_out:
  assumes "exec_stmt bypass tenant q rows = Some (out, rows')"
  shows "list_all (allowed bypass tenant) out"
  using assms by (cases q) (auto simp: exec_stmt_def list_all_iff Let_def split: if_splits)

lemma exec_stmt_frame:
  assumes "exec_stmt bypass tenant q rows = Some (out, rows')"
  shows "filter (\<lambda>r. \<not> allowed bypass tenant r) rows' = filter (\<lambda>r. \<not> allowed bypass tenant r) rows"
proof (cases q)
  case (Update P f)
  have "filter (\<lambda>r. \<not> allowed bypass tenant r) (map (\<lambda>r. if allowed bypass tenant r \<and> P r then f r else r) rs) =
    filter (\<lambda>r. \<not> allowed bypass tenant r) rs"
    if "\<forall>r\<in>set rs. allowed bypass tenant r \<longrightarrow> P r \<longrightarrow> allowed bypass tenant (f r)" for rs
    using that by (induction rs) auto
  with assms Update show ?thesis by (auto simp: exec_stmt_def Let_def split: if_splits)
next
  case (Delete P)
  with assms show ?thesis by (auto simp: exec_stmt_def filter_filter intro: filter_cong)
qed (use assms in \<open>auto simp: exec_stmt_def split: if_splits\<close>)

lemma replay_frame:
  "replay bypass tenant qs rows = Some rows' \<Longrightarrow>
    filter (\<lambda>r. \<not> allowed bypass tenant r) rows' = filter (\<lambda>r. \<not> allowed bypass tenant r) rows"
  by (induction bypass tenant qs rows rule: replay.induct) (auto dest: exec_stmt_frame split: option.splits)

lemma replay_append: "replay b t (qs @ qs') rows = (case replay b t qs rows of None \<Rightarrow> None | Some rows' \<Rightarrow> replay b t qs' rows')"
  by (induction b t qs rows rule: replay.induct) (auto split: option.splits)

lemma allowed_tenant: "allowed False t r \<Longrightarrow> t \<noteq> None \<and> tr_tenant r = t"
  by (auto simp: allowed_def policy_using_def split: rls_table.splits)

text \<open>What tenant \<open>t\<close> owns.\<close>

definition owned :: "string \<Rightarrow> 'a rows \<Rightarrow> 'a rows" where
  "owned t rows = filter (\<lambda>r. tr_tenant r = Some t) rows"

lemma owned_frame:
  assumes "filter (\<lambda>r. \<not> allowed False tenant r) rows' = filter (\<lambda>r. \<not> allowed False tenant r) rows" and "tenant \<noteq> Some t"
  shows "owned t rows' = owned t rows"
proof -
  have "owned t rs = filter (\<lambda>r. tr_tenant r = Some t) (filter (\<lambda>r. \<not> allowed False tenant r) rs)" for rs
    using assms(2) by (auto simp: owned_def intro!: filter_cong dest: allowed_tenant)
  then show ?thesis using assms(1) by metis
qed

lemma exec_stmt_no_tenant:
  assumes "exec_stmt False None q rows = Some (out, rows')"
  shows "out = [] \<and> rows' = rows"
proof -
  have n: "\<not> allowed False None r" for r :: "'a trow" using allowed_tenant [of None r] by blast
  with exec_stmt_frame [OF assms] exec_stmt_out [OF assms] show ?thesis by (cases out) (simp_all add: n)
qed

text \<open>Between transactions a connection has no claims, and in one it has those of its tenant.\<close>

fun conn_ok :: "'a connection \<Rightarrow> bool" where
  "conn_ok c = (case cn_phase c of InHandler t qs \<Rightarrow> cn_claims c = Some (tenant_claims t) | _ \<Rightarrow> cn_claims c = None)"

lemma pool_step_conns:
  assumes "pool_step bypass jt s a s'" and "list_all conn_ok (pl_conns s)"
  shows "list_all conn_ok (pl_conns s')"
  using assms
proof (cases rule: pool_step.cases)
  case (begin_tx i t)
  with assms(2) show ?thesis
    by (auto simp: set_conn_def list_all_length nth_list_update dest!: spec [of _ i])
next
  case (set_context i t)
  with assms(2) show ?thesis by (auto simp: set_conn_def setTenantRlsContext_def list_all_length nth_list_update)
next
  case (run_stmt i t qs own q out own')
  with assms(2) show ?thesis
    by (auto simp: set_conn_def list_all_length nth_list_update dest!: spec [of _ i])
qed (use assms(2) in \<open>auto simp: set_conn_def end_transaction_def list_all_length nth_list_update\<close>)

lemma pool_run_conns:
  "pool_run bypass jt s as s' \<Longrightarrow> list_all conn_ok (pl_conns s) \<Longrightarrow> list_all conn_ok (pl_conns s')"
  by (induction rule: pool_run.induct) (auto dest: pool_step_conns)

lemma conn_ok_initial: "list_all conn_ok (pl_conns (initial_pool rows))"
  by (simp add: initial_pool_def list_all_iff)

lemma conn_ok_tenant:
  assumes "list_all conn_ok (pl_conns s)" and "i < length (pl_conns s)" and "\<And>t. jt (tenant_claims t) \<in> {None, Some t}"
  shows "tenant_on jt s i \<in> (case cn_phase (pl_conns s ! i) of InHandler t qs \<Rightarrow> {None, Some t} | _ \<Rightarrow> {None})"
proof -
  from assms(1,2) have "conn_ok (pl_conns s ! i)" by (simp add: list_all_length)
  with assms(3) show ?thesis by (auto simp: tenant_on_def current_tenant_id_def split: phase.splits)
qed

lemma exec_stmt_reads:
  assumes "exec_stmt False tenant q rows = Some (out, rows')" and "r \<in> set out"
  shows "tenant \<noteq> None \<and> tr_tenant r = tenant"
  using exec_stmt_out [OF assms(1)] assms(2) by (auto simp: list_all_iff dest: allowed_tenant)

section \<open>Properties\<close>

text \<open>
  C11: with a role subject to row-level security, however the statements of the requests are
  interleaved on the pool's connections, a procedure reads only rows of the tenant its middleware
  found, the commit of its transaction leaves the rows of all other tenants as they were, nothing
  else changes the tables, and a statement outside a tenant transaction sees and changes nothing.
\<close>

theorem rls_isolates_tenants:
  assumes claims: "\<And>t. jt (tenant_claims t) \<in> {None, Some t}"
    and run: "pool_run False jt (initial_pool rows0) as s" and step: "pool_step False jt s a s'"
  shows "case a of
      Run i q out \<Rightarrow> \<exists>t qs. cn_phase (pl_conns s ! i) = InHandler t qs \<and> (\<forall>r\<in>set out. tr_tenant r = Some t) \<and> pl_rows s' = pl_rows s
    | Commit i \<Rightarrow> \<exists>t qs. cn_phase (pl_conns s ! i) = InHandler t qs \<and> (\<forall>t'. t' \<noteq> t \<longrightarrow> owned t' (pl_rows s') = owned t' (pl_rows s))
    | Plain i q out \<Rightarrow> out = [] \<and> pl_rows s' = pl_rows s
    | _ \<Rightarrow> pl_rows s' = pl_rows s"
proof -
  have ok: "list_all conn_ok (pl_conns s)" using pool_run_conns [OF run] conn_ok_initial by blast
  note tenant = conn_ok_tenant [OF ok _ claims]
  show ?thesis using step
  proof (cases rule: pool_step.cases)
    case (run_stmt i t qs own q out own')
    then have "tr_tenant r = Some t" if "r \<in> set out" for r
      using tenant [of i] exec_stmt_reads [OF run_stmt(6) that] by auto
    with run_stmt show ?thesis by (auto simp: set_conn_def)
  next
    case (commit i t qs rows')
    then have "owned t' rows' = owned t' (pl_rows s)" if "t' \<noteq> t" for t'
      using owned_frame [OF replay_frame [OF commit(5)], of t'] tenant [of i] that by auto
    with commit show ?thesis by auto
  next
    case (plain i q out rows')
    then show ?thesis using exec_stmt_no_tenant [of q "pl_rows s"] tenant [of i] by auto
  qed (auto simp: set_conn_def)
qed

definition ex_trow :: "string \<Rightarrow> nat trow" where
  "ex_trow t = \<lparr>tr_table = runs, tr_tenant = Some t, tr_data = 0\<rparr>"

text \<open>A reader of the claims that cuts an id without escapes out of \<open>{"tenant_id":"t"}\<close>.\<close>

definition ex_jsonTenant :: "string \<Rightarrow> string option" where
  "ex_jsonTenant c = (let t = drop 14 (take (length c - 2) c) in if CHR 0x5C \<in> set t then None else Some t)"

lemma escape_plain: "CHR 0x5C \<notin> set (concat (map json_escape_char u)) \<Longrightarrow> concat (map json_escape_char u) = u"
  by (induction u) (auto simp: json_escape_char_def Let_def split: if_splits)

lemma tenant_claims_eq: "tenant_claims t = CHR 0x7B # quote_json ''tenant_id'' @ '':'' @ quote_json t @ ''}''"
  by (simp add: tenant_claims_def bind_result_def)

lemma ex_jsonTenant: "ex_jsonTenant (tenant_claims t) \<in> {None, Some t}"
proof -
  have "quote_json ''tenant_id'' = CHR 0x22 # ''tenant_id'' @ [CHR 0x22]" by code_simp
  then have "drop 14 (take (length (tenant_claims t) - 2) (tenant_claims t)) = concat (map json_escape_char t)"
    by (simp add: tenant_claims_eq quote_json_def [of t])
  then show ?thesis using escape_plain [of t] by (auto simp: ex_jsonTenant_def Let_def)
qed

theorem rls_isolates_tenants_witness:
  "\<exists>s s'. pool_run False ex_jsonTenant (initial_pool [ex_trow ''a'', ex_trow ''b'']) [Begin 0 ''a'', SetContext 0] s
    \<and> pool_step False ex_jsonTenant s (Run 0 (Select (\<lambda>_. True)) [ex_trow ''a'']) s'
    \<and> (\<exists>t qs. cn_phase (pl_conns s ! 0) = InHandler t qs \<and> (\<forall>r\<in>set [ex_trow ''a'']. tr_tenant r = Some t) \<and> pl_rows s' = pl_rows s)"
proof -
  let ?s0 = "initial_pool [ex_trow ''a'', ex_trow ''b'']"
  define s1 where "s1 = set_conn 0 ((pl_conns ?s0 ! 0)\<lparr>cn_phase := Begun ''a''\<rparr>) ?s0"
  define s2 where "s2 = set_conn 0 (setTenantRlsContext ''a'' ((pl_conns s1 ! 0)\<lparr>cn_phase := InHandler ''a'' []\<rparr>)) s1"
  have p1: "pool_step False ex_jsonTenant ?s0 (Begin 0 ''a'') s1"
    unfolding s1_def by (rule pool_step.begin_tx) (simp_all add: initial_pool_def)
  have p2: "pool_step False ex_jsonTenant s1 (SetContext 0) s2"
    unfolding s2_def by (rule pool_step.set_context) (simp_all add: s1_def set_conn_def initial_pool_def)
  have t: "ex_jsonTenant (tenant_claims ''a'') = Some ''a''" by code_simp
  have p3: "pool_step False ex_jsonTenant s2 (Run 0 (Select (\<lambda>_. True)) [ex_trow ''a''])
      (set_conn 0 ((pl_conns s2 ! 0)\<lparr>cn_phase := InHandler ''a'' ([] @ [Select (\<lambda>_. True)])\<rparr>) s2)"
    by (rule pool_step.run_stmt [where own = "[ex_trow ''a'', ex_trow ''b'']" and own' = "[ex_trow ''a'', ex_trow ''b'']"])
      (simp_all add: s2_def s1_def set_conn_def initial_pool_def setTenantRlsContext_def tenant_on_def
        current_tenant_id_def t exec_stmt_def allowed_def policy_using_def ex_trow_def)
  have r: "pool_run False ex_jsonTenant ?s0 [Begin 0 ''a'', SetContext 0] s2"
    using run_snoc [OF run_snoc [OF run_nil p1] p2] by simp
  from rls_isolates_tenants [OF ex_jsonTenant r p3, simplified action.case] r p3 show ?thesis by blast
qed

text \<open>What the singleton reads of a table, outside every tenant transaction.\<close>

definition singleton_reads :: "bool \<Rightarrow> 'a rows \<Rightarrow> 'a rows" where
  "singleton_reads bypass rows = (case exec_stmt bypass None (Select (\<lambda>_. True)) rows of None \<Rightarrow> [] | Some (out, _) \<Rightarrow> out)"

text \<open>
  The one pool serves both kinds of statement, so no role fits: with a role subject to row-level
  security no API key authenticates and no rate-limit bucket can be written, and with a role that
  bypasses it a procedure of any tenant reads every tenant's rows.
\<close>

theorem no_role_fits_the_pool:
  fixes r :: "'a trow"
  shows "fst (authenticateApiKey sha256 now header (map tr_data (singleton_reads False keys))) = None
    \<and> exec_stmt False tenant (Insert (r\<lparr>tr_table := rate_limit_buckets\<rparr>)) rows = None
    \<and> exec_stmt True tenant (Select (\<lambda>_. True)) rows = Some (rows, rows)"
proof -
  have "singleton_reads False keys = []"
    using exec_stmt_no_tenant [of "Select (\<lambda>_. True)" keys] by (auto simp: singleton_reads_def split: option.splits)
  then have "fst (authenticateApiKey sha256 now header (map tr_data (singleton_reads False keys))) = None"
    by (simp add: authenticateApiKey_def candidates_def split: option.split)
  then show ?thesis by (simp add: exec_stmt_def allowed_def policy_using_def)
qed

text \<open>
  \<open>next\<close> of tRPC resolves also for a handler that threw, to a result that says so. The callback of
  \<open>db.transaction\<close> then resolves and the transaction commits: what a failing procedure wrote stays.
\<close>

theorem failed_procedure_commits:
  assumes "\<And>e. next (Inl e) = Resolved (MiddlewareError e)" and "handler tenantId rows = (Inl e, rows')"
  shows "tenant_procedure next handler tenantId rows = (Resolved (MiddlewareError e), rows')"
  using assms by (simp add: tenant_procedure_def db_transaction_def)

text \<open>
  The tenant of a request is never made up: a request that passes the session branch runs as the
  session's tenant, or as the tenant that the user's row names after the call, which is there.
\<close>

theorem session_request_tenant:
  assumes "session_request env u fault (Inr su) a = (Inr ctx, a')" and "su_id su = au_id u"
  shows "ax_userId ctx = Some (su_id su)
    \<and> (su_tenant_id su = Some (ax_tenantId ctx) \<and> a' = a
      \<or> su_tenant_id su \<in> {None, Some []} \<and> user_tenant (au_id u) a' = Some (ax_tenantId ctx))"
  using assms
  by (auto simp: session_request_def authMiddleware_def session_ctx_def bind_result_def ensureTenantId_def ensure_step_def Let_def
      split: if_splits option.splits ensure_pc.splits prod.splits)

theorem session_request_tenant_witness:
  "\<exists>ctx a'. session_request (ex_provision ''t1'') ex_user (\<lambda>_. False) (Inr \<lparr>su_id = ''u'', su_tenant_id = None\<rparr>) ex_accounts = (Inr ctx, a')
    \<and> user_tenant (au_id ex_user) a' = Some (ax_tenantId ctx)"
proof -
  let ?su = "\<lparr>su_id = ''u'', su_tenant_id = None\<rparr>"
  have "\<exists>ctx a'. session_request (ex_provision ''t1'') ex_user (\<lambda>_. False) (Inr ?su) ex_accounts = (Inr ctx, a')"
    by (simp add: session_request_def ensureTenantId_def ensure_step_def ex_accounts_def ex_user_def ex_provision_def user_tenant_def
        insert_tenant_def set_user_tenant_def set_session_tenants_def authMiddleware_def session_ctx_def bind_result_def)
  then obtain ctx a' where r: "session_request (ex_provision ''t1'') ex_user (\<lambda>_. False) (Inr ?su) ex_accounts = (Inr ctx, a')" by blast
  have "su_id ?su = au_id ex_user" by (simp add: ex_user_def)
  from session_request_tenant [OF r this] r show ?thesis by auto
qed

end
