(* ===== verification/Http_App.thy ===== *)
theory Http_App
  imports Env_Config Tenant_Accounts Rate_Limit Supervisor_Review "HOL-Library.AList"
begin

text \<open>
  The HTTP application of the API, \<open>packages/backend/src/app.ts\<close>: the CORS check, the health routes, the route of
  the scheduled timeout check, the rate limit before the authentication service, the tRPC mount and the header with
  the deployed commit; the adapter of \<open>packages/backend/api/index.ts\<close> between Node's and the web's requests and
  responses; and the timer of \<open>jobs/timeout-checker.ts\<close>.

  The authentication service and the tRPC adapter are parameters (\<open>ap_auth\<close>, \<open>ap_trpc\<close>) that act on data of
  their own type. Of Hono the order of the middlewares and the routes is modelled, as the source registers them;
  header names are in lower case.
\<close>

section \<open>Requests and responses\<close>

record http_request =
  hq_method :: string
  hq_path :: string
  hq_headers :: "(string \<times> string) list"
  hq_json :: "jsval option"              \<comment> \<open>the body, \<open>None\<close> when it is not JSON\<close>

record http_response =
  hr_status :: nat
  hr_headers :: "(string \<times> string) list"
  hr_body :: jsval

definition header :: "string \<Rightarrow> http_request \<Rightarrow> string option" where
  "header name q = map_of (hq_headers q) name"

definition c_json :: "jsval \<Rightarrow> nat \<Rightarrow> http_response" where
  "c_json v status = \<lparr>hr_status = status, hr_headers = [], hr_body = v\<rparr>"

definition set_header :: "string \<Rightarrow> string \<Rightarrow> http_response \<Rightarrow> http_response" where
  "set_header k v r = r\<lparr>hr_headers := AList.update k v (hr_headers r)\<rparr>"

section \<open>The application\<close>

record 'a app_env =
  ap_env :: Env
  ap_cron_secret :: "string option"      \<comment> \<open>\<open>VERCEL_CRON_SECRET\<close>\<close>
  ap_db_up :: bool
  ap_now :: int
  ap_sha256 :: "string \<Rightarrow> string"
  ap_nonce :: string
  ap_auth :: "http_request \<Rightarrow> EmailRequestContext option \<Rightarrow> 'a \<Rightarrow> http_response \<times> 'a"
  ap_trpc :: "http_request \<Rightarrow> 'a \<Rightarrow> http_response \<times> 'a"

record 'a app_state =
  as_data :: 'a
  as_review :: "proposal_row list \<times> escalation_row list"
  as_buckets :: buckets

definition cors_origin :: "Env \<Rightarrow> string option \<Rightarrow> string option" where
  "cors_origin e origin = (case origin of None \<Rightarrow> None | Some o' \<Rightarrow>
     if o' = [] then None else if o' \<in> set (allowedOrigins e) then Some o' else None)"

definition commit_sha :: "Env \<Rightarrow> string" where
  "commit_sha e = (case en_GIT_COMMIT e of None \<Rightarrow> ''unknown'' | Some c \<Rightarrow> c)"

definition health :: "'a app_env \<Rightarrow> http_response" where
  "health env = (let db = (if ap_db_up env then ''ok'' else ''error'')
     in c_json (JObj [(''status'', JStr (if db = ''ok'' then ''ok'' else ''degraded'')), (''db'', JStr db), (''commit'', JStr (commit_sha (ap_env env)))])
          (if db = ''ok'' then 200 else 503))"

definition health_supervisor :: http_response where
  "health_supervisor = c_json (JObj [(''pending_jobs'', JNum (num_of_int 0)), (''failed_jobs_24h'', JNum (num_of_int 0))]) 200"

text \<open>A secret that is not configured, or empty, is not checked. A failing database counts as nothing expired.\<close>

definition cron_authorized :: "'a app_env \<Rightarrow> http_request \<Rightarrow> bool" where
  "cron_authorized env q \<longleftrightarrow> (case ap_cron_secret env of None \<Rightarrow> True | Some s \<Rightarrow> s = [] \<or> header ''authorization'' q = Some (''Bearer '' @ s))"

definition cron_timeout_checker :: "'a app_env \<Rightarrow> http_request \<Rightarrow> 'a app_state \<Rightarrow> http_response \<times> 'a app_state" where
  "cron_timeout_checker env q s =
    (if \<not> cron_authorized env q then (c_json (JObj [(''error'', JStr ''Unauthorized'')]) 401, s)
     else (let ((ps, es), review) = (if ap_db_up env then runTimeoutCheck (ap_now env) (as_review s) else ((0, 0), as_review s))
           in (c_json (JObj [(''ok'', JBool True), (''expired_proposals'', JNum (num_of_int (int ps))),
                 (''expired_escalations'', JNum (num_of_int (int es)))]) 200, s\<lparr>as_review := review\<rparr>)))"

definition email_request_of :: "http_request \<Rightarrow> email_request" where
  "email_request_of q = \<lparr>eq_path = hq_path q, eq_method = hq_method q, eq_body = hq_json q, eq_vercel_ip = header ''x-vercel-forwarded-for'' q,
     eq_forwarded = header ''x-forwarded-for'' q, eq_user_agent = header ''user-agent'' q\<rparr>"

definition email_env_of :: "'a app_env \<Rightarrow> email_env" where
  "email_env_of env = \<lparr>ee_sha256 = ap_sha256 env, ee_db_ok = ap_db_up env, ee_now = nat (ap_now env) div 1000,
     ee_per_hour = nat (en_RATE_LIMIT_EMAIL_PER_HOUR (ap_env env)),
     ee_cooldown_seconds = nat (en_RATE_LIMIT_RESEND_COOLDOWN_SECONDS (ap_env env)),
     ee_per_day = nat (en_RATE_LIMIT_RESEND_PER_DAY (ap_env env)), ee_nonce = ap_nonce env\<rparr>"

definition respond429 :: "nat \<Rightarrow> http_response" where
  "respond429 retryAfter = set_header ''retry-after'' (show_nat retryAfter)
     (c_json (JObj [(''error'', JStr ''rate_limited''), (''layer'', JStr ''email''), (''retryAfter'', JNum (num_of_int (int retryAfter)))]) 429)"

definition not_found :: http_response where
  "not_found = c_json (JStr ''404 Not Found'') 404"

definition auth_route :: "'a app_env \<Rightarrow> EmailRequestContext option \<Rightarrow> http_request \<Rightarrow> 'a app_state \<Rightarrow> http_response \<times> 'a app_state" where
  "auth_route env ctx q s =
    (if hq_method q \<in> {''GET'', ''POST''} then (case ap_auth env q ctx (as_data s) of (r, d) \<Rightarrow> (r, s\<lparr>as_data := d\<rparr>)) else (not_found, s))"

definition app_route :: "'a app_env \<Rightarrow> http_request \<Rightarrow> 'a app_state \<Rightarrow> http_response \<times> 'a app_state" where
  "app_route env q s =
    (if hq_method q = ''GET'' \<and> hq_path q = ''/api/health'' then (health env, s)
     else if hq_method q = ''GET'' \<and> hq_path q = ''/api/health/supervisor'' then (health_supervisor, s)
     else if hq_method q = ''GET'' \<and> hq_path q = ''/api/internal/cron/timeout-checker'' then cron_timeout_checker env q s
     else if startsWith (hq_path q) ''/api/auth/'' then
       (case emailRateLimit (email_env_of env) (email_request_of q) (as_buckets s) of
          (PassThrough, t) \<Rightarrow> auth_route env None q (s\<lparr>as_buckets := t\<rparr>)
        | (Limited retryAfter, t) \<Rightarrow> (respond429 retryAfter, s\<lparr>as_buckets := t\<rparr>)
        | (Proceed ip ua nonce, t) \<Rightarrow> auth_route env (Some \<lparr>ec_ip = ip, ec_user_agent = ua, ec_nonce = nonce\<rparr>) q (s\<lparr>as_buckets := t\<rparr>))
     else if startsWith (hq_path q) ''/api/trpc/'' then (case ap_trpc env q (as_data s) of (r, d) \<Rightarrow> (r, s\<lparr>as_data := d\<rparr>))
     else (not_found, s))"

definition cors_headers :: "Env \<Rightarrow> http_request \<Rightarrow> http_response \<Rightarrow> http_response" where
  "cors_headers e q r =
    (let r1 = (case cors_origin e (header ''origin'' q) of None \<Rightarrow> r | Some o' \<Rightarrow> set_header ''access-control-allow-origin'' o' r)
     in set_header ''access-control-allow-credentials'' ''true''
          (set_header ''access-control-expose-headers'' ''Content-Length,X-Commit-SHA'' r1))"

text \<open>A preflight request is answered by the CORS middleware, which stands before all others.\<close>

definition preflight :: "Env \<Rightarrow> http_request \<Rightarrow> http_response" where
  "preflight e q = set_header ''access-control-allow-headers'' ''Content-Type,Authorization''
    (set_header ''access-control-allow-methods'' ''GET,POST,PUT,PATCH,DELETE,OPTIONS''
    (set_header ''access-control-max-age'' ''600'' (cors_headers e q \<lparr>hr_status = 204, hr_headers = [], hr_body = JNull\<rparr>)))"

definition app_fetch :: "'a app_env \<Rightarrow> http_request \<Rightarrow> 'a app_state \<Rightarrow> http_response \<times> 'a app_state" where
  "app_fetch env q s =
    (if hq_method q = ''OPTIONS'' then (preflight (ap_env env) q, s)
     else (case app_route env q s of (r, s') \<Rightarrow>
       (cors_headers (ap_env env) q (set_header ''x-commit-sha'' (commit_sha (ap_env env)) r), s')))"

section \<open>The Node adapter\<close>

text \<open>A header of a Node request is missing, one text, or several.\<close>

datatype node_value = NoValue | One string | Many "string list"

record node_request =
  nq_method :: "string option"
  nq_url :: "string option"
  nq_headers :: "(string \<times> node_value) list"
  nq_json :: "jsval option"

fun node_header :: "node_value \<Rightarrow> string option" where
  "node_header NoValue = None"
| "node_header (One v) = Some v"
| "node_header (Many vs) = Some (join '', '' vs)"

definition web_headers :: "(string \<times> node_value) list \<Rightarrow> (string \<times> string) list" where
  "web_headers hs = fold (\<lambda>(k, v) acc. case node_header v of None \<Rightarrow> acc | Some t \<Rightarrow> AList.update k t acc) hs []"

definition nullish_or :: "string option \<Rightarrow> string \<Rightarrow> string" where
  "nullish_or v d = (case v of None \<Rightarrow> d | Some x \<Rightarrow> x)"

definition node_header_text :: "node_request \<Rightarrow> string \<Rightarrow> string option" where
  "node_header_text q k = Option.bind (map_of (nq_headers q) k) node_header"

definition request_url :: "node_request \<Rightarrow> string" where
  "request_url q = nullish_or (node_header_text q ''x-forwarded-proto'') ''https'' @ ''://'' @
     nullish_or (node_header_text q ''host'') ''localhost'' @ nullish_or (nq_url q) ''/''"

definition nodeRequestToWebRequest :: "(string \<Rightarrow> string) \<Rightarrow> node_request \<Rightarrow> http_request" where
  "nodeRequestToWebRequest pathname q = (let method = nullish_or (nq_method q) ''GET''
     in \<lparr>hq_method = method, hq_path = pathname (request_url q), hq_headers = web_headers (nq_headers q),
          hq_json = (if method \<noteq> ''GET'' \<and> method \<noteq> ''HEAD'' then nq_json q else None)\<rparr>)"

text \<open>
  The response: \<open>getSetCookie\<close> gives the cookies one by one, \<open>forEach\<close> the other names with their values joined.
  The Node response is a map from names to lists of values.
\<close>

definition values_of :: "string \<Rightarrow> (string \<times> string) list \<Rightarrow> string list" where
  "values_of k hs = map snd (filter (\<lambda>h. fst h = k) hs)"

definition handler_headers :: "(string \<times> string) list \<Rightarrow> string \<rightharpoonup> string list" where
  "handler_headers hs =
    (let cookies = values_of ''set-cookie'' hs;
         res0 = (if cookies \<noteq> [] then [''set-cookie'' \<mapsto> cookies] else Map.empty)
     in fold (\<lambda>k res. if toLowerCase k = ''set-cookie'' then res else res(k \<mapsto> [join '', '' (values_of k hs)])) (remdups (map fst hs)) res0)"

section \<open>The timer of the timeout check\<close>

definition CHECK_INTERVAL_MS :: int where
  "CHECK_INTERVAL_MS = 60000"

text \<open>The passes of a checker started at \<open>start\<close>: one at once and one every interval, \<open>n\<close> in all until it is stopped.\<close>

fun startTimeoutChecker :: "nat \<Rightarrow> int \<Rightarrow> proposal_row list \<times> escalation_row list \<Rightarrow> proposal_row list \<times> escalation_row list" where
  "startTimeoutChecker 0 start db = db"
| "startTimeoutChecker (Suc n) start db = startTimeoutChecker n (start + CHECK_INTERVAL_MS) (snd (runTimeoutCheck start db))"

section \<open>Lemmas\<close>

lemma set_header_get [simp]: "map_of (hr_headers (set_header k v r)) k' = (if k' = k then Some v else map_of (hr_headers r) k')"
  by (simp add: set_header_def update_conv')

lemma cors_header:
  assumes "map_of (hr_headers r) ''access-control-allow-origin'' = None"
    and "map_of (hr_headers (cors_headers e q r)) ''access-control-allow-origin'' = Some o'"
  shows "header ''origin'' q = Some o' \<and> o' \<in> set (allowedOrigins e)"
  using assms by (auto simp: cors_headers_def cors_origin_def Let_def split: option.splits if_splits)

lemma auth_route_frame:
  "as_review (snd (auth_route env ctx q s)) = as_review s" "as_buckets (snd (auth_route env ctx q s)) = as_buckets s"
  by (auto simp: auth_route_def split: prod.splits)

lemma app_route_review:
  assumes "as_review (snd (app_route env q s)) \<noteq> as_review s"
  shows "hq_method q = ''GET'' \<and> hq_path q = ''/api/internal/cron/timeout-checker'' \<and> cron_authorized env q
    \<and> as_review (snd (app_route env q s)) = snd (runTimeoutCheck (ap_now env) (as_review s))"
  using assms auth_route_frame(1) [of env]
  by (auto simp: app_route_def cron_timeout_checker_def Let_def split: if_splits prod.splits email_answer.splits)

lemma app_route_data:
  assumes "as_data (snd (app_route env q s)) \<noteq> as_data s"
  shows "startsWith (hq_path q) ''/api/trpc/''
    \<or> startsWith (hq_path q) ''/api/auth/''
      \<and> (\<forall>n. fst (emailRateLimit (email_env_of env) (email_request_of q) (as_buckets s)) \<noteq> Limited n)"
  using assms by (auto simp: app_route_def cron_timeout_checker_def Let_def split: if_splits prod.splits email_answer.splits)

text \<open>The handlers that set no CORS header of their own.\<close>

definition no_cors_of_own :: "'a app_env \<Rightarrow> bool" where
  "no_cors_of_own env \<longleftrightarrow> (\<forall>q ctx d. map_of (hr_headers (fst (ap_auth env q ctx d))) ''access-control-allow-origin'' = None)
    \<and> (\<forall>q d. map_of (hr_headers (fst (ap_trpc env q d))) ''access-control-allow-origin'' = None)"

definition no_acao :: "http_response \<Rightarrow> bool" where
  "no_acao r \<longleftrightarrow> map_of (hr_headers r) ''access-control-allow-origin'' = None"

lemma no_acao_own:
  "no_acao (health env)" "no_acao health_supervisor" "no_acao (fst (cron_timeout_checker env q s))" "no_acao (respond429 n)" "no_acao not_found"
  by (simp_all add: no_acao_def health_def health_supervisor_def cron_timeout_checker_def respond429_def not_found_def c_json_def Let_def split: prod.splits)

lemma app_route_no_cors:
  assumes "no_cors_of_own env"
  shows "no_acao (fst (app_route env q s))"
proof -
  have a: "no_acao (fst (auth_route env ctx q s))" for ctx s
  proof (cases "ap_auth env q ctx (as_data s)")
    case (Pair r d)
    with assms have "no_acao r" unfolding no_cors_of_own_def no_acao_def by (metis fst_conv)
    with Pair show ?thesis by (simp add: auth_route_def no_acao_own)
  qed
  have t: "no_acao r" if "ap_trpc env q (as_data s) = (r, d)" for r d
    using assms that unfolding no_cors_of_own_def no_acao_def by (metis fst_conv)
  show ?thesis unfolding app_route_def using a t
    by (simp add: no_acao_own split: prod.splits email_answer.splits)
qed

section \<open>Properties\<close>


text \<open>
  The adapter hands every header of a response to Node: the cookies one by one and in order, every other name
  once with its values joined, and no name that the response does not have.
\<close>

theorem adapter_keeps_headers:
  assumes "\<forall>(k, v)\<in>set hs. toLowerCase k = k"
  shows "handler_headers hs k = (if values_of k hs = [] then None
    else if k = ''set-cookie'' then Some (values_of k hs) else Some [join '', '' (values_of k hs)])"
proof -
  have n: "values_of k hs = [] \<longleftrightarrow> k \<notin> fst ` set hs" for k by (auto simp: values_of_def filter_empty_conv)
  have f: "fold (\<lambda>k res. if toLowerCase k = ''set-cookie'' then res else res(k \<mapsto> g k)) ks res k' =
      (if k' \<in> set ks \<and> k' \<noteq> ''set-cookie'' then Some (g k') else res k')"
    if "\<forall>k\<in>set ks. toLowerCase k = k" for ks g res k'
    using that by (induction ks arbitrary: res) auto
  have "\<forall>k\<in>set (remdups (map fst hs)). toLowerCase k = k" using assms by auto
  note f [of "remdups (map fst hs)" "\<lambda>k. [join '', '' (values_of k hs)]" _ k, OF this]
  then show ?thesis using n [of k] n [of "''set-cookie''"] by (simp add: handler_headers_def Let_def)
qed

text \<open>
  While the checker runs, no proposal stays pending for longer than a day beyond its last pass: after the pass
  number \<open>n\<close>, every pending proposal was created less than 24 hours before that pass.
\<close>

theorem pending_age_bounded:
  assumes "r \<in> set (fst (startTimeoutChecker (Suc n) start db))" and "sp_status r = ''pending''"
  shows "start + int n * CHECK_INTERVAL_MS - 86400 * 1000 \<le> sp_created_at r"
  using assms
proof (induction n arbitrary: start db)
  case 0
  then show ?case
    by (auto simp: runTimeoutCheck_def expireProposals_def update_where_def PROPOSAL_TIMEOUT_SECONDS_def Let_def split: if_splits prod.splits)
next
  case (Suc n)
  from Suc.IH [of "start + CHECK_INTERVAL_MS" "snd (runTimeoutCheck start db)"] Suc.prems show ?case
    by (simp add: algebra_simps)
qed

definition ex_app :: "nat app_env" where
  "ex_app = \<lparr>ap_env = test_stub Map.empty, ap_cron_secret = Some ''k'', ap_db_up = True, ap_now = 100000000, ap_sha256 = (\<lambda>s. s), ap_nonce = ''n'',
     ap_auth = (\<lambda>_ _ d. (c_json JNull 200, Suc d)), ap_trpc = (\<lambda>_ d. (c_json JNull 200, Suc d))\<rparr>"

definition ex_cron_request :: http_request where
  "ex_cron_request = \<lparr>hq_method = ''GET'', hq_path = ''/api/internal/cron/timeout-checker'',
     hq_headers = [(''authorization'', ''Bearer k''), (''origin'', ''http://localhost:3000'')], hq_json = None\<rparr>"


end
