(* ===== verification/Json_Schemas.thy ===== *)
theory Json_Schemas
  imports Ingest Guard_Shim Mcp_Proxy Policy_Packs
begin

text \<open>
  The JSON schemas that the programs share, \<open>packages/schemas/index.js\<close>: the policy pack, the decision request and
  response of the engine's socket, and the event of the audit log, without their annotations (titles, descriptions,
  defaults). \<open>conforms\<close> is what JSON Schema (draft 2020-12) says of the keywords they use; it is the specification that
  the messages of the shim and the proxy, the checks of the policy validator and of the ingest endpoint are compared
  with. \<open>fmt\<close> is a parameter: which texts have a format (\<open>uuid\<close>, \<open>date-time\<close>). The one pattern of the schemas is that of a
  SHA-256 digest.
\<close>

section \<open>Schemas\<close>

datatype keyword =
    Ktype "string list"
  | Kconst jsval
  | Kenum "string list"
  | Krequired "string list"
  | Kproperties "(string \<times> schema) list"
  | Kadditional bool
  | Kitems schema
  | KminItems nat
  | KminLength nat
  | Kminimum int
  | Kmaximum int
  | Kpattern "string \<Rightarrow> bool"
  | Kformat string
  | Kref string
  | KallOf "schema list"
  | KoneOf "schema list"
  | KifThen schema schema
  | Knot schema
and schema = Schema "keyword list"

text \<open>\<open>^[0-9a-f]{64}$\<close>\<close>

definition hex64_pattern :: "string \<Rightarrow> bool" where
  "hex64_pattern = is_hex64"

definition has_type :: "string \<Rightarrow> jsval \<Rightarrow> bool" where
  "has_type t v = (case v of
      JNull \<Rightarrow> t = ''null''
    | JBool _ \<Rightarrow> t = ''boolean''
    | JNum x \<Rightarrow> isFinite x \<and> (t = ''number'' \<or> t = ''integer'' \<and> isInteger x)
    | JStr _ \<Rightarrow> t = ''string''
    | JArr _ \<Rightarrow> t = ''array''
    | JObj _ \<Rightarrow> t = ''object''
    | _ \<Rightarrow> False)"

fun keys :: "jsval \<Rightarrow> string list" where
  "keys (JObj kvs) = map fst kvs"
| "keys _ = []"

fun property_names :: "keyword list \<Rightarrow> string list" where
  "property_names [] = []"
| "property_names (Kproperties ps # ks) = map fst ps @ property_names ks"
| "property_names (_ # ks) = property_names ks"

text \<open>
  A keyword says nothing of a value of another type than it is about. \<open>names\<close> are the properties that stand beside
  \<open>additionalProperties\<close>, \<open>refs\<close> the meaning of \<open>#/$defs/name\<close>.
\<close>

fun conforms :: "(string \<Rightarrow> string \<Rightarrow> bool) \<Rightarrow> (string \<Rightarrow> jsval \<Rightarrow> bool) \<Rightarrow> schema \<Rightarrow> jsval \<Rightarrow> bool"
  and holds :: "(string \<Rightarrow> string \<Rightarrow> bool) \<Rightarrow> (string \<Rightarrow> jsval \<Rightarrow> bool) \<Rightarrow> string list \<Rightarrow> keyword \<Rightarrow> jsval \<Rightarrow> bool" where
  "conforms fmt refs (Schema ks) v = list_all (\<lambda>k. holds fmt refs (property_names ks) k v) ks"
| "holds fmt refs names (Ktype ts) v = list_ex (\<lambda>t. has_type t v) ts"
| "holds fmt refs names (Kconst c) v = (v = c)"
| "holds fmt refs names (Kenum ss) v = (\<exists>s\<in>set ss. v = JStr s)"
| "holds fmt refs names (Krequired ns) v = (case v of JObj _ \<Rightarrow> list_all (\<lambda>n. n \<in> set (keys v)) ns | _ \<Rightarrow> True)"
| "holds fmt refs names (Kproperties ps) v = list_all (\<lambda>p. fst p \<in> set (keys v) \<longrightarrow> conforms fmt refs (snd p) (jget v (fst p))) ps"
| "holds fmt refs names (Kadditional b) v = (b \<or> set (keys v) \<subseteq> set names)"
| "holds fmt refs names (Kitems s) v = (case v of JArr vs \<Rightarrow> list_all (conforms fmt refs s) vs | _ \<Rightarrow> True)"
| "holds fmt refs names (KminItems n) v = (case v of JArr vs \<Rightarrow> n \<le> length vs | _ \<Rightarrow> True)"
| "holds fmt refs names (KminLength n) v = (case v of JStr s \<Rightarrow> n \<le> length s | _ \<Rightarrow> True)"
| "holds fmt refs names (Kminimum m) v = (case v of JNum x \<Rightarrow> of_int m \<le> num_val x | _ \<Rightarrow> True)"
| "holds fmt refs names (Kmaximum m) v = (case v of JNum x \<Rightarrow> num_val x \<le> of_int m | _ \<Rightarrow> True)"
| "holds fmt refs names (Kpattern P) v = (case v of JStr s \<Rightarrow> P s | _ \<Rightarrow> True)"
| "holds fmt refs names (Kformat f) v = (case v of JStr s \<Rightarrow> fmt f s | _ \<Rightarrow> True)"
| "holds fmt refs names (Kref n) v = refs n v"
| "holds fmt refs names (KallOf ss) v = list_all (\<lambda>s. conforms fmt refs s v) ss"
| "holds fmt refs names (KoneOf ss) v = (length (filter (\<lambda>s. conforms fmt refs s v) ss) = 1)"
| "holds fmt refs names (KifThen c t) v = (conforms fmt refs c v \<longrightarrow> conforms fmt refs t v)"
| "holds fmt refs names (Knot s) v = (\<not> conforms fmt refs s v)"

text \<open>Each definition refers only to later ones, so that references end.\<close>

fun resolve :: "(string \<Rightarrow> string \<Rightarrow> bool) \<Rightarrow> (string \<times> schema) list \<Rightarrow> string \<Rightarrow> jsval \<Rightarrow> bool" where
  "resolve fmt [] n v = False"
| "resolve fmt ((d, s) # ds) n v = (if n = d then conforms fmt (resolve fmt ds) s v else resolve fmt ds n v)"

section \<open>packages/schemas/index.js\<close>

definition policy_rule :: schema where
  "policy_rule =
     Schema [Ktype [''object''], Krequired [''name'', ''action''], Kproperties [(''name'', Schema [Ktype [''string''], KminLength 1]),
     (''action'', Schema [Ktype [''string''], Kenum [''allow'', ''deny'', ''require_approval'']]), (''tool'', Schema [Ktype [''string'']]),
     (''tool_pattern'', Schema [Ktype [''string'']]), (''conditions'', Schema [Ktype [''array''], Kitems (Schema [Kref ''condition''])]),
     (''timeout'', Schema [Ktype [''integer''], Kminimum 1]), (''timeout_action'', Schema [Ktype [''string''], Kenum [''deny'', ''allow'', ''kill'']]),
     (''reason'', Schema [Ktype [''string'']]), (''priority'', Schema [Ktype [''integer'']])], Kadditional False,
     KallOf [Schema [KifThen (Schema [Kproperties [(''action'', Schema [Kconst (JStr ''require_approval'')])],
     Krequired [''action'']]) (Schema [Krequired [''timeout'', ''timeout_action'']])]], Knot (Schema [Krequired [''tool'', ''tool_pattern'']])]"

definition policy_condition :: schema where
  "policy_condition =
     Schema [Ktype [''object''], Krequired [''field'', ''operator''], Kproperties [(''field'', Schema [Ktype [''string'']]),
     (''operator'', Schema [Ktype [''string''], Kenum [''equals'', ''not_equals'', ''matches'', ''not_matches'', ''in'', ''not_in'']]),
     (''value'', Schema [KoneOf [Schema [Ktype [''string'']], Schema [Ktype [''array''], Kitems (Schema [Ktype [''string'']])]]]),
     (''pattern'', Schema [Ktype [''string'']])], Kadditional False]"

definition policy_budget :: schema where
  "policy_budget =
     Schema [Ktype [''object''], Kproperties [(''cost_usd'', Schema [Kref ''budget_dimension_float'']),
     (''input_tokens'', Schema [Kref ''budget_dimension_int'']), (''output_tokens'', Schema [Kref ''budget_dimension_int'']),
     (''call_count'', Schema [Kref ''budget_dimension_int''])], Kadditional False]"

definition policy_budget_dimension_float :: schema where
  "policy_budget_dimension_float =
     Schema [Ktype [''object''], Krequired [''hard''], Kproperties [(''soft'', Schema [Ktype [''number''], Kminimum 0]),
     (''hard'', Schema [Ktype [''number''], Kminimum 0])], Kadditional False]"

definition policy_budget_dimension_int :: schema where
  "policy_budget_dimension_int =
     Schema [Ktype [''object''], Krequired [''hard''], Kproperties [(''soft'', Schema [Ktype [''integer''], Kminimum 0]),
     (''hard'', Schema [Ktype [''integer''], Kminimum 0])], Kadditional False]"

definition policy_loop_detection :: schema where
  "policy_loop_detection =
     Schema [Ktype [''object''], Kproperties [(''enabled'', Schema [Ktype [''boolean'']]), (''identical_call_window_seconds'', Schema [Ktype [''integer''],
     Kminimum 1]), (''identical_call_threshold'', Schema [Ktype [''integer''], Kminimum 2]), (''identical_error_threshold'', Schema [Ktype [''integer''],
     Kminimum 2]), (''cooldown_ms'', Schema [Ktype [''integer''], Kminimum 100])], Kadditional False]"

definition policy_redaction :: schema where
  "policy_redaction =
     Schema [Ktype [''object''], Kproperties [(''enabled'', Schema [Ktype [''boolean'']]), (''additional_patterns'', Schema [Ktype [''array''],
     Kitems (Schema [Ktype [''object''], Krequired [''name'', ''pattern''], Kproperties [(''name'', Schema [Ktype [''string'']]),
     (''pattern'', Schema [Ktype [''string'']]), (''replacement'', Schema [Ktype [''string'']])], Kadditional False])]),
     (''key_patterns'', Schema [Ktype [''array''], Kitems (Schema [Ktype [''string'']])])], Kadditional False]"

definition policy_defs :: "(string \<times> schema) list" where
  "policy_defs = [(''rule'', policy_rule), (''condition'', policy_condition), (''budget'', policy_budget), (''budget_dimension_float'', policy_budget_dimension_float), (''budget_dimension_int'', policy_budget_dimension_int), (''loop_detection'', policy_loop_detection), (''redaction'', policy_redaction)]"

definition policySchema :: schema where
  "policySchema =
     Schema [Ktype [''object''], Krequired [''schema_version'', ''rules''], Kproperties [(''schema_version'', Schema [Ktype [''integer''],
     Kconst (JNum (Dec False 1 0))]), (''name'', Schema [Ktype [''string'']]), (''description'', Schema [Ktype [''string'']]),
     (''agent_role'', Schema [Ktype [''string'']]), (''environment'', Schema [Ktype [''string'']]), (''rules'', Schema [Ktype [''array''], KminItems 1,
     Kitems (Schema [Kref ''rule''])]), (''budget'', Schema [Kref ''budget'']), (''loop_detection'', Schema [Kref ''loop_detection'']),
     (''redaction'', Schema [Kref ''redaction''])], Kadditional False]"

definition decisionRequestSchema :: schema where
  "decisionRequestSchema =
     Schema [Ktype [''object''], Krequired [''schema_version'', ''run_id'', ''seq'', ''tool'', ''args_hash'', ''ts''],
     Kproperties [(''schema_version'', Schema [Ktype [''integer''], Kconst (JNum (Dec False 1 0))]), (''run_id'', Schema [Ktype [''string''],
     Kformat ''uuid'']), (''seq'', Schema [Ktype [''integer''], Kminimum 1]), (''tool'', Schema [Ktype [''string''], KminLength 1]),
     (''args_hash'', Schema [Ktype [''string''], Kpattern hex64_pattern]), (''args_redacted'', Schema [Ktype [''object''], Kadditional True]),
     (''agent_role'', Schema [Ktype [''string'']]), (''agent_name'', Schema [Ktype [''string'']]), (''model'', Schema [Ktype [''string'']]),
     (''input_tokens'', Schema [Ktype [''integer''], Kminimum 0]), (''output_tokens'', Schema [Ktype [''integer''], Kminimum 0]),
     (''estimated_cost_usd'', Schema [Ktype [''number''], Kminimum 0]), (''environment'', Schema [Ktype [''string'']]),
     (''ts'', Schema [Ktype [''string''], Kformat ''date-time''])], Kadditional False]"

definition decisionResponseSchema :: schema where
  "decisionResponseSchema =
     Schema [Ktype [''object''], Krequired [''schema_version'', ''run_id'', ''seq'', ''decision''],
     Kproperties [(''schema_version'', Schema [Ktype [''integer''], Kconst (JNum (Dec False 1 0))]), (''run_id'', Schema [Ktype [''string''],
     Kformat ''uuid'']), (''seq'', Schema [Ktype [''integer''], Kminimum 1]), (''decision'', Schema [Ktype [''string''],
     Kenum [''allow'', ''deny'', ''cooldown'', ''kill'', ''require_approval'']]), (''rule_id'', Schema [Ktype [''string'']]),
     (''reason'', Schema [Ktype [''string'']]), (''cooldown_ms'', Schema [Ktype [''integer''], Kminimum 0]),
     (''cooldown_message'', Schema [Ktype [''string'']]), (''approval_id'', Schema [Ktype [''string'']]),
     (''approval_timeout_ms'', Schema [Ktype [''integer''], Kminimum 0]), (''approval_timeout_action'', Schema [Ktype [''string''],
     Kenum [''deny'', ''allow'', ''kill'']]), (''budget_remaining'', Schema [Ktype [''object''], Kproperties [(''cost_usd'', Schema [Ktype [''number'']]),
     (''input_tokens'', Schema [Ktype [''integer'']]), (''output_tokens'', Schema [Ktype [''integer'']]), (''call_count'', Schema [Ktype [''integer'']])],
     Kadditional False]), (''ts'', Schema [Ktype [''string''], Kformat ''date-time''])], Kadditional False]"

definition event_core_properties :: "(string \<times> schema) list" where
  "event_core_properties =
     [(''schema_version'', Schema [Ktype [''integer''], Kconst (JNum (Dec False 1 0))]), (''event_type'', Schema [Ktype [''string''],
     Kenum [''run_started'', ''policy_decision'', ''budget_update'', ''budget_soft_cap_warning'', ''budget_exceeded'', ''loop_detected'', ''run_ended'', ''system_event'', ''supervisor_run_started'', ''supervisor_tool_call'', ''supervisor_proposal_created'', ''supervisor_escalation_created'']]),
     (''run_id'', Schema [Ktype [''string''], Kformat ''uuid'']), (''seq'', Schema [Ktype [''integer''], Kminimum 1]),
     (''hash'', Schema [Ktype [''string''], Kpattern hex64_pattern]), (''hash_prev'', Schema [Ktype [''string'', ''null''], Kpattern hex64_pattern]),
     (''ts'', Schema [Ktype [''string''], Kformat ''date-time'']), (''agent_name'', Schema [Ktype [''string'']]),
     (''agent_role'', Schema [Ktype [''string'']]), (''tool'', Schema [Ktype [''string'']]), (''args_hash'', Schema [Ktype [''string''],
     Kpattern hex64_pattern]), (''args_redacted'', Schema [Ktype [''object''], Kadditional True]), (''decision'', Schema [Ktype [''string''],
     Kenum [''allow'', ''deny'', ''cooldown'', ''kill'', ''require_approval'']]), (''rule_id'', Schema [Ktype [''string'']]),
     (''reason'', Schema [Ktype [''string'']])]"

definition event_state_properties :: "(string \<times> schema) list" where
  "event_state_properties =
     [(''budget'', Schema [Ktype [''object''], Kproperties [(''cost_usd'', Schema [Ktype [''object''],
     Kproperties [(''current'', Schema [Ktype [''number'']]), (''soft'', Schema [Ktype [''number'']]), (''hard'', Schema [Ktype [''number'']])],
     Kadditional False]), (''input_tokens'', Schema [Ktype [''object''], Kproperties [(''current'', Schema [Ktype [''integer'']]),
     (''soft'', Schema [Ktype [''integer'']]), (''hard'', Schema [Ktype [''integer'']])], Kadditional False]),
     (''output_tokens'', Schema [Ktype [''object''], Kproperties [(''current'', Schema [Ktype [''integer'']]), (''soft'', Schema [Ktype [''integer'']]),
     (''hard'', Schema [Ktype [''integer'']])], Kadditional False]), (''call_count'', Schema [Ktype [''object''],
     Kproperties [(''current'', Schema [Ktype [''integer'']]), (''soft'', Schema [Ktype [''integer'']]), (''hard'', Schema [Ktype [''integer'']])],
     Kadditional False])], Kadditional False]), (''dimension'', Schema [Ktype [''string'']]), (''loop_rule'', Schema [Ktype [''string'']]),
     (''loop_action'', Schema [Ktype [''string''], Kenum [''cooldown'', ''kill'']]), (''cooldown_ms'', Schema [Ktype [''integer''], Kminimum 0]),
     (''run_status'', Schema [Ktype [''string''],
     Kenum [''started'', ''completed'', ''terminated_budget'', ''terminated_loop'', ''terminated_policy'', ''abandoned'', ''error'']]),
     (''system_event_type'', Schema [Ktype [''string'']]), (''model'', Schema [Ktype [''string'']]), (''input_tokens'', Schema [Ktype [''integer''],
     Kminimum 0]), (''output_tokens'', Schema [Ktype [''integer''], Kminimum 0]), (''estimated_cost_usd'', Schema [Ktype [''number''], Kminimum 0]),
     (''latency_ms'', Schema [Ktype [''number''], Kminimum 0]), (''policy_pack_id'', Schema [Ktype [''string'']]),
     (''environment'', Schema [Ktype [''string'']])]"

definition event_supervisor_properties :: "(string \<times> schema) list" where
  "event_supervisor_properties =
     [(''supervisor_run_id'', Schema [Ktype [''string'']]), (''trigger'', Schema [Ktype [''string'']]), (''trigger_run_id'', Schema [Ktype [''string'']]),
     (''proposal_id'', Schema [Ktype [''string'']]), (''proposal_type'', Schema [Ktype [''string'']]), (''target_agent'', Schema [Ktype [''string'']]),
     (''rationale'', Schema [Ktype [''string'']]), (''confidence'', Schema [Ktype [''number''], Kminimum 0, Kmaximum 1]),
     (''supporting_runs'', Schema [Ktype [''array''], Kitems (Schema [Ktype [''string'']])]), (''status'', Schema [Ktype [''string'']]),
     (''escalation_id'', Schema [Ktype [''string'']]), (''severity'', Schema [Ktype [''string''], Kenum [''low'', ''medium'', ''high'', ''critical'']]),
     (''recommendation'', Schema [Ktype [''string'']]), (''timeout_seconds'', Schema [Ktype [''integer''], Kminimum 0]),
     (''timeout_action'', Schema [Ktype [''string''], Kenum [''deny'', ''allow'', ''kill'']]), (''call_seq_fingerprint'', Schema [Ktype [''string''],
     Kpattern hex64_pattern]), (''inter_call_ms'', Schema [Ktype [''integer''], Kminimum 0]), (''token_rate_delta'', Schema [Ktype [''number''],
     Kminimum 0]), (''param_shape_hash'', Schema [Ktype [''string''], Kpattern hex64_pattern])]"

definition eventSchema :: schema where
  "eventSchema =
     Schema [Ktype [''object''], Krequired [''schema_version'', ''event_type'', ''run_id'', ''seq'', ''hash'', ''ts''],
     Kproperties (event_core_properties @ event_state_properties @ event_supervisor_properties), Kadditional False]"

section \<open>Values and numbers\<close>

lemma num_val_int_val: "isInteger x \<Longrightarrow> num_val x = of_int (int_val x)"
  by (cases x) auto

lemma isInteger_num_of_int: "isInteger (num_of_int n) \<and> isFinite (num_of_int n)"
proof (cases "n = 0")
  case False
  then have "case strip_zeros (nat \<bar>n\<bar>) 0 of (s, e) \<Rightarrow> 0 \<le> e \<and> s * 10 ^ nat (e - 0) = nat \<bar>n\<bar>" by (intro strip_zeros_val) simp
  then show ?thesis using False by (auto simp: num_of_int_def split: prod.splits)
qed (simp add: num_of_int_def)

lemma num_val_num_of_int: "num_val (num_of_int n) = of_int n"
  by (simp add: num_val_int_val isInteger_num_of_int int_val_num_of_int)

lemma num_of_int_one: "num_of_int n = Dec False 1 0 \<longleftrightarrow> n = 1"
proof
  assume "num_of_int n = Dec False 1 0"
  from arg_cong [OF this, of int_val] show "n = 1" by (simp add: int_val_num_of_int)
next
  show "n = 1 \<Longrightarrow> num_of_int n = Dec False 1 0" by (simp add: num_of_int_def strip_zeros.simps)
qed

section \<open>Requests\<close>

lemma toDict_get:
  "jget (JObj (toDict r)) ''schema_version'' = JNum (num_of_int (rq_schema_version r))"
  "jget (JObj (toDict r)) ''run_id'' = JStr (rq_run_id r)"
  "jget (JObj (toDict r)) ''seq'' = JNum (num_of_int (rq_seq r))"
  "jget (JObj (toDict r)) ''tool'' = rq_tool r"
  "jget (JObj (toDict r)) ''args_hash'' = JStr (rq_args_hash r)"
  "jget (JObj (toDict r)) ''ts'' = JStr (rq_ts r)"
  "jget (JObj (toDict r)) ''args_redacted'' = rq_args_redacted r"
  "jget (JObj (toDict r)) ''agent_role'' = rq_agent_role r"
  "jget (JObj (toDict r)) ''agent_name'' = rq_agent_name r"
  "jget (JObj (toDict r)) ''model'' = rq_model r"
  "jget (JObj (toDict r)) ''input_tokens'' = rq_input_tokens r"
  "jget (JObj (toDict r)) ''output_tokens'' = rq_output_tokens r"
  "jget (JObj (toDict r)) ''estimated_cost_usd'' = rq_estimated_cost_usd r"
  "jget (JObj (toDict r)) ''environment'' = rq_environment r"
  by (simp_all add: toDict_def opt_field_def)

lemma opt_field_mem: "(n, x) \<in> set (opt_field k v) \<longleftrightarrow> n = k \<and> x = v \<and> v \<noteq> JUndefined" "n \<in> fst ` set (opt_field k v) \<longleftrightarrow> n = k \<and> v \<noteq> JUndefined"
  by (auto simp: opt_field_def)

lemma toDict_keys:
  "n \<in> set (keys (JObj (toDict r))) \<longleftrightarrow> n = ''schema_version'' \<or> n = ''run_id'' \<or> n = ''seq'' \<or> n = ''tool'' \<or> n = ''args_hash'' \<or> n = ''ts''
    \<or> n = ''args_redacted'' \<and> rq_args_redacted r \<noteq> JUndefined \<or> n = ''agent_role'' \<and> rq_agent_role r \<noteq> JUndefined
    \<or> n = ''agent_name'' \<and> rq_agent_name r \<noteq> JUndefined \<or> n = ''model'' \<and> rq_model r \<noteq> JUndefined
    \<or> n = ''input_tokens'' \<and> rq_input_tokens r \<noteq> JUndefined \<or> n = ''output_tokens'' \<and> rq_output_tokens r \<noteq> JUndefined
    \<or> n = ''estimated_cost_usd'' \<and> rq_estimated_cost_usd r \<noteq> JUndefined \<or> n = ''environment'' \<and> rq_environment r \<noteq> JUndefined"
  unfolding keys.simps toDict_def set_map set_append image_Un Un_iff opt_field_mem set_simps image_insert image_empty fst_conv insert_iff empty_iff
  by (simp only: disj_assoc simp_thms)

definition opt_text :: "jsval \<Rightarrow> bool" where
  "opt_text v \<longleftrightarrow> v = JUndefined \<or> (\<exists>s. v = JStr s)"

definition opt_count :: "jsval \<Rightarrow> bool" where
  "opt_count v \<longleftrightarrow> v = JUndefined \<or> (\<exists>x. v = JNum x \<and> isInteger x \<and> 0 \<le> int_val x)"

text \<open>The fields of \<open>DecisionRequest\<close> as \<open>types/ipc.ts\<close> declares them, with the bounds that the type does not express.\<close>

definition request_typed :: "(string \<Rightarrow> string \<Rightarrow> bool) \<Rightarrow> DecisionRequest \<Rightarrow> bool" where
  "request_typed fmt r \<longleftrightarrow> rq_schema_version r = 1 \<and> fmt ''uuid'' (rq_run_id r) \<and> 1 \<le> rq_seq r \<and> (\<exists>s. rq_tool r = JStr s \<and> s \<noteq> [])
    \<and> is_hex64 (rq_args_hash r) \<and> (rq_args_redacted r = JUndefined \<or> (\<exists>kvs. rq_args_redacted r = JObj kvs))
    \<and> opt_text (rq_agent_role r) \<and> opt_text (rq_agent_name r) \<and> opt_text (rq_model r) \<and> opt_text (rq_environment r)
    \<and> opt_count (rq_input_tokens r) \<and> opt_count (rq_output_tokens r)
    \<and> (rq_estimated_cost_usd r = JUndefined \<or> (\<exists>x. rq_estimated_cost_usd r = JNum x \<and> isFinite x \<and> 0 \<le> num_val x))
    \<and> fmt ''date-time'' (rq_ts r)"

lemma type_simps:
  "has_type ''string'' v \<longleftrightarrow> (\<exists>s. v = JStr s)" "has_type ''object'' v \<longleftrightarrow> (\<exists>kvs. v = JObj kvs)"
  "has_type ''array'' v \<longleftrightarrow> (\<exists>vs. v = JArr vs)" "has_type ''boolean'' v \<longleftrightarrow> (\<exists>b. v = JBool b)" "has_type ''null'' v \<longleftrightarrow> v = JNull"
  "has_type ''integer'' v \<longleftrightarrow> (\<exists>x. v = JNum x \<and> isInteger x)" "has_type ''number'' v \<longleftrightarrow> (\<exists>x. v = JNum x \<and> isFinite x)"
  by (cases v; auto simp: has_type_def elim: isInteger.elims)+

lemma opt_text_iff: "opt_text v \<longleftrightarrow> (v \<noteq> JUndefined \<longrightarrow> has_type ''string'' v)"
  by (auto simp: opt_text_def type_simps)

lemma opt_count_iff:
  "opt_count v \<longleftrightarrow> (v \<noteq> JUndefined \<longrightarrow> has_type ''integer'' v \<and> (case v of JNum x \<Rightarrow> 0 \<le> num_val x | _ \<Rightarrow> True))"
  by (auto simp: opt_count_def type_simps num_val_int_val split: jsval.splits)

section \<open>Objects field by field\<close>

lemma object_schema:
  "conforms fmt refs (Schema [Ktype [''object''], Krequired ns, Kproperties ps, Kadditional False]) v \<longleftrightarrow>
    has_type ''object'' v \<and> set ns \<subseteq> set (keys v) \<and> (\<forall>p\<in>set ps. fst p \<in> set (keys v) \<longrightarrow> conforms fmt refs (snd p) (jget v (fst p)))
    \<and> set (keys v) \<subseteq> fst ` set ps"
  by (cases v) (auto simp: list_all_iff has_type_def)

lemma text_schema: "conforms fmt refs (Schema [Ktype [''string'']]) v \<longleftrightarrow> has_type ''string'' v"
  by simp

lemma format_schema: "conforms fmt refs (Schema [Ktype [''string''], Kformat f]) v \<longleftrightarrow> (\<exists>s. v = JStr s \<and> fmt f s)"
  by (auto simp: type_simps)

lemma hash_schema: "conforms fmt refs (Schema [Ktype [''string''], Kpattern P]) v \<longleftrightarrow> (\<exists>s. v = JStr s \<and> P s)"
  by (auto simp: type_simps)

lemma nonempty_schema: "conforms fmt refs (Schema [Ktype [''string''], KminLength n]) v \<longleftrightarrow> (\<exists>s. v = JStr s \<and> n \<le> length s)"
  by (auto simp: type_simps)

lemma enum_schema: "conforms fmt refs (Schema [Ktype [''string''], Kenum ss]) v \<longleftrightarrow> (\<exists>s\<in>set ss. v = JStr s)"
  by (auto simp: type_simps)

lemma count_schema: "conforms fmt refs (Schema [Ktype [''integer''], Kminimum m]) v \<longleftrightarrow> (\<exists>x. v = JNum x \<and> isInteger x \<and> m \<le> int_val x)"
  by (auto simp: type_simps num_val_int_val)

lemma amount_schema: "conforms fmt refs (Schema [Ktype [''number''], Kminimum m]) v \<longleftrightarrow> (\<exists>x. v = JNum x \<and> isFinite x \<and> of_int m \<le> num_val x)"
  by (auto simp: type_simps)

lemma version_schema: "conforms fmt refs (Schema [Ktype [''integer''], Kconst (JNum (Dec False 1 0))]) v \<longleftrightarrow> v = JNum (Dec False 1 0)"
  by (auto simp: type_simps)

lemma free_object_schema: "conforms fmt refs (Schema [Ktype [''object''], Kadditional True]) v \<longleftrightarrow> has_type ''object'' v"
  by simp

lemmas field_schemas = text_schema format_schema hash_schema nonempty_schema enum_schema count_schema amount_schema version_schema free_object_schema

lemma toDict_present:
  assumes "rq_tool r \<noteq> JUndefined" and "(n, x) \<in> set (toDict r)"
  shows "x \<noteq> JUndefined"
  using assms unfolding toDict_def set_append Un_iff opt_field_mem set_simps insert_iff empty_iff prod.inject
  by (elim disjE conjE FalseE) simp_all

lemma map_of_present:
  assumes "\<And>n x. (n, x) \<in> set kvs \<Longrightarrow> x \<noteq> JUndefined" and "n \<in> set (keys (JObj kvs))"
  shows "jget (JObj kvs) n \<noteq> JUndefined"
  using assms by (auto dest: map_of_SomeD split: option.splits simp: map_of_eq_None_iff)

lemma request_typed_conforms:
  assumes "request_typed fmt r"
  shows "conforms fmt refs decisionRequestSchema (JObj (toDict r))"
proof -
  let ?v = "JObj (toDict r)"
  note a = assms [unfolded request_typed_def opt_text_def opt_count_def]
  have t: "has_type ''object'' ?v" by (simp add: type_simps)
  have k: "set (keys ?v) \<subseteq> {''schema_version'', ''run_id'', ''seq'', ''tool'', ''args_hash'', ''args_redacted'', ''agent_role'',
      ''agent_name'', ''model'', ''input_tokens'', ''output_tokens'', ''estimated_cost_usd'', ''environment'', ''ts''}"
    by (intro subsetI, unfold toDict_keys insert_iff empty_iff, elim disjE conjE) (simp_all only: simp_thms)
  have q: "{''schema_version'', ''run_id'', ''seq'', ''tool'', ''args_hash'', ''ts''} \<subseteq> set (keys ?v)"
    by (simp only: insert_subset empty_subsetI toDict_keys simp_thms)
  have "rq_tool r \<noteq> JUndefined" using a by auto
  then have g: "n \<in> set (keys ?v) \<Longrightarrow> jget ?v n \<noteq> JUndefined" for n
    using map_of_present [of "toDict r" n] toDict_present [of r] by (metis (no_types))
  note o = assms [unfolded request_typed_def]
  have as_text: "n \<in> set (keys ?v) \<longrightarrow> conforms fmt refs (Schema [Ktype [''string'']]) (jget ?v n)" if "opt_text (jget ?v n)" for n
    using g [of n] that unfolding opt_text_def field_schemas type_simps by blast
  have as_count: "n \<in> set (keys ?v) \<longrightarrow> conforms fmt refs (Schema [Ktype [''integer''], Kminimum 0]) (jget ?v n)" if "opt_count (jget ?v n)" for n
    using g [of n] that unfolding opt_count_def field_schemas by blast
  have "conforms fmt refs (Schema [Ktype [''integer''], Kconst (JNum (Dec False 1 0))]) (jget ?v ''schema_version'')"
    "conforms fmt refs (Schema [Ktype [''string''], Kformat ''uuid'']) (jget ?v ''run_id'')"
    "conforms fmt refs (Schema [Ktype [''integer''], Kminimum 1]) (jget ?v ''seq'')"
    "conforms fmt refs (Schema [Ktype [''string''], KminLength 1]) (jget ?v ''tool'')"
    "conforms fmt refs (Schema [Ktype [''string''], Kpattern hex64_pattern]) (jget ?v ''args_hash'')"
    "conforms fmt refs (Schema [Ktype [''string''], Kformat ''date-time'']) (jget ?v ''ts'')"
    using o unfolding toDict_get field_schemas
    by (auto simp: num_of_int_one [of 1, simplified] isInteger_num_of_int int_val_num_of_int hex64_pattern_def Suc_le_eq)
  note required = this [THEN impI]
  have redacted: "''args_redacted'' \<in> set (keys ?v) \<longrightarrow> conforms fmt refs (Schema [Ktype [''object''], Kadditional True]) (jget ?v ''args_redacted'')"
    using g [of "''args_redacted''"] a unfolding toDict_get field_schemas type_simps by blast
  have cost: "''estimated_cost_usd'' \<in> set (keys ?v) \<longrightarrow> conforms fmt refs (Schema [Ktype [''number''], Kminimum 0]) (jget ?v ''estimated_cost_usd'')"
    using g [of "''estimated_cost_usd''"] a unfolding toDict_get field_schemas by auto
  have texts: "opt_text (jget ?v ''agent_role'')" "opt_text (jget ?v ''agent_name'')" "opt_text (jget ?v ''model'')" "opt_text (jget ?v ''environment'')"
    "opt_count (jget ?v ''input_tokens'')" "opt_count (jget ?v ''output_tokens'')"
    using o unfolding toDict_get by simp_all
  show ?thesis
    unfolding decisionRequestSchema_def object_schema set_simps ball_simps image_insert image_empty fst_conv snd_conv
    by (intro conjI TrueI t q k required redacted cost texts(1-4) [THEN as_text] texts(5,6) [THEN as_count])
qed

section \<open>Events\<close>

definition event_properties :: "(string \<times> schema) list" where
  "event_properties = event_core_properties @ event_state_properties @ event_supervisor_properties"

lemma event_object:
  assumes "conforms fmt refs eventSchema v"
  shows "has_type ''object'' v" "{''schema_version'', ''event_type'', ''run_id'', ''seq'', ''hash'', ''ts''} \<subseteq> set (keys v)"
    "set (keys v) \<subseteq> fst ` set event_properties" "\<And>p. p \<in> set event_properties \<Longrightarrow> fst p \<in> set (keys v) \<Longrightarrow> conforms fmt refs (snd p) (jget v (fst p))"
  using assms unfolding eventSchema_def object_schema event_properties_def by simp_all

lemma jget_absent: "k \<notin> set (keys v) \<Longrightarrow> jget v k = JUndefined"
  by (cases v) (auto simp: map_of_eq_None_iff [symmetric] split: option.splits)

lemma event_property:
  assumes "conforms fmt refs eventSchema v" and "map_of event_properties k = Some s"
  shows "jget v k = JUndefined \<or> conforms fmt refs s (jget v k)"
  using event_object(4) [OF assms(1) map_of_SomeD [OF assms(2)]] jget_absent [of k v] by auto

text \<open>The first keyword of each property is its type.\<close>

fun declared_type :: "schema \<Rightarrow> string list" where
  "declared_type (Schema (Ktype ts # ks)) = ts"
| "declared_type _ = []"

lemma conforms_declared: "conforms fmt refs s v \<Longrightarrow> declared_type s = [t] \<Longrightarrow> has_type t v"
  by (cases s rule: declared_type.cases) auto

lemma event_typed:
  assumes "conforms fmt refs eventSchema v" and "map_option declared_type (map_of event_properties k) = Some [t]"
  shows "jget v k = JUndefined \<or> has_type t (jget v k)"
proof -
  from assms(2) obtain s where "map_of event_properties k = Some s" "declared_type s = [t]" by auto
  with event_property [OF assms(1)] conforms_declared show ?thesis by blast
qed

definition text_fields :: "string list" where
  "text_fields = [''agent_name'', ''agent_role'', ''environment'', ''policy_pack_id'', ''tool'', ''args_hash'', ''decision'', ''rule_id'', ''reason'', ''model'',
     ''run_status'', ''dimension'', ''loop_rule'', ''loop_action'', ''supervisor_run_id'', ''trigger'', ''trigger_run_id'', ''proposal_id'',
     ''proposal_type'', ''target_agent'', ''rationale'', ''status'', ''escalation_id'', ''severity'', ''recommendation'', ''timeout_action'']"

lemma text_fields_declared: "list_all (\<lambda>k. map_option declared_type (map_of event_properties k) = Some [''string'']) text_fields"
  by code_simp

lemma int_fields_declared:
  "list_all (\<lambda>k. map_option declared_type (map_of event_properties k) = Some [''integer'']) [''input_tokens'', ''output_tokens'', ''cooldown_ms'', ''timeout_seconds'']"
  "list_all (\<lambda>k. map_option declared_type (map_of event_properties k) = Some [''number'']) [''estimated_cost_usd'', ''latency_ms'', ''confidence'']"
  by code_simp+

lemma special_fields:
  "map_of event_properties ''schema_version'' = Some (Schema [Ktype [''integer''], Kconst (JNum (Dec False 1 0))])"
  "map_of event_properties ''run_id'' = Some (Schema [Ktype [''string''], Kformat ''uuid''])"
  "map_of event_properties ''ts'' = Some (Schema [Ktype [''string''], Kformat ''date-time''])"
  "map_of event_properties ''seq'' = Some (Schema [Ktype [''integer''], Kminimum 1])"
  "map_of event_properties ''hash'' = Some (Schema [Ktype [''string''], Kpattern hex64_pattern])"
  "map_of event_properties ''hash_prev'' = Some (Schema [Ktype [''string'', ''null''], Kpattern hex64_pattern])"
  "map_of event_properties ''supporting_runs'' = Some (Schema [Ktype [''array''], Kitems (Schema [Ktype [''string'']])])"
  "map_of event_properties ''call_seq_fingerprint'' = Some (Schema [Ktype [''string''], Kpattern hex64_pattern])"
  "map_of event_properties ''param_shape_hash'' = Some (Schema [Ktype [''string''], Kpattern hex64_pattern])"
  "map_of event_properties ''inter_call_ms'' = Some (Schema [Ktype [''integer''], Kminimum 0])"
  "map_of event_properties ''token_rate_delta'' = Some (Schema [Ktype [''number''], Kminimum 0])"
  "\<exists>ss. map_of event_properties ''event_type'' = Some (Schema [Ktype [''string''], Kenum ss]) \<and> [] \<notin> set ss"
  by (simp_all add: event_properties_def event_core_properties_def event_state_properties_def event_supervisor_properties_def)

lemma event_required:
  assumes "conforms fmt refs eventSchema v" and "map_of event_properties k = Some s" and "k \<in> set (keys v)"
  shows "conforms fmt refs s (jget v k)"
  using event_object(4) [OF assms(1) map_of_SomeD [OF assms(2)]] assms(3) by simp

text \<open>What the ingest endpoint asks of the fields that the schema declares.\<close>

lemma event_text_ok:
  assumes "conforms fmt refs eventSchema v"
  shows "list_all (\<lambda>k. z_optional (z_string (\<lambda>_. True)) (jget v k)) text_fields"
  unfolding list_all_iff
proof
  fix k assume "k \<in> set text_fields"
  with text_fields_declared have "map_option declared_type (map_of event_properties k) = Some [''string'']" unfolding list_all_iff by blast
  from event_typed [OF assms this] show "z_optional (z_string (\<lambda>_. True)) (jget v k)"
    unfolding type_simps z_optional_def z_string_def by auto
qed

lemma event_number_ok:
  assumes "conforms fmt refs eventSchema v"
  shows "list_all (\<lambda>k. z_optional (z_number z_int) (jget v k)) [''input_tokens'', ''output_tokens'', ''cooldown_ms'', ''timeout_seconds'']"
    "list_all (\<lambda>k. z_optional (z_number (\<lambda>_. True)) (jget v k)) [''estimated_cost_usd'', ''latency_ms'', ''confidence'']"
proof -
  have n: "isInteger x \<Longrightarrow> x \<noteq> NaN" "isFinite x \<Longrightarrow> x \<noteq> NaN" for x by (cases x; simp)+
  show "list_all (\<lambda>k. z_optional (z_number z_int) (jget v k)) [''input_tokens'', ''output_tokens'', ''cooldown_ms'', ''timeout_seconds'']"
    unfolding list_all_iff
  proof
    fix k assume "k \<in> set [''input_tokens'', ''output_tokens'', ''cooldown_ms'', ''timeout_seconds'']"
    with int_fields_declared(1) have "map_option declared_type (map_of event_properties k) = Some [''integer'']" unfolding list_all_iff by blast
    from event_typed [OF assms this] show "z_optional (z_number z_int) (jget v k)"
      unfolding type_simps z_optional_def z_number_def z_int_def using n(1) by auto
  qed
  show "list_all (\<lambda>k. z_optional (z_number (\<lambda>_. True)) (jget v k)) [''estimated_cost_usd'', ''latency_ms'', ''confidence'']"
    unfolding list_all_iff
  proof
    fix k assume "k \<in> set [''estimated_cost_usd'', ''latency_ms'', ''confidence'']"
    with int_fields_declared(2) have "map_option declared_type (map_of event_properties k) = Some [''number'']" unfolding list_all_iff by blast
    from event_typed [OF assms this] show "z_optional (z_number (\<lambda>_. True)) (jget v k)"
      unfolding type_simps z_optional_def z_number_def using n(2) by auto
  qed
qed

lemma event_special_ok:
  assumes "conforms fmt refs eventSchema v"
  shows "z_optional (z_string is_hex64) (jget v ''call_seq_fingerprint'')" "z_optional (z_string is_hex64) (jget v ''param_shape_hash'')"
    "z_optional (z_number (\<lambda>x. z_int x \<and> int_val x \<ge> 0)) (jget v ''inter_call_ms'')"
    "z_optional (z_number (\<lambda>x. num_val x \<ge> 0)) (jget v ''token_rate_delta'')" "z_optional z_strings (jget v ''supporting_runs'')"
proof -
  note p = event_property [OF assms]
  have n: "isInteger x \<Longrightarrow> x \<noteq> NaN" "isFinite x \<Longrightarrow> x \<noteq> NaN" for x by (cases x; simp)+
  show "z_optional (z_string is_hex64) (jget v ''call_seq_fingerprint'')" "z_optional (z_string is_hex64) (jget v ''param_shape_hash'')"
    using p [OF special_fields(8)] p [OF special_fields(9)] unfolding hash_schema hex64_pattern_def z_optional_def z_string_def by auto
  show "z_optional (z_number (\<lambda>x. z_int x \<and> int_val x \<ge> 0)) (jget v ''inter_call_ms'')"
    using p [OF special_fields(10)] n(1) unfolding count_schema z_optional_def z_number_def z_int_def by auto
  show "z_optional (z_number (\<lambda>x. num_val x \<ge> 0)) (jget v ''token_rate_delta'')"
    using p [OF special_fields(11)] n(2) unfolding amount_schema z_optional_def z_number_def by auto
  show "z_optional z_strings (jget v ''supporting_runs'')"
    using p [OF special_fields(7)] by (fastforce simp: type_simps z_optional_def z_strings_def z_string_def list_all_iff)
qed

lemma event_required_ok:
  assumes c: "conforms fmt refs eventSchema v" and h: "''hash_prev'' \<in> set (keys v)"
    and u: "\<And>s. fmt ''uuid'' s \<Longrightarrow> ie_is_uuid env s" and d: "\<And>s. fmt ''date-time'' s \<Longrightarrow> ie_is_datetime env s"
  shows "jget v ''schema_version'' = JNum (Dec False 1 0)" "z_string (\<lambda>s. s \<noteq> []) (jget v ''event_type'')" "z_string (ie_is_uuid env) (jget v ''run_id'')"
    "z_number (\<lambda>x. z_int x \<and> int_val x \<ge> 1) (jget v ''seq'')" "z_string (ie_is_datetime env) (jget v ''ts'')"
    "z_string is_hex64 (jget v ''hash'')" "z_nullable (z_string is_hex64) (jget v ''hash_prev'')"
proof -
  have k: "''schema_version'' \<in> set (keys v)" "''event_type'' \<in> set (keys v)" "''run_id'' \<in> set (keys v)" "''seq'' \<in> set (keys v)"
    "''hash'' \<in> set (keys v)" "''ts'' \<in> set (keys v)"
    using event_object(2) [OF c] by simp_all
  note p = event_required [OF c]
  have n: "isInteger x \<Longrightarrow> x \<noteq> NaN" for x by (cases x) simp_all
  show "jget v ''schema_version'' = JNum (Dec False 1 0)" using p [OF special_fields(1) k(1)] unfolding version_schema .
  show "z_string (\<lambda>s. s \<noteq> []) (jget v ''event_type'')"
  proof -
    from special_fields(12) obtain ss where m: "map_of event_properties ''event_type'' = Some (Schema [Ktype [''string''], Kenum ss])"
      and e: "[] \<notin> set ss" by blast
    from p [OF m k(2), unfolded enum_schema] e show ?thesis unfolding z_string_def by auto
  qed
  show "z_string (ie_is_uuid env) (jget v ''run_id'')" using p [OF special_fields(2) k(3)] u unfolding format_schema z_string_def by auto
  show "z_number (\<lambda>x. z_int x \<and> int_val x \<ge> 1) (jget v ''seq'')"
    using p [OF special_fields(4) k(4)] n unfolding count_schema z_number_def z_int_def by auto
  show "z_string (ie_is_datetime env) (jget v ''ts'')" using p [OF special_fields(3) k(6)] d unfolding format_schema z_string_def by auto
  show "z_string is_hex64 (jget v ''hash'')" using p [OF special_fields(5) k(5)] unfolding hash_schema hex64_pattern_def z_string_def by auto
  show "z_nullable (z_string is_hex64) (jget v ''hash_prev'')"
    using p [OF special_fields(6) h] by (auto simp: type_simps hex64_pattern_def z_nullable_def z_string_def)
qed


section \<open>Messages to the engine\<close>

lemma argsHash_hex: "argsHash sha256 v = Inr h \<Longrightarrow> (\<And>x. is_hex64 (sha256 x)) \<Longrightarrow> is_hex64 h"
  by (auto simp: argsHash_def bind_result_Inr_iff)

text \<open>
  C13: the request that a guarded call sends to the engine conforms to the shared request schema: whatever the arguments
  of the call, if the tool has a name, the run id is a UUID, the clock gives a date-time, SHA-256 gives 64 hexadecimal
  digits, and the agent's role, name, model and environment are texts or absent.
\<close>

theorem guarded_call_request_conforms:
  assumes "tool \<noteq> []" and "fmt ''uuid'' (gd_runId g)" and "fmt ''date-time'' now"
    and "\<And>x. is_hex64 (sha256 x)" and "argsHash sha256 (call_args args) = Inr hash"
    and "\<forall>v\<in>{gd_agentRole g, gd_agentName g, gd_model g, gd_environment g}. opt_text v"
  shows "conforms fmt refs decisionRequestSchema (JObj (toDict (check_request g hash now (JStr tool) (args_only (call_args args)))))"
proof (rule request_typed_conforms)
  have "is_hex64 hash" by (rule argsHash_hex [OF assms(5,4)])
  then show "request_typed fmt (check_request g hash now (JStr tool) (args_only (call_args args)))"
    using assms(1-3,6) by (simp add: request_typed_def check_request_def args_only_def call_args_def opt_count_def)
qed

lemma redacted_is_object:
  assumes "conforms fmt refs decisionRequestSchema (JObj (toDict r))"
  shows "rq_args_redacted r = JUndefined \<or> has_type ''object'' (rq_args_redacted r)"
proof (rule disjCI)
  assume "\<not> has_type ''object'' (rq_args_redacted r)"
  have p: "''args_redacted'' \<in> set (keys (JObj (toDict r))) \<longrightarrow> conforms fmt refs (Schema [Ktype [''object''], Kadditional True]) (jget (JObj (toDict r)) ''args_redacted'')"
    using assms unfolding decisionRequestSchema_def object_schema set_simps ball_simps fst_conv snd_conv by (elim conjE)
  with \<open>\<not> has_type ''object'' (rq_args_redacted r)\<close> have "''args_redacted'' \<notin> set (keys (JObj (toDict r)))"
    unfolding toDict_get free_object_schema by blast
  then show "rq_args_redacted r = JUndefined" using toDict_get(7) [of r] jget_absent by metis
qed

text \<open>
  The request that the MCP proxy sends for a tool call conforms to the shared schema exactly when the call has an
  object of arguments: a call without arguments is sent with \<open>args_redacted\<close> null, which the schema does not allow.
\<close>

theorem proxy_request_conforms_iff:
  assumes "mcpToolCallToDecisionRequest sha256 now params ctx = Inr r" and "tp_name params \<noteq> []" and "fmt ''uuid'' (rc_runId ctx)"
    and "fmt ''date-time'' now" and "1 \<le> rc_seq ctx" and "\<And>x. is_hex64 (sha256 x)"
    and "\<forall>v\<in>{rc_agentRole ctx, rc_agentName ctx, rc_environment ctx}. opt_text v"
  shows "conforms fmt refs decisionRequestSchema (JObj (toDict r)) \<longleftrightarrow> (\<exists>kvs. tp_arguments params = JObj kvs)"
proof
  from assms(1) obtain hash where h: "argsHash sha256 (coalesce (tp_arguments params) JNull) = Inr hash"
    and r: "rq_args_redacted r = coalesce (tp_arguments params) JNull"
    and rest: "rq_schema_version r = 1" "rq_run_id r = rc_runId ctx" "rq_seq r = int (rc_seq ctx)" "rq_tool r = JStr (tp_name params)"
      "rq_args_hash r = hash" "rq_ts r = now" "rq_agent_role r = rc_agentRole ctx" "rq_agent_name r = rc_agentName ctx" "rq_model r = JUndefined"
      "rq_input_tokens r = JUndefined" "rq_output_tokens r = JUndefined" "rq_estimated_cost_usd r = JUndefined" "rq_environment r = rc_environment ctx"
    by (auto simp: mcpToolCallToDecisionRequest_def Let_def split: sum.splits js_error.splits)
  {
    assume "conforms fmt refs decisionRequestSchema (JObj (toDict r))"
    from redacted_is_object [OF this] r show "\<exists>kvs. tp_arguments params = JObj kvs"
      by (auto simp: type_simps coalesce_def split: if_splits)
  next
    assume "\<exists>kvs. tp_arguments params = JObj kvs"
    then have "\<exists>kvs. rq_args_redacted r = JObj kvs" using r by (auto simp: coalesce_def)
    moreover have "is_hex64 hash" by (rule argsHash_hex [OF h assms(6)])
    ultimately have "request_typed fmt r" using assms(2-5,7) rest by (simp add: request_typed_def opt_text_def opt_count_def)
    then show "conforms fmt refs decisionRequestSchema (JObj (toDict r))" by (rule request_typed_conforms)
  }
qed

text \<open>
  The guard knows every decision of the response schema: for an answer that conforms, it allows the call or rejects
  it with the error of that decision; it never meets an unknown one.
\<close>

theorem schema_responses_decided:
  assumes "conforms fmt refs decisionResponseSchema d"
  shows "jget d ''decision'' = JStr ''allow'' \<and> (\<exists>r. fst (handleDecision (response_of d) n) = Resolved r)
    \<or> jget d ''decision'' = JStr ''deny'' \<and> fst (handleDecision (response_of d) n) = Rejected (PolicyDeniedError (jget d ''rule_id'') (jget d ''reason''))
    \<or> jget d ''decision'' = JStr ''cooldown'' \<and> (\<exists>ms. fst (handleDecision (response_of d) n) = Rejected (CooldownError ms (jget d ''cooldown_message'')))
    \<or> jget d ''decision'' = JStr ''kill'' \<and> fst (handleDecision (response_of d) n) = Rejected (RunTerminatedError (jget d ''rule_id'') (jget d ''reason''))
    \<or> jget d ''decision'' = JStr ''require_approval'' \<and> (\<exists>i ms a. fst (handleDecision (response_of d) n) = Rejected (ApprovalRequiredError i ms a))"
proof -
  have "''decision'' \<in> set (keys d)
      \<and> (''decision'' \<in> set (keys d) \<longrightarrow> conforms fmt refs (Schema [Ktype [''string''], Kenum [''allow'', ''deny'', ''cooldown'', ''kill'', ''require_approval'']]) (jget d ''decision''))"
    using assms unfolding decisionResponseSchema_def object_schema set_simps ball_simps fst_conv snd_conv insert_subset by (elim conjE) (intro conjI)
  then have "jget d ''decision'' \<in> {JStr ''allow'', JStr ''deny'', JStr ''cooldown'', JStr ''kill'', JStr ''require_approval''}"
    unfolding enum_schema by auto
  then show ?thesis by (auto simp: handleDecision_def response_of_def Let_def)
qed

section \<open>Policies\<close>

definition policy_conforms :: "(string \<Rightarrow> string \<Rightarrow> bool) \<Rightarrow> jsval \<Rightarrow> bool" where
  "policy_conforms fmt = conforms fmt (resolve fmt policy_defs) policySchema"

lemma resolve_later:
  "resolve fmt policy_defs ''rule'' = conforms fmt (resolve fmt (drop 1 policy_defs)) policy_rule"
  "resolve fmt policy_defs ''budget'' = conforms fmt (resolve fmt (drop 3 policy_defs)) policy_budget"
  "resolve fmt (drop 3 policy_defs) ''budget_dimension_float'' = conforms fmt (resolve fmt (drop 4 policy_defs)) policy_budget_dimension_float"
  "resolve fmt (drop 3 policy_defs) ''budget_dimension_int'' = conforms fmt (resolve fmt (drop 5 policy_defs)) policy_budget_dimension_int"
  by (rule ext; simp add: policy_defs_def)+

lemma policy_object:
  assumes "policy_conforms fmt c"
  shows "jget c ''schema_version'' = JNum (Dec False 1 0)"
    "\<exists>rs. jget c ''rules'' = JArr rs \<and> rs \<noteq> [] \<and> (\<forall>r\<in>set rs. conforms fmt (resolve fmt (drop 1 policy_defs)) policy_rule r)"
    "jget c ''budget'' = JUndefined \<or> conforms fmt (resolve fmt (drop 3 policy_defs)) policy_budget (jget c ''budget'')"
proof -
  let ?refs = "resolve fmt policy_defs"
  note u = assms [unfolded policy_conforms_def policySchema_def object_schema set_simps ball_simps fst_conv snd_conv insert_subset]
  have k1: "''schema_version'' \<in> set (keys c)" using u by (elim conjE)
  have k2: "''rules'' \<in> set (keys c)" using u by (elim conjE)
  have v: "''schema_version'' \<in> set (keys c) \<longrightarrow> conforms fmt ?refs (Schema [Ktype [''integer''], Kconst (JNum (Dec False 1 0))]) (jget c ''schema_version'')"
    using u by (elim conjE)
  have r: "''rules'' \<in> set (keys c) \<longrightarrow> conforms fmt ?refs (Schema [Ktype [''array''], KminItems 1, Kitems (Schema [Kref ''rule''])]) (jget c ''rules'')"
    using u by (elim conjE)
  have b: "''budget'' \<in> set (keys c) \<longrightarrow> conforms fmt ?refs (Schema [Kref ''budget'']) (jget c ''budget'')" using u by (elim conjE)
  show "jget c ''schema_version'' = JNum (Dec False 1 0)" using k1 v unfolding version_schema by blast
  from k2 r show "\<exists>rs. jget c ''rules'' = JArr rs \<and> rs \<noteq> [] \<and> (\<forall>r\<in>set rs. conforms fmt (resolve fmt (drop 1 policy_defs)) policy_rule r)"
    by (fastforce simp: type_simps list_all_iff resolve_later)
  show "jget c ''budget'' = JUndefined \<or> conforms fmt (resolve fmt (drop 3 policy_defs)) policy_budget (jget c ''budget'')"
    using b jget_absent [of "''budget''" c] by (auto simp: resolve_later)
qed

lemma rule_schema:
  assumes "conforms fmt refs policy_rule r"
  shows "has_type ''object'' r" "jget r ''action'' \<in> {JStr ''allow'', JStr ''deny'', JStr ''require_approval''}"
    "jget r ''tool'' = JUndefined \<or> jget r ''tool_pattern'' = JUndefined"
proof -
  have o: "has_type ''object'' r" and q: "''action'' \<in> set (keys r)"
    and a: "''action'' \<in> set (keys r) \<longrightarrow> conforms fmt refs (Schema [Ktype [''string''], Kenum [''allow'', ''deny'', ''require_approval'']]) (jget r ''action'')"
    and n: "\<not> (''tool'' \<in> set (keys r) \<and> ''tool_pattern'' \<in> set (keys r))"
    using assms by (auto simp: policy_rule_def type_simps simp del: jget.simps keys.simps split: jsval.splits)
  show "has_type ''object'' r" by (rule o)
  show "jget r ''action'' \<in> {JStr ''allow'', JStr ''deny'', JStr ''require_approval''}" using q a unfolding enum_schema by auto
  show "jget r ''tool'' = JUndefined \<or> jget r ''tool_pattern'' = JUndefined" using n jget_absent by blast
qed

definition is_zero :: "jsval \<Rightarrow> bool" where
  "is_zero v \<longleftrightarrow> (\<exists>neg e. v = JNum (Dec neg 0 e))"

lemma positive_amount:
  assumes "isFinite x" and "0 \<le> num_val x" and "\<not> is_zero (JNum x)"
  shows "\<not> nonpositive (JNum x)"
proof (cases x)
  case (Dec neg s e)
  with assms(3) have "s \<noteq> 0" by (auto simp: is_zero_def)
  then have "0 < (if 0 \<le> e then of_nat s * 10 ^ nat e else of_nat s / 10 ^ nat (- e) :: rat)" by simp
  with assms(2) Dec \<open>s \<noteq> 0\<close> show ?thesis by (cases neg) (auto simp: nonpositive_def)
qed (use assms(1) in simp_all)

lemma integer_amount: "isInteger x \<Longrightarrow> isFinite x"
  by (cases x) simp_all

text \<open>Both kinds of budget dimension give numbers that are not negative.\<close>

lemma dimension_schema:
  assumes "conforms fmt refs (Schema [Ktype [''object''], Krequired [''hard''],
      Kproperties [(''soft'', Schema [Ktype [t], Kminimum 0]), (''hard'', Schema [Ktype [t], Kminimum 0])], Kadditional False]) v"
    and "t \<in> {''number'', ''integer''}" and "\<not> is_zero (jget v ''hard'')" and "\<not> is_zero (jget v ''soft'')"
  shows "limit_wf v"
proof -
  have n: "\<not> nonpositive x" if "conforms fmt refs (Schema [Ktype [t], Kminimum 0]) x" and "\<not> is_zero x" for x
  proof -
    from that(1) assms(2) obtain y where "x = JNum y" "isFinite y" "0 \<le> num_val y"
      using count_schema [of fmt refs 0 x] amount_schema [of fmt refs 0 x] integer_amount num_val_int_val by auto
    then show ?thesis using positive_amount that(2) by simp
  qed
  note u = assms(1) [unfolded object_schema set_simps ball_simps fst_conv snd_conv insert_subset]
  have o: "has_type ''object'' v" using u by (elim conjE)
  have k: "''hard'' \<in> set (keys v)" using u by (elim conjE)
  have h: "''hard'' \<in> set (keys v) \<longrightarrow> conforms fmt refs (Schema [Ktype [t], Kminimum 0]) (jget v ''hard'')" using u by (elim conjE)
  have s: "''soft'' \<in> set (keys v) \<longrightarrow> conforms fmt refs (Schema [Ktype [t], Kminimum 0]) (jget v ''soft'')" using u by (elim conjE)
  have "is_object v" using o by (auto simp: type_simps is_object_def)
  then show ?thesis using n [of "jget v ''hard''"] n [of "jget v ''soft''"] k h s assms(3,4) jget_absent [of "''soft''" v]
    unfolding limit_wf_def by blast
qed

lemma budget_schema:
  assumes "conforms fmt (resolve fmt (drop 3 policy_defs)) policy_budget b"
    and "\<forall>dm\<in>set budget_dimensions. \<not> is_zero (jget (jget b dm) ''hard'') \<and> \<not> is_zero (jget (jget b dm) ''soft'')"
  shows "budget_wf b"
proof -
  let ?refs = "resolve fmt (drop 3 policy_defs)"
  have o: "has_type ''object'' b"
    and p: "list_all (\<lambda>p. fst p \<in> set (keys b) \<longrightarrow> conforms fmt ?refs (snd p) (jget b (fst p)))
      [(''cost_usd'', Schema [Kref ''budget_dimension_float'']), (''input_tokens'', Schema [Kref ''budget_dimension_int'']),
       (''output_tokens'', Schema [Kref ''budget_dimension_int'']), (''call_count'', Schema [Kref ''budget_dimension_int''])]"
    using assms(1) unfolding policy_budget_def by (simp_all del: jget.simps keys.simps)
  have d: "limit_wf (jget b dm)" if "dm \<in> set budget_dimensions" for dm
  proof (cases "dm \<in> set (keys b)")
    case True
    have z: "\<not> is_zero (jget (jget b dm) ''hard'')" "\<not> is_zero (jget (jget b dm) ''soft'')" using assms(2) that by blast+
    from that True p consider "conforms fmt (resolve fmt (drop 4 policy_defs)) policy_budget_dimension_float (jget b dm)"
      | "conforms fmt (resolve fmt (drop 5 policy_defs)) policy_budget_dimension_int (jget b dm)"
      by (auto simp: budget_dimensions_def resolve_later simp del: jget.simps keys.simps)
    then show ?thesis
    proof cases
      case 1
      then show ?thesis unfolding policy_budget_dimension_float_def by (rule dimension_schema) (use z in simp_all)
    next
      case 2
      then show ?thesis unfolding policy_budget_dimension_int_def by (rule dimension_schema) (use z in simp_all)
    qed
  qed (use jget_absent in \<open>simp add: limit_wf_def\<close>)
  have "b \<noteq> JNull" using o by (auto simp: type_simps)
  with d show ?thesis by (simp add: budget_wf_def)
qed

text \<open>
  C36: the hand-written policy checks against the shared policy schema: a pack that conforms is accepted, if no rule has
  a blank name, no budget limit is zero, and no rule denies \<open>escalate_to_human\<close>. None of the three can be left out, and a
  pack that does not conform can be accepted: unknown fields are not looked at.
\<close>

theorem schema_policy_accepted:
  assumes "policy_conforms fmt c"
    and "\<forall>r\<in>set (rules_of c). name_ok (jget r ''name'') \<and> \<not> denies_escalation glob r"
    and "\<forall>dm\<in>set budget_dimensions. \<not> is_zero (jget (jget (jget c ''budget'') dm) ''hard'') \<and> \<not> is_zero (jget (jget (jget c ''budget'') dm) ''soft'')"
  shows "validatePolicy glob c = Inr PolicyValid"
proof -
  note p = policy_object [OF assms(1)]
  from p(2) obtain rs where rs: "jget c ''rules'' = JArr rs" "rs \<noteq> []"
    "\<And>r. r \<in> set rs \<Longrightarrow> conforms fmt (resolve fmt (drop 1 policy_defs)) policy_rule r" by blast
  have r: "rules_of c = rs" using rs(1) by (simp add: rules_of_def)
  have "rule_wf r" if "r \<in> set rs" for r
  proof -
    have "is_object r" using rule_schema(1) [OF rs(3) [OF that]] by (auto simp: type_simps is_object_def)
    with rule_schema(2,3) [OF rs(3) [OF that]] assms(2) r that show ?thesis unfolding rule_wf_def by blast
  qed
  moreover have "jget c ''budget'' = JUndefined \<or> budget_wf (jget c ''budget'')" using p(3) budget_schema assms(3) by blast
  ultimately show ?thesis unfolding validatePolicy_Valid validateAgainstSchema_Nil using p(1) rs(1,2) assms(2) r by auto
qed

section \<open>Examples\<close>

definition ex_digest :: string where
  "ex_digest = replicate 64 (CHR ''a'')"

lemma ex_digest_hex: "is_hex64 ex_digest"
  by (simp add: ex_digest_def is_hex64_def is_hex_char_def list_all_iff)

definition ex_pack :: "(string \<times> jsval) list \<Rightarrow> jsval \<Rightarrow> jsval" where
  "ex_pack extra hard = JObj ([(''schema_version'', JNum (Dec False 1 0)),
     (''rules'', JArr [JObj [(''name'', JStr ''r''), (''action'', JStr ''allow''), (''tool'', JStr ''t'')]]),
     (''budget'', JObj [(''call_count'', JObj [(''hard'', hard)])])] @ extra)"

theorem schema_policy_accepted_witness:
  "policy_conforms (\<lambda>_ _. True) (ex_pack [] (JNum (Dec False 5 0))) \<and> validatePolicy (\<lambda>_ _. None) (ex_pack [] (JNum (Dec False 5 0))) = Inr PolicyValid"
proof -
  have c: "policy_conforms (\<lambda>_ _. True) (ex_pack [] (JNum (Dec False 5 0)))" by code_simp
  have "rules_of (ex_pack [] (JNum (Dec False 5 0))) = [JObj [(''name'', JStr ''r''), (''action'', JStr ''allow''), (''tool'', JStr ''t'')]]" by code_simp
  then have r: "\<forall>r\<in>set (rules_of (ex_pack [] (JNum (Dec False 5 0)))). name_ok (jget r ''name'') \<and> \<not> denies_escalation (\<lambda>_ _. None) r"
    by (simp add: denies_escalation_def name_ok_def trim_def trimEnd_def is_ws_def)
  have b: "\<forall>dm\<in>set budget_dimensions. \<not> is_zero (jget (jget (jget (ex_pack [] (JNum (Dec False 5 0))) ''budget'') dm) ''hard'')
      \<and> \<not> is_zero (jget (jget (jget (ex_pack [] (JNum (Dec False 5 0))) ''budget'') dm) ''soft'')"
    by (simp add: ex_pack_def budget_dimensions_def is_zero_def)
  from c schema_policy_accepted [OF c r b] show ?thesis by blast
qed

text \<open>
  The checks and the schema differ both ways: a pack with an unknown field is accepted although the schema refuses it,
  and a pack with a budget limit of zero is refused although the schema allows it.
\<close>

theorem policy_checks_differ:
  "validatePolicy (\<lambda>_ _. None) (ex_pack [(''rulse'', JArr [])] (JNum (Dec False 5 0))) = Inr PolicyValid
   \<and> \<not> policy_conforms (\<lambda>_ _. True) (ex_pack [(''rulse'', JArr [])] (JNum (Dec False 5 0)))
   \<and> policy_conforms (\<lambda>_ _. True) (ex_pack [] (JNum (Dec False 0 0)))
   \<and> validatePolicy (\<lambda>_ _. None) (ex_pack [] (JNum (Dec False 0 0))) \<noteq> Inr PolicyValid"
proof (intro conjI)
  show "validatePolicy (\<lambda>_ _. None) (ex_pack [(''rulse'', JArr [])] (JNum (Dec False 5 0))) = Inr PolicyValid" by code_simp
  show "\<not> policy_conforms (\<lambda>_ _. True) (ex_pack [(''rulse'', JArr [])] (JNum (Dec False 5 0)))" by code_simp
  show "policy_conforms (\<lambda>_ _. True) (ex_pack [] (JNum (Dec False 0 0)))" by code_simp
  show "validatePolicy (\<lambda>_ _. None) (ex_pack [] (JNum (Dec False 0 0))) \<noteq> Inr PolicyValid" by code_simp
qed

theorem guarded_call_request_conforms_witness:
  "conforms (\<lambda>_ _. True) (\<lambda>_ _. False) decisionRequestSchema
     (JObj (toDict (check_request (ex_guard False ex_net) ex_digest ''now'' (JStr ''t'') (args_only (call_args [JStr ''x''])))))"
proof -
  have "argsHash (\<lambda>_. ex_digest) (call_args [JStr ''x'']) = Inr ex_digest"
    by (simp add: argsHash_def call_args_def bind_result_def)
  then show ?thesis by (rule guarded_call_request_conforms [rotated 4]) (simp_all add: ex_digest_hex ex_guard_def opt_text_def)
qed

text \<open>A call without arguments.\<close>

theorem proxy_request_conforms_iff_witness:
  "\<exists>r. mcpToolCallToDecisionRequest (\<lambda>_. ex_digest) ''now'' \<lparr>tp_name = ''t'', tp_arguments = JUndefined, tp_meta = JUndefined\<rparr> (ex_ctx 1) = Inr r
    \<and> \<not> conforms (\<lambda>_ _. True) (\<lambda>_ _. False) decisionRequestSchema (JObj (toDict r))"
proof -
  let ?p = "\<lparr>tp_name = ''t'', tp_arguments = JUndefined, tp_meta = JUndefined\<rparr>"
  obtain r where r: "mcpToolCallToDecisionRequest (\<lambda>_. ex_digest) ''now'' ?p (ex_ctx 1) = Inr r"
    by (simp add: mcpToolCallToDecisionRequest_def argsHash_def bind_result_def coalesce_def)
  have "conforms (\<lambda>_ _. True) (\<lambda>_ _. False) decisionRequestSchema (JObj (toDict r)) \<longleftrightarrow> (\<exists>kvs. tp_arguments ?p = JObj kvs)"
    by (rule proxy_request_conforms_iff [OF r]) (simp_all add: ex_ctx_def opt_text_def ex_digest_hex)
  with r show ?thesis by auto
qed

definition ex_event :: jsval where
  "ex_event = JObj [(''schema_version'', JNum (Dec False 1 0)), (''event_type'', JStr ''run_started''), (''run_id'', JStr ''r''), (''seq'', JNum (Dec False 1 0)),
     (''ts'', JStr ''now''), (''hash'', JStr ex_digest), (''hash_prev'', JNull)]"


theorem schema_responses_decided_witness:
  "\<exists>r. conforms (\<lambda>_ _. True) (\<lambda>_ _. False) decisionResponseSchema
      (JObj [(''schema_version'', JNum (Dec False 1 0)), (''run_id'', JStr ''r''), (''seq'', JNum (Dec False 1 0)), (''decision'', JStr ''allow'')])
    \<and> fst (handleDecision (response_of
      (JObj [(''schema_version'', JNum (Dec False 1 0)), (''run_id'', JStr ''r''), (''seq'', JNum (Dec False 1 0)), (''decision'', JStr ''allow'')])) ex_net) = Resolved r"
proof -
  let ?d = "JObj [(''schema_version'', JNum (Dec False 1 0)), (''run_id'', JStr ''r''), (''seq'', JNum (Dec False 1 0)), (''decision'', JStr ''allow'')]"
  have c: "conforms (\<lambda>_ _. True) (\<lambda>_ _. False) decisionResponseSchema ?d"
    unfolding decisionResponseSchema_def object_schema by (simp add: type_simps)
  from schema_responses_decided [OF c, of ex_net] c show ?thesis by auto
qed

end
