(* ===== verification/Db_Schema.thy ===== *)
theory Db_Schema
  imports Js_Library
begin

text \<open>
  \<open>packages/backend/src/db/schema.ts\<close>, all tables with their columns, keys and indexes, the SQL migrations of \<open>drizzle/\<close>
  that build them (those of the row policies are in \<open>Tenant_Transactions\<close>), and the names under which
  \<open>auth.ts\<close> gives the tables to Better Auth. The migrations run through, twice as well as once, every foreign key
  points to the key of a table, and what they build is the schema, up to four declarations.
\<close>

section \<open>Tables\<close>

datatype col_type = Uuid | Text | TextArray | Boolean | Int4 | Float8 | Timestamptz | Jsonb | Enum string

datatype default_value = RandomUuid | Now | Const string

datatype on_delete = NoAction | Cascade | SetNull

datatype modifier = NotNull | PrimaryKey | Default default_value | References string string on_delete

record column =
  cn_name :: string
  cn_type :: col_type
  cn_notnull :: bool
  cn_default :: "default_value option"
  cn_ref :: "(string \<times> string \<times> on_delete) option"

record index_def =
  ix_name :: string
  ix_columns :: "(string \<times> bool) list"       \<comment> \<open>with \<open>DESC\<close> or not\<close>
  ix_unique :: bool
  ix_partial :: bool                            \<comment> \<open>\<open>WHERE\<close> the column \<open>IS NOT NULL\<close>\<close>

record table_def =
  td_name :: string
  td_columns :: "column list"
  td_key :: "string list"
  td_indexes :: "index_def list"

fun default_of :: "modifier list \<Rightarrow> default_value option" where
  "default_of [] = None"
| "default_of (Default d # ms) = Some d"
| "default_of (_ # ms) = default_of ms"

fun ref_of :: "modifier list \<Rightarrow> (string \<times> string \<times> on_delete) option" where
  "ref_of [] = None"
| "ref_of (References t c d # ms) = Some (t, c, d)"
| "ref_of (_ # ms) = ref_of ms"

definition col :: "string \<Rightarrow> col_type \<Rightarrow> modifier list \<Rightarrow> column" where
  "col n t ms = \<lparr>cn_name = n, cn_type = t, cn_notnull = (NotNull \<in> set ms \<or> PrimaryKey \<in> set ms),
     cn_default = default_of ms, cn_ref = ref_of ms\<rparr>"

definition asc :: "string \<Rightarrow> string \<times> bool" where "asc c = (c, False)"
definition desc :: "string \<Rightarrow> string \<times> bool" where "desc c = (c, True)"

definition index_on :: "string \<Rightarrow> (string \<times> bool) list \<Rightarrow> index_def" where
  "index_on n cs = \<lparr>ix_name = n, ix_columns = cs, ix_unique = False, ix_partial = False\<rparr>"

definition unique_index :: "string \<Rightarrow> (string \<times> bool) list \<Rightarrow> index_def" where
  "unique_index n cs = \<lparr>ix_name = n, ix_columns = cs, ix_unique = True, ix_partial = False\<rparr>"

definition partial_unique :: "string \<Rightarrow> (string \<times> bool) list \<Rightarrow> index_def" where
  "partial_unique n cs = \<lparr>ix_name = n, ix_columns = cs, ix_unique = True, ix_partial = True\<rparr>"

section \<open>schema.ts\<close>

text \<open>\<open>.unique()\<close> on a column is a unique index with the name that Drizzle gives it.\<close>

definition tenants_table :: table_def where
  "tenants_table = \<lparr>td_name = ''tenants'', td_columns = [
      col ''id'' Uuid [Default RandomUuid, PrimaryKey], col ''name'' Text [NotNull], col ''slug'' Text [NotNull],
      col ''plan'' Text [NotNull, Default (Const ''free'')],
      col ''is_active'' Boolean [NotNull, Default (Const ''true'')],
      col ''created_at'' Timestamptz [NotNull, Default Now], col ''updated_at'' Timestamptz [NotNull, Default Now]],
    td_key = [''id''],
    td_indexes = [unique_index ''tenants_slug_unique'' [asc ''slug'']]\<rparr>"

definition users_table :: table_def where
  "users_table = \<lparr>td_name = ''users'', td_columns = [
      col ''id'' Text [PrimaryKey], col ''name'' Text [NotNull], col ''email'' Text [NotNull],
      col ''email_verified'' Boolean [NotNull, Default (Const ''false'')], col ''image'' Text [],
      col ''tenant_id'' Uuid [References ''tenants'' ''id'' NoAction],
      col ''created_at'' Timestamptz [NotNull, Default Now], col ''updated_at'' Timestamptz [NotNull, Default Now]],
    td_key = [''id''],
    td_indexes = [unique_index ''users_email_unique'' [asc ''email'']]\<rparr>"

definition sessions_table :: table_def where
  "sessions_table = \<lparr>td_name = ''sessions'', td_columns = [
      col ''id'' Text [PrimaryKey], col ''user_id'' Text [NotNull, References ''users'' ''id'' Cascade],
      col ''token'' Text [NotNull], col ''expires_at'' Timestamptz [NotNull], col ''ip_address'' Text [],
      col ''user_agent'' Text [], col ''tenant_id'' Uuid [References ''tenants'' ''id'' NoAction],
      col ''created_at'' Timestamptz [NotNull, Default Now], col ''updated_at'' Timestamptz [NotNull, Default Now]],
    td_key = [''id''],
    td_indexes = [unique_index ''sessions_token_unique'' [asc ''token'']]\<rparr>"

definition accounts_table :: table_def where
  "accounts_table = \<lparr>td_name = ''accounts'', td_columns = [
      col ''id'' Text [PrimaryKey], col ''user_id'' Text [NotNull, References ''users'' ''id'' Cascade],
      col ''account_id'' Text [NotNull], col ''provider_id'' Text [NotNull], col ''access_token'' Text [],
      col ''refresh_token'' Text [], col ''access_token_expires_at'' Timestamptz [],
      col ''refresh_token_expires_at'' Timestamptz [], col ''scope'' Text [], col ''id_token'' Text [],
      col ''password'' Text [], col ''created_at'' Timestamptz [NotNull, Default Now],
      col ''updated_at'' Timestamptz [NotNull, Default Now]],
    td_key = [''id''],
    td_indexes = []\<rparr>"

definition verifications_table :: table_def where
  "verifications_table = \<lparr>td_name = ''verifications'', td_columns = [
      col ''id'' Text [PrimaryKey], col ''identifier'' Text [NotNull], col ''value'' Text [NotNull],
      col ''expires_at'' Timestamptz [NotNull], col ''created_at'' Timestamptz [NotNull, Default Now],
      col ''updated_at'' Timestamptz [NotNull, Default Now]],
    td_key = [''id''],
    td_indexes = []\<rparr>"

definition api_keys_table :: table_def where
  "api_keys_table = \<lparr>td_name = ''api_keys'', td_columns = [
      col ''id'' Uuid [Default RandomUuid, PrimaryKey],
      col ''tenant_id'' Uuid [NotNull, References ''tenants'' ''id'' Cascade],
      col ''user_id'' Text [NotNull, References ''users'' ''id'' NoAction], col ''name'' Text [NotNull],
      col ''key_prefix'' Text [NotNull], col ''key_hash'' Text [NotNull],
      col ''scopes'' TextArray [NotNull, Default (Const ''{}'')], col ''last_used_at'' Timestamptz [],
      col ''expires_at'' Timestamptz [], col ''is_revoked'' Boolean [NotNull, Default (Const ''false'')],
      col ''created_at'' Timestamptz [NotNull, Default Now]],
    td_key = [''id''],
    td_indexes = []\<rparr>"

definition runs_table :: table_def where
  "runs_table = \<lparr>td_name = ''runs'', td_columns = [
      col ''run_id'' Uuid [PrimaryKey], col ''tenant_id'' Uuid [NotNull, References ''tenants'' ''id'' Cascade],
      col ''agent_name'' Text [], col ''agent_role'' Text [], col ''environment'' Text [],
      col ''policy_pack_id'' Text [], col ''status'' Text [NotNull, Default (Const ''started'')],
      col ''event_count'' Int4 [NotNull, Default (Const ''0'')],
      col ''last_seq'' Int4 [NotNull, Default (Const ''0'')], col ''last_hash'' Text [],
      col ''total_cost_usd'' Float8 [NotNull, Default (Const ''0'')],
      col ''total_input_tokens'' Int4 [NotNull, Default (Const ''0'')],
      col ''total_output_tokens'' Int4 [NotNull, Default (Const ''0'')],
      col ''total_call_count'' Int4 [NotNull, Default (Const ''0'')], col ''started_at'' Timestamptz [],
      col ''ended_at'' Timestamptz [], col ''created_at'' Timestamptz [NotNull, Default Now],
      col ''updated_at'' Timestamptz [NotNull, Default Now]],
    td_key = [''run_id''],
    td_indexes = [index_on ''runs_tenant_id_created_at_idx'' [asc ''tenant_id'', asc ''created_at'']]\<rparr>"

definition events_table :: table_def where
  "events_table = \<lparr>td_name = ''events'', td_columns = [
      col ''id'' Uuid [Default RandomUuid, PrimaryKey],
      col ''run_id'' Uuid [NotNull, References ''runs'' ''run_id'' Cascade],
      col ''tenant_id'' Uuid [NotNull, References ''tenants'' ''id'' Cascade], col ''schema_version'' Int4 [NotNull],
      col ''event_type'' Text [NotNull], col ''seq'' Int4 [NotNull], col ''hash'' Text [NotNull],
      col ''hash_prev'' Text [], col ''ts'' Timestamptz [NotNull], col ''agent_name'' Text [],
      col ''agent_role'' Text [], col ''tool'' Text [], col ''args_hash'' Text [], col ''args_redacted'' Jsonb [],
      col ''decision'' Text [], col ''rule_id'' Text [], col ''reason'' Text [], col ''model'' Text [],
      col ''input_tokens'' Int4 [], col ''output_tokens'' Int4 [], col ''estimated_cost_usd'' Float8 [],
      col ''latency_ms'' Float8 [], col ''policy_pack_id'' Text [], col ''environment'' Text [],
      col ''run_status'' Text [], col ''dimension'' Text [], col ''loop_rule'' Text [], col ''loop_action'' Text [],
      col ''cooldown_ms'' Int4 [], col ''budget'' Jsonb [], col ''supervisor_run_id'' Text [],
      col ''trigger'' Text [], col ''trigger_run_id'' Text [], col ''proposal_id'' Text [],
      col ''proposal_type'' Text [], col ''target_agent'' Text [], col ''rationale'' Text [],
      col ''confidence'' Float8 [], col ''supporting_runs'' TextArray [], col ''status'' Text [],
      col ''escalation_id'' Text [], col ''severity'' Text [], col ''recommendation'' Text [],
      col ''timeout_seconds'' Int4 [], col ''timeout_action'' Text [], col ''call_seq_fingerprint'' Text [],
      col ''inter_call_ms'' Int4 [], col ''token_rate_delta'' Float8 [], col ''param_shape_hash'' Text [],
      col ''raw_line'' Text []],
    td_key = [''id''],
    td_indexes = [unique_index ''events_run_id_seq_unique'' [asc ''run_id'', asc ''seq''],
      index_on ''events_run_id_seq_idx'' [asc ''run_id'', asc ''seq''],
      index_on ''events_tenant_id_ts_idx'' [asc ''tenant_id'', asc ''ts''],
      index_on ''events_event_type_idx'' [asc ''event_type'']]\<rparr>"

definition supervisor_proposals_table :: table_def where
  "supervisor_proposals_table = \<lparr>td_name = ''supervisor_proposals'', td_columns = [
      col ''id'' Uuid [Default RandomUuid, PrimaryKey],
      col ''tenant_id'' Uuid [NotNull, References ''tenants'' ''id'' Cascade], col ''proposal_id'' Text [NotNull],
      col ''supervisor_run_id'' Text [NotNull], col ''trigger_run_id'' Text [], col ''proposal_type'' Text [NotNull],
      col ''target_agent'' Text [], col ''rationale'' Text [NotNull], col ''confidence'' Float8 [],
      col ''supporting_runs'' TextArray [], col ''proposed_changes'' Jsonb [],
      col ''status'' Text [NotNull, Default (Const ''pending'')],
      col ''reviewed_by'' Text [References ''users'' ''id'' NoAction], col ''reviewed_at'' Timestamptz [],
      col ''review_notes'' Text [], col ''created_at'' Timestamptz [NotNull, Default Now],
      col ''updated_at'' Timestamptz [NotNull, Default Now]],
    td_key = [''id''],
    td_indexes = [unique_index ''supervisor_proposals_proposal_id_unique'' [asc ''proposal_id'']]\<rparr>"

definition supervisor_escalations_table :: table_def where
  "supervisor_escalations_table = \<lparr>td_name = ''supervisor_escalations'', td_columns = [
      col ''id'' Uuid [Default RandomUuid, PrimaryKey],
      col ''tenant_id'' Uuid [NotNull, References ''tenants'' ''id'' Cascade], col ''escalation_id'' Text [NotNull],
      col ''supervisor_run_id'' Text [NotNull], col ''trigger_run_id'' Text [], col ''severity'' Text [NotNull],
      col ''rationale'' Text [NotNull], col ''recommendation'' Text [], col ''confidence'' Float8 [],
      col ''supporting_runs'' TextArray [], col ''timeout_seconds'' Int4 [], col ''timeout_action'' Text [],
      col ''status'' Text [NotNull, Default (Const ''open'')],
      col ''acknowledged_by'' Text [References ''users'' ''id'' NoAction], col ''acknowledged_at'' Timestamptz [],
      col ''resolution_notes'' Text [], col ''created_at'' Timestamptz [NotNull, Default Now],
      col ''updated_at'' Timestamptz [NotNull, Default Now]],
    td_key = [''id''],
    td_indexes = [unique_index ''supervisor_escalations_escalation_id_unique'' [asc ''escalation_id'']]\<rparr>"

definition policy_packs_table :: table_def where
  "policy_packs_table = \<lparr>td_name = ''policy_packs'', td_columns = [
      col ''id'' Uuid [Default RandomUuid, PrimaryKey],
      col ''tenant_id'' Uuid [NotNull, References ''tenants'' ''id'' Cascade], col ''name'' Text [NotNull],
      col ''description'' Text [], col ''agent_role'' Text [], col ''environment'' Text [],
      col ''content'' Jsonb [NotNull], col ''schema_version'' Int4 [NotNull, Default (Const ''1'')],
      col ''is_active'' Boolean [NotNull, Default (Const ''true'')],
      col ''version'' Int4 [NotNull, Default (Const ''1'')],
      col ''created_by'' Text [References ''users'' ''id'' NoAction],
      col ''created_at'' Timestamptz [NotNull, Default Now], col ''updated_at'' Timestamptz [NotNull, Default Now]],
    td_key = [''id''],
    td_indexes = []\<rparr>"

definition rate_limit_buckets_table :: table_def where
  "rate_limit_buckets_table = \<lparr>td_name = ''rate_limit_buckets'', td_columns = [
      col ''key'' Text [NotNull], col ''window_start'' Timestamptz [NotNull],
      col ''count'' Int4 [NotNull, Default (Const ''1'')]],
    td_key = [''key'', ''window_start''],
    td_indexes = [index_on ''rate_limit_buckets_window_start_idx'' [asc ''window_start'']]\<rparr>"

definition email_audit_log_table :: table_def where
  "email_audit_log_table = \<lparr>td_name = ''email_audit_log'', td_columns = [
      col ''id'' Uuid [Default RandomUuid, PrimaryKey], col ''user_id'' Text [References ''users'' ''id'' SetNull],
      col ''tenant_id'' Uuid [References ''tenants'' ''id'' SetNull], col ''email'' Text [NotNull],
      col ''email_type'' (Enum ''email_type'') [NotNull], col ''sent_at'' Timestamptz [NotNull, Default Now],
      col ''ip'' Text [], col ''user_agent'' Text [], col ''resend_message_id'' Text [],
      col ''send_status'' Text [NotNull, Default (Const ''pending'')], col ''request_nonce'' Text []],
    td_key = [''id''],
    td_indexes = [index_on ''email_audit_log_tenant_sent_idx'' [asc ''tenant_id'', asc ''sent_at''],
      index_on ''email_audit_log_email_sent_idx'' [asc ''email'', asc ''sent_at''],
      partial_unique ''email_audit_log_nonce_idx'' [asc ''request_nonce'']]\<rparr>"

definition emailTypeEnum :: "string list" where
  "emailTypeEnum = [''password_reset'', ''verification'', ''resend_verification'']"

definition schema_ts :: "table_def list" where
  "schema_ts = [tenants_table, users_table, sessions_table, accounts_table, verifications_table,
    api_keys_table, runs_table, events_table, supervisor_proposals_table, supervisor_escalations_table,
    policy_packs_table, rate_limit_buckets_table, email_audit_log_table]"

section \<open>Migrations\<close>

datatype statement =
    CreateTable string "column list" "string list"
  | CreateIndex string index_def
  | AddColumn string column
  | CreateEnum string "string list"

record catalog =
  ct_enums :: "(string \<times> string list) list"
  ct_tables :: "table_def list"

definition empty_catalog :: catalog where
  "empty_catalog = \<lparr>ct_enums = [], ct_tables = []\<rparr>"

definition find_table :: "string \<Rightarrow> table_def list \<Rightarrow> table_def option" where
  "find_table n ts = find (\<lambda>t. td_name t = n) ts"

text \<open>A foreign key refers to the primary key of a table that exists, and an enumeration type exists.\<close>

definition column_ok :: "catalog \<Rightarrow> column \<Rightarrow> bool" where
  "column_ok s c \<longleftrightarrow> (case cn_ref c of None \<Rightarrow> True
       | Some (t, k, _) \<Rightarrow> (case find_table t (ct_tables s) of None \<Rightarrow> False | Some u \<Rightarrow> td_key u = [k]))
     \<and> (case cn_type c of Enum e \<Rightarrow> map_of (ct_enums s) e \<noteq> None | _ \<Rightarrow> True)"

definition update_table :: "string \<Rightarrow> (table_def \<Rightarrow> table_def) \<Rightarrow> catalog \<Rightarrow> catalog" where
  "update_table n f s = s\<lparr>ct_tables := map (\<lambda>t. if td_name t = n then f t else t) (ct_tables s)\<rparr>"

text \<open>Each statement has \<open>IF NOT EXISTS\<close>. \<open>Inl\<close> is the error PostgreSQL gives.\<close>

fun apply_statement :: "statement \<Rightarrow> catalog \<Rightarrow> string + catalog" where
  "apply_statement (CreateTable n cs key) s =
    (if find_table n (ct_tables s) \<noteq> None then Inr s
     else if list_all (column_ok s) cs
       then Inr (s\<lparr>ct_tables := ct_tables s @ [\<lparr>td_name = n, td_columns = cs, td_key = key, td_indexes = []\<rparr>]\<rparr>)
     else Inl (''cannot create '' @ n))"
| "apply_statement (CreateIndex n i) s =
    (if list_ex (\<lambda>t. ix_name i \<in> ix_name ` set (td_indexes t)) (ct_tables s) then Inr s
     else (case find_table n (ct_tables s) of
        None \<Rightarrow> Inl (''no table '' @ n)
      | Some t \<Rightarrow> if fst ` set (ix_columns i) \<subseteq> cn_name ` set (td_columns t)
          then Inr (update_table n (\<lambda>t. t\<lparr>td_indexes := td_indexes t @ [i]\<rparr>) s) else Inl (''no column in '' @ n)))"
| "apply_statement (AddColumn n c) s =
    (case find_table n (ct_tables s) of
        None \<Rightarrow> Inl (''no table '' @ n)
      | Some t \<Rightarrow> if cn_name c \<in> cn_name ` set (td_columns t) then Inr s
          else if column_ok s c then Inr (update_table n (\<lambda>t. t\<lparr>td_columns := td_columns t @ [c]\<rparr>) s)
          else Inl (''cannot add '' @ cn_name c))"
| "apply_statement (CreateEnum n labels) s =
    (if map_of (ct_enums s) n \<noteq> None then Inr s else Inr (s\<lparr>ct_enums := ct_enums s @ [(n, labels)]\<rparr>))"

fun migrate :: "statement list \<Rightarrow> catalog \<Rightarrow> string + catalog" where
  "migrate [] s = Inr s"
| "migrate (st # sts) s = (case apply_statement st s of Inl m \<Rightarrow> Inl m | Inr s' \<Rightarrow> migrate sts s')"

definition create_tables_0001 :: "statement list" where
  "create_tables_0001 = [
    CreateTable ''tenants'' [
      col ''id'' Uuid [PrimaryKey, Default RandomUuid], col ''name'' Text [NotNull], col ''slug'' Text [NotNull],
      col ''plan'' Text [NotNull, Default (Const ''free'')],
      col ''is_active'' Boolean [NotNull, Default (Const ''true'')],
      col ''created_at'' Timestamptz [NotNull, Default Now], col ''updated_at'' Timestamptz [NotNull, Default Now]]
      [''id''],
    CreateIndex ''tenants'' (unique_index ''tenants_slug_unique'' [asc ''slug'']),
    CreateTable ''users'' [
      col ''id'' Text [PrimaryKey], col ''name'' Text [NotNull], col ''email'' Text [NotNull],
      col ''email_verified'' Boolean [NotNull, Default (Const ''false'')], col ''image'' Text [],
      col ''tenant_id'' Uuid [References ''tenants'' ''id'' SetNull],
      col ''created_at'' Timestamptz [NotNull, Default Now], col ''updated_at'' Timestamptz [NotNull, Default Now]]
      [''id''],
    CreateIndex ''users'' (unique_index ''users_email_unique'' [asc ''email'']),
    CreateTable ''sessions'' [
      col ''id'' Text [PrimaryKey], col ''user_id'' Text [NotNull, References ''users'' ''id'' Cascade],
      col ''token'' Text [NotNull], col ''expires_at'' Timestamptz [NotNull], col ''ip_address'' Text [],
      col ''user_agent'' Text [], col ''tenant_id'' Uuid [References ''tenants'' ''id'' SetNull],
      col ''created_at'' Timestamptz [NotNull, Default Now], col ''updated_at'' Timestamptz [NotNull, Default Now]]
      [''id''],
    CreateIndex ''sessions'' (unique_index ''sessions_token_unique'' [asc ''token'']),
    CreateTable ''accounts'' [
      col ''id'' Text [PrimaryKey], col ''user_id'' Text [NotNull, References ''users'' ''id'' Cascade],
      col ''account_id'' Text [NotNull], col ''provider_id'' Text [NotNull], col ''access_token'' Text [],
      col ''refresh_token'' Text [], col ''access_token_expires_at'' Timestamptz [],
      col ''refresh_token_expires_at'' Timestamptz [], col ''scope'' Text [], col ''id_token'' Text [],
      col ''password'' Text [], col ''created_at'' Timestamptz [NotNull, Default Now],
      col ''updated_at'' Timestamptz [NotNull, Default Now]]
      [''id''],
    CreateTable ''verifications'' [
      col ''id'' Text [PrimaryKey], col ''identifier'' Text [NotNull], col ''value'' Text [NotNull],
      col ''expires_at'' Timestamptz [NotNull], col ''created_at'' Timestamptz [NotNull, Default Now],
      col ''updated_at'' Timestamptz [NotNull, Default Now]]
      [''id''],
    CreateTable ''api_keys'' [
      col ''id'' Uuid [PrimaryKey, Default RandomUuid],
      col ''tenant_id'' Uuid [NotNull, References ''tenants'' ''id'' Cascade],
      col ''user_id'' Text [NotNull, References ''users'' ''id'' NoAction], col ''name'' Text [NotNull],
      col ''key_prefix'' Text [NotNull], col ''key_hash'' Text [NotNull],
      col ''scopes'' TextArray [NotNull, Default (Const ''{}'')], col ''last_used_at'' Timestamptz [],
      col ''expires_at'' Timestamptz [], col ''is_revoked'' Boolean [NotNull, Default (Const ''false'')],
      col ''created_at'' Timestamptz [NotNull, Default Now]]
      [''id''],
    CreateTable ''runs'' [
      col ''run_id'' Uuid [PrimaryKey], col ''tenant_id'' Uuid [NotNull, References ''tenants'' ''id'' Cascade],
      col ''agent_name'' Text [], col ''agent_role'' Text [], col ''environment'' Text [],
      col ''policy_pack_id'' Text [], col ''status'' Text [NotNull, Default (Const ''started'')],
      col ''event_count'' Int4 [NotNull, Default (Const ''0'')],
      col ''last_seq'' Int4 [NotNull, Default (Const ''0'')], col ''last_hash'' Text [],
      col ''total_cost_usd'' Float8 [NotNull, Default (Const ''0'')],
      col ''total_input_tokens'' Int4 [NotNull, Default (Const ''0'')],
      col ''total_output_tokens'' Int4 [NotNull, Default (Const ''0'')],
      col ''total_call_count'' Int4 [NotNull, Default (Const ''0'')], col ''started_at'' Timestamptz [],
      col ''ended_at'' Timestamptz [], col ''created_at'' Timestamptz [NotNull, Default Now],
      col ''updated_at'' Timestamptz [NotNull, Default Now]]
      [''run_id''],
    CreateIndex ''runs'' (index_on ''runs_tenant_id_created_at_idx'' [asc ''tenant_id'', asc ''created_at'']),
    CreateTable ''events'' [
      col ''id'' Uuid [PrimaryKey, Default RandomUuid],
      col ''run_id'' Uuid [NotNull, References ''runs'' ''run_id'' Cascade],
      col ''tenant_id'' Uuid [NotNull, References ''tenants'' ''id'' Cascade], col ''schema_version'' Int4 [NotNull],
      col ''event_type'' Text [NotNull], col ''seq'' Int4 [NotNull], col ''hash'' Text [NotNull],
      col ''hash_prev'' Text [], col ''ts'' Timestamptz [NotNull], col ''agent_name'' Text [],
      col ''agent_role'' Text [], col ''tool'' Text [], col ''args_hash'' Text [], col ''args_redacted'' Jsonb [],
      col ''decision'' Text [], col ''rule_id'' Text [], col ''reason'' Text [], col ''model'' Text [],
      col ''input_tokens'' Int4 [], col ''output_tokens'' Int4 [], col ''estimated_cost_usd'' Float8 [],
      col ''latency_ms'' Float8 [], col ''policy_pack_id'' Text [], col ''environment'' Text [],
      col ''run_status'' Text [], col ''dimension'' Text [], col ''loop_rule'' Text [], col ''loop_action'' Text [],
      col ''cooldown_ms'' Int4 [], col ''budget'' Jsonb [], col ''supervisor_run_id'' Text [],
      col ''trigger'' Text [], col ''trigger_run_id'' Text [], col ''proposal_id'' Text [],
      col ''proposal_type'' Text [], col ''target_agent'' Text [], col ''rationale'' Text [],
      col ''confidence'' Float8 [], col ''supporting_runs'' TextArray [], col ''status'' Text [],
      col ''escalation_id'' Text [], col ''severity'' Text [], col ''recommendation'' Text [],
      col ''timeout_seconds'' Int4 [], col ''timeout_action'' Text [], col ''raw_line'' Text []]
      [''id''],
    CreateIndex ''events'' (unique_index ''events_run_id_seq_unique'' [asc ''run_id'', asc ''seq'']),
    CreateIndex ''events'' (index_on ''events_run_id_seq_idx'' [asc ''run_id'', asc ''seq'']),
    CreateIndex ''events'' (index_on ''events_tenant_id_ts_idx'' [asc ''tenant_id'', asc ''ts'']),
    CreateIndex ''events'' (index_on ''events_event_type_idx'' [asc ''event_type'']),
    CreateTable ''supervisor_proposals'' [
      col ''id'' Uuid [PrimaryKey, Default RandomUuid],
      col ''tenant_id'' Uuid [NotNull, References ''tenants'' ''id'' Cascade], col ''proposal_id'' Text [NotNull],
      col ''supervisor_run_id'' Text [NotNull], col ''trigger_run_id'' Text [], col ''proposal_type'' Text [NotNull],
      col ''target_agent'' Text [], col ''rationale'' Text [NotNull], col ''confidence'' Float8 [],
      col ''supporting_runs'' TextArray [], col ''proposed_changes'' Jsonb [],
      col ''status'' Text [NotNull, Default (Const ''pending'')],
      col ''reviewed_by'' Text [References ''users'' ''id'' NoAction], col ''reviewed_at'' Timestamptz [],
      col ''review_notes'' Text [], col ''created_at'' Timestamptz [NotNull, Default Now],
      col ''updated_at'' Timestamptz [NotNull, Default Now]]
      [''id''],
    CreateIndex ''supervisor_proposals'' (unique_index ''supervisor_proposals_proposal_id_unique'' [asc ''proposal_id'']),
    CreateTable ''supervisor_escalations'' [
      col ''id'' Uuid [PrimaryKey, Default RandomUuid],
      col ''tenant_id'' Uuid [NotNull, References ''tenants'' ''id'' Cascade], col ''escalation_id'' Text [NotNull],
      col ''supervisor_run_id'' Text [NotNull], col ''trigger_run_id'' Text [], col ''severity'' Text [NotNull],
      col ''rationale'' Text [NotNull], col ''recommendation'' Text [], col ''confidence'' Float8 [],
      col ''supporting_runs'' TextArray [], col ''timeout_seconds'' Int4 [], col ''timeout_action'' Text [],
      col ''status'' Text [NotNull, Default (Const ''open'')],
      col ''acknowledged_by'' Text [References ''users'' ''id'' NoAction], col ''acknowledged_at'' Timestamptz [],
      col ''resolution_notes'' Text [], col ''created_at'' Timestamptz [NotNull, Default Now],
      col ''updated_at'' Timestamptz [NotNull, Default Now]]
      [''id''],
    CreateIndex ''supervisor_escalations'' (unique_index ''supervisor_escalations_escalation_id_unique'' [asc ''escalation_id'']),
    CreateTable ''policy_packs'' [
      col ''id'' Uuid [PrimaryKey, Default RandomUuid],
      col ''tenant_id'' Uuid [NotNull, References ''tenants'' ''id'' Cascade], col ''name'' Text [NotNull],
      col ''description'' Text [], col ''agent_role'' Text [], col ''environment'' Text [],
      col ''content'' Jsonb [NotNull], col ''schema_version'' Int4 [NotNull, Default (Const ''1'')],
      col ''is_active'' Boolean [NotNull, Default (Const ''true'')],
      col ''version'' Int4 [NotNull, Default (Const ''1'')],
      col ''created_by'' Text [References ''users'' ''id'' NoAction],
      col ''created_at'' Timestamptz [NotNull, Default Now], col ''updated_at'' Timestamptz [NotNull, Default Now]]
      [''id'']]"

definition behavioral_telemetry_0003 :: "statement list" where
  "behavioral_telemetry_0003 = [
    AddColumn ''events'' (col ''call_seq_fingerprint'' Text []),
    AddColumn ''events'' (col ''inter_call_ms'' Int4 []),
    AddColumn ''events'' (col ''token_rate_delta'' Float8 []),
    AddColumn ''events'' (col ''param_shape_hash'' Text [])]"

definition rate_limit_0004 :: "statement list" where
  "rate_limit_0004 = [
    CreateTable ''rate_limit_buckets'' [
      col ''key'' Text [NotNull], col ''window_start'' Timestamptz [NotNull],
      col ''count'' Int4 [NotNull, Default (Const ''1'')]]
      [''key'', ''window_start''],
    CreateIndex ''rate_limit_buckets'' (index_on ''rate_limit_buckets_window_start_idx'' [asc ''window_start'']),
    CreateEnum ''email_type'' [''password_reset'', ''verification'', ''resend_verification''],
    CreateTable ''email_audit_log'' [
      col ''id'' Uuid [PrimaryKey, Default RandomUuid], col ''user_id'' Text [References ''users'' ''id'' SetNull],
      col ''tenant_id'' Uuid [References ''tenants'' ''id'' SetNull], col ''email'' Text [NotNull],
      col ''email_type'' (Enum ''email_type'') [NotNull], col ''sent_at'' Timestamptz [NotNull, Default Now],
      col ''ip'' Text [], col ''user_agent'' Text [], col ''resend_message_id'' Text [],
      col ''send_status'' Text [NotNull, Default (Const ''pending'')], col ''request_nonce'' Text []]
      [''id''],
    CreateIndex ''email_audit_log'' (index_on ''email_audit_log_tenant_sent_idx'' [asc ''tenant_id'', desc ''sent_at'']),
    CreateIndex ''email_audit_log'' (index_on ''email_audit_log_email_sent_idx'' [asc ''email'', desc ''sent_at'']),
    CreateIndex ''email_audit_log'' (partial_unique ''email_audit_log_nonce_idx'' [asc ''request_nonce''])]"

definition migrations :: "statement list" where
  "migrations = create_tables_0001 @ behavioral_telemetry_0003 @ rate_limit_0004"

section \<open>Differences\<close>

text \<open>The columns, and the indexes, of one list of tables that the other does not have as they are.\<close>

definition same_in :: "('a \<Rightarrow> string) \<Rightarrow> 'a list \<Rightarrow> 'a \<Rightarrow> bool" where
  "same_in name xs x \<longleftrightarrow> find (\<lambda>y. name y = name x) xs = Some x"

definition column_drift :: "table_def list \<Rightarrow> table_def list \<Rightarrow> (string \<times> string) list" where
  "column_drift as bs = concat (map (\<lambda>t. let cs = (case find_table (td_name t) bs of None \<Rightarrow> [] | Some u \<Rightarrow> td_columns u)
     in map (\<lambda>c. (td_name t, cn_name c)) (filter (\<lambda>c. \<not> same_in cn_name cs c) (td_columns t))) as)"

definition index_drift :: "table_def list \<Rightarrow> table_def list \<Rightarrow> string list" where
  "index_drift as bs = concat (map (\<lambda>t. let is = (case find_table (td_name t) bs of None \<Rightarrow> [] | Some u \<Rightarrow> td_indexes u)
     in map ix_name (filter (\<lambda>i. \<not> same_in ix_name is i) (td_indexes t))) as)"

section \<open>Better Auth's names\<close>

text \<open>The \<open>fields\<close> of \<open>auth.ts\<close>: for each table, Better Auth's name of a column and ours.\<close>

definition auth_fields :: "(string \<times> (string \<times> string) list) list" where
  "auth_fields =
    [(''users'', [(''emailVerified'', ''email_verified''), (''createdAt'', ''created_at''), (''updatedAt'', ''updated_at'')]),
     (''accounts'', [(''accountId'', ''account_id''), (''providerId'', ''provider_id''), (''userId'', ''user_id''),
        (''accessToken'', ''access_token''), (''refreshToken'', ''refresh_token''), (''idToken'', ''id_token''),
        (''accessTokenExpiresAt'', ''access_token_expires_at''), (''refreshTokenExpiresAt'', ''refresh_token_expires_at''),
        (''createdAt'', ''created_at''), (''updatedAt'', ''updated_at'')]),
     (''verifications'', [(''expiresAt'', ''expires_at''), (''createdAt'', ''created_at''), (''updatedAt'', ''updated_at'')])]"

definition session_fields :: "string \<times> (string \<times> string) list" where
  "session_fields = (''sessions'',
     [(''expiresAt'', ''expires_at''), (''createdAt'', ''created_at''), (''updatedAt'', ''updated_at''),
      (''ipAddress'', ''ip_address''), (''userAgent'', ''user_agent''), (''userId'', ''user_id'')])"

fun snake_case :: "string \<Rightarrow> string" where
  "snake_case [] = []"
| "snake_case (c # cs) = (if lower_char c \<noteq> c then CHR ''_'' # lower_char c # snake_case cs else c # snake_case cs)"

section \<open>Properties\<close>

text \<open>Every table refers to keys of tables that exist, whatever the migrations are.\<close>

definition references_ok :: "catalog \<Rightarrow> bool" where
  "references_ok s \<longleftrightarrow> (\<forall>t\<in>set (ct_tables s). \<forall>c\<in>set (td_columns t). column_ok s c)"

lemma find_table_append: "find_table n ts = Some t \<Longrightarrow> find_table n (ts @ us) = Some t"
  by (induction ts) (auto simp: find_table_def)

lemma find_table_map:
  assumes "\<And>t. td_name (f t) = td_name t" and "find_table n ts = Some t"
  shows "find_table n (map f ts) = Some (f t)"
  using assms(2) by (induction ts) (auto simp: find_table_def assms(1))

lemma column_ok_more:
  assumes "column_ok s c" and "\<And>n t. find_table n (ct_tables s) = Some t \<Longrightarrow> \<exists>u. find_table n (ct_tables s') = Some u \<and> td_key u = td_key t"
    and "\<And>e. map_of (ct_enums s) e \<noteq> None \<Longrightarrow> map_of (ct_enums s') e \<noteq> None"
  shows "column_ok s' c"
proof -
  have "case cn_type c of Enum e \<Rightarrow> map_of (ct_enums s') e \<noteq> None | _ \<Rightarrow> True"
    using assms(1,3) by (auto simp: column_ok_def split: col_type.splits)
  moreover have "case find_table t (ct_tables s') of None \<Rightarrow> False | Some u \<Rightarrow> td_key u = [k]" if "cn_ref c = Some (t, k, d)" for t k d
    using assms(1) assms(2) [of t] that by (auto simp: column_ok_def split: option.splits)
  ultimately show ?thesis by (auto simp: column_ok_def split: option.split)
qed

lemma update_table_keys:
  assumes "\<And>t. td_name (f t) = td_name t" and "\<And>t. td_key (f t) = td_key t" and "find_table m (ct_tables s) = Some t"
  shows "\<exists>u. find_table m (ct_tables (update_table n f s)) = Some u \<and> td_key u = td_key t"
  using find_table_map [of "\<lambda>t. if td_name t = n then f t else t" m "ct_tables s" t] assms
  by (auto simp: update_table_def)

lemma apply_statement_references:
  assumes "references_ok s" and "apply_statement st s = Inr s'"
  shows "references_ok s'"
proof (cases st)
  case (CreateTable n cs key)
  show ?thesis
  proof (cases "s' = s")
    case False
    with assms(2) CreateTable have ok: "list_all (column_ok s) cs"
      and s': "s' = s\<lparr>ct_tables := ct_tables s @ [\<lparr>td_name = n, td_columns = cs, td_key = key, td_indexes = []\<rparr>]\<rparr>"
      by (auto split: if_splits)
    have "column_ok s' c" if "column_ok s c" for c
      by (rule column_ok_more [OF that]) (auto simp: s' find_table_append)
    with assms(1) ok s' show ?thesis by (auto simp: references_ok_def list_all_iff)
  qed (use assms in simp)
next
  case (CreateIndex n i)
  let ?f = "\<lambda>t. t\<lparr>td_indexes := td_indexes t @ [i]\<rparr>"
  from assms(2) CreateIndex have "s' = s \<or> s' = update_table n ?f s" by (auto split: if_splits option.splits)
  moreover have "column_ok (update_table n ?f s) c" if "column_ok s c" for c
    by (rule column_ok_more [OF that]) (auto intro!: update_table_keys, simp add: update_table_def)
  ultimately show ?thesis using assms(1) by (auto simp: references_ok_def update_table_def split: if_splits)
next
  case (AddColumn n c)
  let ?f = "\<lambda>t. t\<lparr>td_columns := td_columns t @ [c]\<rparr>"
  from assms(2) AddColumn have "s' = s \<or> column_ok s c \<and> s' = update_table n ?f s" by (auto split: if_splits option.splits)
  moreover have "column_ok (update_table n ?f s) c" if "column_ok s c" for c
    by (rule column_ok_more [OF that]) (auto intro!: update_table_keys, simp add: update_table_def)
  ultimately show ?thesis using assms(1) by (auto simp: references_ok_def update_table_def split: if_splits)
next
  case (CreateEnum n labels)
  from assms(2) CreateEnum have "ct_tables s' = ct_tables s" "\<And>e. map_of (ct_enums s) e \<noteq> None \<Longrightarrow> map_of (ct_enums s') e \<noteq> None"
    by (auto split: if_splits simp: map_add_def split: option.splits)
  then have "column_ok s' c" if "column_ok s c" for c
    using column_ok_more [OF that, of s'] by auto
  with assms(1) \<open>ct_tables s' = ct_tables s\<close> show ?thesis by (auto simp: references_ok_def)
qed

theorem migrate_keeps_references:
  assumes "references_ok s" and "migrate sts s = Inr s'"
  shows "references_ok s'"
  using assms
proof (induction sts arbitrary: s)
  case (Cons st sts)
  then show ?case by (auto split: sum.splits dest: apply_statement_references)
qed simp

lemma apply_migrations_references: "migrate sts empty_catalog = Inr s \<Longrightarrow> references_ok s"
  using migrate_keeps_references [of empty_catalog sts s] by (simp add: references_ok_def empty_catalog_def)

text \<open>
  The database that the migrations build, table by table from the schema: two foreign keys, the place of the columns that were
  added later, and the order in two indexes are not those of \<open>schema.ts\<close>.
\<close>

definition TELEMETRY :: "string list" where
  "TELEMETRY = [''call_seq_fingerprint'', ''inter_call_ms'', ''token_rate_delta'', ''param_shape_hash'']"

definition as_migrated :: "table_def \<Rightarrow> table_def" where
  "as_migrated t =
    (if td_name t = ''users'' \<or> td_name t = ''sessions''
     then t\<lparr>td_columns := map (\<lambda>c. if cn_name c = ''tenant_id'' then c\<lparr>cn_ref := Some (''tenants'', ''id'', SetNull)\<rparr> else c) (td_columns t)\<rparr>
     else if td_name t = ''events''
     then t\<lparr>td_columns := filter (\<lambda>c. cn_name c \<notin> set TELEMETRY) (td_columns t) @ filter (\<lambda>c. cn_name c \<in> set TELEMETRY) (td_columns t)\<rparr>
     else if td_name t = ''email_audit_log''
     then t\<lparr>td_indexes := map (\<lambda>i. i\<lparr>ix_columns := map (\<lambda>(c, d). (c, c = ''sent_at'')) (ix_columns i)\<rparr>) (td_indexes t)\<rparr>
     else t)"

definition built :: catalog where
  "built = \<lparr>ct_enums = [(''email_type'', emailTypeEnum)], ct_tables = map as_migrated schema_ts\<rparr>"

lemma migrations_run: "migrate migrations empty_catalog = Inr built"
  by code_simp

lemma built_columns: "column_drift (ct_tables built) schema_ts = [(''users'', ''tenant_id''), (''sessions'', ''tenant_id'')]"
  by code_simp

lemma schema_columns: "column_drift schema_ts (ct_tables built) = [(''users'', ''tenant_id''), (''sessions'', ''tenant_id'')]"
  by code_simp

lemma built_indexes:
  "index_drift (ct_tables built) schema_ts = [''email_audit_log_tenant_sent_idx'', ''email_audit_log_email_sent_idx'']"
  by code_simp

lemma schema_indexes:
  "index_drift schema_ts (ct_tables built) = [''email_audit_log_tenant_sent_idx'', ''email_audit_log_email_sent_idx'']"
  by code_simp

text \<open>A statement that finds what it is to make changes nothing.\<close>

fun already :: "statement \<Rightarrow> catalog \<Rightarrow> bool" where
  "already (CreateTable n cs key) s = (find_table n (ct_tables s) \<noteq> None)"
| "already (CreateIndex n i) s = list_ex (\<lambda>t. ix_name i \<in> ix_name ` set (td_indexes t)) (ct_tables s)"
| "already (AddColumn n c) s = (case find_table n (ct_tables s) of None \<Rightarrow> False | Some t \<Rightarrow> cn_name c \<in> cn_name ` set (td_columns t))"
| "already (CreateEnum n labels) s = (map_of (ct_enums s) n \<noteq> None)"

lemma migrate_already: "list_all (\<lambda>st. already st s) sts \<Longrightarrow> migrate sts s = Inr s"
proof (induction sts)
  case (Cons st sts)
  then have "apply_statement st s = Inr s" by (cases st) (auto split: option.splits)
  with Cons show ?case by simp
qed simp

lemma built_already: "list_all (\<lambda>st. already st built) migrations"
  by code_simp

text \<open>
  The migrations run through on an empty database and build the tables of \<open>schema.ts\<close>, with their keys, columns and
  indexes, up to four declarations: what the deletion of a tenant does to its users and sessions, and the order of two
  indexes of the e-mail log. Running them again changes nothing.
\<close>

theorem migrations_build_schema:
  "\<exists>s. migrate migrations empty_catalog = Inr s \<and> migrate migrations s = Inr s \<and> references_ok s
    \<and> ct_enums s = [(''email_type'', emailTypeEnum)] \<and> ct_tables s = map as_migrated schema_ts
    \<and> column_drift (ct_tables s) schema_ts = [(''users'', ''tenant_id''), (''sessions'', ''tenant_id'')]
    \<and> column_drift schema_ts (ct_tables s) = [(''users'', ''tenant_id''), (''sessions'', ''tenant_id'')]
    \<and> index_drift (ct_tables s) schema_ts = [''email_audit_log_tenant_sent_idx'', ''email_audit_log_email_sent_idx'']
    \<and> index_drift schema_ts (ct_tables s) = [''email_audit_log_tenant_sent_idx'', ''email_audit_log_email_sent_idx'']"
  using migrations_run migrate_already [OF built_already] apply_migrations_references [OF migrations_run]
    built_columns schema_columns built_indexes schema_indexes
  by (intro exI [of _ built]) (simp add: built_def)

text \<open>
  The names given to Better Auth are complete: in each of its tables the columns with an underscore are those of its fields
  in snake case, and \<open>tenant_id\<close>, which only our code uses.
\<close>

theorem auth_fields_complete:
  "list_all (\<lambda>(n, fs). case find_table n schema_ts of None \<Rightarrow> False
     | Some t \<Rightarrow> map snd fs = map (snake_case \<circ> fst) fs
         \<and> set (filter (\<lambda>c. CHR ''_'' \<in> set c \<and> c \<noteq> ''tenant_id'') (map cn_name (td_columns t))) = set (map snd fs)) (session_fields # auth_fields)"
  by code_simp

end
