(* ===== verification/Web_Library.thy ===== *)
theory Web_Library
  imports Js_Library
begin

text \<open>
  What the components of \<open>packages/web/src\<close> share: the tree that a component renders, and the small
  components of \<open>components/ui\<close>.

  A rendered tree has text, elements, buttons with the event of their \<open>onClick\<close>, and fields with the
  event of their \<open>onChange\<close>. A button that is disabled yields no event, so the events that a user can
  cause are those of the tree on the screen. Layout and decoration are left out; colours are kept
  where they tell states apart. A character above the code units of the model is written with ASCII
  characters (an ellipsis as three dots). \<open>Date\<close> is a parameter, and so is the clock.
\<close>

section \<open>Rendered trees\<close>

datatype 'e node =
    Txt string
  | El string "(string \<times> string) list" "'e node list"
  | Btn "(string \<times> string) list" bool 'e "'e node list"
  | Field "(string \<times> string) list" string "string \<Rightarrow> 'e"

primrec clicks :: "'e node \<Rightarrow> 'e list" where
  "clicks (Txt s) = []"
| "clicks (El tag attrs kids) = concat (map clicks kids)"
| "clicks (Btn attrs disabled e kids) = (if disabled then [] else [e])"
| "clicks (Field attrs v f) = []"

primrec edits :: "'e node \<Rightarrow> (string \<Rightarrow> 'e) list" where
  "edits (Txt s) = []"
| "edits (El tag attrs kids) = concat (map edits kids)"
| "edits (Btn attrs disabled e kids) = []"
| "edits (Field attrs v f) = [f]"

primrec shown :: "'e node \<Rightarrow> string list" where
  "shown (Txt s) = [s]"
| "shown (El tag attrs kids) = concat (map shown kids)"
| "shown (Btn attrs disabled e kids) = concat (map shown kids)"
| "shown (Field attrs v f) = [v]"

text \<open>What the user of a tree can do: press one of its buttons, or type into one of its fields.\<close>

definition offered :: "'e node \<Rightarrow> 'e \<Rightarrow> bool" where
  "offered n e \<longleftrightarrow> e \<in> set (clicks n) \<or> (\<exists>f\<in>set (edits n). \<exists>s. e = f s)"

text \<open>\<open>cond && <node>\<close>, and \<open>{s && <node>}\<close> for a string that may be null.\<close>

definition render_if :: "bool \<Rightarrow> 'e node list \<Rightarrow> 'e node list" where
  "render_if c ns = (if c then ns else [])"

lemma render_if_simps [simp]: "render_if True ns = ns" "render_if False ns = []"
  by (simp_all add: render_if_def)

definition render_text :: "string option \<Rightarrow> (string \<Rightarrow> 'e node list) \<Rightarrow> 'e node list" where
  "render_text s f = (case s of None \<Rightarrow> [] | Some t \<Rightarrow> if t = [] then [] else f t)"

text \<open>The tree of a component inside another: its events become events of the outer one.\<close>

primrec lift_node :: "('a \<Rightarrow> 'b) \<Rightarrow> 'a node \<Rightarrow> 'b node" where
  "lift_node h (Txt s) = Txt s"
| "lift_node h (El tag attrs kids) = El tag attrs (map (lift_node h) kids)"
| "lift_node h (Btn attrs disabled e kids) = Btn attrs disabled (h e) (map (lift_node h) kids)"
| "lift_node h (Field attrs v f) = Field attrs v (\<lambda>s. h (f s))"

lemma clicks_lift [simp]: "clicks (lift_node h n) = map h (clicks n)"
  by (induction n) (simp_all add: map_concat o_def cong: map_cong)

lemma edits_lift [simp]: "edits (lift_node h n) = map (\<lambda>f s. h (f s)) (edits n)"
  by (induction n) (simp_all add: map_concat o_def cong: map_cong)

lemma shown_lift [simp]: "shown (lift_node h n) = shown n"
  by (induction n) (simp_all add: o_def cong: map_cong)

lemma offered_lift: "offered (lift_node h n) e \<longleftrightarrow> (\<exists>e'. e = h e' \<and> offered n e')"
  unfolding offered_def by auto

definition offers :: "'e node list \<Rightarrow> 'e \<Rightarrow> bool" where
  "offers ns e \<longleftrightarrow> (\<exists>n\<in>set ns. offered n e)"

lemma offered_simps [simp]:
  "\<not> offered (Txt s) e"
  "offered (El tag attrs kids) e \<longleftrightarrow> offers kids e"
  "offered (Btn attrs disabled b kids) e \<longleftrightarrow> \<not> disabled \<and> e = b"
  "offered (Field attrs v f) e \<longleftrightarrow> (\<exists>s. e = f s)"
  by (auto simp: offered_def offers_def)

lemma offers_simps [simp]:
  "\<not> offers [] e"
  "offers (n # ns) e \<longleftrightarrow> offered n e \<or> offers ns e"
  "offers (ms @ ns) e \<longleftrightarrow> offers ms e \<or> offers ns e"
  by (auto simp: offers_def)

lemma offers_map: "offers (map g xs) e \<longleftrightarrow> (\<exists>x\<in>set xs. offered (g x) e)"
  by (simp add: offers_def)

lemma offers_render_if [simp]: "offers (render_if c ns) e \<longleftrightarrow> c \<and> offers ns e"
  by (simp add: render_if_def)

lemma offers_render_text [simp]: "offers (render_text s f) e \<longleftrightarrow> (\<exists>t. s = Some t \<and> t \<noteq> [] \<and> offers (f t) e)"
  by (cases s) (simp_all add: render_text_def)

section \<open>The status filter of a list\<close>

text \<open>\<open>status: filter === "all" ? undefined : filter\<close>\<close>

definition status_param :: "string \<Rightarrow> string option" where
  "status_param f = (if f = ''all'' then None else Some f)"

section \<open>Times\<close>

text \<open>A \<open>Date\<close> object holds milliseconds, or none when it is invalid.\<close>

datatype date_prop = DateObj "int option" | DateStr string

record date_lib =
  dl_parse :: "string \<Rightarrow> int option"
  dl_toISOString :: "int \<Rightarrow> string"
  dl_toLocaleString :: "int \<Rightarrow> string"
  dl_toLocaleDateString :: "int \<Rightarrow> string"
  dl_toLocaleTimeString :: "int \<Rightarrow> string"

definition getTime :: "date_lib \<Rightarrow> date_prop \<Rightarrow> int option" where
  "getTime D d = (case d of DateObj t \<Rightarrow> t | DateStr s \<Rightarrow> dl_parse D s)"

definition falsy_date :: "date_prop option \<Rightarrow> bool" where
  "falsy_date d \<longleftrightarrow> d = None \<or> d = Some (DateStr [])"

definition formatRelative :: "date_lib \<Rightarrow> int \<Rightarrow> int \<Rightarrow> string" where
  "formatRelative D now t =
    (let diff = now - t; seconds = diff div 1000 in
     if seconds < 60 then show_int seconds @ ''s ago'' else
     (let minutes = seconds div 60 in
      if minutes < 60 then show_int minutes @ ''m ago'' else
      (let hours = minutes div 60 in
       if hours < 24 then show_int hours @ ''h ago'' else
       (let days = hours div 24 in
        if days < 7 then show_int days @ ''d ago'' else dl_toLocaleDateString D t))))"

definition TimeAgo :: "date_lib \<Rightarrow> int \<Rightarrow> date_prop option \<Rightarrow> string \<Rightarrow> 'e node" where
  "TimeAgo D now date fallback =
    (if falsy_date date then El ''span'' [] [Txt fallback] else
     (case getTime D (the date) of
        None \<Rightarrow> El ''span'' [] [Txt fallback]
      | Some t \<Rightarrow> El ''time'' [(''dateTime'', dl_toISOString D t), (''title'', dl_toLocaleString D t)]
          [Txt (formatRelative D now t)]))"

lemma offered_TimeAgo [simp]: "\<not> offered (TimeAgo D now d fb) e"
  by (simp add: TimeAgo_def split: option.split)

section \<open>Badges\<close>

record badge_style =
  bs_backgroundColor :: string
  bs_color :: string
  bs_border :: string

record badge_config =
  bc_label :: string
  bc_style :: badge_style
  bc_pulse :: bool

definition neutral_style :: "string \<Rightarrow> badge_style" where
  "neutral_style c = \<lparr>bs_backgroundColor = ''rgba(100, 100, 100, 0.15)'', bs_color = c,
     bs_border = ''1px solid rgba(100, 100, 100, 0.3)''\<rparr>"

definition SEVERITY_CONFIG :: "(string \<times> badge_config) list" where
  "SEVERITY_CONFIG =
    [(''low'', \<lparr>bc_label = ''Low'', bc_style = neutral_style ''oklch(0.65 0.00 0)'', bc_pulse = False\<rparr>),
     (''medium'', \<lparr>bc_label = ''Medium'', bc_style = \<lparr>bs_backgroundColor = ''rgba(255, 107, 0, 0.15)'',
        bs_color = ''var(--color-accent-amber)'', bs_border = ''1px solid rgba(255, 107, 0, 0.3)''\<rparr>, bc_pulse = False\<rparr>),
     (''high'', \<lparr>bc_label = ''High'', bc_style = \<lparr>bs_backgroundColor = ''rgba(251, 146, 60, 0.15)'',
        bs_color = ''rgb(251, 146, 60)'', bs_border = ''1px solid rgba(251, 146, 60, 0.4)''\<rparr>, bc_pulse = False\<rparr>),
     (''critical'', \<lparr>bc_label = ''Critical'', bc_style = \<lparr>bs_backgroundColor = ''rgba(255, 59, 59, 0.15)'',
        bs_color = ''var(--color-accent-red)'', bs_border = ''1px solid rgba(255, 59, 59, 0.4)''\<rparr>, bc_pulse = True\<rparr>)]"

definition badge_attrs :: "string \<Rightarrow> badge_style \<Rightarrow> (string \<times> string) list" where
  "badge_attrs testid st = [(''data-testid'', testid), (''backgroundColor'', bs_backgroundColor st),
     (''color'', bs_color st), (''border'', bs_border st)]"

definition SeverityBadge :: "string \<Rightarrow> 'e node" where
  "SeverityBadge severity =
    (let config = (case map_of SEVERITY_CONFIG severity of Some c \<Rightarrow> c
       | None \<Rightarrow> \<lparr>bc_label = severity, bc_style = neutral_style ''oklch(0.60 0.00 0)'', bc_pulse = False\<rparr>)
     in El ''span'' (badge_attrs (''severity-badge-'' @ severity) (bc_style config)
          @ (if bc_pulse config then [(''animation'', ''pulse-critical 1s ease-in-out infinite'')] else []))
          [Txt (bc_label config)])"

definition STATUS_CONFIG :: "(string \<times> badge_config) list" where
  "STATUS_CONFIG =
    (let red = \<lparr>bs_backgroundColor = ''rgba(255, 59, 59, 0.15)'', bs_color = ''var(--color-accent-red)'',
           bs_border = ''1px solid rgba(255, 59, 59, 0.3)''\<rparr>;
         amber = \<lparr>bs_backgroundColor = ''rgba(255, 107, 0, 0.15)'', bs_color = ''var(--color-accent-amber)'',
           bs_border = ''1px solid rgba(255, 107, 0, 0.3)''\<rparr>
     in [(''started'', \<lparr>bc_label = ''Running'', bc_style = \<lparr>bs_backgroundColor = ''rgba(59, 130, 246, 0.15)'',
            bs_color = ''rgb(96, 165, 250)'', bs_border = ''1px solid rgba(59, 130, 246, 0.3)''\<rparr>, bc_pulse = True\<rparr>),
         (''completed'', \<lparr>bc_label = ''Completed'', bc_style = \<lparr>bs_backgroundColor = ''rgba(0, 200, 83, 0.15)'',
            bs_color = ''var(--color-accent-green)'', bs_border = ''1px solid rgba(0, 200, 83, 0.3)''\<rparr>, bc_pulse = False\<rparr>),
         (''terminated_budget'', \<lparr>bc_label = ''Budget Exceeded'', bc_style = red, bc_pulse = False\<rparr>),
         (''terminated_loop'', \<lparr>bc_label = ''Loop Terminated'', bc_style = amber, bc_pulse = False\<rparr>),
         (''terminated_policy'', \<lparr>bc_label = ''Policy Terminated'', bc_style = red, bc_pulse = False\<rparr>),
         (''abandoned'', \<lparr>bc_label = ''Abandoned'', bc_style = amber, bc_pulse = False\<rparr>),
         (''error'', \<lparr>bc_label = ''Error'', bc_style = red, bc_pulse = False\<rparr>)])"

definition StatusBadge :: "string \<Rightarrow> 'e node" where
  "StatusBadge status =
    (let config = (case map_of STATUS_CONFIG status of Some c \<Rightarrow> c
       | None \<Rightarrow> \<lparr>bc_label = status, bc_style = neutral_style ''oklch(0.60 0.00 0)'', bc_pulse = False\<rparr>)
     in El ''span'' (badge_attrs (''status-badge-'' @ status) (bc_style config))
          (render_if (bc_pulse config) [El ''span'' [(''animation'', ''pulse 2s cubic-bezier(0.4, 0, 0.6, 1) infinite'')] []]
           @ [Txt (bc_label config)]))"

definition DECISION_STYLES :: "(string \<times> badge_style) list" where
  "DECISION_STYLES =
    [(''allow'', \<lparr>bs_backgroundColor = ''rgba(0, 200, 83, 0.15)'', bs_color = ''var(--color-accent-green)'',
        bs_border = ''1px solid rgba(0, 200, 83, 0.3)''\<rparr>),
     (''deny'', \<lparr>bs_backgroundColor = ''rgba(255, 59, 59, 0.15)'', bs_color = ''var(--color-accent-red)'',
        bs_border = ''1px solid rgba(255, 59, 59, 0.3)''\<rparr>),
     (''cooldown'', \<lparr>bs_backgroundColor = ''rgba(255, 107, 0, 0.15)'', bs_color = ''var(--color-accent-amber)'',
        bs_border = ''1px solid rgba(255, 107, 0, 0.3)''\<rparr>),
     (''kill'', \<lparr>bs_backgroundColor = ''rgba(255, 59, 59, 0.15)'', bs_color = ''var(--color-accent-red)'',
        bs_border = ''2px solid var(--color-accent-red)''\<rparr>),
     (''require_approval'', \<lparr>bs_backgroundColor = ''rgba(155, 109, 255, 0.15)'', bs_color = ''var(--color-accent-purple)'',
        bs_border = ''1px solid rgba(155, 109, 255, 0.4)''\<rparr>)]"

definition DECISION_LABELS :: "(string \<times> string) list" where
  "DECISION_LABELS = [(''allow'', ''allow''), (''deny'', ''deny''), (''cooldown'', ''cooldown''), (''kill'', ''kill''),
     (''require_approval'', ''approval required'')]"

definition DecisionBadge :: "string \<Rightarrow> 'e node" where
  "DecisionBadge decision =
    (let style = (case map_of DECISION_STYLES decision of Some s \<Rightarrow> s | None \<Rightarrow> neutral_style ''oklch(0.65 0.00 0)'');
         label = (case map_of DECISION_LABELS decision of Some l \<Rightarrow> l | None \<Rightarrow> decision)
     in El ''span'' (badge_attrs (''decision-badge-'' @ decision) style
          @ [(''fontWeight'', if decision = ''kill'' then ''700'' else ''500'')]) [Txt label])"

lemma offered_badges [simp]: "\<not> offered (SeverityBadge s) e" "\<not> offered (StatusBadge t) e" "\<not> offered (DecisionBadge d) e"
  by (simp_all add: SeverityBadge_def StatusBadge_def DecisionBadge_def Let_def)

section \<open>\<open>JSON.stringify(value, null, 2)\<close>\<close>

text \<open>For values that came as JSON: no function, symbol or bigint is among them.\<close>

definition line_break :: string where "line_break = [CHR 0x0A]"

fun json_pretty :: "nat \<Rightarrow> jsval \<Rightarrow> string option" where
  "json_pretty ind JUndefined = None"
| "json_pretty ind JNull = Some ''null''"
| "json_pretty ind (JBool b) = Some (if b then ''true'' else ''false'')"
| "json_pretty ind (JNum x) = Some (json_num x)"
| "json_pretty ind (JStr s) = Some (quote_json s)"
| "json_pretty ind (JOther t) = None"
| "json_pretty ind (JArr vs) = Some (if vs = [] then ''[]'' else
     ''['' @ line_break @ join ('','' @ line_break) (map (\<lambda>v. replicate (ind + 2) (CHR '' '')
        @ (case json_pretty (ind + 2) v of None \<Rightarrow> ''null'' | Some t \<Rightarrow> t)) vs)
     @ line_break @ replicate ind (CHR '' '') @ '']'')"
| "json_pretty ind (JObj kvs) =
     (let ms = concat (map (\<lambda>(k, v). case json_pretty (ind + 2) v of None \<Rightarrow> []
          | Some t \<Rightarrow> [replicate (ind + 2) (CHR '' '') @ quote_json k @ '': '' @ t]) kvs)
      in Some (if ms = [] then ''{}'' else ''{'' @ line_break @ join ('','' @ line_break) ms @ line_break @ replicate ind (CHR '' '') @ ''}''))"

section \<open>Small components\<close>

definition EmptyState :: "string \<Rightarrow> string option \<Rightarrow> 'e node list \<Rightarrow> 'e node" where
  "EmptyState title description action =
     El ''div'' [(''data-testid'', ''empty-state'')]
       ([El ''div'' [] [Txt ''o''], El ''p'' [] [Txt title]]
        @ render_text description (\<lambda>d. [El ''p'' [] [Txt d]])
        @ render_if (action \<noteq> []) [El ''div'' [] action])"

definition LoadMoreButton :: "'e \<Rightarrow> bool \<Rightarrow> bool \<Rightarrow> 'e node list" where
  "LoadMoreButton onLoadMore isLoading hasMore =
    (if \<not> hasMore then [] else
     [El ''div'' [] [Btn [(''data-testid'', ''btn-load-more'')] isLoading onLoadMore
        [Txt (if isLoading then ''Loading...'' else ''Load more'')]]])"

definition ConfirmDialog ::
  "bool \<Rightarrow> string \<Rightarrow> string \<Rightarrow> string \<Rightarrow> string \<Rightarrow> bool \<Rightarrow> 'e \<Rightarrow> 'e \<Rightarrow> bool \<Rightarrow> 'e node list" where
  "ConfirmDialog is_open title message confirmLabel cancelLabel danger onConfirm onCancel isLoading =
    (if \<not> is_open then [] else
     [El ''dialog'' [(''aria-labelledby'', ''confirm-dialog-title''), (''data-testid'', ''confirm-dialog'')]
       [Btn [(''aria-label'', ''Close dialog'')] False onCancel [],
        El ''div'' []
          [El ''h3'' [(''id'', ''confirm-dialog-title'')] [Txt title],
           El ''p'' [] [Txt message],
           El ''div'' []
             [Btn [] isLoading onCancel [Txt cancelLabel],
              Btn [(''data-testid'', ''btn-confirm''),
                  (''color'', if danger then ''var(--color-accent-red)'' else ''var(--color-accent-amber)'')]
                isLoading onConfirm [Txt (if isLoading then ''Please wait...'' else confirmLabel)]]]]])"

definition PageHeader :: "string \<Rightarrow> string option \<Rightarrow> 'e node list \<Rightarrow> 'e node" where
  "PageHeader title description actions =
     El ''div'' []
       (El ''div'' [] (El ''h1'' [] [Txt title] # render_text description (\<lambda>d. [El ''p'' [] [Txt d]]))
        # render_if (actions \<noteq> []) [El ''div'' [] actions])"

lemma offered_EmptyState [simp]: "offered (EmptyState t d a) e \<longleftrightarrow> offers a e"
  by (cases a) (auto simp: EmptyState_def)

lemma offered_PageHeader [simp]: "offered (PageHeader t d a) e \<longleftrightarrow> offers a e"
  by (cases a) (auto simp: PageHeader_def)

lemma offers_LoadMoreButton [simp]:
  "offers (LoadMoreButton l isLoading hasMore) e \<longleftrightarrow> hasMore \<and> \<not> isLoading \<and> e = l"
  by (simp add: LoadMoreButton_def)

lemma offers_ConfirmDialog [simp]:
  "offers (ConfirmDialog op t m cl ca dg ok no isLoading) e \<longleftrightarrow> op \<and> (e = no \<or> \<not> isLoading \<and> e = ok)"
  by (auto simp: ConfirmDialog_def)

section \<open>Budget bars\<close>

definition defaultFormat :: "rat \<Rightarrow> string \<Rightarrow> (rat \<Rightarrow> string) \<Rightarrow> string" where
  "defaultFormat v unit show_num =
    (if unit = ''$'' then ''$'' @ toFixed 4 v
     else if v \<ge> 1000000 then toFixed 1 (v / 1000000) @ ''M''
     else if v \<ge> 1000 then toFixed 1 (v / 1000) @ ''k''
     else show_num v)"

definition budget_pct :: "rat \<Rightarrow> rat \<Rightarrow> rat" where
  "budget_pct used cap = min (used / cap * 100) 100"

definition budget_bar_color :: "rat \<Rightarrow> rat \<Rightarrow> string" where
  "budget_bar_color used cap =
    (if used \<ge> cap then ''var(--color-budget-exceeded)''
     else if budget_pct used cap \<ge> 80 then ''var(--color-budget-warn)''
     else ''var(--color-budget-ok)'')"

text \<open>\<open>replace(/\s+/g, "-")\<close>\<close>

fun ws_to_dash_from :: "bool \<Rightarrow> string \<Rightarrow> string" where
  "ws_to_dash_from in_ws [] = []"
| "ws_to_dash_from in_ws (c # s) =
     (if is_ws c then (if in_ws then [] else ''-'') @ ws_to_dash_from True s else c # ws_to_dash_from False s)"

definition ws_to_dash :: "string \<Rightarrow> string" where
  "ws_to_dash s = ws_to_dash_from False s"

text \<open>\<open>show_num\<close> is the text of a number in a template, and \<open>formatValue\<close> the optional property.\<close>

definition BudgetBar :: "(rat \<Rightarrow> string) \<Rightarrow> string \<Rightarrow> rat \<Rightarrow> rat \<Rightarrow> string \<Rightarrow> (rat \<Rightarrow> string) option \<Rightarrow> 'e node list" where
  "BudgetBar show_num label used cap unit formatValue =
    (if cap \<le> 0 then [] else
     (let pct = budget_pct used cap; exceeded = used \<ge> cap;
          fmt = (case formatValue of Some f \<Rightarrow> f | None \<Rightarrow> (\<lambda>v. defaultFormat v unit show_num))
      in [El ''div'' [(''data-testid'', ''budget-bar-'' @ ws_to_dash (toLowerCase label))]
           [El ''div'' []
              [El ''span'' [] [Txt label],
               El ''span'' [(''color'', if exceeded then ''var(--color-accent-red)'' else ''oklch(0.65 0.00 0)'')]
                 (render_if exceeded [El ''span'' [] [Txt ''EXCEEDED'']]
                  @ [Txt (fmt used @ '' / '' @ fmt cap @ '' - '' @ toFixed 0 pct @ ''%'')])],
            El ''div'' [] [El ''div'' [(''width'', show_num pct @ ''%''), (''backgroundColor'', budget_bar_color used cap)] []]]]))"

section \<open>JSON viewer\<close>

text \<open>\<open>expanded\<close> is the state of the viewer; its event toggles it.\<close>

definition count_lines :: "string \<Rightarrow> nat" where
  "count_lines s = length (split_on (CHR 0x0A) s)"

definition JsonViewer :: "bool \<Rightarrow> jsval \<Rightarrow> bool node" where
  "JsonViewer expanded data =
    (let json = (case json_pretty 0 data of Some t \<Rightarrow> t | None \<Rightarrow> ''undefined''); lineCount = count_lines json in
     El ''div'' []
       (render_if (lineCount > 20) [Btn [] False (\<not> expanded)
          [Txt ((if expanded then ''v Collapse'' else ''> Expand'') @ '' ('' @ show_nat lineCount @ '' lines)'')]]
        @ render_if expanded [El ''pre'' [] [El ''code'' [] [Txt json]]]))"

end
