(* ===== verification/Web_Desk.thy ===== *)
theory Web_Desk
  imports Web_Library Guarded_Updates
begin

text \<open>
  A review queue of the dashboard together with the server that it talks to.

  A queue (\<open>proposal-queue.tsx\<close>, \<open>escalation-queue.tsx\<close>) keeps the items it shows, the chosen status
  filter, and one card per item with the state of its \<open>useState\<close> hooks; React keeps the state of a
  card as long as an item with its key is in the list. The queue sends list queries and mutations
  and takes their answers in any order. A query is answered by the server, or by the query cache
  with an earlier answer to the same query: when the cache is used is up to the query library, so
  both are steps here. On the server, the requests of this queue and of others run as in
  \<open>Guarded_Updates\<close>, check and update apart.
\<close>

section \<open>The queue in the browser\<close>

record ('i, 'c) queue =
  q_items :: "'i list"
  q_statusFilter :: string
  q_cards :: "string \<Rightarrow> 'c"

definition set_items :: "('i \<Rightarrow> string) \<Rightarrow> 'c \<Rightarrow> 'i list \<Rightarrow> ('i, 'c) queue \<Rightarrow> ('i, 'c) queue" where
  "set_items item_id fresh items q = q\<lparr>q_items := items,
     q_cards := (\<lambda>k. if k \<in> item_id ` set items then q_cards q k else fresh)\<rparr>"

text \<open>The \<open>onSuccess\<close> of the mutations: \<open>setItems((prev) => prev.filter((p) => p.id !== result.id))\<close>.\<close>

definition onSuccess :: "('i \<Rightarrow> string) \<Rightarrow> 'c \<Rightarrow> string \<Rightarrow> ('i, 'c) queue \<Rightarrow> ('i, 'c) queue" where
  "onSuccess item_id fresh rid q = set_items item_id fresh (filter (\<lambda>p. item_id p \<noteq> rid) (q_items q)) q"

section \<open>The queue and the server\<close>

text \<open>
  \<open>dk_seen\<close> are the items that were ever shown, \<open>dk_log\<close> the mutations that were ever sent, and
  \<open>dk_decided\<close> those whose update succeeded, each with its operation on the server.
\<close>

record ('i, 'c, 'm, 'op, 'r) desk =
  dk_queue :: "('i, 'c) queue"
  dk_server :: "('op, 'r) review_system"
  dk_lists :: "string list"
  dk_answers :: "'i list list"
  dk_cache :: "(string \<times> 'i list) list"
  dk_sent :: "'m list"
  dk_checked :: "('m \<times> 'op) list"
  dk_replies :: "string list"
  dk_seen :: "'i set"
  dk_log :: "'m list"
  dk_decided :: "('m \<times> 'op) list"

definition opt_list :: "'a option \<Rightarrow> 'a list" where
  "opt_list x = (case x of None \<Rightarrow> [] | Some y \<Rightarrow> [y])"

record ('i, 'c, 'e, 'm, 'op, 'r) desk_env =
  de_item_id :: "'i \<Rightarrow> string"
  de_fresh :: 'c
  de_view :: "'i \<Rightarrow> 'c \<Rightarrow> 'e node"
  de_step :: "'i \<Rightarrow> 'c \<Rightarrow> 'e \<Rightarrow> 'c \<times> 'm option"
  de_tabs :: "string list"
  de_list :: "string \<Rightarrow> 'r list \<Rightarrow> 'i list"
  de_op :: "'m \<Rightarrow> int \<Rightarrow> 'op"
  de_mid :: "'m \<Rightarrow> string"
  de_chk :: "'op \<Rightarrow> 'r list \<Rightarrow> api_error + unit"
  de_upd :: "'op \<Rightarrow> 'r list \<Rightarrow> api_error + 'r \<times> 'r list"
  de_expire :: "int \<Rightarrow> 'r list \<Rightarrow> 'r list"

inductive desk_reach ::
  "('i, 'c, 'e, 'm, 'op, 'r) desk_env \<Rightarrow> 'r list \<Rightarrow> 'i list \<Rightarrow> ('i, 'c, 'm, 'op, 'r) desk \<Rightarrow> bool"
  for E :: "('i, 'c, 'e, 'm, 'op, 'r) desk_env" and rows0 :: "'r list" and items0 :: "'i list" where
  start: "f \<in> set (de_tabs E) \<Longrightarrow> desk_reach E rows0 items0
    \<lparr>dk_queue = \<lparr>q_items = items0, q_statusFilter = f, q_cards = (\<lambda>_. de_fresh E)\<rparr>,
     dk_server = \<lparr>sy_rows = rows0, sy_in_flight = [], sy_done = []\<rparr>,
     dk_lists = [], dk_answers = [], dk_cache = [], dk_sent = [], dk_checked = [], dk_replies = [],
     dk_seen = set items0, dk_log = [], dk_decided = []\<rparr>"
| card: "desk_reach E rows0 items0 s \<Longrightarrow> i \<in> set (q_items (dk_queue s)) \<Longrightarrow>
    offered (de_view E i (q_cards (dk_queue s) (de_item_id E i))) e \<Longrightarrow>
    de_step E i (q_cards (dk_queue s) (de_item_id E i)) e = (c', m) \<Longrightarrow>
    desk_reach E rows0 items0 (s\<lparr>
      dk_queue := (dk_queue s)\<lparr>q_cards := (q_cards (dk_queue s))(de_item_id E i := c')\<rparr>,
      dk_sent := dk_sent s @ opt_list m, dk_log := dk_log s @ opt_list m\<rparr>)"
| filter_sent: "desk_reach E rows0 items0 s \<Longrightarrow> f \<in> set (de_tabs E) \<Longrightarrow>
    desk_reach E rows0 items0 (s\<lparr>dk_queue := (dk_queue s)\<lparr>q_statusFilter := f\<rparr>, dk_lists := dk_lists s @ [f]\<rparr>)"
| filter_cached: "desk_reach E rows0 items0 s \<Longrightarrow> f \<in> set (de_tabs E) \<Longrightarrow> (f, its) \<in> set (dk_cache s) \<Longrightarrow>
    desk_reach E rows0 items0 (s\<lparr>dk_queue := (dk_queue s)\<lparr>q_statusFilter := f\<rparr>, dk_answers := dk_answers s @ [its]\<rparr>)"
| list_served: "desk_reach E rows0 items0 s \<Longrightarrow> f \<in> set (dk_lists s) \<Longrightarrow>
    its = de_list E f (sy_rows (dk_server s)) \<Longrightarrow>
    desk_reach E rows0 items0 (s\<lparr>dk_lists := remove1 f (dk_lists s), dk_answers := dk_answers s @ [its],
      dk_cache := (f, its) # dk_cache s\<rparr>)"
| list_failed: "desk_reach E rows0 items0 s \<Longrightarrow> f \<in> set (dk_lists s) \<Longrightarrow>
    desk_reach E rows0 items0 (s\<lparr>dk_lists := remove1 f (dk_lists s)\<rparr>)"
| answer: "desk_reach E rows0 items0 s \<Longrightarrow> its \<in> set (dk_answers s) \<Longrightarrow>
    desk_reach E rows0 items0 (s\<lparr>dk_queue := set_items (de_item_id E) (de_fresh E) its (dk_queue s),
      dk_answers := remove1 its (dk_answers s), dk_seen := dk_seen s \<union> set its\<rparr>)"
| own_check: "desk_reach E rows0 items0 s \<Longrightarrow> m \<in> set (dk_sent s) \<Longrightarrow>
    de_chk E (de_op E m now) (sy_rows (dk_server s)) = Inr () \<Longrightarrow>
    desk_reach E rows0 items0 (s\<lparr>dk_sent := remove1 m (dk_sent s), dk_checked := (m, de_op E m now) # dk_checked s,
      dk_server := (dk_server s)\<lparr>sy_in_flight := sy_in_flight (dk_server s) @ [de_op E m now]\<rparr>\<rparr>)"
| own_refused: "desk_reach E rows0 items0 s \<Longrightarrow> m \<in> set (dk_sent s) \<Longrightarrow>
    desk_reach E rows0 items0 (s\<lparr>dk_sent := remove1 m (dk_sent s)\<rparr>)"
| own_write: "desk_reach E rows0 items0 s \<Longrightarrow> (m, op) \<in> set (dk_checked s) \<Longrightarrow> op \<in> set (sy_in_flight (dk_server s)) \<Longrightarrow>
    de_upd E op (sy_rows (dk_server s)) = Inr (u, rows') \<Longrightarrow>
    desk_reach E rows0 items0 (s\<lparr>dk_checked := remove1 (m, op) (dk_checked s),
      dk_server := \<lparr>sy_rows = rows', sy_in_flight = remove1 op (sy_in_flight (dk_server s)), sy_done = sy_done (dk_server s) @ [op]\<rparr>,
      dk_replies := dk_replies s @ [de_mid E m], dk_decided := dk_decided s @ [(m, op)]\<rparr>)"
| reply: "desk_reach E rows0 items0 s \<Longrightarrow> rid \<in> set (dk_replies s) \<Longrightarrow>
    desk_reach E rows0 items0 (s\<lparr>dk_queue := onSuccess (de_item_id E) (de_fresh E) rid (dk_queue s),
      dk_replies := remove1 rid (dk_replies s)\<rparr>)"
| other_check: "desk_reach E rows0 items0 s \<Longrightarrow> de_chk E op (sy_rows (dk_server s)) = Inr () \<Longrightarrow>
    desk_reach E rows0 items0 (s\<lparr>dk_server := (dk_server s)\<lparr>sy_in_flight := sy_in_flight (dk_server s) @ [op]\<rparr>\<rparr>)"
| other_write: "desk_reach E rows0 items0 s \<Longrightarrow> op \<in> set (sy_in_flight (dk_server s)) \<Longrightarrow>
    de_upd E op (sy_rows (dk_server s)) = Inr (u, rows') \<Longrightarrow>
    desk_reach E rows0 items0 (s\<lparr>dk_server :=
      \<lparr>sy_rows = rows', sy_in_flight = remove1 op (sy_in_flight (dk_server s)), sy_done = sy_done (dk_server s) @ [op]\<rparr>\<rparr>)"
| write_refused: "desk_reach E rows0 items0 s \<Longrightarrow> op \<in> set (sy_in_flight (dk_server s)) \<Longrightarrow>
    de_upd E op (sy_rows (dk_server s)) = Inl x \<Longrightarrow>
    desk_reach E rows0 items0 (s\<lparr>dk_server := (dk_server s)\<lparr>sy_in_flight := remove1 op (sy_in_flight (dk_server s))\<rparr>\<rparr>)"
| expiry: "desk_reach E rows0 items0 s \<Longrightarrow>
    desk_reach E rows0 items0 (s\<lparr>dk_server := (dk_server s)\<lparr>sy_rows := de_expire E now (sy_rows (dk_server s))\<rparr>\<rparr>)"

text \<open>A refusal, by the check or by a lost request, tells the queue nothing: the mutations have no \<open>onError\<close>.\<close>

section \<open>What holds of every desk\<close>

text \<open>The server's side of a desk is a run of the server.\<close>

lemma desk_server_reach:
  assumes "desk_reach E rows0 items0 s"
  shows "review_reach (de_chk E) (de_upd E) (de_expire E) rows0 (dk_server s)"
  using assms
proof (induction rule: desk_reach.induct)
qed (auto intro: review_reach.intros)

text \<open>What the queue counts as decided was sent, and is among what the server has done.\<close>

definition own_ops :: "('i, 'c, 'e, 'm, 'op, 'r) desk_env \<Rightarrow> 'm list \<Rightarrow> ('m \<times> 'op) set" where
  "own_ops E ms = {(m, op). m \<in> set ms \<and> (\<exists>now. op = de_op E m now)}"

lemma own_opsI: "m \<in> set ms \<Longrightarrow> (m, de_op E m now) \<in> own_ops E ms"
  by (auto simp: own_ops_def)

lemma own_ops_append: "own_ops E ms \<subseteq> own_ops E (ms @ ms')"
  by (auto simp: own_ops_def)

definition desk_book :: "('i, 'c, 'e, 'm, 'op, 'r) desk_env \<Rightarrow> ('i, 'c, 'm, 'op, 'r) desk \<Rightarrow> bool" where
  "desk_book E s \<longleftrightarrow> set (dk_sent s) \<subseteq> set (dk_log s)
     \<and> set (dk_checked s) \<subseteq> own_ops E (dk_log s) \<and> set (dk_decided s) \<subseteq> own_ops E (dk_log s)
     \<and> mset (map snd (dk_decided s)) \<subseteq># mset (sy_done (dk_server s))"

lemma desk_reach_book:
  assumes "desk_reach E rows0 items0 s"
  shows "desk_book E s"
  using assms
proof (induction rule: desk_reach.induct)
  case (card s i e c' m)
  then show ?case using own_ops_append [of E "dk_log s" "opt_list m"] by (auto simp: desk_book_def)
next
  case (own_check s m now)
  then have "set (dk_sent s) \<subseteq> set (dk_log s)" by (simp add: desk_book_def)
  with own_check.hyps own_check.IH show ?case
    by (auto simp: desk_book_def intro: own_opsI dest: notin_set_remove1)
next
  case (own_refused s m)
  then show ?case by (auto simp: desk_book_def dest: notin_set_remove1)
next
  case (own_write s m op u rows')
  then have "set (remove1 (m, op) (dk_checked s)) \<subseteq> own_ops E (dk_log s)" "(m, op) \<in> own_ops E (dk_log s)"
    by (auto simp: desk_book_def dest: notin_set_remove1)
  with own_write.IH show ?case by (simp add: desk_book_def)
next
  case (other_write s op u rows')
  then have "mset (map snd (dk_decided s)) \<subseteq># mset (sy_done (dk_server s) @ [op])"
    by (metis desk_book_def mset_append mset_subset_eq_add_left subset_mset.trans)
  with other_write.IH show ?case by (simp add: desk_book_def)
qed (simp_all add: desk_book_def)

lemma decided_done: "desk_book E s \<Longrightarrow> (m, op) \<in> set (dk_decided s) \<Longrightarrow> op \<in> set (sy_done (dk_server s))"
  unfolding desk_book_def by (metis in_multiset_in_set list.set_map mset_subset_eqD rev_image_eqI snd_conv)

lemma decided_distinct:
  assumes "desk_book E s" and "distinct (map f (sy_done (dk_server s)))"
  shows "distinct (map (\<lambda>d. f (snd d)) (dk_decided s))"
proof -
  have "image_mset f (mset (map snd (dk_decided s))) \<subseteq># mset (map f (sy_done (dk_server s)))"
    using assms(1) by (simp add: desk_book_def image_mset_subseteq_mono)
  then have "mset (map (\<lambda>d. f (snd d)) (dk_decided s)) \<subseteq># mset (map f (sy_done (dk_server s)))"
    by (simp add: multiset.map_comp o_def)
  then show ?thesis
    using assms(2) unfolding distinct_count_atmost_1
    by (metis (no_types, lifting) count_eq_zero_iff in_multiset_in_set le_antisym linorder_not_le mset_subset_eqD mset_subset_eq_count less_one)
qed

section \<open>The contract of a card\<close>

text \<open>
  A card keeps an invariant relative to the items shown so far, and whatever it sends is for
  its own item and satisfies \<open>good\<close>, relative to them too.
\<close>

locale review_cards =
  fixes E :: "('i, 'c, 'e, 'm, 'op, 'r) desk_env"
    and cinv :: "'i set \<Rightarrow> string \<Rightarrow> 'c \<Rightarrow> bool" and good :: "'i set \<Rightarrow> 'm \<Rightarrow> bool"
  assumes fresh_ok: "cinv S k (de_fresh E)"
    and cinv_mono: "cinv S k c \<Longrightarrow> S \<subseteq> T \<Longrightarrow> cinv T k c"
    and good_mono: "good S m \<Longrightarrow> S \<subseteq> T \<Longrightarrow> good T m"
    and step_ok: "i \<in> S \<Longrightarrow> cinv S (de_item_id E i) c \<Longrightarrow> offered (de_view E i c) e \<Longrightarrow> de_step E i c e = (c', r) \<Longrightarrow>
      cinv S (de_item_id E i) c' \<and> (\<forall>x. r = Some x \<longrightarrow> good S x \<and> (\<exists>j\<in>S. de_item_id E j = de_mid E x))"
begin

definition desk_inv :: "('i, 'c, 'm, 'op, 'r) desk \<Rightarrow> bool" where
  "desk_inv s \<longleftrightarrow> set (q_items (dk_queue s)) \<subseteq> dk_seen s
     \<and> (\<forall>k. cinv (dk_seen s) k (q_cards (dk_queue s) k))
     \<and> (\<forall>m\<in>set (dk_log s). good (dk_seen s) m \<and> (\<exists>j\<in>dk_seen s. de_item_id E j = de_mid E m))"

lemma desk_inv_items:
  assumes "desk_inv s" and "set its \<subseteq> T" and "dk_seen s \<subseteq> T"
    and "dk_queue s' = set_items (de_item_id E) (de_fresh E) its (dk_queue s)" and "dk_seen s' = T" and "dk_log s' = dk_log s"
  shows "desk_inv s'"
proof -
  have "good T m \<and> (\<exists>j\<in>T. de_item_id E j = de_mid E m)" if "m \<in> set (dk_log s)" for m
    using assms(1,3) that good_mono unfolding desk_inv_def by blast
  moreover have "cinv T k (q_cards (dk_queue s) k)" for k
    using assms(1,3) cinv_mono unfolding desk_inv_def by blast
  ultimately show ?thesis using assms by (simp add: desk_inv_def set_items_def fresh_ok)
qed

lemma desk_inv_card:
  assumes inv: "desk_inv s" and i: "i \<in> set (q_items (dk_queue s))"
    and "offered (de_view E i (q_cards (dk_queue s) (de_item_id E i))) e"
    and "de_step E i (q_cards (dk_queue s) (de_item_id E i)) e = (c', m)"
  shows "desk_inv (s\<lparr>dk_queue := (dk_queue s)\<lparr>q_cards := (q_cards (dk_queue s))(de_item_id E i := c')\<rparr>,
      dk_sent := dk_sent s @ opt_list m, dk_log := dk_log s @ opt_list m\<rparr>)"
proof -
  have "i \<in> dk_seen s" and c: "cinv (dk_seen s) (de_item_id E i) (q_cards (dk_queue s) (de_item_id E i))"
    using inv i by (auto simp: desk_inv_def)
  from step_ok [OF this assms(3,4)] inv show ?thesis
    by (auto simp: desk_inv_def opt_list_def split: option.splits)
qed

lemma desk_reach_inv:
  assumes "desk_reach E rows0 items0 s"
  shows "desk_inv s"
  using assms
proof (induction rule: desk_reach.induct)
  case (start f)
  then show ?case by (simp add: desk_inv_def fresh_ok)
next
  case (card s i e c' m)
  then show ?case by (intro desk_inv_card)
next
  case (answer s its)
  then show ?case by (intro desk_inv_items [OF answer.IH, of its "dk_seen s \<union> set its"]) auto
next
  case (reply s rid)
  have "set (filter (\<lambda>p. de_item_id E p \<noteq> rid) (q_items (dk_queue s))) \<subseteq> dk_seen s"
    using reply.IH by (auto simp: desk_inv_def)
  then show ?case by (intro desk_inv_items [OF reply.IH, of _ "dk_seen s"]) (auto simp: onSuccess_def)
qed (simp_all add: desk_inv_def)

lemma sent_good:
  assumes "desk_reach E rows0 items0 s" and "m \<in> set (dk_log s)"
  shows "good (dk_seen s) m" and "\<exists>j\<in>dk_seen s. de_item_id E j = de_mid E m"
  using desk_reach_inv [OF assms(1)] assms(2) by (auto simp: desk_inv_def)

end

end
