(* ===== verification/Web_Queues.thy ===== *)
theory Web_Queues
  imports Web_Desk Supervisor_Review
begin

text \<open>
  The review page of the dashboard, \<open>packages/web/src/app/(dashboard)/supervisor\<close>: the queue of the
  proposals (\<open>proposal-queue.tsx\<close>) and the queue of the escalations (\<open>escalation-queue.tsx\<close>), each on
  the server procedures of \<open>Supervisor_Review\<close>. What a reviewer confirms on a card is what the row
  holds afterwards, a rejection has a reason, and a resolution was sent only for an escalation that
  the queue has shown as acknowledged.
\<close>

section \<open>Proposals: the card\<close>

record ProposalItem =
  pit_id :: string
  pit_proposal_type :: string
  pit_target_agent :: "string option"
  pit_rationale :: "string option"
  pit_confidence :: "rat option"
  pit_supporting_runs :: "string list option"
  pit_status :: string
  pit_created_at :: date_prop

definition PROPOSAL_TYPE_LABELS :: "(string \<times> string) list" where
  "PROPOSAL_TYPE_LABELS = [(''budget_adjustment'', ''Budget Adjustment''), (''policy_change'', ''Policy Change''),
     (''agent_profile_update'', ''Agent Profile Update''), (''flag_for_review'', ''Flag for Review'')]"

definition percent :: "rat \<Rightarrow> int" where
  "percent confidence = \<lfloor>confidence * 100 + 1 / 2\<rfloor>"

definition ConfidenceBadge :: "rat \<Rightarrow> 'e node" where
  "ConfidenceBadge confidence =
    (let pct = percent confidence;
         (color, bg) = (if pct \<ge> 80 then (''var(--color-accent-green)'', ''rgba(0, 200, 83, 0.1)'')
           else if pct \<ge> 60 then (''var(--color-accent-amber)'', ''rgba(255, 107, 0, 0.1)'')
           else (''oklch(0.55 0.00 0)'', ''rgba(100, 100, 100, 0.1)''))
     in El ''span'' [(''data-testid'', ''confidence-badge''), (''color'', color), (''backgroundColor'', bg)]
          [Txt (show_int pct @ ''% confidence'')])"

datatype proposal_action = ActApprove | ActReject

definition action_text :: "proposal_action \<Rightarrow> string" where
  "action_text a = (case a of ActApprove \<Rightarrow> ''approve'' | ActReject \<Rightarrow> ''reject'')"

record proposal_card =
  pc_action :: "proposal_action option"
  pc_notes :: string
  pc_notesError :: "string option"

definition new_proposal_card :: proposal_card where
  "new_proposal_card = \<lparr>pc_action = None, pc_notes = [], pc_notesError = None\<rparr>"

datatype proposal_card_event = SetAction proposal_action | ChangeNotes string | HandleApprove | HandleReject | CancelAction

datatype proposal_mutation = ApproveMutation string string | RejectMutation string string

definition handleApprove :: "ProposalItem \<Rightarrow> proposal_card \<Rightarrow> proposal_card \<times> proposal_mutation option" where
  "handleApprove item c = (c\<lparr>pc_action := None\<rparr>, Some (ApproveMutation (pit_id item) (pc_notes c)))"

definition handleReject :: "ProposalItem \<Rightarrow> proposal_card \<Rightarrow> proposal_card \<times> proposal_mutation option" where
  "handleReject item c =
    (if trim (pc_notes c) = [] then (c\<lparr>pc_notesError := Some ''Rejection reason is required''\<rparr>, None)
     else (c\<lparr>pc_notesError := None, pc_action := None\<rparr>, Some (RejectMutation (pit_id item) (pc_notes c))))"

fun proposal_card_step :: "ProposalItem \<Rightarrow> proposal_card \<Rightarrow> proposal_card_event \<Rightarrow> proposal_card \<times> proposal_mutation option" where
  "proposal_card_step item c (SetAction a) = (c\<lparr>pc_action := Some a\<rparr>, None)"
| "proposal_card_step item c (ChangeNotes s) = (c\<lparr>pc_notes := s, pc_notesError := None\<rparr>, None)"
| "proposal_card_step item c HandleApprove = handleApprove item c"
| "proposal_card_step item c HandleReject = handleReject item c"
| "proposal_card_step item c CancelAction = (c\<lparr>pc_action := None, pc_notes := [], pc_notesError := None\<rparr>, None)"

text \<open>The head of the card: type, confidence, age, target, rationale and the runs that support it.\<close>

definition proposal_facts :: "date_lib \<Rightarrow> int \<Rightarrow> ProposalItem \<Rightarrow> 'e node list" where
  "proposal_facts D now item =
    [El ''div'' []
       [El ''div'' []
          (El ''span'' [] [Txt (case map_of PROPOSAL_TYPE_LABELS (pit_proposal_type item) of Some l \<Rightarrow> l
              | None \<Rightarrow> pit_proposal_type item)]
           # (case pit_confidence item of None \<Rightarrow> [] | Some c \<Rightarrow> [ConfidenceBadge c])),
        TimeAgo D now (Some (pit_created_at item)) ''Never'']]
     @ render_text (pit_target_agent item) (\<lambda>t. [El ''p'' [] [Txt (''Target: '' @ t)]])
     @ render_text (pit_rationale item) (\<lambda>t. [El ''p'' [] [Txt t]])
     @ (case pit_supporting_runs item of None \<Rightarrow> [] | Some runs \<Rightarrow> render_if (runs \<noteq> [])
          [El ''div'' [] [El ''span'' [] [Txt ''Supporting runs:''],
             El ''div'' [] (map (\<lambda>runId. El ''a'' [(''href'', ''/runs/'' @ runId)] [Txt (take 8 runId @ ''...'')]) runs)]])"

definition proposal_buttons :: "ProposalItem \<Rightarrow> proposal_card_event node" where
  "proposal_buttons item = El ''div'' []
     [Btn [(''data-testid'', ''btn-approve-'' @ pit_id item)] False (SetAction ActApprove) [Txt ''Approve''],
      Btn [(''data-testid'', ''btn-reject-'' @ pit_id item)] False (SetAction ActReject) [Txt ''Reject'']]"

definition proposal_form :: "ProposalItem \<Rightarrow> proposal_action \<Rightarrow> proposal_card \<Rightarrow> proposal_card_event node" where
  "proposal_form item a c = El ''div'' []
     ([Field [(''placeholder'', case a of ActReject \<Rightarrow> ''Rejection reason (required)...'' | ActApprove \<Rightarrow> ''Optional approval notes...''),
          (''data-testid'', action_text a @ ''-notes-'' @ pit_id item),
          (''border'', if pc_notesError c \<noteq> None then ''1px solid rgba(255, 59, 59, 0.5)'' else ''1px solid var(--color-border)'')]
        (pc_notes c) ChangeNotes]
      @ render_text (pc_notesError c) (\<lambda>t. [El ''p'' [] [Txt t]])
      @ [El ''div'' []
          [Btn [(''data-testid'', ''btn-confirm-'' @ action_text a @ ''-'' @ pit_id item)] False
             (case a of ActApprove \<Rightarrow> HandleApprove | ActReject \<Rightarrow> HandleReject)
             [Txt (''Confirm '' @ (case a of ActApprove \<Rightarrow> ''Approval'' | ActReject \<Rightarrow> ''Rejection''))],
           Btn [] False CancelAction [Txt ''Cancel'']]])"

definition ProposalCard :: "date_lib \<Rightarrow> int \<Rightarrow> ProposalItem \<Rightarrow> proposal_card \<Rightarrow> proposal_card_event node" where
  "ProposalCard D now item c = El ''div'' [(''data-testid'', ''proposal-card-'' @ pit_id item)]
     (proposal_facts D now item
      @ (case pc_action c of None \<Rightarrow> [proposal_buttons item] | Some a \<Rightarrow> [proposal_form item a c]))"

section \<open>Proposals: the queue\<close>

datatype 'e queue_event = FilterClick string | OnCard string 'e

definition PROPOSAL_TABS :: "(string \<times> string) list" where
  "PROPOSAL_TABS = [(''pending'', ''Pending''), (''approved'', ''Approved''), (''rejected'', ''Rejected''), (''all'', ''All'')]"

definition ProposalQueue :: "date_lib \<Rightarrow> int \<Rightarrow> (ProposalItem, proposal_card) queue \<Rightarrow> proposal_card_event queue_event node" where
  "ProposalQueue D now q = El ''div'' []
     [El ''div'' []
        (El ''h2'' [] [Txt ''Proposals'']
         # render_if (q_items q \<noteq> [] \<and> q_statusFilter q = ''pending'') [El ''span'' [] [Txt (show_nat (length (q_items q)))]]),
      El ''div'' [] (map (\<lambda>(v, label). Btn [(''data-testid'', ''proposal-filter-'' @ v),
          (''color'', if q_statusFilter q = v then ''var(--color-supervisor)'' else ''oklch(0.55 0.00 0)'')] False (FilterClick v) [Txt label]) PROPOSAL_TABS),
      (if q_items q = [] then EmptyState ''No pending proposals''
           (Some ''The AI Supervisor has no pending proposals requiring your review.'') []
       else El ''div'' [] (map (\<lambda>item. lift_node (OnCard (pit_id item))
           (ProposalCard D now item (q_cards q (pit_id item)))) (q_items q)))]"

text \<open>The rows as they arrive in the browser.\<close>

definition proposal_item :: "date_lib \<Rightarrow> proposal_row \<Rightarrow> ProposalItem" where
  "proposal_item D r = \<lparr>pit_id = sp_id r, pit_proposal_type = sp_proposal_type r, pit_target_agent = sp_target_agent r,
     pit_rationale = Some (sp_rationale r), pit_confidence = sp_confidence r, pit_supporting_runs = sp_supporting_runs r,
     pit_status = sp_status r, pit_created_at = DateStr (dl_toISOString D (sp_created_at r))\<rparr>"

definition fetch_proposals :: "date_lib \<Rightarrow> string \<Rightarrow> string \<Rightarrow> proposal_row list \<Rightarrow> ProposalItem list" where
  "fetch_proposals D tenantId f rows = map (proposal_item D)
     (fst (listProposals tenantId \<lparr>lp_status = status_param f, lp_proposal_type = None\<rparr> 20 None rows))"

fun proposal_op :: "string \<Rightarrow> string \<Rightarrow> proposal_mutation \<Rightarrow> int \<Rightarrow> review_op" where
  "proposal_op tenantId userId (ApproveMutation rid notes) now =
     \<lparr>ro_kind = Approve (Some notes), ro_id = rid, ro_tenant = tenantId, ro_user = userId, ro_now = now\<rparr>"
| "proposal_op tenantId userId (RejectMutation rid notes) now =
     \<lparr>ro_kind = Reject notes, ro_id = rid, ro_tenant = tenantId, ro_user = userId, ro_now = now\<rparr>"

fun proposal_target :: "proposal_mutation \<Rightarrow> string" where
  "proposal_target (ApproveMutation rid notes) = rid"
| "proposal_target (RejectMutation rid notes) = rid"

definition proposal_desk ::
  "date_lib \<Rightarrow> int \<Rightarrow> (string \<Rightarrow> bool) \<Rightarrow> string \<Rightarrow> string
   \<Rightarrow> (ProposalItem, proposal_card, proposal_card_event, proposal_mutation, review_op, proposal_row) desk_env" where
  "proposal_desk D now is_uuid tenantId userId = \<lparr>de_item_id = pit_id, de_fresh = new_proposal_card,
     de_view = ProposalCard D now, de_step = proposal_card_step, de_tabs = map fst PROPOSAL_TABS,
     de_list = fetch_proposals D tenantId, de_op = proposal_op tenantId userId, de_mid = proposal_target,
     de_chk = review_check is_uuid, de_upd = review_write, de_expire = (\<lambda>t rows. fst (expireProposals t rows))\<rparr>"

section \<open>Escalations: the card\<close>

record EscalationItem =
  eit_id :: string
  eit_severity :: string
  eit_rationale :: "string option"
  eit_recommendation :: "string option"
  eit_confidence :: "rat option"
  eit_timeout_seconds :: "int option"
  eit_timeout_action :: "string option"
  eit_status :: string
  eit_resolution_notes :: "string option"
  eit_created_at :: date_prop
  eit_trigger_run_id :: "string option"

definition SEVERITY_BORDER :: "(string \<times> string) list" where
  "SEVERITY_BORDER = [(''low'', ''var(--color-border)''), (''medium'', ''rgba(255, 107, 0, 0.5)''),
     (''high'', ''rgba(251, 146, 60, 0.6)''), (''critical'', ''rgba(255, 59, 59, 0.7)'')]"

record escalation_card =
  ec_showNotes :: bool
  ec_notes :: string
  ec_actionType :: escalation_kind

definition new_escalation_card :: escalation_card where
  "new_escalation_card = \<lparr>ec_showNotes = False, ec_notes = [], ec_actionType = Acknowledge\<rparr>"

datatype escalation_card_event = StartAction escalation_kind | EscalationNotes string | ConfirmAction | HideNotes

datatype escalation_mutation = EscalationMutation (em_kind: escalation_kind) (em_id: string) (em_notes: string)

fun escalation_card_step :: "EscalationItem \<Rightarrow> escalation_card \<Rightarrow> escalation_card_event \<Rightarrow> escalation_card \<times> escalation_mutation option" where
  "escalation_card_step item c (StartAction k) = (c\<lparr>ec_actionType := k, ec_showNotes := True\<rparr>, None)"
| "escalation_card_step item c (EscalationNotes s) = (c\<lparr>ec_notes := s\<rparr>, None)"
| "escalation_card_step item c ConfirmAction = (c, Some (EscalationMutation (ec_actionType c) (eit_id item) (ec_notes c)))"
| "escalation_card_step item c HideNotes = (c\<lparr>ec_showNotes := False\<rparr>, None)"

definition escalation_facts :: "date_lib \<Rightarrow> int \<Rightarrow> EscalationItem \<Rightarrow> 'e node list" where
  "escalation_facts D now item =
    [El ''div'' []
       [El ''div'' []
          (SeverityBadge (eit_severity item)
           # (case eit_confidence item of None \<Rightarrow> []
              | Some c \<Rightarrow> [El ''span'' [] [Txt (show_int (percent c) @ ''% confidence'')]])),
        TimeAgo D now (Some (eit_created_at item)) ''Never'']]
     @ render_text (eit_rationale item) (\<lambda>t. [El ''p'' [] [Txt t]])
     @ render_text (eit_recommendation item) (\<lambda>t. [El ''p'' [] [Txt (''Recommendation: '' @ t)]])
     @ render_text (eit_timeout_action item) (\<lambda>t. [El ''p'' [] [Txt (''Timeout action: '' @ t)]])
     @ render_text (eit_trigger_run_id item) (\<lambda>t. [El ''a'' [(''href'', ''/runs/'' @ t)] [Txt ''View triggering run ->'']])
     @ render_text (eit_resolution_notes item) (\<lambda>t. [El ''p'' [] [Txt (''Notes: '' @ t)]])"

definition kind_text :: "escalation_kind \<Rightarrow> string" where
  "kind_text k = (case k of Acknowledge \<Rightarrow> ''acknowledge'' | Resolve \<Rightarrow> ''resolve'')"

definition escalation_form :: "EscalationItem \<Rightarrow> escalation_card \<Rightarrow> escalation_card_event node" where
  "escalation_form item c = El ''div'' []
     [Field [(''placeholder'', ''Optional resolution notes...''), (''data-testid'', ''escalation-notes'')] (ec_notes c) EscalationNotes,
      El ''div'' []
        [Btn [(''data-testid'', ''btn-'' @ kind_text (ec_actionType c) @ ''-'' @ eit_id item)] False ConfirmAction
           [Txt (case ec_actionType c of Resolve \<Rightarrow> ''Resolve'' | Acknowledge \<Rightarrow> ''Acknowledge'')],
         Btn [] False HideNotes [Txt ''Cancel'']]]"

definition escalation_buttons :: "EscalationItem \<Rightarrow> escalation_card_event node" where
  "escalation_buttons item = El ''div'' []
     (render_if (eit_status item = ''open'') [Btn [] False (StartAction Acknowledge) [Txt ''Acknowledge'']]
      @ render_if (eit_status item = ''acknowledged'')
          [Btn [(''data-testid'', ''btn-resolve-'' @ eit_id item)] False (StartAction Resolve) [Txt ''Resolve'']])"

definition EscalationCard :: "date_lib \<Rightarrow> int \<Rightarrow> EscalationItem \<Rightarrow> escalation_card \<Rightarrow> escalation_card_event node" where
  "EscalationCard D now item c = El ''div'' [(''data-testid'', ''escalation-card-'' @ eit_id item),
      (''border'', ''1px solid '' @ (case map_of SEVERITY_BORDER (eit_severity item) of Some b \<Rightarrow> b | None \<Rightarrow> ''var(--color-border)''))]
     (escalation_facts D now item @ (if ec_showNotes c then [escalation_form item c] else [escalation_buttons item]))"

section \<open>Escalations: the queue\<close>

definition ESCALATION_TABS :: "(string \<times> string) list" where
  "ESCALATION_TABS = [(''open'', ''Open''), (''acknowledged'', ''Acknowledged''), (''resolved'', ''Resolved''), (''all'', ''All'')]"

definition EscalationQueue :: "date_lib \<Rightarrow> int \<Rightarrow> (EscalationItem, escalation_card) queue \<Rightarrow> escalation_card_event queue_event node" where
  "EscalationQueue D now q = El ''div'' []
     [El ''div'' []
        (El ''h2'' [] [Txt ''Escalations'']
         # render_if (q_items q \<noteq> [] \<and> q_statusFilter q = ''open'') [El ''span'' [] [Txt (show_nat (length (q_items q)))]]),
      El ''div'' [] (map (\<lambda>(v, label). Btn [(''data-testid'', ''escalation-filter-'' @ v),
          (''color'', if q_statusFilter q = v then ''var(--color-accent-red)'' else ''oklch(0.55 0.00 0)'')] False (FilterClick v) [Txt label]) ESCALATION_TABS),
      (if q_items q = [] then EmptyState ''No escalations''
           (Some (if q_statusFilter q = ''open'' then ''All clear - no open escalations requiring attention.''
             else ''No '' @ (if q_statusFilter q = ''all'' then [] else q_statusFilter q) @ '' escalations found.'')) []
       else El ''div'' [] (map (\<lambda>item. lift_node (OnCard (eit_id item))
           (EscalationCard D now item (q_cards q (eit_id item)))) (q_items q)))]"

definition escalation_item :: "date_lib \<Rightarrow> escalation_row \<Rightarrow> EscalationItem" where
  "escalation_item D r = \<lparr>eit_id = se_id r, eit_severity = se_severity r, eit_rationale = Some (se_rationale r),
     eit_recommendation = se_recommendation r, eit_confidence = se_confidence r, eit_timeout_seconds = se_timeout_seconds r,
     eit_timeout_action = se_timeout_action r, eit_status = se_status r, eit_resolution_notes = se_resolution_notes r,
     eit_created_at = DateStr (dl_toISOString D (se_created_at r)), eit_trigger_run_id = se_trigger_run_id r\<rparr>"

definition fetch_escalations :: "date_lib \<Rightarrow> string \<Rightarrow> string \<Rightarrow> escalation_row list \<Rightarrow> EscalationItem list" where
  "fetch_escalations D tenantId f rows = map (escalation_item D)
     (fst (listEscalations tenantId \<lparr>le_status = status_param f, le_severity = None\<rparr> 20 None rows))"

definition escalation_mutate :: "string \<Rightarrow> string \<Rightarrow> escalation_mutation \<Rightarrow> int \<Rightarrow> escalation_op" where
  "escalation_mutate tenantId userId m now = \<lparr>eo_kind = em_kind m, eo_notes = Some (em_notes m), eo_id = em_id m,
     eo_tenant = tenantId, eo_user = userId, eo_now = now\<rparr>"

definition escalation_desk ::
  "date_lib \<Rightarrow> int \<Rightarrow> (string \<Rightarrow> bool) \<Rightarrow> string \<Rightarrow> string
   \<Rightarrow> (EscalationItem, escalation_card, escalation_card_event, escalation_mutation, escalation_op, escalation_row) desk_env" where
  "escalation_desk D now is_uuid tenantId userId = \<lparr>de_item_id = eit_id, de_fresh = new_escalation_card,
     de_view = EscalationCard D now, de_step = escalation_card_step, de_tabs = map fst ESCALATION_TABS,
     de_list = fetch_escalations D tenantId, de_op = escalation_mutate tenantId userId, de_mid = em_id,
     de_chk = escalation_check is_uuid, de_upd = escalation_write, de_expire = (\<lambda>t rows. fst (expireEscalations t rows))\<rparr>"

section \<open>The page\<close>

text \<open>
  \<open>page.tsx\<close> loads both lists before it renders; when one of the two queries fails, both are empty.
\<close>

definition SupervisorPage ::
  "(api_error + EscalationItem list) \<Rightarrow> (api_error + ProposalItem list) \<Rightarrow> EscalationItem list \<times> ProposalItem list" where
  "SupervisorPage escalations proposals =
    (case (escalations, proposals) of (Inr es, Inr ps) \<Rightarrow> (es, ps) | _ \<Rightarrow> ([], []))"

text \<open>
  So a failed query of the proposals hides every open escalation: the page then says that there is none.
\<close>

theorem failed_load_hides_escalations:
  "''All clear - no open escalations requiring attention.'' \<in> set (shown (EscalationQueue D now
     \<lparr>q_items = fst (SupervisorPage (Inr escalations) (Inl err)), q_statusFilter = ''open'', q_cards = (\<lambda>_. new_escalation_card)\<rparr>))"
  by (simp add: EscalationQueue_def SupervisorPage_def EmptyState_def render_text_def)

section \<open>Proposals: what the reviewer confirms is what is stored\<close>

definition proposal_sane :: "proposal_mutation \<Rightarrow> bool" where
  "proposal_sane m = (case m of ApproveMutation _ _ \<Rightarrow> True | RejectMutation _ notes \<Rightarrow> trim notes \<noteq> [])"

lemma handleReject_blank:
  "trim (pc_notes c) = [] \<Longrightarrow> handleReject item c = (c\<lparr>pc_notesError := Some ''Rejection reason is required''\<rparr>, None)"
  by (simp add: handleReject_def)

lemma proposal_card_sends:
  "proposal_card_step item c e = (c', Some m) \<Longrightarrow> proposal_sane m \<and> proposal_target m = pit_id item"
  by (cases e) (auto simp: handleApprove_def handleReject_def proposal_sane_def split: if_splits)

interpretation pq: review_cards "proposal_desk D now is_uuid tenantId userId" "\<lambda>S k c. True" "\<lambda>S m. proposal_sane m"
  for D now is_uuid tenantId userId
proof
  fix i S c e c' and r :: "proposal_mutation option"
  assume "i \<in> S" and "de_step (proposal_desk D now is_uuid tenantId userId) i c e = (c', r)"
  then show "True \<and> (\<forall>x. r = Some x \<longrightarrow> proposal_sane x
      \<and> (\<exists>j\<in>S. de_item_id (proposal_desk D now is_uuid tenantId userId) j = de_mid (proposal_desk D now is_uuid tenantId userId) x))"
    using proposal_card_sends [of i c e c'] by (auto simp: proposal_desk_def)
qed simp_all


section \<open>Escalations: requests follow what was shown\<close>

definition shown_with :: "EscalationItem set \<Rightarrow> string \<Rightarrow> escalation_kind \<Rightarrow> bool" where
  "shown_with S k a \<longleftrightarrow> (\<exists>i\<in>S. eit_id i = k \<and> eit_status i = required_status a)"

lemma shown_with_mono: "shown_with S k a \<Longrightarrow> S \<subseteq> T \<Longrightarrow> shown_with T k a"
  by (auto simp: shown_with_def)

lemma escalation_facts_inert [simp]: "\<not> offers (escalation_facts D now item) e"
  by (simp add: escalation_facts_def split: option.split)

lemma ex_kind: "(\<exists>k. P k) \<longleftrightarrow> P Acknowledge \<or> P Resolve"
  by (metis escalation_kind.exhaust)

lemma offered_EscalationCard:
  "offered (EscalationCard D now item c) e \<longleftrightarrow>
    (if ec_showNotes c then e \<in> {ConfirmAction, HideNotes} \<or> (\<exists>s. e = EscalationNotes s)
     else (\<exists>k. e = StartAction k \<and> eit_status item = required_status k))"
  by (auto simp: EscalationCard_def escalation_form_def escalation_buttons_def required_status_def ex_kind)

interpretation eq: review_cards "escalation_desk D now is_uuid tenantId userId"
  "\<lambda>S k c. ec_showNotes c \<longrightarrow> shown_with S k (ec_actionType c)" "\<lambda>S m. shown_with S (em_id m) (em_kind m)"
  for D now is_uuid tenantId userId
proof
  fix i S c e c' and r :: "escalation_mutation option"
  let ?E = "escalation_desk D now is_uuid tenantId userId"
  assume "i \<in> S" "ec_showNotes c \<longrightarrow> shown_with S (de_item_id ?E i) (ec_actionType c)"
    "offered (de_view ?E i c) e" "de_step ?E i c e = (c', r)"
  then show "(ec_showNotes c' \<longrightarrow> shown_with S (de_item_id ?E i) (ec_actionType c'))
      \<and> (\<forall>x. r = Some x \<longrightarrow> shown_with S (em_id x) (em_kind x) \<and> (\<exists>j\<in>S. de_item_id ?E j = de_mid ?E x))"
    by (cases e) (auto simp: escalation_desk_def offered_EscalationCard shown_with_def split: if_splits)
qed (auto simp: escalation_desk_def new_escalation_card_def intro: shown_with_mono)

text \<open>
  C25: In every run of the escalation queue with its server, each escalation is acknowledged at most once
  and resolved at most once by this queue. An acknowledgement was sent only for an escalation that was
  shown as open and a resolution only for one that was shown as acknowledged, whatever the lists
  in flight brought in between; the row names the reviewer and holds the notes of the resolution.
\<close>

theorem escalation_queue_decisions:
  assumes "desk_reach (escalation_desk D now is_uuid tenantId userId) rows0 items0 s" and "distinct (map se_id rows0)"
  shows "distinct (map (\<lambda>d. (eo_id (snd d), eo_kind (snd d))) (dk_decided s))
    \<and> (\<forall>(m, op)\<in>set (dk_decided s).
        (\<exists>i\<in>dk_seen s. eit_id i = em_id m \<and> eit_status i = (case em_kind m of Acknowledge \<Rightarrow> ''open'' | Resolve \<Rightarrow> ''acknowledged''))
        \<and> (\<exists>r\<in>set (sy_rows (dk_server s)). se_id r = em_id m
            \<and> (case em_kind m of
                 Acknowledge \<Rightarrow> se_acknowledged_by r = Some userId \<and> se_status r \<in> {''acknowledged'', ''resolved''}
               | Resolve \<Rightarrow> se_status r = ''resolved'' \<and> se_resolution_notes r = Some (em_notes m))))"
proof (intro conjI ballI)
  have srv: "review_reach (escalation_check is_uuid) escalation_write (\<lambda>t rows. fst (expireEscalations t rows)) rows0 (dk_server s)"
    using desk_server_reach [OF assms(1)] by (simp add: escalation_desk_def)
  note book = desk_reach_book [OF assms(1)]
  have "distinct (map (\<lambda>op. (eo_id op, kind_stage (eo_kind op))) (sy_done (dk_server s)))"
    by (rule er.decisions_unique(1) [OF srv assms(2)])
  then have "distinct (map (\<lambda>op. (eo_id op, eo_kind op)) (sy_done (dk_server s)))" by (auto simp: distinct_map inj_on_def)
  from decided_distinct [OF book this] show "distinct (map (\<lambda>d. (eo_id (snd d), eo_kind (snd d))) (dk_decided s))" .
  fix d assume d: "d \<in> set (dk_decided s)"
  obtain m op where d_eq: "d = (m, op)" by fastforce
  from d d_eq book have m: "m \<in> set (dk_log s)" and op: "\<exists>t. op = escalation_mutate tenantId userId m t"
    by (auto simp: desk_book_def own_ops_def escalation_desk_def)
  have seen: "shown_with (dk_seen s) (em_id m) (em_kind m)" using eq.sent_good(1) [OF assms(1) m] .
  obtain r where "r \<in> set (sy_rows (dk_server s))" "se_id r = eo_id op" "escalation_mark op r"
    using er.decisions_unique(2) [OF srv assms(2) decided_done [OF book d [unfolded d_eq]]] by auto
  with op have "\<exists>r\<in>set (sy_rows (dk_server s)). se_id r = em_id m
      \<and> (case em_kind m of Acknowledge \<Rightarrow> se_acknowledged_by r = Some userId \<and> se_status r \<in> {''acknowledged'', ''resolved''}
         | Resolve \<Rightarrow> se_status r = ''resolved'' \<and> se_resolution_notes r = Some (em_notes m))"
    by (intro bexI [of _ r]) (auto simp: escalation_mark_def escalation_mutate_def split: escalation_kind.splits)
  with seen d_eq show "case d of (m, op) \<Rightarrow>
      (\<exists>i\<in>dk_seen s. eit_id i = em_id m \<and> eit_status i = (case em_kind m of Acknowledge \<Rightarrow> ''open'' | Resolve \<Rightarrow> ''acknowledged''))
      \<and> (\<exists>r\<in>set (sy_rows (dk_server s)). se_id r = em_id m
          \<and> (case em_kind m of
               Acknowledge \<Rightarrow> se_acknowledged_by r = Some userId \<and> se_status r \<in> {''acknowledged'', ''resolved''}
             | Resolve \<Rightarrow> se_status r = ''resolved'' \<and> se_resolution_notes r = Some (em_notes m)))"
    by (simp add: shown_with_def required_status_def)
qed

section \<open>Runs of the queues\<close>

definition ex_dates :: date_lib where
  "ex_dates = \<lparr>dl_parse = (\<lambda>_. Some 0), dl_toISOString = (\<lambda>_. ''d''), dl_toLocaleString = (\<lambda>_. ''d''), dl_toLocaleDateString = (\<lambda>_. ''d''),
     dl_toLocaleTimeString = (\<lambda>_. ''d'')\<rparr>"

abbreviation ex_desk where "ex_desk \<equiv> proposal_desk ex_dates 0 (\<lambda>_. True) ''t'' ''u''"

abbreviation ex_pitem where "ex_pitem \<equiv> proposal_item ex_dates ex_proposal"

abbreviation ex_approve_op where "ex_approve_op \<equiv> proposal_op ''t'' ''u'' (ApproveMutation ''p'' []) 5"

lemma ex_fetch: "fetch_proposals ex_dates ''t'' ''pending'' [ex_proposal] = [ex_pitem]"
  by (simp add: fetch_proposals_def listProposals_def page_def proposals_matching_def status_param_def ex_proposal_def)

lemma ex_pitem_id: "pit_id ex_pitem = ''p''"
  by (simp add: proposal_item_def ex_proposal_def)

lemma ex_approve_ok:
  "review_check (\<lambda>_. True) ex_approve_op [ex_proposal] = Inr ()"
  "review_write ex_approve_op [ex_proposal] = Inr (reviewed ex_approve_op ex_proposal, [reviewed ex_approve_op ex_proposal])"
  by (simp_all add: review_check_def proposal_input_ok_def review_write_def first_updated_def update_where_def ex_proposal_def)

text \<open>The list is fetched, the proposal approved and gone from the list; then the tab is pressed again.\<close>

lemma ex_approve_run:
  "\<exists>s. desk_reach ex_desk [ex_proposal] [] s
    \<and> dk_decided s = [(ApproveMutation ''p'' [], ex_approve_op)]
    \<and> dk_seen s = {ex_pitem} \<and> sy_rows (dk_server s) = [reviewed ex_approve_op ex_proposal]
    \<and> dk_lists s = [] \<and> dk_answers s = [] \<and> dk_sent s = [] \<and> dk_replies s = []
    \<and> q_items (dk_queue s) = [ex_pitem] \<and> q_statusFilter (dk_queue s) = ''pending''
    \<and> q_cards (dk_queue s) ''p'' = new_proposal_card"
proof -
  let ?R = "desk_reach ex_desk [ex_proposal] []"
  let ?S = "\<lambda>items cards srv lists answers cache sent checked replies seen ms decided.
    \<lparr>dk_queue = \<lparr>q_items = items, q_statusFilter = ''pending'', q_cards = cards\<rparr>, dk_server = srv, dk_lists = lists,
     dk_answers = answers, dk_cache = cache, dk_sent = sent, dk_checked = checked, dk_replies = replies,
     dk_seen = seen, dk_log = ms, dk_decided = decided\<rparr>"
  let ?fresh = "\<lambda>_. new_proposal_card"
  let ?open = "\<lambda>k. if k = ''p'' then new_proposal_card\<lparr>pc_action := Some ActApprove\<rparr> else new_proposal_card"
  let ?m = "ApproveMutation ''p'' []" and ?op = ex_approve_op and ?it = ex_pitem
  let ?c = "[(''pending'', [?it])]" and ?row = "reviewed ex_approve_op ex_proposal"
  let ?v0 = "\<lparr>sy_rows = [ex_proposal], sy_in_flight = [], sy_done = []\<rparr>"
  let ?v1 = "\<lparr>sy_rows = [ex_proposal], sy_in_flight = [?op], sy_done = []\<rparr>"
  let ?v2 = "\<lparr>sy_rows = [?row], sy_in_flight = [], sy_done = [?op]\<rparr>"
  have tab: "''pending'' \<in> set (de_tabs ex_desk)" by (simp add: proposal_desk_def PROPOSAL_TABS_def)
  have s0: "?R (?S [] ?fresh ?v0 [''pending''] [] [] [] [] [] {} [] [])"
    using desk_reach.filter_sent [OF desk_reach.start [OF tab] tab, of "[ex_proposal]" "[]"] by (simp add: proposal_desk_def)
  have s1: "?R (?S [] ?fresh ?v0 [] [[?it]] ?c [] [] [] {} [] [])"
    using desk_reach.list_served [OF s0, of "''pending''" "[?it]"] by (simp add: proposal_desk_def ex_fetch)
  have s2: "?R (?S [?it] ?fresh ?v0 [] [] ?c [] [] [] {?it} [] [])"
    using desk_reach.answer [OF s1, of "[?it]"] by (simp add: proposal_desk_def set_items_def cong: if_cong)
  have s3: "?R (?S [?it] ?open ?v0 [] [] ?c [] [] [] {?it} [] [])"
    using desk_reach.card [OF s2, of ?it "SetAction ActApprove"]
    by (simp add: proposal_desk_def ex_pitem_id opt_list_def ProposalCard_def proposal_buttons_def new_proposal_card_def fun_upd_def
        cong: if_cong)
  have s4: "?R (?S [?it] ?fresh ?v0 [] [] ?c [?m] [] [] {?it} [?m] [])"
    using desk_reach.card [OF s3, of ?it HandleApprove]
    by (simp add: proposal_desk_def ex_pitem_id opt_list_def ProposalCard_def proposal_form_def handleApprove_def
        new_proposal_card_def fun_upd_def cong: if_cong)
  have s5: "?R (?S [?it] ?fresh ?v1 [] [] ?c [] [(?m, ?op)] [] {?it} [?m] [])"
    using desk_reach.own_check [OF s4, of ?m 5] ex_approve_ok by (simp add: proposal_desk_def)
  have s6: "?R (?S [?it] ?fresh ?v2 [] [] ?c [] [] [''p''] {?it} [?m] [(?m, ?op)])"
    using desk_reach.own_write [OF s5, of ?m ?op ?row "[?row]"] ex_approve_ok by (simp add: proposal_desk_def)
  have s7: "?R (?S [] ?fresh ?v2 [] [] ?c [] [] [] {?it} [?m] [(?m, ?op)])"
    using desk_reach.reply [OF s6, of "''p''"] by (simp add: proposal_desk_def onSuccess_def set_items_def ex_pitem_id cong: if_cong)
  have s8: "?R (?S [] ?fresh ?v2 [] [[?it]] ?c [] [] [] {?it} [?m] [(?m, ?op)])"
    using desk_reach.filter_cached [OF s7 tab, of "[?it]"] by (simp add: proposal_desk_def)
  have s9: "?R (?S [?it] ?fresh ?v2 [] [] ?c [] [] [] {?it} [?m] [(?m, ?op)])"
    using desk_reach.answer [OF s8, of "[?it]"] by (simp add: proposal_desk_def set_items_def cong: if_cong)
  show ?thesis by (rule exI, rule conjI, rule s9) simp
qed


text \<open>
  The queue does not invalidate the query cache when a proposal is decided: after an approval,
  pressing the tab of the pending proposals may show the old list, with the approved proposal as
  pending and with its buttons, and with nothing under way that would correct it. (The client of
  \<open>lib/trpc-provider.tsx\<close> keeps answers fresh for 30 seconds.)
\<close>

theorem decided_proposal_shown_as_pending:
  "\<exists>s. desk_reach ex_desk [ex_proposal] [] s \<and> dk_lists s = [] \<and> dk_answers s = [] \<and> dk_sent s = [] \<and> dk_replies s = []
    \<and> q_statusFilter (dk_queue s) = ''pending''
    \<and> (\<exists>i\<in>set (q_items (dk_queue s)). \<exists>r\<in>set (sy_rows (dk_server s)).
         pit_id i = sp_id r \<and> sp_status r = ''approved'' \<and> pit_status i = ''pending'')
    \<and> offered (ProposalQueue ex_dates 0 (dk_queue s)) (OnCard ''p'' (SetAction ActReject))"
proof -
  obtain s where s: "desk_reach ex_desk [ex_proposal] [] s" "sy_rows (dk_server s) = [reviewed ex_approve_op ex_proposal]"
    "dk_lists s = []" "dk_answers s = []" "dk_sent s = []" "dk_replies s = []"
    "q_items (dk_queue s) = [ex_pitem]" "q_statusFilter (dk_queue s) = ''pending''" "q_cards (dk_queue s) ''p'' = new_proposal_card"
    using ex_approve_run by (elim exE conjE) (rule that)
  have "offered (ProposalCard ex_dates 0 ex_pitem new_proposal_card) (SetAction ActReject)"
    by (simp add: ProposalCard_def proposal_buttons_def new_proposal_card_def)
  with s have "offered (ProposalQueue ex_dates 0 (dk_queue s)) (OnCard ''p'' (SetAction ActReject))"
    by (simp add: ProposalQueue_def offered_lift ex_pitem_id offers_map)
  moreover have "pit_id ex_pitem = sp_id (reviewed ex_approve_op ex_proposal)"
    "sp_status (reviewed ex_approve_op ex_proposal) = ''approved''" "pit_status ex_pitem = ''pending''"
    by (simp_all add: reviewed_def proposal_item_def ex_proposal_def)
  ultimately show ?thesis using s by (intro exI [of _ s]) simp
qed

abbreviation ex_edesk where "ex_edesk \<equiv> escalation_desk ex_dates 0 (\<lambda>_. True) ''t'' ''u''"

abbreviation ex_eitem where "ex_eitem \<equiv> escalation_item ex_dates ex_escalation"

abbreviation ex_ack_mutation where "ex_ack_mutation \<equiv> EscalationMutation Acknowledge ''e'' []"

abbreviation ex_ack_op where "ex_ack_op \<equiv> escalation_mutate ''t'' ''u'' ex_ack_mutation 5"

lemma ex_ack_ok:
  "escalation_check (\<lambda>_. True) ex_ack_op [ex_escalation] = Inr ()"
  "escalation_write ex_ack_op [ex_escalation] = Inr (escalation_set ex_ack_op ex_escalation, [escalation_set ex_ack_op ex_escalation])"
  by (simp_all add: escalation_check_def escalation_mutate_def required_status_def escalation_write_def first_updated_def
      update_where_def ex_escalation_def)

lemma ex_ack_run:
  "\<exists>s. desk_reach ex_edesk [ex_escalation] [ex_eitem] s \<and> dk_decided s = [(ex_ack_mutation, ex_ack_op)]"
proof -
  let ?R = "desk_reach ex_edesk [ex_escalation] [ex_eitem]"
  let ?S = "\<lambda>cards srv sent checked replies ms decided.
    \<lparr>dk_queue = \<lparr>q_items = [ex_eitem], q_statusFilter = ''open'', q_cards = cards\<rparr>, dk_server = srv, dk_lists = [],
     dk_answers = [], dk_cache = [], dk_sent = sent, dk_checked = checked, dk_replies = replies,
     dk_seen = {ex_eitem}, dk_log = ms, dk_decided = decided\<rparr>"
  let ?fresh = "\<lambda>_. new_escalation_card"
  let ?open = "\<lambda>k. if k = ''e'' then new_escalation_card\<lparr>ec_showNotes := True\<rparr> else new_escalation_card"
  let ?m = ex_ack_mutation and ?op = ex_ack_op
  let ?v0 = "\<lparr>sy_rows = [ex_escalation], sy_in_flight = [], sy_done = []\<rparr>"
  let ?v1 = "\<lparr>sy_rows = [ex_escalation], sy_in_flight = [?op], sy_done = []\<rparr>"
  let ?v2 = "\<lparr>sy_rows = [escalation_set ?op ex_escalation], sy_in_flight = [], sy_done = [?op]\<rparr>"
  have id: "eit_id ex_eitem = ''e''" "eit_status ex_eitem = ''open''" by (simp_all add: escalation_item_def ex_escalation_def)
  have s0: "?R (?S ?fresh ?v0 [] [] [] [] [])"
    using desk_reach.start [of "''open''" ex_edesk "[ex_escalation]" "[ex_eitem]"] by (simp add: escalation_desk_def ESCALATION_TABS_def)
  have s1: "?R (?S ?open ?v0 [] [] [] [] [])"
    using desk_reach.card [OF s0, of ex_eitem "StartAction Acknowledge"]
    by (simp add: escalation_desk_def id opt_list_def offered_EscalationCard required_status_def new_escalation_card_def fun_upd_def
        cong: if_cong)
  have s2: "?R (?S ?open ?v0 [?m] [] [] [?m] [])"
    using desk_reach.card [OF s1, of ex_eitem ConfirmAction]
    by (simp add: escalation_desk_def id opt_list_def offered_EscalationCard new_escalation_card_def fun_upd_def cong: if_cong)
  have s3: "?R (?S ?open ?v1 [] [(?m, ?op)] [] [?m] [])"
    using desk_reach.own_check [OF s2, of ?m 5] ex_ack_ok by (simp add: escalation_desk_def)
  have s4: "?R (?S ?open ?v2 [] [] [''e''] [?m] [(?m, ?op)])"
    using desk_reach.own_write [OF s3, of ?m ?op] ex_ack_ok by (simp add: escalation_desk_def)
  show ?thesis by (rule exI, rule conjI, rule s4) simp
qed

theorem escalation_queue_decisions_witness:
  "\<exists>s :: (EscalationItem, escalation_card, escalation_mutation, escalation_op, escalation_row) desk.
    length (dk_decided s) = 1 \<and> (\<exists>i\<in>dk_seen s. eit_id i = ''e'' \<and> eit_status i = ''open'')
    \<and> (\<exists>r\<in>set (sy_rows (dk_server s)). se_id r = ''e'' \<and> se_acknowledged_by r = Some ''u'')"
proof -
  obtain s where r: "desk_reach ex_edesk [ex_escalation] [ex_eitem] s" and d: "dk_decided s = [(ex_ack_mutation, ex_ack_op)]"
    using ex_ack_run by blast
  from escalation_queue_decisions [OF r] d show ?thesis by (intro exI [of _ s]) auto
qed

text \<open>A resolution replaces the notes of the acknowledgement, also when its own field was left empty.\<close>

theorem resolution_erases_notes:
  "se_resolution_notes (escalation_set (escalation_mutate tenantId userId (EscalationMutation Resolve rid []) now) r) = Some []"
  by (simp add: escalation_set_def escalation_mutate_def)

end
