(* ===== verification/Web_Lists.thy ===== *)
theory Web_Lists
  imports Web_Library Policy_Packs Runs_Router Verify_Router
begin

text \<open>
  The paged lists of the dashboard and the page of a run: \<open>runs/runs-table.tsx\<close>, \<open>policies/policy-list.tsx\<close>,
  \<open>runs/[runId]/event-timeline.tsx\<close> with \<open>event-detail.tsx\<close>, \<open>run-header.tsx\<close> and \<open>components/ui/chain-badge.tsx\<close>.
  The three lists share their way of loading: a page at a time, with the cursor of the last page;
  the table of the runs can change its filter meanwhile. A list that offers no further page shows
  every row once, in order; a filter that is changed while a page is being loaded breaks this.
\<close>

section \<open>Loading a list\<close>

text \<open>
  \<open>tb_requests\<close> are the fetches under way: the filter, and the cursor of \<open>Load more\<close>; a fetch after
  a change of the filter has none.
\<close>

record ('f, 'i) list_state =
  tb_filter :: 'f
  tb_items :: "'i list"
  tb_nextCursor :: "int option"
  tb_loadingMore :: bool
  tb_requests :: "('f \<times> int option) list"

definition list_init :: "'f \<Rightarrow> 'i list \<times> int option \<Rightarrow> ('f, 'i) list_state" where
  "list_init f initial = \<lparr>tb_filter = f, tb_items = fst initial, tb_nextCursor = snd initial, tb_loadingMore = False, tb_requests = []\<rparr>"

definition handleLoadMore :: "('f, 'i) list_state \<Rightarrow> ('f, 'i) list_state" where
  "handleLoadMore s = (case tb_nextCursor s of
     None \<Rightarrow> s
   | Some c \<Rightarrow> if tb_loadingMore s then s
       else s\<lparr>tb_loadingMore := True, tb_requests := tb_requests s @ [(tb_filter s, Some c)]\<rparr>)"

definition handleFilterChange :: "'f \<Rightarrow> ('f, 'i) list_state \<Rightarrow> ('f, 'i) list_state" where
  "handleFilterChange f s = s\<lparr>tb_filter := f, tb_loadingMore := True, tb_requests := tb_requests s @ [(f, None)]\<rparr>"

definition list_answer :: "'f \<times> int option \<Rightarrow> 'i list \<times> int option \<Rightarrow> ('f, 'i) list_state \<Rightarrow> ('f, 'i) list_state" where
  "list_answer r result s = s\<lparr>tb_items := (if snd r = None then fst result else tb_items s @ fst result),
     tb_nextCursor := snd result, tb_loadingMore := False, tb_requests := remove1 r (tb_requests s)\<rparr>"

definition list_failure :: "'f \<times> int option \<Rightarrow> ('f, 'i) list_state \<Rightarrow> ('f, 'i) list_state" where
  "list_failure r s = s\<lparr>tb_loadingMore := False, tb_requests := remove1 r (tb_requests s)\<rparr>"

text \<open>
  The runs of a list whose rows on the server do not change. In a \<open>calm\<close> run the filter is
  changed only when nothing is being loaded, and no fetch fails.
\<close>

inductive list_reach ::
  "bool \<Rightarrow> ('f \<Rightarrow> int option \<Rightarrow> 'i list \<times> int option) \<Rightarrow> 'f \<Rightarrow> ('f, 'i) list_state \<Rightarrow> bool"
  for calm :: bool and ask :: "'f \<Rightarrow> int option \<Rightarrow> 'i list \<times> int option" and f0 :: 'f where
  start: "list_reach calm ask f0 (list_init f0 (ask f0 None))"
| load_more: "list_reach calm ask f0 s \<Longrightarrow> list_reach calm ask f0 (handleLoadMore s)"
| change_filter: "list_reach calm ask f0 s \<Longrightarrow> calm \<longrightarrow> tb_requests s = [] \<Longrightarrow> list_reach calm ask f0 (handleFilterChange f s)"
| answered: "list_reach calm ask f0 s \<Longrightarrow> (f, c) \<in> set (tb_requests s) \<Longrightarrow>
    list_reach calm ask f0 (list_answer (f, c) (ask f c) s)"
| failed: "list_reach calm ask f0 s \<Longrightarrow> \<not> calm \<Longrightarrow> r \<in> set (tb_requests s) \<Longrightarrow> list_reach calm ask f0 (list_failure r s)"

text \<open>The items are the beginning of the whole list, and the rest starts at the cursor.\<close>

definition prefix_of_all ::
  "('f \<Rightarrow> int option \<Rightarrow> 'i list \<times> int option) \<Rightarrow> 'f \<Rightarrow> 'i list \<Rightarrow> int option \<Rightarrow> bool" where
  "prefix_of_all ask f items nc \<longleftrightarrow> (\<forall>all k. follow (ask f) k None = Some all \<longrightarrow>
     (case nc of None \<Rightarrow> items = all | Some c \<Rightarrow> \<exists>k rest. follow (ask f) k (Some c) = Some rest \<and> all = items @ rest))"

lemma prefix_first: "prefix_of_all ask f (fst (ask f None)) (snd (ask f None))"
  unfolding prefix_of_all_def
proof (intro allI impI)
  fix all k assume "follow (ask f) k None = Some all"
  then show "case snd (ask f None) of None \<Rightarrow> fst (ask f None) = all
      | Some c \<Rightarrow> \<exists>k rest. follow (ask f) k (Some c) = Some rest \<and> all = fst (ask f None) @ rest"
    by (cases k) (auto split: prod.splits option.splits)
qed

lemma prefix_next:
  assumes "prefix_of_all ask f items (Some c)"
  shows "prefix_of_all ask f (items @ fst (ask f (Some c))) (snd (ask f (Some c)))"
  unfolding prefix_of_all_def
proof (intro allI impI)
  fix all k assume "follow (ask f) k None = Some all"
  with assms obtain k' rest where "follow (ask f) k' (Some c) = Some rest" "all = items @ rest"
    unfolding prefix_of_all_def by fastforce
  then show "case snd (ask f (Some c)) of None \<Rightarrow> items @ fst (ask f (Some c)) = all
      | Some d \<Rightarrow> \<exists>k rest. follow (ask f) k (Some d) = Some rest \<and> all = (items @ fst (ask f (Some c))) @ rest"
    by (cases k') (auto split: prod.splits option.splits)
qed

definition list_ok :: "('f \<Rightarrow> int option \<Rightarrow> 'i list \<times> int option) \<Rightarrow> ('f, 'i) list_state \<Rightarrow> bool" where
  "list_ok ask s \<longleftrightarrow>
    (tb_requests s = [] \<and> \<not> tb_loadingMore s \<and> prefix_of_all ask (tb_filter s) (tb_items s) (tb_nextCursor s))
    \<or> (tb_requests s = [(tb_filter s, None)] \<and> tb_loadingMore s)
    \<or> (\<exists>c. tb_requests s = [(tb_filter s, Some c)] \<and> tb_loadingMore s \<and> tb_nextCursor s = Some c
         \<and> prefix_of_all ask (tb_filter s) (tb_items s) (Some c))"

lemma calm_list_ok:
  assumes "list_reach True ask f0 s"
  shows "list_ok ask s"
  using assms
proof (induction rule: list_reach.induct)
  case start
  then show ?case by (simp add: list_ok_def list_init_def prefix_first)
next
  case (load_more s)
  then show ?case by (auto simp: list_ok_def handleLoadMore_def split: option.split)
next
  case (change_filter s f)
  then show ?case by (simp add: list_ok_def handleFilterChange_def)
next
  case (answered s f c)
  then show ?case
    by (auto simp: list_ok_def list_answer_def prefix_first intro: prefix_next)
qed simp

lemma calm_list_complete:
  assumes "list_reach True ask f0 s" and "tb_requests s = []" and "tb_nextCursor s = None"
    and "follow (ask (tb_filter s)) fuel None = Some all"
  shows "tb_items s = all"
  using calm_list_ok [OF assms(1)] assms(2-4) by (auto simp: list_ok_def prefix_of_all_def)

section \<open>Runs\<close>

definition duration_text :: "string \<Rightarrow> date_lib \<Rightarrow> date_prop option \<Rightarrow> date_prop option \<Rightarrow> string" where
  "duration_text running D startedAt endedAt =
    (if falsy_date startedAt then ''-'' else if falsy_date endedAt then running else
     (case (getTime D (the startedAt), getTime D (the endedAt)) of
        (Some a, Some b) \<Rightarrow>
         (let totalSeconds = (b - a) div 1000 in
          if totalSeconds < 60 then show_int totalSeconds @ ''s'' else
          (let minutes = totalSeconds div 60 in
           if minutes < 60 then show_int minutes @ ''m'' else
           (let hours = minutes div 60; remainingMinutes = minutes mod 60 in
            if remainingMinutes = 0 then show_int hours @ ''h''
            else show_int hours @ ''h '' @ show_int remainingMinutes @ ''m'')))
      | _ \<Rightarrow> ''NaNh NaNm''))"

text \<open>\<open>formatDuration\<close> of the table and of the header differ in the text of a run that goes on.\<close>

definition formatDuration :: "date_lib \<Rightarrow> date_prop option \<Rightarrow> date_prop option \<Rightarrow> string" where
  "formatDuration = duration_text ''Running''"

definition formatDuration_header :: "date_lib \<Rightarrow> date_prop option \<Rightarrow> date_prop option \<Rightarrow> string" where
  "formatDuration_header = duration_text ''Still running''"

definition STATUS_OPTIONS :: "(string \<times> string) list" where
  "STATUS_OPTIONS = [(''all'', ''All statuses''), (''started'', ''Running''), (''completed'', ''Completed''),
     (''terminated_budget'', ''Budget Exceeded''), (''terminated_loop'', ''Loop Terminated''),
     (''terminated_policy'', ''Policy Terminated''), (''abandoned'', ''Abandoned''), (''error'', ''Error'')]"

text \<open>A nullable text column, and a time column as it arrives: as text.\<close>

definition arrived :: "date_lib \<Rightarrow> int option \<Rightarrow> date_prop option" where
  "arrived D t = map_option (\<lambda>m. DateStr (dl_toISOString D m)) t"

datatype runs_event = RunsFilter string | RunsLoadMore | OpenRun string

definition run_cells :: "date_lib \<Rightarrow> int \<Rightarrow> run_row \<Rightarrow> runs_event node list" where
  "run_cells D now run =
    [El ''td'' [] [El ''span'' [(''title'', rr_run_id run)] [Txt (take 8 (rr_run_id run) @ ''...'')]],
     El ''td'' [] [El ''div'' [] (El ''span'' [] [Txt (case str_of (rr_agent_name run) of Some n \<Rightarrow> n | None \<Rightarrow> ''Unknown'')]
       # render_text (str_of (rr_agent_role run)) (\<lambda>t. [El ''span'' [] [Txt t]]))],
     El ''td'' [] [StatusBadge (rr_status run)],
     El ''td'' [] [Txt (show_int (rr_total_call_count run))],
     El ''td'' [] [Txt (''$'' @ toFixed 4 (rr_total_cost_usd run))],
     El ''td'' [] [Txt (formatDuration D (arrived D (rr_started_at run)) (arrived D (rr_ended_at run)))],
     El ''td'' [] [TimeAgo D now (arrived D (rr_started_at run)) ''Never'']]"

definition RunsTable :: "date_lib \<Rightarrow> int \<Rightarrow> (string, run_row) list_state \<Rightarrow> runs_event node" where
  "RunsTable D now s = El ''div'' []
     [El ''div'' [] [El ''select'' [(''value'', tb_filter s), (''data-testid'', ''runs-status-filter'')]
        (map (\<lambda>(v, label). Btn [(''value'', v)] False (RunsFilter v) [Txt label]) STATUS_OPTIONS)],
      (if tb_items s = [] then EmptyState ''No runs found''
         (Some (if tb_filter s = ''all'' then ''No agent runs have been recorded yet.''
           else ''No runs with status '' @ [CHR 0x22] @ tb_filter s @ [CHR 0x22] @ ''.'')) []
       else El ''div'' []
         (El ''table'' []
            [El ''thead'' [] [El ''tr'' [] (map (\<lambda>h. El ''th'' [] [Txt h])
               [''Run ID'', ''Agent'', ''Status'', ''Decisions'', ''Cost'', ''Duration'', ''Started''])],
             El ''tbody'' [] (map (\<lambda>run. El ''tr'' [(''data-testid'', ''run-row-'' @ rr_run_id run)]
               (Btn [(''event'', ''onClick'')] False (OpenRun (rr_run_id run)) [] # run_cells D now run)) (tb_items s))]
          # LoadMoreButton RunsLoadMore (tb_loadingMore s) (tb_nextCursor s \<noteq> None)))]"

text \<open>The page loads the first rows on the server; when that fails the table is empty.\<close>

definition fetch_runs :: "string \<Rightarrow> db \<Rightarrow> string \<Rightarrow> int option \<Rightarrow> run_row list \<times> int option" where
  "fetch_runs tenantId d f cursor = runs_list tenantId (status_param f) 50 cursor d"

definition RunsPage :: "date_lib \<Rightarrow> int \<Rightarrow> (string, run_row) list_state \<Rightarrow> runs_event node" where
  "RunsPage D now s = El ''div'' []
     [PageHeader ''Runs'' (Some ''Agent run history with enforcement decisions and audit chain status'') [], RunsTable D now s]"

section \<open>Policies\<close>

datatype policies_event = OpenPolicy string | PoliciesLoadMore | NewPolicy

definition policy_card :: "date_lib \<Rightarrow> int \<Rightarrow> policy_row \<Rightarrow> policies_event node" where
  "policy_card D now p = Btn [(''data-testid'', ''policy-card-'' @ pk_id p)] False (OpenPolicy (pk_id p))
     ([El ''div'' [] [El ''span'' [] [Txt (pk_name p)],
         El ''span'' [] [Txt (if pk_is_active p then ''Active'' else ''Inactive'')]]]
      @ render_text (pk_description p) (\<lambda>t. [El ''p'' [] [Txt t]])
      @ [El ''div'' []
          (render_text (pk_agent_role p) (\<lambda>t. [El ''span'' [] [Txt t]])
           @ render_text (pk_environment p) (\<lambda>t. [El ''span'' [] [Txt t]])
           @ [El ''span'' [] [Txt (''v'' @ show_nat (pk_version p))]]),
         El ''div'' [] [Txt ''Updated '', TimeAgo D now (arrived D (Some (pk_updated_at p))) ''Never'']])"

definition PolicyList :: "date_lib \<Rightarrow> int \<Rightarrow> (unit, policy_row) list_state \<Rightarrow> policies_event node" where
  "PolicyList D now s =
    (if tb_items s = [] then EmptyState ''No policies''
       (Some ''Create your first policy pack to start enforcing rules on agent tool calls.'') []
     else El ''div'' []
       (El ''div'' [] (map (policy_card D now) (tb_items s))
        # LoadMoreButton PoliciesLoadMore (tb_loadingMore s) (tb_nextCursor s \<noteq> None)))"

definition fetch_policies :: "string \<Rightarrow> policy_row list \<Rightarrow> unit \<Rightarrow> int option \<Rightarrow> policy_row list \<times> int option" where
  "fetch_policies tenantId rows _ cursor = policies_list tenantId False 50 cursor rows"

definition PoliciesPage :: "date_lib \<Rightarrow> int \<Rightarrow> (unit, policy_row) list_state \<Rightarrow> policies_event node" where
  "PoliciesPage D now s = El ''div'' []
     [PageHeader ''Policies'' (Some ''Policy packs define enforcement rules for agent tool calls'')
        [Btn [(''href'', ''/policies/new''), (''data-testid'', ''btn-create-policy'')] False NewPolicy [Txt ''+ Create Policy'']],
      PolicyList D now s]"

section \<open>Events of a run\<close>

text \<open>An event is kept folded or unfolded; so is the viewer of its arguments.\<close>

datatype detail_event = ToggleEvent | ToggleArgs

record detail_state =
  ds_expanded :: bool
  ds_args_expanded :: bool

definition new_detail :: detail_state where
  "new_detail = \<lparr>ds_expanded = False, ds_args_expanded = False\<rparr>"

text \<open>Folding an event unmounts the viewer, which starts folded again.\<close>

fun detail_step :: "detail_event \<Rightarrow> detail_state \<Rightarrow> detail_state" where
  "detail_step ToggleEvent s = \<lparr>ds_expanded = \<not> ds_expanded s, ds_args_expanded = False\<rparr>"
| "detail_step ToggleArgs s = s\<lparr>ds_args_expanded := \<not> ds_args_expanded s\<rparr>"

definition HashField :: "string \<Rightarrow> string \<Rightarrow> 'e node" where
  "HashField v label = El ''div'' [] [El ''div'' [] [Txt label],
     El ''span'' [(''title'', label @ '': '' @ v @ '' (SHA-256, tamper-evident chain link)'')] [Txt (take 16 v @ ''...'')]]"

definition labelled_text :: "string \<Rightarrow> string option \<Rightarrow> 'e node list" where
  "labelled_text label s = render_text s (\<lambda>t. [El ''div'' [] [El ''div'' [] [Txt label], El ''span'' [] [Txt t]]])"

definition labelled_number :: "(jnum \<Rightarrow> string) \<Rightarrow> string \<Rightarrow> jsval \<Rightarrow> 'e node list" where
  "labelled_number show_num label v =
     (case v of JNum x \<Rightarrow> [El ''div'' [] [El ''div'' [] [Txt label], El ''span'' [] [Txt (show_num x)]]] | _ \<Rightarrow> [])"

definition is_supervisor_event :: "event_item \<Rightarrow> bool" where
  "is_supervisor_event e = startsWith (et_event_type e) ''supervisor_''"

definition event_summary :: "date_lib \<Rightarrow> event_item \<Rightarrow> detail_state \<Rightarrow> detail_event node" where
  "event_summary D e s = Btn [(''data-testid'', ''event-detail-'' @ show_int (et_seq e))] False ToggleEvent
     ([El ''span'' [] [Txt (''#'' @ show_int (et_seq e))],
       El ''span'' [] [Txt (dl_toLocaleTimeString D (et_ts e))],
       El ''span'' [(''fontStyle'', if is_supervisor_event e then ''italic'' else ''normal'')] [Txt (et_event_type e)]]
      @ render_text (str_of (et_col e ''tool'')) (\<lambda>t. [El ''span'' [] [Txt t]])
      @ render_text (str_of (et_col e ''decision'')) (\<lambda>t. [DecisionBadge t])
      @ (case et_col e ''latency_ms'' of JNum x \<Rightarrow> [El ''span'' [] [Txt (num_string x @ ''ms'')]] | _ \<Rightarrow> [])
      @ [El ''span'' [] [Txt (if ds_expanded s then ''v'' else ''>'')]])"

text \<open>\<open>locale_num\<close> is \<open>Number.prototype.toLocaleString\<close>.\<close>

definition event_fields :: "(jnum \<Rightarrow> string) \<Rightarrow> event_item \<Rightarrow> bool \<Rightarrow> detail_event node list" where
  "event_fields locale_num e args_expanded =
    [HashField (et_hash e) ''Event Hash'']
    @ render_text (str_of (et_col e ''args_hash'')) (\<lambda>t. [HashField t ''Args Hash''])
    @ labelled_text ''Rule'' (str_of (et_col e ''rule_id''))
    @ labelled_text ''Reason'' (str_of (et_col e ''reason''))
    @ labelled_text ''Model'' (str_of (et_col e ''model''))
    @ labelled_number locale_num ''Input Tokens'' (et_col e ''input_tokens'')
    @ labelled_number locale_num ''Output Tokens'' (et_col e ''output_tokens'')
    @ labelled_number (\<lambda>x. ''$'' @ toFixed 6 (num_val x)) ''Cost'' (et_col e ''estimated_cost_usd'')
    @ render_if (et_col e ''args_redacted'' \<noteq> JNull)
        [El ''div'' [] [El ''div'' [] [Txt ''Args (redacted)''],
           lift_node (\<lambda>_. ToggleArgs) (JsonViewer args_expanded (et_col e ''args_redacted''))]]"

definition EventDetail :: "date_lib \<Rightarrow> (jnum \<Rightarrow> string) \<Rightarrow> event_item \<Rightarrow> detail_state \<Rightarrow> detail_event node" where
  "EventDetail D locale_num e s = El ''div''
     [(''borderColor'', if is_supervisor_event e then ''rgba(196, 169, 107, 0.3)'' else ''var(--color-border)'')]
     (event_summary D e s # render_if (ds_expanded s) [El ''div'' [] (event_fields locale_num e (ds_args_expanded s))])"

datatype timeline_event = OnEvent int detail_event | EventsLoadMore

definition EventTimeline ::
  "date_lib \<Rightarrow> (jnum \<Rightarrow> string) \<Rightarrow> (unit, event_item) list_state \<Rightarrow> (int \<Rightarrow> detail_state) \<Rightarrow> timeline_event node" where
  "EventTimeline D locale_num s details =
    (if tb_items s = [] then EmptyState ''No events'' (Some ''This run has no recorded events.'') []
     else El ''div'' [(''data-testid'', ''event-timeline'')]
       (map (\<lambda>e. lift_node (OnEvent (et_seq e)) (EventDetail D locale_num e (details (et_seq e)))) (tb_items s)
        @ LoadMoreButton EventsLoadMore (tb_loadingMore s) (tb_nextCursor s \<noteq> None)))"

definition fetch_events :: "string \<Rightarrow> string \<Rightarrow> db \<Rightarrow> unit \<Rightarrow> int option \<Rightarrow> event_item list \<times> int option" where
  "fetch_events tenantId runId d _ cursor = getEvents tenantId runId None 100 cursor d"

section \<open>The chain badge\<close>

datatype ChainState = ChainPending | ChainVerified nat int | ChainBrokenAt int | ChainNotFound | ChainError

text \<open>
  The query as the effect sees it. \<open>checkedAt\<close> is the time at which the effect runs. A response without
  \<open>brokenAtSeq\<close> counts as broken at 0; the procedure always gives one.
\<close>

datatype chain_query = QueryLoading | QueryError | QueryData "verify_answer option"

definition chain_effect :: "int \<Rightarrow> chain_query \<Rightarrow> ChainState" where
  "chain_effect now q = (case q of
     QueryLoading \<Rightarrow> ChainPending
   | QueryError \<Rightarrow> ChainError
   | QueryData None \<Rightarrow> ChainNotFound
   | QueryData (Some (RunNotFound _)) \<Rightarrow> ChainNotFound
   | QueryData (Some (RunValid _ eventCount _)) \<Rightarrow> ChainVerified eventCount now
   | QueryData (Some (RunBroken _ _ brokenAtSeq _)) \<Rightarrow> ChainBrokenAt brokenAtSeq)"

definition formatRelativeTime :: "int \<Rightarrow> int \<Rightarrow> string" where
  "formatRelativeTime now t =
    (let seconds = (now - t) div 1000 in
     if seconds < 60 then show_int seconds @ ''s ago'' else
     (let minutes = seconds div 60 in
      if minutes < 60 then show_int minutes @ ''m ago'' else show_int (minutes div 60) @ ''h ago''))"

definition chain_text :: "int \<Rightarrow> ChainState \<Rightarrow> string" where
  "chain_text now c = (case c of
     ChainPending \<Rightarrow> ''o Verifying...''
   | ChainVerified n checkedAt \<Rightarrow> ''* Verified - '' @ show_nat n @ '' events - checked '' @ formatRelativeTime now checkedAt
   | ChainBrokenAt s \<Rightarrow> ''* Tampered at #'' @ show_int s
   | ChainNotFound \<Rightarrow> ''o Not verified''
   | ChainError \<Rightarrow> ''o Verification failed'')"

definition chain_color :: "ChainState \<Rightarrow> string" where
  "chain_color c = (case c of
     ChainPending \<Rightarrow> ''oklch(0.60 0.00 0)''
   | ChainVerified _ _ \<Rightarrow> ''var(--color-accent-green)''
   | ChainBrokenAt _ \<Rightarrow> ''var(--color-accent-red)''
   | ChainNotFound \<Rightarrow> ''oklch(0.55 0.00 0)''
   | ChainError \<Rightarrow> ''oklch(0.55 0.00 0)'')"

definition ChainBadge :: "int \<Rightarrow> ChainState \<Rightarrow> 'e node" where
  "ChainBadge now c = El ''span'' [(''data-testid'', ''chain-badge''), (''color'', chain_color c)] [Txt (chain_text now c)]"

section \<open>The header and the page of a run\<close>

definition usage_bars :: "(rat \<Rightarrow> string) \<Rightarrow> run_row \<Rightarrow> 'e node list" where
  "usage_bars show_num run =
    (let cost = rr_total_cost_usd run; calls = rr_total_call_count run;
         bar = (\<lambda>label n. render_if (n > 0) (BudgetBar show_num label (of_int n) (max (of_int n * (3 / 2)) 1) [] None))
     in render_if (cost > 0 \<or> calls > 0)
       [El ''div'' []
         (El ''span'' [] [Txt ''Resource Usage'']
          # render_if (cost > 0) (BudgetBar show_num ''Cost (USD)'' cost (max (cost * (3 / 2)) (1 / 100)) ''$'' (Some (\<lambda>v. ''$'' @ toFixed 4 v)))
          @ bar ''Tool Calls'' calls
          @ bar ''Input Tokens'' (rr_total_input_tokens run)
          @ bar ''Output Tokens'' (rr_total_output_tokens run))])"

definition RunHeader :: "date_lib \<Rightarrow> int \<Rightarrow> (rat \<Rightarrow> string) \<Rightarrow> run_row \<Rightarrow> ChainState \<Rightarrow> 'e node" where
  "RunHeader D now show_num run chain =
    (let item = (\<lambda>label attrs t. El ''div'' [] [El ''span'' [] [Txt label], El ''span'' attrs [Txt t]]);
         local_time = (\<lambda>t. case t of None \<Rightarrow> ''-'' | Some m \<Rightarrow> dl_toLocaleString D m)
     in El ''div'' []
       ([El ''div'' [] [StatusBadge (rr_status run), ChainBadge now chain],
         El ''div'' []
          ([item ''Run ID'' [(''title'', rr_run_id run)] (take 16 (rr_run_id run) @ ''...'')]
           @ render_text (str_of (rr_agent_role run)) (\<lambda>t. [item ''Role'' [] t])
           @ render_text (str_of (rr_environment run)) (\<lambda>t. [item ''Environment'' [] t])
           @ render_text (str_of (rr_policy_pack_id run)) (\<lambda>t. [item ''Policy Pack'' [(''title'', t)] (take 8 t @ ''...'')])
           @ [item ''Duration'' [] (formatDuration_header D (arrived D (rr_started_at run)) (arrived D (rr_ended_at run))),
              item ''Events'' [] (show_int (rr_event_count run)),
              item ''Started'' [] (local_time (rr_started_at run))]
           @ (case rr_ended_at run of None \<Rightarrow> [] | Some m \<Rightarrow> [item ''Ended'' [] (dl_toLocaleString D m)]))]
        @ usage_bars show_num run))"

text \<open>
  The page queries the run and its first events together; when one fails, or there is no such run,
  it is \<open>notFound()\<close>.
\<close>

definition RunDetailPage_load ::
  "api_error + run_row option \<Rightarrow> api_error + event_item list \<times> int option \<Rightarrow> (run_row \<times> event_item list \<times> int option) option" where
  "RunDetailPage_load run events = (case (run, events) of (Inr (Some r), Inr es) \<Rightarrow> Some (r, es) | _ \<Rightarrow> None)"

definition RunDetailPage ::
  "date_lib \<Rightarrow> int \<Rightarrow> (rat \<Rightarrow> string) \<Rightarrow> (jnum \<Rightarrow> string) \<Rightarrow> run_row \<Rightarrow> ChainState \<Rightarrow> (unit, event_item) list_state
   \<Rightarrow> (int \<Rightarrow> detail_state) \<Rightarrow> timeline_event node" where
  "RunDetailPage D now show_num locale_num run chain s details = El ''div'' []
     [PageHeader (case str_of (rr_agent_name run) of Some n \<Rightarrow> n | None \<Rightarrow> ''Unknown Agent'')
        (Some (''Run '' @ take 8 (rr_run_id run) @ ''... - '' @ (case str_of (rr_environment run) of Some t \<Rightarrow> t | None \<Rightarrow> ''unknown environment''))) [],
      RunHeader D now show_num run chain,
      El ''div'' [] [El ''h2'' [] [Txt ''Event Timeline''], EventTimeline D locale_num s details]]"

section \<open>Properties\<close>

text \<open>
  In a calm run, a table of runs that has finished loading and offers no further page shows
  exactly the tenant's runs with the chosen status, each once, newest first.
\<close>

theorem runs_table_complete:
  assumes "list_reach True (fetch_runs tenantId d) ''all'' s" and "distinct (map rr_created_at (db_runs d))"
    and "tb_requests s = []" and "tb_nextCursor s = None"
  shows "tb_items s = sort_key (\<lambda>r. - rr_created_at r) (runs_matching tenantId (status_param (tb_filter s)) d)"
proof -
  let ?m = "runs_matching tenantId (status_param (tb_filter s)) d"
  have "distinct (map rr_created_at ?m)"
    using distinct_map_filter [OF assms(2)] by (simp add: runs_matching_def public_run_def o_def)
  from rl.follow_complete [OF this, of 50 "Suc (length ?m)"]
  have f: "follow (fetch_runs tenantId d (tb_filter s)) (Suc (length ?m)) None = Some (sort_key (\<lambda>r. - rr_created_at r) ?m)"
    by (simp add: fetch_runs_def [abs_def])
  show ?thesis by (rule calm_list_complete [OF assms(1,3,4) f])
qed

definition ex_run :: "int \<Rightarrow> string \<Rightarrow> run_row" where
  "ex_run t st = (ex_run_row ''t'')\<lparr>rr_created_at := t, rr_status := st\<rparr>"

definition ex_runs :: db where
  "ex_runs = \<lparr>db_runs = [ex_run 1 ''started'', ex_run 2 ''completed''], db_events = []\<rparr>"

theorem runs_table_complete_witness:
  "map rr_created_at (tb_items (list_init ''all'' (fetch_runs ''t'' ex_runs ''all'' None))) = [2, 1]"
proof -
  have n: "snd (fetch_runs ''t'' ex_runs ''all'' None) = None"
    by (simp add: fetch_runs_def runs_list_def page_def Let_def runs_matching_def ex_runs_def ex_run_def ex_run_row_def status_param_def)
  have "distinct (map rr_created_at (db_runs ex_runs))" by (simp add: ex_runs_def ex_run_def)
  from runs_table_complete [OF list_reach.start this] n show ?thesis
    by (simp add: list_init_def status_param_def runs_matching_def ex_runs_def ex_run_def ex_run_row_def public_run_def)
qed

text \<open>
  The timeline of a run that offers no further page shows every event of the run once, in the
  order of the sequence numbers.
\<close>

theorem timeline_complete:
  assumes "list_reach True (fetch_events tenantId runId d) () s" and "db_wf d" and "select_run runId tenantId d = Some row"
    and "tb_requests s = []" and "tb_nextCursor s = None"
  shows "tb_items s = sort_key et_seq (events_matching tenantId runId None d)"
proof (rule calm_list_complete [OF assms(1,4,5)])
  have "fetch_events tenantId runId d u = (\<lambda>c. page_asc et_seq 100 c (events_matching tenantId runId None d))" for u
    using assms(3) by (simp add: fetch_events_def [abs_def] getEvents_def)
  then show "follow (fetch_events tenantId runId d (tb_filter s)) (Suc (length (events_matching tenantId runId None d))) None
      = Some (sort_key et_seq (events_matching tenantId runId None d))"
    by (simp only:) (rule follow_asc_complete [OF distinct_event_seqs [OF assms(2)]]; simp)
qed

text \<open>
  A filter that is changed while a further page is being loaded: when the answer of the filter comes
  first, the page of the old filter is appended to the list of the new one, and its cursor replaces
  the new one.
\<close>

theorem filter_race_mixes_runs:
  assumes "snd (fetch_runs tenantId d ''all'' None) = Some c" and "f \<noteq> ''all''"
  shows "\<exists>s. list_reach False (fetch_runs tenantId d) ''all'' s \<and> tb_requests s = [] \<and> tb_filter s = f
    \<and> tb_items s = fst (fetch_runs tenantId d f None) @ fst (fetch_runs tenantId d ''all'' (Some c))
    \<and> tb_nextCursor s = snd (fetch_runs tenantId d ''all'' (Some c))"
proof -
  let ?ask = "fetch_runs tenantId d"
  let ?s2 = "handleFilterChange f (handleLoadMore (list_init ''all'' (?ask ''all'' None)))"
  have s2: "list_reach False ?ask ''all'' ?s2"
    by (intro list_reach.change_filter list_reach.load_more list_reach.start) simp
  have r: "tb_requests ?s2 = [(''all'', Some c), (f, None)]"
    using assms by (simp add: handleFilterChange_def handleLoadMore_def list_init_def)
  then have s3: "list_reach False ?ask ''all'' (list_answer (f, None) (?ask f None) ?s2)"
    by (intro list_reach.answered s2) simp
  let ?s4 = "list_answer (''all'', Some c) (?ask ''all'' (Some c)) (list_answer (f, None) (?ask f None) ?s2)"
  have "list_reach False ?ask ''all'' ?s4"
    by (intro list_reach.answered s3) (use r assms(2) in \<open>simp add: list_answer_def\<close>)
  moreover have "tb_requests ?s4 = []" using r assms(2) by (simp add: list_answer_def)
  moreover have "tb_filter ?s4 = f" by (simp add: list_answer_def handleFilterChange_def)
  moreover have "tb_items ?s4 = fst (?ask f None) @ fst (?ask ''all'' (Some c))" "tb_nextCursor ?s4 = snd (?ask ''all'' (Some c))"
    by (simp_all add: list_answer_def)
  ultimately show ?thesis by blast
qed

text \<open>The effect of the badge on a chain that the server verified, and on any other answer.\<close>

theorem chain_badge_green_iff_valid:
  "chain_color (chain_effect now (QueryData (Some (verify_chain sha256 tenantId runId d)))) = ''var(--color-accent-green)''
    \<longleftrightarrow> (\<exists>row. select_run runId tenantId d = Some row
         \<and> (let es = map chain_event_of (fetch_pages (select_events runId tenantId d) 0)
            in es = [] \<or> (\<exists>n. verifyChain sha256 es = ChainValid n)))"
  by (auto simp: verify_chain_def chain_effect_def chain_color_def Let_def split: option.splits ChainVerifyResult.splits)

text \<open>
  The caps of the bars are one and a half times the use, so no bar of a run ever warns or is
  exceeded, whatever the run spent.
\<close>

theorem usage_bars_never_warn:
  "used > 0 \<Longrightarrow> budget_bar_color used (max (used * (3 / 2)) cap_floor) = ''var(--color-budget-ok)''"
proof -
  assume u: "used > 0"
  define cap where "cap = max (used * (3 / 2)) cap_floor"
  have "used * (3 / 2) \<le> cap" by (simp add: cap_def)
  with u have c: "0 < cap" "used < cap" by linarith+
  have "used * 100 < 80 * cap" using \<open>used * (3 / 2) \<le> cap\<close> u by linarith
  then have "used / cap * 100 < 80" using c(1) by (simp add: divide_less_eq)
  with c(2) show ?thesis unfolding budget_bar_color_def budget_pct_def cap_def [symmetric] by simp
qed

text \<open>
  The arguments of an event are shown by a viewer that starts folded and has its button only
  for more than 20 lines: shorter arguments can never be seen.
\<close>

inductive detail_reach :: "date_lib \<Rightarrow> (jnum \<Rightarrow> string) \<Rightarrow> event_item \<Rightarrow> detail_state \<Rightarrow> bool"
  for D :: date_lib and locale_num :: "jnum \<Rightarrow> string" and e :: event_item where
  fresh: "detail_reach D locale_num e new_detail"
| press: "detail_reach D locale_num e s \<Longrightarrow> offered (EventDetail D locale_num e s) a \<Longrightarrow>
    detail_reach D locale_num e (detail_step a s)"

lemma inert_fields [simp]:
  "\<not> offered (HashField v l) e" "\<not> offers (labelled_text l t) e" "\<not> offers (labelled_number f l w) e"
  by (auto simp: HashField_def labelled_text_def labelled_number_def split: jsval.split)

lemma offered_JsonViewer:
  "json_pretty 0 v = Some txt \<Longrightarrow> offered (JsonViewer expanded v) e \<longleftrightarrow> 20 < count_lines txt \<and> e = (\<not> expanded)"
  by (simp add: JsonViewer_def Let_def)

lemma offered_EventDetail_args:
  assumes "json_pretty 0 (et_col e ''args_redacted'') = Some txt" and "count_lines txt \<le> 20"
  shows "\<not> offered (EventDetail D locale_num e s) ToggleArgs"
  using assms by (simp add: EventDetail_def event_summary_def event_fields_def offered_lift offered_JsonViewer)

theorem short_arguments_never_shown:
  assumes "detail_reach D locale_num e s" and "json_pretty 0 (et_col e ''args_redacted'') = Some txt" and "count_lines txt \<le> 20"
  shows "JsonViewer (ds_args_expanded s) (et_col e ''args_redacted'') = El ''div'' [] []"
proof -
  have "\<not> ds_args_expanded s"
    using assms(1)
  proof (induction rule: detail_reach.induct)
    case (press s a)
    have "a \<noteq> ToggleArgs" using press(2) offered_EventDetail_args [OF assms(2,3)] by blast
    with press.IH show ?case by (cases a) simp_all
  qed (simp add: new_detail_def)
  with assms show ?thesis by (simp add: JsonViewer_def Let_def)
qed

end
