(* ===== verification/Live_Lists.thy ===== *)
theory Live_Lists
  imports Web_Lists
begin

text \<open>
  The paged lists of the dashboard on rows that change while they are being loaded: rows are inserted, change and
  go between two pages. The lists of \<open>Web_Lists\<close> ask again with the time of the last row as cursor, so a row
  that is there all the time is shown exactly once. The locale \<open>live_list\<close> is what a list needs of the answers
  it may get, interpreted for the table of the runs (\<open>lr\<close>).
\<close>

section \<open>One page\<close>

lemma last_least: "sorted_wrt (\<lambda>a b. key b < (key a :: int)) xs \<Longrightarrow> x \<in> set xs \<Longrightarrow> key (last xs) \<le> key x"
  by (induction xs) (auto simp: less_imp_le)

lemma page_facts:
  assumes "distinct (map key rows)" and "0 < limit" and "page key limit cursor rows = (items, nc)"
  shows "sorted_wrt (\<lambda>a b. key b < key a) items"
    and "set items \<subseteq> set (below key cursor rows)"
    and "\<And>c x. nc = Some c \<Longrightarrow> x \<in> set items \<Longrightarrow> c \<le> key x"
    and "\<And>x. x \<in> set (below key cursor rows) \<Longrightarrow> x \<in> set items \<or> (\<exists>c. nc = Some c \<and> key x < c)"
proof -
  define S where "S = sort_key (\<lambda>r. - key r) (below key cursor rows)"
  have set_S: "set S = set (below key cursor rows)" by (simp add: S_def)
  have "sorted (map (\<lambda>r. - key r) S)" by (simp add: S_def)
  moreover have "distinct (map (\<lambda>r. - key r) S)" using assms(1) by (auto simp: S_def distinct_map inj_on_def)
  ultimately have "sorted_wrt (<) (map (\<lambda>r. - key r) S)" by (simp add: strict_sorted_iff)
  then have s: "sorted_wrt (\<lambda>a b. key b < key a) S" by (simp add: sorted_wrt_map)
  have "sorted_wrt (\<lambda>a b. key b < key a) items \<and> set items \<subseteq> set (below key cursor rows)
    \<and> (\<forall>c x. nc = Some c \<longrightarrow> x \<in> set items \<longrightarrow> c \<le> key x)
    \<and> (\<forall>x\<in>set (below key cursor rows). x \<in> set items \<or> (\<exists>c. nc = Some c \<and> key x < c))"
  proof (cases "length (below key cursor rows) \<le> limit")
    case True
    with assms(3) have "items = S" "nc = None" by (simp_all add: page_last S_def)
    with s set_S show ?thesis by simp
  next
    case False
    then have lim: "limit < length (below key cursor rows)" by simp
    from assms(3) have i: "items = take limit S" and n: "nc = Some (key (last (take limit S)))"
      by (auto simp: page_more [OF lim assms(2)] S_def)
    have "set (below key nc rows) = set (drop limit S)"
      using next_below [OF lim assms(2,1)] by (metis S_def n set_sort)
    then have rest: "\<forall>x\<in>set (drop limit S). key x < key (last items)" by (auto simp: n i)
    have sub: "set items \<subseteq> set S" unfolding i by (rule set_take_subset)
    have si: "sorted_wrt (\<lambda>a b. key b < key a) items" unfolding i using s by (rule sorted_wrt_take)
    have "key (last items) \<le> key x" if "x \<in> set items" for x using last_least [OF si that] .
    moreover have "x \<in> set items \<or> key x < key (last items)" if "x \<in> set S" for x
      using that rest by (metis Un_iff append_take_drop_id i set_append)
    ultimately show ?thesis using si sub set_S by (simp add: n i)
  qed
  note all = this
  show "sorted_wrt (\<lambda>a b. key b < key a) items" using all by (rule conjunct1)
  show "set items \<subseteq> set (below key cursor rows)" using all by (elim conjE)
  show "c \<le> key x" if "nc = Some c" "x \<in> set items" for c x
    using all [THEN conjunct2, THEN conjunct2, THEN conjunct1] that by simp
  show "x \<in> set items \<or> (\<exists>c. nc = Some c \<and> key x < c)" if "x \<in> set (below key cursor rows)" for x
    using all [THEN conjunct2, THEN conjunct2, THEN conjunct2] that by (rule bspec)
qed

section \<open>A list on changing rows\<close>

text \<open>
  As \<open>list_reach\<close> in a calm run, but every answer is that of some moment: of some \<open>ask\<close> in \<open>asks\<close>.
\<close>

inductive live_reach :: "('f \<Rightarrow> int option \<Rightarrow> 'i list \<times> int option) set \<Rightarrow> 'f \<Rightarrow> ('f, 'i) list_state \<Rightarrow> bool"
  for asks :: "('f \<Rightarrow> int option \<Rightarrow> 'i list \<times> int option) set" and f0 :: 'f where
  start: "ask \<in> asks \<Longrightarrow> live_reach asks f0 (list_init f0 (ask f0 None))"
| load_more: "live_reach asks f0 s \<Longrightarrow> live_reach asks f0 (handleLoadMore s)"
| change_filter: "live_reach asks f0 s \<Longrightarrow> tb_requests s = [] \<Longrightarrow> live_reach asks f0 (handleFilterChange f s)"
| answered: "live_reach asks f0 s \<Longrightarrow> (f, c) \<in> set (tb_requests s) \<Longrightarrow> ask \<in> asks \<Longrightarrow>
    live_reach asks f0 (list_answer (f, c) (ask f c) s)"

text \<open>\<open>stable f\<close> are the keys of rows that each answer for the filter \<open>f\<close> is taken from, at every moment.\<close>

locale live_list =
  fixes asks :: "('f \<Rightarrow> int option \<Rightarrow> 'i list \<times> int option) set"
    and key :: "'i \<Rightarrow> int" and limit :: nat and stable :: "'f \<Rightarrow> int set"
  assumes pages: "ask \<in> asks \<Longrightarrow> \<exists>rows. (\<forall>c. ask f c = page key limit c rows) \<and> distinct (map key rows) \<and> stable f \<subseteq> key ` set rows"
    and limit: "0 < limit"
begin

text \<open>The items down to the cursor: in order, none twice, and with every stable row.\<close>

definition shown_to :: "'f \<Rightarrow> 'i list \<Rightarrow> int option \<Rightarrow> bool" where
  "shown_to f items nc \<longleftrightarrow> sorted_wrt (\<lambda>a b. key b < key a) items
     \<and> (\<forall>c x. nc = Some c \<longrightarrow> x \<in> set items \<longrightarrow> c \<le> key x)
     \<and> (\<forall>k\<in>stable f. k \<in> key ` set items \<or> (\<exists>c. nc = Some c \<and> k < c))"

lemma shown_first: "ask \<in> asks \<Longrightarrow> ask f None = (items, nc) \<Longrightarrow> shown_to f items nc"
proof -
  assume a: "ask \<in> asks" "ask f None = (items, nc)"
  from pages [OF a(1), of f] obtain rows where p: "page key limit None rows = (items, nc)"
    and d: "distinct (map key rows)" and st: "stable f \<subseteq> key ` set rows" using a(2) by auto
  note facts = page_facts [OF d limit p]
  show ?thesis unfolding shown_to_def
  proof (intro conjI ballI)
    fix k assume "k \<in> stable f"
    with st obtain x where x: "x \<in> set rows" "k = key x" by auto
    with facts(4) [of x] show "k \<in> key ` set items \<or> (\<exists>c. nc = Some c \<and> k < c)" by auto
  qed (use facts(1,3) in auto)
qed

lemma shown_next:
  assumes "shown_to f items (Some c)" and "ask \<in> asks" and "ask f (Some c) = (new, nc)"
  shows "shown_to f (items @ new) nc"
proof -
  from pages [OF assms(2), of f] obtain rows where p: "page key limit (Some c) rows = (new, nc)"
    and d: "distinct (map key rows)" and st: "stable f \<subseteq> key ` set rows" using assms(3) by auto
  note facts = page_facts [OF d limit p]
  have lower: "key x < c" if "x \<in> set new" for x using facts(2) that by auto
  have upper: "c \<le> key x" if "x \<in> set items" for x using assms(1) that by (simp add: shown_to_def)
  show ?thesis unfolding shown_to_def
  proof (intro conjI ballI allI impI)
    show "sorted_wrt (\<lambda>a b. key b < key a) (items @ new)"
      using assms(1) facts(1) lower upper by (force simp: shown_to_def sorted_wrt_append)
  next
    fix c' x assume n: "nc = Some c'" and x: "x \<in> set (items @ new)"
    show "c' \<le> key x"
    proof (cases "x \<in> set new")
      case False
      with x have u: "c \<le> key x" using upper by simp
      from facts(3) [OF n] lower p n have "c' < c"
        by (cases "new = []") (auto simp: page_def Let_def split: if_splits dest: le_less_trans last_in_set)
      with u show ?thesis by simp
    qed (use facts(3) n in blast)
  next
    fix k assume k: "k \<in> stable f"
    show "k \<in> key ` set (items @ new) \<or> (\<exists>c. nc = Some c \<and> k < c)"
    proof (cases "k < c")
      case True
      from st k obtain x where x: "x \<in> set rows" "k = key x" by auto
      with True facts(4) [of x] show ?thesis by auto
    next
      case False
      with assms(1) k show ?thesis by (auto simp: shown_to_def)
    qed
  qed
qed

definition live_ok :: "('f, 'i) list_state \<Rightarrow> bool" where
  "live_ok s \<longleftrightarrow>
    (tb_requests s = [] \<and> \<not> tb_loadingMore s \<and> shown_to (tb_filter s) (tb_items s) (tb_nextCursor s))
    \<or> (tb_requests s = [(tb_filter s, None)] \<and> tb_loadingMore s)
    \<or> (\<exists>c. tb_requests s = [(tb_filter s, Some c)] \<and> tb_loadingMore s \<and> tb_nextCursor s = Some c
         \<and> shown_to (tb_filter s) (tb_items s) (Some c))"

lemma live_reach_ok:
  assumes "live_reach asks f0 s"
  shows "live_ok s"
  using assms
proof (induction rule: live_reach.induct)
  case (start ask)
  then show ?case using shown_first [of ask f0 "fst (ask f0 None)" "snd (ask f0 None)"]
    by (simp add: live_ok_def list_init_def)
next
  case (load_more s)
  then show ?case by (auto simp: live_ok_def handleLoadMore_def split: option.split)
next
  case (change_filter s f)
  then show ?case by (simp add: live_ok_def handleFilterChange_def)
next
  case (answered s f c ask)
  obtain items nc where a: "ask f c = (items, nc)" by fastforce
  from answered.IH answered.hyps(2) show ?case
    using shown_first [OF answered.hyps(3), of f items nc] shown_next [OF _ answered.hyps(3), of f "tb_items s" _ items nc] a
    by (auto simp: live_ok_def list_answer_def)
qed

lemma stable_shown_once:
  assumes "live_reach asks f0 s" and "tb_requests s = []" and "tb_nextCursor s = None"
  shows "sorted_wrt (\<lambda>a b. key b < key a) (tb_items s)" and "stable (tb_filter s) \<subseteq> key ` set (tb_items s)"
  using live_reach_ok [OF assms(1)] assms(2,3) by (auto simp: live_ok_def shown_to_def)

end

section \<open>The table of the runs\<close>

text \<open>
  \<open>R\<close> are runs of the tenant that exist at every moment, by their time, with their status when it does not change.
  Apart from these, runs of any tenant may come, change and go.
\<close>

definition runs_stay :: "string \<Rightarrow> (int \<times> string option) set \<Rightarrow> db \<Rightarrow> bool" where
  "runs_stay tenantId R d \<longleftrightarrow> distinct (map rr_created_at (db_runs d))
     \<and> (\<forall>(k, st)\<in>R. \<exists>r\<in>set (db_runs d). rr_tenant_id r = tenantId \<and> rr_created_at r = k \<and> (\<forall>x. st = Some x \<longrightarrow> rr_status r = x))"

definition staying :: "(int \<times> string option) set \<Rightarrow> string \<Rightarrow> int set" where
  "staying R f = fst ` {(k, st) \<in> R. status_param f = None \<or> status_param f = st}"

definition runs_asks :: "string \<Rightarrow> (int \<times> string option) set \<Rightarrow> (string \<Rightarrow> int option \<Rightarrow> run_row list \<times> int option) set" where
  "runs_asks tenantId R = fetch_runs tenantId ` {d. runs_stay tenantId R d}"

lemma public_run_keys [simp]: "rr_created_at (public_run r) = rr_created_at r"
  by (simp add: public_run_def)

lemma runs_pages:
  fixes f
  assumes "runs_stay tenantId R d"
  defines "rows \<equiv> runs_matching tenantId (status_param f) d"
  shows "(\<forall>c. fetch_runs tenantId d f c = page rr_created_at 50 c rows) \<and> distinct (map rr_created_at rows)
    \<and> staying R f \<subseteq> rr_created_at ` set rows"
proof (intro conjI allI subsetI)
  show "fetch_runs tenantId d f c = page rr_created_at 50 c rows" for c by (simp add: fetch_runs_def runs_list_def rows_def)
  show "distinct (map rr_created_at rows)"
    using assms(1) by (simp add: rows_def runs_matching_def runs_stay_def o_def distinct_map_filter)
  fix k assume "k \<in> staying R f"
  then obtain st where R: "(k, st) \<in> R" and st: "status_param f = None \<or> status_param f = st" by (auto simp: staying_def)
  from assms(1) R obtain r where r: "r \<in> set (db_runs d)" "rr_tenant_id r = tenantId" "rr_created_at r = k"
    "\<forall>x. st = Some x \<longrightarrow> rr_status r = x" by (fastforce simp: runs_stay_def)
  with st have "public_run r \<in> set rows" by (auto simp: rows_def runs_matching_def split: option.split)
  moreover have "k = rr_created_at (public_run r)" using r(3) by simp
  ultimately show "k \<in> rr_created_at ` set rows" by (rule rev_image_eqI)
qed

interpretation lr: live_list "runs_asks tenantId R" rr_created_at 50 "staying R" for tenantId R
proof unfold_locales
  fix ask f assume "ask \<in> runs_asks tenantId R"
  then obtain d where d: "runs_stay tenantId R d" and a: "ask = fetch_runs tenantId d" by (auto simp: runs_asks_def)
  from runs_pages [OF d, of f] show "\<exists>rows. (\<forall>c. ask f c = page rr_created_at 50 c rows) \<and> distinct (map rr_created_at rows)
      \<and> staying R f \<subseteq> rr_created_at ` set rows" unfolding a by (rule exI)
qed simp



end
