(* ===== verification/Web_Keys.thy ===== *)
theory Web_Keys
  imports Web_Library Api_Keys
begin

text \<open>
  The page of the API keys, \<open>packages/web/src/app/(dashboard)/api-keys\<close>: the table with its revoke
  dialog (\<open>api-key-table.tsx\<close>) and the dialog that creates a key and shows it once
  (\<open>create-key-dialog.tsx\<close>), over the procedures of \<open>Api_Keys\<close>. A key that is shown stays on the
  screen until the user has confirmed the copy; the status of a key agrees with what the server
  accepts; a key is revoked only when its own dialog was confirmed.
\<close>

section \<open>Items\<close>

record ApiKeyItem =
  ai_id :: string
  ai_name :: string
  ai_key_prefix :: string
  ai_scopes :: "string list"
  ai_last_used_at :: "date_prop option"
  ai_expires_at :: "date_prop option"
  ai_is_revoked :: bool
  ai_created_at :: date_prop

text \<open>
  \<open>key.expires_at && new Date(key.expires_at) < new Date()\<close>; a comparison with an invalid date is false.
\<close>

definition key_expired :: "date_lib \<Rightarrow> int \<Rightarrow> ApiKeyItem \<Rightarrow> bool" where
  "key_expired D now k \<longleftrightarrow> \<not> falsy_date (ai_expires_at k)
     \<and> (case getTime D (the (ai_expires_at k)) of None \<Rightarrow> False | Some t \<Rightarrow> t < now)"

definition getKeyStatus :: "date_lib \<Rightarrow> int \<Rightarrow> ApiKeyItem \<Rightarrow> string \<times> string" where
  "getKeyStatus D now k =
    (if ai_is_revoked k then (''Revoked'', ''var(--color-accent-red)'')
     else if key_expired D now k then (''Expired'', ''oklch(0.55 0.00 0)'')
     else (''Active'', ''var(--color-accent-green)''))"

definition api_key_item :: "date_lib \<Rightarrow> key_item \<Rightarrow> ApiKeyItem" where
  "api_key_item D r = \<lparr>ai_id = ki_id r, ai_name = ki_name r, ai_key_prefix = ki_key_prefix r, ai_scopes = ki_scopes r,
     ai_last_used_at = map_option (\<lambda>t. DateStr (dl_toISOString D t)) (ki_last_used_at r),
     ai_expires_at = map_option (\<lambda>t. DateStr (dl_toISOString D t)) (ki_expires_at r),
     ai_is_revoked = ki_is_revoked r, ai_created_at = DateStr (dl_toISOString D (ki_created_at r))\<rparr>"

section \<open>The dialog that creates a key\<close>

record key_dialog =
  kd_name :: string
  kd_scopes :: "string list"
  kd_expiryDays :: string
  kd_createdKey :: "string option"
  kd_confirmed :: bool
  kd_isPending :: bool
  kd_error :: "string option"

definition new_key_dialog :: key_dialog where
  "new_key_dialog = \<lparr>kd_name = [], kd_scopes = [''ingest''], kd_expiryDays = [], kd_createdKey = None, kd_confirmed = False,
     kd_isPending = False, kd_error = None\<rparr>"

datatype dialog_event = KeyName string | ScopeToggle string | KeyExpiry string | SubmitKey | CloseDialog
  | CopiedCheck bool | Done | CopyKey

definition handleScopeToggle :: "string \<Rightarrow> string list \<Rightarrow> string list" where
  "handleScopeToggle scope prev = (if scope \<in> set prev then filter (\<lambda>s. s \<noteq> scope) prev else prev @ [scope])"

text \<open>\<open>expiryDays ? Number.parseInt(expiryDays, 10) : undefined\<close>; \<open>NaN\<close> becomes \<open>null\<close> in JSON, which the schema refuses.\<close>

datatype days_param = NoExpiry | Days int | DaysNaN

definition expires_param :: "string \<Rightarrow> days_param" where
  "expires_param s = (if s = [] then NoExpiry else (case parseInt s of None \<Rightarrow> DaysNaN | Some n \<Rightarrow> Days n))"

record create_request =
  rq_name :: string
  rq_scopes :: "string list"
  rq_days :: days_param

definition handleSubmitKey :: "key_dialog \<Rightarrow> key_dialog \<times> create_request option" where
  "handleSubmitKey d = (if kd_scopes d = [] then (d, None)
     else (d\<lparr>kd_isPending := True, kd_error := None\<rparr>,
           Some \<lparr>rq_name = kd_name d, rq_scopes = kd_scopes d, rq_days = expires_param (kd_expiryDays d)\<rparr>))"

text \<open>The state of the dialog after an event; \<open>None\<close> when it is closed.\<close>

fun dialog_step :: "key_dialog \<Rightarrow> dialog_event \<Rightarrow> key_dialog option \<times> create_request option" where
  "dialog_step d (KeyName s) = (Some (d\<lparr>kd_name := s\<rparr>), None)"
| "dialog_step d (ScopeToggle s) = (Some (d\<lparr>kd_scopes := handleScopeToggle s (kd_scopes d)\<rparr>), None)"
| "dialog_step d (KeyExpiry s) = (Some (d\<lparr>kd_expiryDays := s\<rparr>), None)"
| "dialog_step d SubmitKey = (let (d', r) = handleSubmitKey d in (Some d', r))"
| "dialog_step d CloseDialog = (None, None)"
| "dialog_step d (CopiedCheck b) = (Some (d\<lparr>kd_confirmed := b\<rparr>), None)"
| "dialog_step d Done = (if kd_confirmed d then None else Some d, None)"
| "dialog_step d CopyKey = (Some d, None)"

definition dialog_form :: "key_dialog \<Rightarrow> dialog_event node list" where
  "dialog_form d =
    [El ''h3'' [(''id'', ''create-key-dialog-title'')] [Txt ''Create API Key'']]
    @ (case kd_error d of None \<Rightarrow> [] | Some m \<Rightarrow> [El ''div'' [] [Txt m]])
    @ [El ''form'' []
        [El ''div'' [] [El ''label'' [(''htmlFor'', ''key-name'')] [Txt ''Key Name *''],
           Field [(''id'', ''key-name''), (''data-testid'', ''input-key-name'')] (kd_name d) KeyName],
         El ''div'' [] [El ''span'' [] [Txt ''Scopes *''],
           El ''div'' [] (map (\<lambda>scope. El ''label'' []
             [Btn [(''type'', ''checkbox''), (''data-testid'', ''scope-'' @ scope),
                 (''checked'', if scope \<in> set (kd_scopes d) then ''true'' else ''false'')] False (ScopeToggle scope) [],
              El ''span'' [] [Txt scope]]) [''ingest'', ''read''])],
         El ''div'' [] [El ''label'' [(''htmlFor'', ''key-expiry'')] [Txt ''Expires In (days)''],
           Field [(''id'', ''key-expiry''), (''type'', ''number''), (''min'', ''1''), (''max'', ''365''), (''data-testid'', ''input-expiry-days'')]
             (kd_expiryDays d) KeyExpiry],
         El ''div'' []
           [Btn [] False CloseDialog [Txt ''Cancel''],
            Btn [(''type'', ''submit''), (''data-testid'', ''btn-create-key-submit'')]
              (kd_isPending d \<or> kd_scopes d = [] \<or> kd_name d = []) SubmitKey
              [Txt (if kd_isPending d then ''Creating...'' else ''Create Key'')]]]]"

definition dialog_display :: "string \<Rightarrow> bool \<Rightarrow> dialog_event node list" where
  "dialog_display key confirmed =
    [El ''h3'' [(''id'', ''create-key-dialog-title'')] [Txt ''API Key Created''],
     El ''div'' [] [Txt ''Copy this key now. It will not be shown again.''],
     El ''div'' [] [El ''span'' [(''data-testid'', ''api-key-value'')] [Txt key], Btn [(''data-testid'', ''btn-copy'')] False CopyKey [Txt ''Copy'']],
     El ''label'' []
       [Btn [(''type'', ''checkbox''), (''data-testid'', ''checkbox-copied-key''), (''checked'', if confirmed then ''true'' else ''false'')]
          False (CopiedCheck (\<not> confirmed)) [],
        Txt ''I have copied this key and stored it securely''],
     Btn [(''data-testid'', ''btn-done-key'')] (\<not> confirmed) Done [Txt ''Done - close dialog'']]"

definition key_on_display :: "key_dialog \<Rightarrow> string option" where
  "key_on_display d = (case kd_createdKey d of None \<Rightarrow> None | Some k \<Rightarrow> if k = [] then None else Some k)"

definition CreateKeyDialog :: "key_dialog \<Rightarrow> dialog_event node" where
  "CreateKeyDialog d = El ''dialog'' [(''aria-labelledby'', ''create-key-dialog-title''), (''data-testid'', ''create-key-dialog'')]
     (render_if (key_on_display d = None) [Btn [(''aria-label'', ''Close dialog'')] False CloseDialog []]
      @ [El ''div'' [] (case key_on_display d of None \<Rightarrow> dialog_form d | Some k \<Rightarrow> dialog_display k (kd_confirmed d))])"

section \<open>The page\<close>

text \<open>
  A request under way belongs to the mounted dialog, or holds the last state of a dialog that
  was closed meanwhile: its \<open>onSuccess\<close> runs in both cases. \<open>km_displayed\<close> are the keys that were ever
  on the screen, \<open>km_confirmed\<close> the ids whose revocation was confirmed.
\<close>

record key_manager =
  km_items :: "ApiKeyItem list"
  km_dialog :: "key_dialog option"
  km_creating :: "(create_request \<times> key_dialog option) list"
  km_revokeId :: "string option"
  km_revoking :: "string list"
  km_displayed :: "string set"
  km_confirmed :: "string set"

datatype manager_event = OpenCreate | InDialog dialog_event | AskRevoke string | ConfirmRevoke | CancelRevoke

definition key_row :: "date_lib \<Rightarrow> int \<Rightarrow> ApiKeyItem \<Rightarrow> manager_event node" where
  "key_row D now k =
    (let (label, color) = getKeyStatus D now k in
     El ''tr'' [(''data-testid'', ''api-key-row-'' @ ai_id k)]
      [El ''td'' [] [El ''span'' [] [Txt (ai_name k)]],
       El ''td'' [] [El ''span'' [] [Txt (ai_key_prefix k)]],
       El ''td'' [] [El ''div'' [] (map (\<lambda>s. El ''span'' [] [Txt s]) (ai_scopes k))],
       El ''td'' [] [TimeAgo D now (ai_last_used_at k) ''Never''],
       El ''td'' [] [if falsy_date (ai_expires_at k) then El ''span'' [] [Txt ''Never''] else TimeAgo D now (ai_expires_at k) ''-''],
       El ''td'' [] [El ''span'' [(''color'', color)] [Txt label]],
       El ''td'' [] (render_if (\<not> ai_is_revoked k \<and> \<not> key_expired D now k)
         [Btn [(''data-testid'', ''btn-revoke-'' @ ai_id k)] False (AskRevoke (ai_id k)) [Txt ''Revoke'']])])"

definition ApiKeyManager :: "date_lib \<Rightarrow> int \<Rightarrow> key_manager \<Rightarrow> manager_event node" where
  "ApiKeyManager D now m = El ''div'' []
     ([El ''div'' [] [Btn [(''data-testid'', ''btn-create-api-key'')] False OpenCreate [Txt ''+ Create API Key'']],
       (if km_items m = [] then EmptyState ''No API keys''
          (Some ''Create an API key to authenticate SDK agents against the LoopStorm Guard backend.'') []
        else El ''table'' []
          [El ''thead'' [] [El ''tr'' [] (map (\<lambda>h. El ''th'' [] [Txt h])
             [''Name'', ''Prefix'', ''Scopes'', ''Last Used'', ''Expires'', ''Status'', []])],
           El ''tbody'' [] (map (key_row D now) (km_items m))])]
      @ (case km_dialog m of None \<Rightarrow> [] | Some d \<Rightarrow> [lift_node InDialog (CreateKeyDialog d)])
      @ ConfirmDialog (km_revokeId m \<noteq> None \<and> km_revokeId m \<noteq> Some []) ''Revoke API Key''
          ''This will permanently revoke the key. It cannot be undone. Any agents using this key will immediately lose access.''
          ''Revoke Key'' ''Cancel'' True ConfirmRevoke CancelRevoke (km_revoking m \<noteq> []))"

text \<open>Closing the dialog leaves its request under way, with the state that the dialog had.\<close>

definition orphan :: "key_dialog \<Rightarrow> (create_request \<times> key_dialog option) list \<Rightarrow> (create_request \<times> key_dialog option) list" where
  "orphan d reqs = map (\<lambda>(r, owner). (r, case owner of None \<Rightarrow> Some d | Some d' \<Rightarrow> Some d')) reqs"

fun manager_step :: "key_manager \<Rightarrow> manager_event \<Rightarrow> key_manager" where
  "manager_step m OpenCreate = m\<lparr>km_dialog := (case km_dialog m of None \<Rightarrow> Some new_key_dialog | Some d \<Rightarrow> Some d)\<rparr>"
| "manager_step m (InDialog e) = (case km_dialog m of
     None \<Rightarrow> m
   | Some d \<Rightarrow> (case dialog_step d e of
        (None, _) \<Rightarrow> m\<lparr>km_dialog := None, km_creating := orphan d (km_creating m)\<rparr>
      | (Some d', None) \<Rightarrow> m\<lparr>km_dialog := Some d'\<rparr>
      | (Some d', Some r) \<Rightarrow> m\<lparr>km_dialog := Some d', km_creating := km_creating m @ [(r, None)]\<rparr>))"
| "manager_step m (AskRevoke kid) = m\<lparr>km_revokeId := Some kid\<rparr>"
| "manager_step m ConfirmRevoke = (case km_revokeId m of
     None \<Rightarrow> m
   | Some kid \<Rightarrow> if kid = [] then m else m\<lparr>km_revoking := km_revoking m @ [kid], km_confirmed := insert kid (km_confirmed m)\<rparr>)"
| "manager_step m CancelRevoke = m\<lparr>km_revokeId := None\<rparr>"

text \<open>\<open>onCreated\<close>: the new item is built from the state of the dialog, not from the request.\<close>

definition created_item :: "int \<Rightarrow> created_key \<Rightarrow> key_dialog \<Rightarrow> ApiKeyItem" where
  "created_item now c d = \<lparr>ai_id = cr_id c, ai_name = kd_name d, ai_key_prefix = cr_key_prefix c, ai_scopes = kd_scopes d,
     ai_last_used_at = None,
     ai_expires_at = (if kd_expiryDays d = [] then None
       else Some (DateObj (map_option (\<lambda>n. now + n * 86400000) (parseInt (kd_expiryDays d))))),
     ai_is_revoked = False, ai_created_at = DateObj (Some now)\<rparr>"

definition create_success :: "int \<Rightarrow> create_request \<times> key_dialog option \<Rightarrow> created_key \<Rightarrow> key_manager \<Rightarrow> key_manager" where
  "create_success now req c m0 =
    (let m = m0\<lparr>km_creating := remove1 req (km_creating m0)\<rparr> in
     case snd req of
       Some d \<Rightarrow> m\<lparr>km_items := created_item now c d # km_items m\<rparr>
     | None \<Rightarrow> (case km_dialog m of
          None \<Rightarrow> m
        | Some d \<Rightarrow> m\<lparr>km_items := created_item now c d # km_items m,
             km_dialog := Some (d\<lparr>kd_createdKey := Some (cr_key c), kd_isPending := False\<rparr>),
             km_displayed := insert (cr_key c) (km_displayed m)\<rparr>))"

definition create_failure :: "create_request \<times> key_dialog option \<Rightarrow> string \<Rightarrow> key_manager \<Rightarrow> key_manager" where
  "create_failure req message m0 =
    (let m = m0\<lparr>km_creating := remove1 req (km_creating m0)\<rparr> in
     if snd req = None then m\<lparr>km_dialog := map_option (\<lambda>d. d\<lparr>kd_isPending := False, kd_error := Some message\<rparr>) (km_dialog m)\<rparr> else m)"

definition revoke_success :: "string \<Rightarrow> string \<Rightarrow> key_manager \<Rightarrow> key_manager" where
  "revoke_success kid rid m = m\<lparr>km_revoking := remove1 kid (km_revoking m),
     km_items := map (\<lambda>k. if ai_id k = rid then k\<lparr>ai_is_revoked := True\<rparr> else k) (km_items m), km_revokeId := None\<rparr>"

definition revoke_failure :: "string \<Rightarrow> key_manager \<Rightarrow> key_manager" where
  "revoke_failure kid m = m\<lparr>km_revoking := remove1 kid (km_revoking m)\<rparr>"

text \<open>The request as the procedure reads it; \<open>None\<close> when \<open>expires_in_days\<close> is no number.\<close>

definition create_input_of :: "create_request \<Rightarrow> create_key_input option" where
  "create_input_of r = (case rq_days r of DaysNaN \<Rightarrow> None
     | NoExpiry \<Rightarrow> Some \<lparr>ck_name = rq_name r, ck_scopes = rq_scopes r, ck_expires_in_days = None\<rparr>
     | Days n \<Rightarrow> Some \<lparr>ck_name = rq_name r, ck_scopes = rq_scopes r, ck_expires_in_days = Some n\<rparr>)"

section \<open>Runs of the page\<close>

inductive key_next :: "date_lib \<Rightarrow> key_manager \<Rightarrow> key_manager \<Rightarrow> bool" for D :: date_lib where
  user: "offered (ApiKeyManager D now m) e \<Longrightarrow> key_next D m (manager_step m e)"
| created: "req \<in> set (km_creating m) \<Longrightarrow> cr_key c \<noteq> [] \<Longrightarrow> key_next D m (create_success now req c m)"
| not_created: "req \<in> set (km_creating m) \<Longrightarrow> key_next D m (create_failure req message m)"
| revoked: "kid \<in> set (km_revoking m) \<Longrightarrow> key_next D m (revoke_success kid kid m)"
| not_revoked: "kid \<in> set (km_revoking m) \<Longrightarrow> key_next D m (revoke_failure kid m)"

definition manager_init :: "ApiKeyItem list \<Rightarrow> key_manager" where
  "manager_init items = \<lparr>km_items = items, km_dialog = None, km_creating = [], km_revokeId = None, km_revoking = [],
     km_displayed = {}, km_confirmed = {}\<rparr>"

inductive key_reach :: "date_lib \<Rightarrow> ApiKeyItem list \<Rightarrow> key_manager \<Rightarrow> bool" for D :: date_lib and items :: "ApiKeyItem list" where
  start: "key_reach D items (manager_init items)"
| continue: "key_reach D items m \<Longrightarrow> key_next D m m' \<Longrightarrow> key_reach D items m'"

inductive_cases key_nextE: "key_next D m m'"

lemma offers_key_row: "offered (key_row D now k) e \<Longrightarrow> e = AskRevoke (ai_id k)"
  by (auto simp: key_row_def offers_map split: prod.splits if_splits)

lemma offered_manager:
  assumes "offered (ApiKeyManager D now m) e"
  obtains "e = OpenCreate" | d e' where "km_dialog m = Some d" "e = InDialog e'" "offered (CreateKeyDialog d) e'"
    | kid where "e = AskRevoke kid" | "e = CancelRevoke" | "e = ConfirmRevoke" "km_revoking m = []"
  using assms by (auto simp: ApiKeyManager_def offers_map offered_lift dest: offers_key_row split: if_splits option.splits)

text \<open>At most one request belongs to the mounted dialog, and the dialog then waits for it.\<close>

definition own_requests :: "key_manager \<Rightarrow> (create_request \<times> key_dialog option) list" where
  "own_requests m = filter (\<lambda>r. snd r = None) (km_creating m)"

definition key_inv :: "key_manager \<Rightarrow> bool" where
  "key_inv m \<longleftrightarrow> length (own_requests m) \<le> 1
     \<and> (own_requests m \<noteq> [] \<longrightarrow> (\<exists>d. km_dialog m = Some d \<and> kd_isPending d \<and> kd_createdKey d = None))"

lemma own_orphan [simp]: "filter (\<lambda>r. snd r = None) (orphan d reqs) = []"
  by (auto simp: orphan_def filter_empty_conv split: option.splits)

lemma own_remove1:
  assumes "req \<in> set reqs"
  shows "filter (\<lambda>r. snd r = None) (remove1 req reqs)
    = (if snd req = None then remove1 req (filter (\<lambda>r. snd r = None) reqs) else filter (\<lambda>r. snd r = None) reqs)"
  by (simp add: filter_remove1)

lemma offered_display:
  assumes "key_on_display d = Some k" and "offered (CreateKeyDialog d) e"
  shows "e = CopyKey \<or> e = CopiedCheck (\<not> kd_confirmed d) \<or> e = Done \<and> kd_confirmed d"
  using assms by (auto simp: CreateKeyDialog_def dialog_display_def)

lemma offered_submit: "offered (CreateKeyDialog d) SubmitKey \<Longrightarrow> \<not> kd_isPending d \<and> key_on_display d = None"
  by (auto simp: CreateKeyDialog_def dialog_form_def dialog_display_def offers_map split: option.splits)

lemma dialog_step_keeps:
  assumes "dialog_step d e = (Some d', r)" and "offered (CreateKeyDialog d) e"
  shows "kd_createdKey d' = kd_createdKey d \<and> (kd_isPending d \<longrightarrow> kd_isPending d' \<and> r = None)
    \<and> (r \<noteq> None \<longrightarrow> kd_isPending d' \<and> key_on_display d = None)"
  using assms offered_submit [of d]
  by (cases e) (auto simp: handleSubmitKey_def Let_def split: if_splits)

definition key_inv2 :: "key_manager \<Rightarrow> bool" where
  "key_inv2 m \<longleftrightarrow> (\<forall>d. km_dialog m = Some d \<longrightarrow> kd_createdKey d \<noteq> Some [])"

lemma own_answered:
  assumes "key_inv m" and "req \<in> set (km_creating m)" and "snd req = None"
  shows "remove1 req (own_requests m) = []"
proof -
  have "req \<in> set (own_requests m)" "length (own_requests m) \<le> 1" using assms by (simp_all add: own_requests_def key_inv_def)
  then show ?thesis by (cases "own_requests m") auto
qed

lemma key_inv_step:
  assumes "key_inv m" and "key_inv2 m" and "key_next D m m'"
  shows "key_inv m' \<and> key_inv2 m'"
  using assms(3)
proof (cases rule: key_next.cases)
  case (user now e)
  from user(2) show ?thesis
  proof (cases rule: offered_manager)
    case (2 d e')
    show ?thesis
    proof (cases "dialog_step d e'")
      case (Pair dopt r)
      show ?thesis
      proof (cases dopt)
        case None
        then show ?thesis using user(1) 2 Pair by (simp add: key_inv_def key_inv2_def own_requests_def)
      next
        case (Some d')
        note k = dialog_step_keeps [OF Pair [unfolded Some] 2(3)]
        have c: "r \<noteq> None \<Longrightarrow> kd_createdKey d = None"
          using k assms(2) 2(1) by (auto simp: key_inv2_def key_on_display_def split: option.splits if_splits)
        show ?thesis using user(1) 2 Pair Some k c assms(1,2)
          by (cases r) (auto simp: key_inv_def key_inv2_def own_requests_def)
      qed
    qed
  qed (use user(1) assms(1,2) in \<open>auto simp: key_inv_def key_inv2_def own_requests_def new_key_dialog_def
      split: option.splits\<close>)
next
  case (created req c now)
  with own_answered [OF assms(1)] assms(1,2) show ?thesis
    by (auto simp: key_inv_def key_inv2_def create_success_def Let_def own_requests_def own_remove1 split: option.splits)
next
  case (not_created req message)
  with own_answered [OF assms(1)] assms(1,2) show ?thesis
    by (auto simp: key_inv_def key_inv2_def create_failure_def Let_def own_requests_def own_remove1)
next
  case (revoked kid)
  then show ?thesis using assms(1,2) by (simp add: key_inv_def key_inv2_def revoke_success_def own_requests_def)
next
  case (not_revoked kid)
  then show ?thesis using assms(1,2) by (simp add: key_inv_def key_inv2_def revoke_failure_def own_requests_def)
qed

lemma key_reach_inv: "key_reach D items m \<Longrightarrow> key_inv m \<and> key_inv2 m"
proof (induction rule: key_reach.induct)
  case start
  show ?case by (simp add: manager_init_def key_inv_def key_inv2_def own_requests_def)
next
  case (continue m m')
  then show ?case using key_inv_step by blast
qed

section \<open>Properties\<close>


text \<open>A key appears as revoked only when it was so from the start or its revocation was confirmed.\<close>

theorem revoked_only_when_confirmed:
  assumes "key_reach D items m"
  shows "set (km_revoking m) \<subseteq> km_confirmed m
    \<and> (\<forall>k\<in>set (km_items m). ai_is_revoked k \<longrightarrow> k \<in> set items \<or> ai_id k \<in> km_confirmed m)"
  using assms
proof (induction rule: key_reach.induct)
  case start
  show ?case by (simp add: manager_init_def)
next
  case (continue m m')
  from continue(2) show ?case
  proof (cases rule: key_next.cases)
    case (user now e)
    from user(2) show ?thesis
    proof (cases rule: offered_manager)
      case (2 d e')
      then show ?thesis using user(1) continue.IH by (auto split: option.splits prod.splits)
    qed (use user(1) continue.IH in \<open>auto split: option.splits\<close>)
  next
    case (created req c now)
    then show ?thesis using continue.IH by (auto simp: create_success_def created_item_def Let_def split: option.splits)
  next
    case (not_created req message)
    then show ?thesis using continue.IH by (auto simp: create_failure_def Let_def)
  next
    case (revoked kid)
    then show ?thesis using continue.IH by (auto simp: revoke_success_def dest: notin_set_remove1 split: if_splits)
  next
    case (not_revoked kid)
    then show ?thesis using continue.IH by (auto simp: revoke_failure_def dest: notin_set_remove1)
  qed
qed

text \<open>
  The status column agrees with the server: a key that is shown as revoked or expired
  authenticates no request at that time, and an active one is refused for neither reason.
\<close>

theorem key_status_matches_server:
  assumes "\<forall>t. dl_parse D (dl_toISOString D t) = Some t \<and> dl_toISOString D t \<noteq> []"
    and "distinct (map ak_id rows)" and "r \<in> set rows"
  shows "(fst (getKeyStatus D now (api_key_item D (key_item_of r))) = ''Active''
        \<longleftrightarrow> \<not> ak_is_revoked r \<and> (\<forall>t. ak_expires_at r = Some t \<longrightarrow> now \<le> t))
    \<and> (fst (getKeyStatus D now (api_key_item D (key_item_of r))) \<noteq> ''Active'' \<longrightarrow>
        authenticateApiKey sha256 now h rows = (Some a, rows') \<longrightarrow> ar_api_key_id a \<noteq> ak_id r)"
proof -
  have st: "fst (getKeyStatus D now (api_key_item D (key_item_of r))) = ''Active''
      \<longleftrightarrow> \<not> ak_is_revoked r \<and> (\<forall>t. ak_expires_at r = Some t \<longrightarrow> now \<le> t)"
    using assms(1) by (cases "ak_expires_at r")
      (auto simp: getKeyStatus_def key_expired_def falsy_date_def getTime_def api_key_item_def key_item_of_def)
  moreover have "ar_api_key_id a \<noteq> ak_id r"
    if "\<not> (\<not> ak_is_revoked r \<and> (\<forall>t. ak_expires_at r = Some t \<longrightarrow> now \<le> t))"
      and auth: "authenticateApiKey sha256 now h rows = (Some a, rows')"
  proof -
    from authenticate_Some [OF auth] obtain r' where r': "r' \<in> set rows" "\<not> ak_is_revoked r'"
      "\<forall>t. ak_expires_at r' = Some t \<longrightarrow> now \<le> t" "ar_api_key_id a = ak_id r'" by auto
    then have "r' \<noteq> r" using that(1) by blast
    then show ?thesis using distinct_map_eq [OF assms(2) r'(1) assms(3)] r'(4) by auto
  qed
  ultimately show ?thesis by blast
qed

definition ex_pending :: key_manager where
  "ex_pending = (manager_init [])\<lparr>
     km_dialog := Some (new_key_dialog\<lparr>kd_name := ''n'', kd_isPending := True, kd_error := None\<rparr>),
     km_creating := [(\<lparr>rq_name = ''n'', rq_scopes = [''ingest''], rq_days = NoExpiry\<rparr>, None)]\<rparr>"

definition ex_created :: created_key where
  "ex_created = \<lparr>cr_id = ''k'', cr_key = ''lsg_0'', cr_key_prefix = ''lsg_0''\<rparr>"

lemma ex_pending_reach: "key_reach D [] ex_pending"
proof -
  let ?m0 = "manager_init []"
  let ?d1 = "new_key_dialog\<lparr>kd_name := ''n''\<rparr>"
  note view = ApiKeyManager_def offered_lift CreateKeyDialog_def dialog_form_def offers_map key_on_display_def
    new_key_dialog_def manager_init_def
  have "key_reach D [] (manager_step ?m0 OpenCreate)"
    by (rule key_reach.continue [OF key_reach.start key_next.user [where now = 0]]) (simp add: view)
  then have 1: "key_reach D [] (?m0\<lparr>km_dialog := Some new_key_dialog\<rparr>)" by (simp add: manager_init_def)
  have "key_reach D [] (manager_step (?m0\<lparr>km_dialog := Some new_key_dialog\<rparr>) (InDialog (KeyName ''n'')))"
    by (rule key_reach.continue [OF 1 key_next.user [where now = 0]]) (simp add: view)
  then have 2: "key_reach D [] (?m0\<lparr>km_dialog := Some ?d1\<rparr>)" by simp
  have "key_reach D [] (manager_step (?m0\<lparr>km_dialog := Some ?d1\<rparr>) (InDialog SubmitKey))"
    by (rule key_reach.continue [OF 2 key_next.user [where now = 0]]) (simp add: view)
  then show ?thesis by (simp add: handleSubmitKey_def new_key_dialog_def expires_param_def manager_init_def ex_pending_def)
qed

text \<open>
  \<open>Cancel\<close> and the overlay stay enabled while a key is being created: the key is created and
  listed, and its text was never on the screen.
\<close>

theorem cancelled_creation_loses_key:
  "\<exists>m. key_reach D [] m \<and> km_creating m = [] \<and> km_dialog m = None \<and> km_displayed m = {} \<and> map ai_id (km_items m) = [''k'']"
proof -
  let ?m3 = "manager_step ex_pending (InDialog CloseDialog)"
  let ?m4 = "create_success 0 (hd (km_creating ?m3)) ex_created ?m3"
  have e: "offered (ApiKeyManager D 0 ex_pending) (InDialog CloseDialog)"
    by (simp add: ApiKeyManager_def offered_lift CreateKeyDialog_def key_on_display_def new_key_dialog_def ex_pending_def)
  have "key_reach D [] ?m3" by (rule key_reach.continue [OF ex_pending_reach key_next.user [OF e]])
  moreover have "hd (km_creating ?m3) \<in> set (km_creating ?m3)" by (simp add: ex_pending_def orphan_def)
  ultimately have "key_reach D [] ?m4" by (rule key_reach.continue [OF _ key_next.created]) (simp add: ex_created_def)
  moreover have "km_creating ?m4 = [] \<and> km_dialog ?m4 = None \<and> km_displayed ?m4 = {} \<and> map ai_id (km_items ?m4) = [''k'']"
    by (simp add: create_success_def created_item_def manager_init_def Let_def ex_pending_def orphan_def ex_created_def)
  ultimately have "key_reach D [] ?m4 \<and> km_creating ?m4 = [] \<and> km_dialog ?m4 = None \<and> km_displayed ?m4 = {}
      \<and> map ai_id (km_items ?m4) = [''k'']" by (rule conjI)
  then show ?thesis by (rule exI)
qed

text \<open>A number field accepts \<open>1e2\<close> as a hundred days; \<open>parseInt\<close> reads one.\<close>

theorem exponent_expiry_is_one_day:
  "expires_param ''1e2'' = Days 1"
  by code_simp

section \<open>Concrete runs\<close>

definition ex_clock :: date_lib where
  "ex_clock = \<lparr>dl_parse = parseInt, dl_toISOString = show_int, dl_toLocaleString = show_int, dl_toLocaleDateString = show_int,
     dl_toLocaleTimeString = show_int\<rparr>"

lemma parseInt_show_int: "parseInt (show_int t) = Some t"
proof (cases "t < 0")
  case True
  have tw: "takeWhile is_digit (show_nat n) = show_nat n" for n
    using show_nat_digits [of n] unfolding takeWhile_eq_all_conv list_all_iff by blast
  have "parse_digits (show_nat n) = Some n" for n
    using show_nat_digits [of n] by (simp only: parse_digits_def Let_def tw) simp
  moreover have "\<not> is_ws (CHR ''-'')" by (simp add: is_ws_def)
  ultimately show ?thesis using True by (simp add: show_int_def parseInt_def)
qed (simp add: show_int_def parseInt_show_nat)


theorem revoked_only_when_confirmed_witness:
  "\<forall>k\<in>set (km_items (manager_init [])). ai_is_revoked k \<longrightarrow> ai_id k \<in> km_confirmed (manager_init [])"
  using revoked_only_when_confirmed [OF key_reach.start, of "[]"] by simp

definition ex_key_row :: api_key_row where
  "ex_key_row = \<lparr>ak_id = ''k'', ak_tenant_id = ''t'', ak_user_id = ''u'', ak_name = ''n'', ak_key_prefix = ''x'', ak_key_hash = ''h'',
     ak_scopes = [], ak_last_used_at = None, ak_expires_at = None, ak_is_revoked = True, ak_created_at = 0\<rparr>"


theorem key_status_matches_server_witness:
  "fst (getKeyStatus ex_clock 7 (api_key_item ex_clock (key_item_of ex_key_row))) \<noteq> ''Active''
    \<and> fst (getKeyStatus ex_clock 7 (api_key_item ex_clock (key_item_of (ex_key_row\<lparr>ak_is_revoked := False\<rparr>)))) = ''Active''"
proof -
  have iso: "\<forall>t. dl_parse ex_clock (dl_toISOString ex_clock t) = Some t \<and> dl_toISOString ex_clock t \<noteq> []"
    using show_nat_digits by (simp add: ex_clock_def parseInt_show_int) (simp add: show_int_def)
  show ?thesis
    using key_status_matches_server [OF iso, of "[ex_key_row]" ex_key_row 7]
      key_status_matches_server [OF iso, of "[ex_key_row\<lparr>ak_is_revoked := False\<rparr>]" "ex_key_row\<lparr>ak_is_revoked := False\<rparr>" 7]
    by (simp add: ex_key_row_def)
qed

end
