(* ===== verification/Web_Auth.thy ===== *)
theory Web_Auth
  imports Web_Library Env_Config
begin

text \<open>
  The account pages of the dashboard, \<open>packages/web/src/components/auth\<close>: signing in and up, the
  password reset, and the links sent by e-mail; the session check of the layout, the addresses that
  \<open>lib/env.ts\<close> and \<open>next.config.ts\<close> give to requests, and the onboarding page. Better Auth is a
  parameter: a call answers, answers with an error, or throws. Whether an address has an account cannot
  be told from the pages that send e-mail; the hint of the resend button survives a reload; and when the
  API has a host of its own, the requests of the browser to it carry no session.
\<close>

section \<open>Answers of the authentication client\<close>

text \<open>\<open>AuthRefused\<close> holds \<open>result.error.message\<close>.\<close>

datatype auth_answer = AuthOk | AuthRefused "string option" | AuthThrows

datatype auth_call =
    SignInEmail string string string           \<comment> \<open>\<open>email\<close>, \<open>password\<close>, \<open>callbackURL\<close>\<close>
  | SignUpEmail string string string string    \<comment> \<open>\<open>name\<close>, \<open>email\<close>, \<open>password\<close>, \<open>callbackURL\<close>\<close>
  | SignInSocial string string                 \<comment> \<open>\<open>provider\<close>, \<open>callbackURL\<close>\<close>
  | Post string "(string \<times> string) list"        \<comment> \<open>\<open>$fetch\<close> of a path with a body\<close>

text \<open>\<open>lib/auth-client.ts\<close>\<close>

definition forgetPassword :: "string \<Rightarrow> string \<Rightarrow> auth_call" where
  "forgetPassword email redirectTo = Post ''/forget-password'' [(''email'', email), (''redirectTo'', redirectTo)]"

definition resetPassword :: "string \<Rightarrow> string \<Rightarrow> auth_call" where
  "resetPassword newPassword token = Post ''/reset-password'' [(''newPassword'', newPassword), (''token'', token)]"

definition sendVerificationEmail :: "string \<Rightarrow> string option \<Rightarrow> auth_call" where
  "sendVerificationEmail email callbackURL = Post ''/send-verification-email''
     [(''email'', email), (''callbackURL'', case callbackURL of None \<Rightarrow> ''/onboarding'' | Some u \<Rightarrow> u)]"

section \<open>Sign-in and sign-up\<close>

record auth_form =
  af_name :: string
  af_email :: string
  af_password :: string
  af_error :: "string option"
  af_loading :: bool

definition new_auth_form :: auth_form where
  "new_auth_form = \<lparr>af_name = [], af_email = [], af_password = [], af_error = None, af_loading = False\<rparr>"

datatype auth_event = AuthName string | AuthEmail string | AuthPassword string | AuthSubmit | AuthGoogle

fun auth_step :: "bool \<Rightarrow> auth_form \<Rightarrow> auth_event \<Rightarrow> auth_form \<times> auth_call option" where
  "auth_step isSignIn f (AuthName s) = (f\<lparr>af_name := s\<rparr>, None)"
| "auth_step isSignIn f (AuthEmail s) = (f\<lparr>af_email := s\<rparr>, None)"
| "auth_step isSignIn f (AuthPassword s) = (f\<lparr>af_password := s\<rparr>, None)"
| "auth_step isSignIn f AuthSubmit = (f\<lparr>af_error := None, af_loading := True\<rparr>,
     Some (if isSignIn then SignInEmail (af_email f) (af_password f) ''/runs''
       else SignUpEmail (af_name f) (af_email f) (af_password f) ''/runs''))"
| "auth_step isSignIn f AuthGoogle = (f\<lparr>af_error := None, af_loading := True\<rparr>, Some (SignInSocial ''google'' ''/runs''))"

text \<open>The answer to a submission, with the page that is opened.\<close>

definition submit_answer :: "bool \<Rightarrow> auth_answer \<Rightarrow> auth_form \<Rightarrow> auth_form \<times> string option" where
  "submit_answer isSignIn a f = (case a of
     AuthOk \<Rightarrow> (f\<lparr>af_loading := False\<rparr>, Some (if isSignIn then ''/runs'' else ''/onboarding''))
   | AuthRefused m \<Rightarrow> (f\<lparr>af_loading := False, af_error := Some (case m of Some t \<Rightarrow> t
        | None \<Rightarrow> if isSignIn then ''Sign-in failed. Please check your credentials.'' else ''Sign-up failed. Please try again.'')\<rparr>, None)
   | AuthThrows \<Rightarrow> (f\<lparr>af_loading := False, af_error := Some ''An unexpected error occurred. Please try again.''\<rparr>, None))"

definition google_answer :: "auth_answer \<Rightarrow> auth_form \<Rightarrow> auth_form" where
  "google_answer a f = (if a = AuthThrows
     then f\<lparr>af_error := Some ''Google sign-in failed. Please try again.'', af_loading := False\<rparr> else f)"

definition input_field :: "string \<Rightarrow> string \<Rightarrow> string \<Rightarrow> string \<Rightarrow> (string \<Rightarrow> 'e) \<Rightarrow> 'e node" where
  "input_field i label testid v ev = El ''div'' []
     [El ''label'' [(''htmlFor'', i)] [Txt label], Field [(''id'', i), (''data-testid'', testid)] v ev]"

definition anchor :: "string \<Rightarrow> string \<Rightarrow> 'e node" where
  "anchor href t = El ''a'' [(''href'', href)] [Txt t]"

text \<open>\<open>is_email\<close> is the check of the browser on a field of type \<open>email\<close>.\<close>

definition AuthForm :: "(string \<Rightarrow> bool) \<Rightarrow> bool \<Rightarrow> auth_form \<Rightarrow> auth_event node" where
  "AuthForm is_email isSignIn f = El ''div'' []
     ([El ''h2'' [] [Txt (if isSignIn then ''Sign in to your account'' else ''Create an account'')]]
      @ render_text (af_error f) (\<lambda>e. [El ''div'' [(''role'', ''alert''), (''data-testid'', ''auth-error'')] [Txt e]])
      @ [El ''form'' []
          (render_if (\<not> isSignIn) [input_field ''name'' ''Full Name'' ''input-name'' (af_name f) AuthName]
           @ [input_field ''email'' ''Email address'' ''input-email'' (af_email f) AuthEmail,
              input_field ''password'' ''Password'' ''input-password'' (af_password f) AuthPassword]
           @ render_if isSignIn [El ''div'' [] [anchor ''/forgot-password'' ''Forgot password?'']]
           @ [Btn [(''type'', ''submit''), (''data-testid'', ''btn-submit'')]
                (af_loading f \<or> \<not> isSignIn \<and> af_name f = [] \<or> \<not> is_email (af_email f) \<or> af_password f = []) AuthSubmit
                [Txt (if af_loading f then ''Please wait...'' else if isSignIn then ''Sign in'' else ''Create account'')]]),
         El ''div'' [] [El ''span'' [] [Txt ''or'']],
         Btn [(''data-testid'', ''btn-google'')] (af_loading f) AuthGoogle [Txt ''Continue with Google''],
         El ''p'' [] (if isSignIn then [Txt ''No account? '', anchor ''/sign-up'' ''Sign up'']
           else [Txt ''Already have an account? '', anchor ''/sign-in'' ''Sign in''])])"

section \<open>A new password\<close>

record reset_form =
  rf_newPassword :: string
  rf_confirmPassword :: string
  rf_loading :: bool
  rf_error :: "string option"
  rf_success :: bool

datatype reset_event = NewPassword string | ConfirmPassword string | SubmitReset

definition reset_submit :: "string option \<Rightarrow> reset_form \<Rightarrow> reset_form \<times> auth_call option" where
  "reset_submit token f0 =
    (let f = f0\<lparr>rf_error := None\<rparr> in
     if token = None \<or> token = Some [] then (f\<lparr>rf_error := Some ''Reset token is missing. Please use the link from your email.''\<rparr>, None)
     else if rf_newPassword f \<noteq> rf_confirmPassword f then (f\<lparr>rf_error := Some ''Passwords do not match.''\<rparr>, None)
     else if length (rf_newPassword f) < 8 then (f\<lparr>rf_error := Some ''Password must be at least 8 characters.''\<rparr>, None)
     else (f\<lparr>rf_loading := True\<rparr>, Some (resetPassword (rf_newPassword f) (the token))))"

fun reset_step :: "string option \<Rightarrow> reset_form \<Rightarrow> reset_event \<Rightarrow> reset_form \<times> auth_call option" where
  "reset_step token f (NewPassword s) = (f\<lparr>rf_newPassword := s\<rparr>, None)"
| "reset_step token f (ConfirmPassword s) = (f\<lparr>rf_confirmPassword := s\<rparr>, None)"
| "reset_step token f SubmitReset = reset_submit token f"

text \<open>On success the page goes to \<open>/sign-in\<close> two seconds later.\<close>

definition reset_answer :: "auth_answer \<Rightarrow> reset_form \<Rightarrow> reset_form" where
  "reset_answer a f0 = (let f = f0\<lparr>rf_loading := False\<rparr> in
     case a of AuthOk \<Rightarrow> f\<lparr>rf_success := True\<rparr>
     | AuthRefused m \<Rightarrow> f\<lparr>rf_error := Some (case m of Some t \<Rightarrow> t | None \<Rightarrow> ''Failed to reset password. Please request a new link.'')\<rparr>
     | AuthThrows \<Rightarrow> f\<lparr>rf_error := Some ''An unexpected error occurred. Please try again.''\<rparr>)"

definition ResetPasswordForm :: "string option \<Rightarrow> reset_form \<Rightarrow> reset_event node" where
  "ResetPasswordForm token f =
    (if token = None \<or> token = Some [] then El ''div'' []
       [El ''h2'' [] [Txt ''Invalid reset link''],
        El ''div'' [(''role'', ''alert''), (''data-testid'', ''reset-password-missing-token'')]
          [Txt ''Reset token is missing. Please use the link from your password-reset email or '', anchor ''/forgot-password'' ''request a new one'', Txt ''.''],
        El ''p'' [] [anchor ''/sign-in'' ''Back to sign in'']]
     else El ''div'' []
       ([El ''h2'' [] [Txt ''Set a new password''], El ''p'' [] [Txt ''Choose a strong password for your account.'']]
        @ render_text (rf_error f) (\<lambda>e. [El ''div'' [(''role'', ''alert''), (''data-testid'', ''reset-password-error'')] [Txt e]])
        @ [if rf_success f then El ''output'' [(''data-testid'', ''reset-password-success'')] [Txt ''Password updated. Redirecting...'']
           else El ''form'' []
             [input_field ''new-password'' ''New password'' ''input-new-password'' (rf_newPassword f) NewPassword,
              input_field ''confirm-password'' ''Confirm password'' ''input-confirm-password'' (rf_confirmPassword f) ConfirmPassword,
              Btn [(''type'', ''submit''), (''data-testid'', ''btn-reset-password'')]
                (rf_loading f \<or> length (rf_newPassword f) < 8 \<or> length (rf_confirmPassword f) < 8) SubmitReset
                [Txt (if rf_loading f then ''Updating...'' else ''Update password'')]],
           El ''p'' [] [anchor ''/sign-in'' ''Back to sign in'']]))"

section \<open>Requests for a link by e-mail\<close>

record email_form =
  ml_email :: string
  ml_loading :: bool
  ml_submitted :: bool

datatype email_event = EmailChange string | EmailSubmit

definition forgot_step :: "email_form \<Rightarrow> email_event \<Rightarrow> email_form \<times> auth_call option" where
  "forgot_step f e = (case e of EmailChange s \<Rightarrow> (f\<lparr>ml_email := s\<rparr>, None)
     | EmailSubmit \<Rightarrow> (f\<lparr>ml_loading := True\<rparr>, Some (forgetPassword (ml_email f) ''/reset-password'')))"

text \<open>The result and the exception are only logged; the \<open>finally\<close> block sets the state.\<close>

definition forgot_answer :: "auth_answer \<Rightarrow> email_form \<Rightarrow> email_form \<times> string list" where
  "forgot_answer a f = (f\<lparr>ml_submitted := True, ml_loading := False\<rparr>,
     (case a of AuthOk \<Rightarrow> [] | AuthRefused _ \<Rightarrow> [''[forgot-password] server returned error'']
      | AuthThrows \<Rightarrow> [''[forgot-password] network error'']))"

definition ForgotPasswordForm :: "(string \<Rightarrow> bool) \<Rightarrow> email_form \<Rightarrow> email_event node" where
  "ForgotPasswordForm is_email f = El ''div'' []
     [El ''h2'' [] [Txt ''Forgot your password?''],
      El ''p'' [] [Txt ''Enter your email and we'', Txt [CHR 0x27], Txt ''ll send you a reset link.''],
      (if ml_submitted f then El ''output'' [(''data-testid'', ''forgot-password-success'')]
          [Txt ''If an account exists for that email, a reset link has been sent.'']
       else El ''form'' []
         [input_field ''forgot-email'' ''Email address'' ''input-forgot-email'' (ml_email f) EmailChange,
          Btn [(''type'', ''submit''), (''data-testid'', ''btn-send-reset'')] (ml_loading f \<or> \<not> is_email (ml_email f)) EmailSubmit
            [Txt (if ml_loading f then ''Sending...'' else ''Send reset link'')]]),
      El ''p'' [] [anchor ''/sign-in'' ''Back to sign in'']]"

text \<open>
  The resend button. Its cooldown is kept in \<open>localStorage\<close>, which may be unavailable (the outer
  \<open>None\<close>) and may refuse to be written. \<open>None\<close> seconds are \<open>Infinity\<close>, from a stored text of that value.
\<close>

type_synonym storage = "string option option"

definition COOLDOWN_MS :: int where "COOLDOWN_MS = 60000"

definition readCooldownUntil :: "storage \<Rightarrow> jnum" where
  "readCooldownUntil st = (case st of None \<Rightarrow> Dec False 0 0 | Some v \<Rightarrow> js_Number (case v of None \<Rightarrow> ''0'' | Some s \<Rightarrow> s))"

definition writeCooldownUntil :: "bool \<Rightarrow> int \<Rightarrow> storage \<Rightarrow> storage" where
  "writeCooldownUntil writable until st = (if st \<noteq> None \<and> writable then Some (Some (show_int until)) else st)"

definition seconds_left :: "int \<Rightarrow> jnum \<Rightarrow> int option" where
  "seconds_left now until = (case until of
     NaN \<Rightarrow> Some 0
   | Infinity neg \<Rightarrow> if neg then Some 0 else None
   | Dec _ _ _ \<Rightarrow> (let remainingMs = num_val until - of_int now in
       Some (if remainingMs > 0 then \<lceil>remainingMs / 1000\<rceil> else 0)))"

definition in_cooldown :: "int option \<Rightarrow> bool" where
  "in_cooldown s = (case s of None \<Rightarrow> True | Some n \<Rightarrow> n > 0)"

record resend_form = email_form +
  rs_secondsLeft :: "int option"

text \<open>The first render, and what the effect and its timer set.\<close>

definition new_resend_form :: resend_form where
  "new_resend_form = \<lparr>ml_email = [], ml_loading = False, ml_submitted = False, rs_secondsLeft = Some 0\<rparr>"

definition resend_tick :: "int \<Rightarrow> storage \<Rightarrow> resend_form \<Rightarrow> resend_form" where
  "resend_tick now st f = f\<lparr>rs_secondsLeft := seconds_left now (readCooldownUntil st)\<rparr>"

definition resend_step :: "resend_form \<Rightarrow> email_event \<Rightarrow> resend_form \<times> auth_call option" where
  "resend_step f e = (case e of EmailChange s \<Rightarrow> (f\<lparr>ml_email := s\<rparr>, None)
     | EmailSubmit \<Rightarrow> (f\<lparr>ml_loading := True\<rparr>, Some (sendVerificationEmail (ml_email f) None)))"

definition resend_answer :: "auth_answer \<Rightarrow> bool \<Rightarrow> int \<Rightarrow> resend_form \<times> storage \<Rightarrow> (resend_form \<times> storage) \<times> string list" where
  "resend_answer a writable now s =
    (((fst s)\<lparr>rs_secondsLeft := Some \<lceil>rat_of_int COOLDOWN_MS / 1000\<rceil>, ml_submitted := True, ml_loading := False\<rparr>,
      writeCooldownUntil writable (now + COOLDOWN_MS) (snd s)),
     if a = AuthThrows then [''[resend-verification] network error''] else [])"

definition ResendVerificationLink :: "(string \<Rightarrow> bool) \<Rightarrow> resend_form \<Rightarrow> email_event node" where
  "ResendVerificationLink is_email f =
    (if ml_submitted f then El ''output'' [(''data-testid'', ''resend-verification-success'')]
       [Txt ''If that email matches an unverified account, a new verification link has been sent.'']
     else El ''form'' [(''data-testid'', ''resend-verification-form'')]
       [El ''p'' [] [Txt ''Didn'', Txt [CHR 0x27], Txt ''t receive the verification email?''],
        input_field ''resend-email'' ''Email address'' ''input-resend-email'' (ml_email f) EmailChange,
        Btn [(''type'', ''submit''), (''data-testid'', ''btn-resend-verification'')]
          (ml_loading f \<or> in_cooldown (rs_secondsLeft f) \<or> \<not> is_email (ml_email f)) EmailSubmit
          [Txt (if in_cooldown (rs_secondsLeft f)
             then ''Resend available in '' @ (case rs_secondsLeft f of None \<Rightarrow> ''Infinity'' | Some n \<Rightarrow> show_int n) @ ''s''
             else if ml_loading f then ''Sending...'' else ''Resend verification email'')]])"

definition SignInPage :: "(string \<Rightarrow> bool) \<Rightarrow> string option \<Rightarrow> resend_form \<Rightarrow> auth_form \<Rightarrow> (email_event + auth_event) node list" where
  "SignInPage is_email verified r f =
     render_if (verified = Some ''1'') [lift_node Inl (ResendVerificationLink is_email r)] @ [lift_node Inr (AuthForm is_email True f)]"

section \<open>Where requests go\<close>

text \<open>\<open>lib/env.ts\<close>: \<open>window\<close> is defined in the browser only.\<close>

definition API_URL :: "string option \<Rightarrow> string" where
  "API_URL v = (case v of None \<Rightarrow> [] | Some s \<Rightarrow> s)"

definition getTRPCUrl :: "bool \<Rightarrow> string \<Rightarrow> string" where
  "getTRPCUrl in_browser api_url =
    (if api_url \<noteq> [] then api_url @ ''/api/trpc''
     else if \<not> in_browser then ''http://localhost:3001/api/trpc'' else ''/api/trpc'')"

definition getAuthBaseURL :: "bool \<Rightarrow> string \<Rightarrow> string \<Rightarrow> string" where
  "getAuthBaseURL in_browser better_auth_url api_url =
    (if \<not> in_browser then (if better_auth_url \<noteq> [] then better_auth_url
       else if api_url \<noteq> [] then api_url else ''http://localhost:3001'')
     else [])"

text \<open>\<open>next.config.ts\<close>\<close>

definition next_rewrites :: "string option \<Rightarrow> (string \<times> string) list" where
  "next_rewrites apiUrl = (case apiUrl of
     Some u \<Rightarrow> if u \<noteq> [] then [(''/api/auth/:path*'', u @ ''/api/auth/:path*'')]
       else [(''/api/auth/:path*'', ''http://localhost:3001/api/auth/:path*''), (''/api/trpc/:path*'', ''http://localhost:3001/api/trpc/:path*'')]
   | None \<Rightarrow> [(''/api/auth/:path*'', ''http://localhost:3001/api/auth/:path*''), (''/api/trpc/:path*'', ''http://localhost:3001/api/trpc/:path*'')])"

definition home_redirect :: "string list \<Rightarrow> string option" where
  "home_redirect cookie_names = (if ''better-auth.session_token'' \<in> set cookie_names then Some ''/runs'' else None)"

text \<open>
  The cookies of a browser, each with the host that set it. Better Auth is not configured to set them for
  a whole domain, so a request carries those of its own host. \<open>host_of\<close> is the host of an absolute URL.
\<close>

type_synonym cookie_jar = "(string \<times> string) list"

definition request_host :: "(string \<Rightarrow> string) \<Rightarrow> string \<Rightarrow> string \<Rightarrow> string" where
  "request_host host_of page_host url = (if startsWith url ''/'' then page_host else host_of url)"

definition cookies_for :: "string \<Rightarrow> cookie_jar \<Rightarrow> string list" where
  "cookies_for host jar = map snd (filter (\<lambda>c. fst c = host) jar)"

text \<open>Signing in through the page: the request has a relative address, and its answer sets the cookie.\<close>

definition signed_in_jar :: "(string \<Rightarrow> string) \<Rightarrow> string \<Rightarrow> string \<Rightarrow> string \<Rightarrow> cookie_jar" where
  "signed_in_jar host_of page_host better_auth_url api_url =
     [(request_host host_of page_host (getAuthBaseURL True better_auth_url api_url @ ''/api/auth/sign-in/email''), ''better-auth.session_token'')]"

text \<open>The tRPC clients: of the browser (\<open>trpc-provider.tsx\<close>), and of the server (\<open>trpc-server.ts\<close>), which forwards the cookies of the page.\<close>

definition browser_trpc_cookies :: "(string \<Rightarrow> string) \<Rightarrow> string \<Rightarrow> string \<Rightarrow> cookie_jar \<Rightarrow> string list" where
  "browser_trpc_cookies host_of page_host api_url jar = cookies_for (request_host host_of page_host (getTRPCUrl True api_url)) jar"

definition server_trpc_cookies :: "string \<Rightarrow> cookie_jar \<Rightarrow> string list" where
  "server_trpc_cookies page_host jar = cookies_for page_host jar"

section \<open>The session check of the pages\<close>

record session_data =
  sd_name :: string
  sd_email :: string

text \<open>What \<open>get-session\<close> answers: nothing, an error status, or JSON with or without a user.\<close>

datatype session_response = NoResponse | BadStatus | SessionJson "session_data option option"

definition session_url :: "string \<Rightarrow> string \<Rightarrow> string" where
  "session_url better_auth_url api_url =
    (let baseURL = getAuthBaseURL False better_auth_url api_url in
     if baseURL \<noteq> [] then baseURL @ ''/api/auth/get-session'' else ''http://localhost:3001/api/auth/get-session'')"

definition getSession :: "session_response \<Rightarrow> session_data option option" where
  "getSession r = (case r of NoResponse \<Rightarrow> None | BadStatus \<Rightarrow> None | SessionJson d \<Rightarrow> d)"

datatype 'a page_result = Redirect string | Page 'a

definition with_user :: "session_response \<Rightarrow> (session_data \<Rightarrow> 'a) \<Rightarrow> 'a page_result" where
  "with_user r page = (case getSession r of Some (Some u) \<Rightarrow> Page (page u) | _ \<Rightarrow> Redirect ''/sign-in'')"

definition navItems :: "(string \<times> string) list" where
  "navItems = [(''/runs'', ''Runs''), (''/policies'', ''Policies''), (''/api-keys'', ''API Keys''), (''/supervisor'', ''Supervisor''), (''/settings'', ''Settings'')]"

definition nav_active :: "string \<Rightarrow> string \<Rightarrow> bool" where
  "nav_active pathname href \<longleftrightarrow> pathname = href \<or> startsWith pathname (href @ ''/'')"

definition SidebarNav :: "string \<Rightarrow> 'e node" where
  "SidebarNav pathname = El ''nav'' [] (map (\<lambda>(href, label). El ''a''
     [(''href'', href), (''data-testid'', ''nav-'' @ ws_to_dash (toLowerCase label)),
      (''color'', if nav_active pathname href then ''oklch(0.92 0.00 0)'' else ''oklch(0.60 0.00 0)'')] [Txt label]) navItems)"

definition DashboardLayout :: "session_response \<Rightarrow> string \<Rightarrow> 'e node list \<Rightarrow> 'e node page_result" where
  "DashboardLayout r pathname children = with_user r (\<lambda>_. El ''div'' []
     [El ''aside'' [] [El ''div'' [] [Txt ''LoopStorm'', Txt ''Guard''], SidebarNav pathname, El ''div'' [] [Txt ''v0.1.0'']],
      El ''div'' [] [El ''header'' [] [Txt ''LoopStorm Guard'', Txt ''control room''], El ''main'' [] children]])"

text \<open>\<open>user-menu.tsx\<close>: signing out, and the state of its button.\<close>

definition handleSignOut :: "auth_answer \<Rightarrow> bool \<times> string option" where
  "handleSignOut a = (if a = AuthThrows then (False, None) else (True, Some ''/sign-in''))"

section \<open>Onboarding\<close>

datatype Lang = Python | TypeScript

definition lines_text :: "string list \<Rightarrow> string" where
  "lines_text ls = join [CHR 0x0A] ls"

definition INSTALL :: "Lang \<Rightarrow> string" where
  "INSTALL l = (case l of Python \<Rightarrow> ''pip install loopstorm-guard''
     | TypeScript \<Rightarrow> lines_text [''npm install @loopstorm/shim'', ''# or: bun add @loopstorm/shim''])"

definition CONFIGURE :: "Lang \<Rightarrow> string" where
  "CONFIGURE l = (case l of
     Python \<Rightarrow> lines_text [''import os'', ''os.environ[\"LOOPSTORM_API_KEY\"] = \"lsg_your_key_here\"'',
       ''os.environ[\"LOOPSTORM_API_URL\"] = \"https://api.loop-storm.com\"'']
   | TypeScript \<Rightarrow> lines_text [''# .env'', ''LOOPSTORM_API_KEY=lsg_your_key_here'', ''LOOPSTORM_API_URL=https://api.loop-storm.com''])"

definition INTEGRATE :: "Lang \<Rightarrow> string" where
  "INTEGRATE l = (case l of
     Python \<Rightarrow> lines_text [''from loopstorm_guard import Guard'', [], ''guard = Guard()'', [],
       ''@guard.run(agent_name=\"my-agent\", policy_pack=\"default\")'', ''def run_agent():'',
       ''    # Your existing agent code here - nothing else changes.'', ''    result = my_llm_call(prompt)'', ''    return result'']
   | TypeScript \<Rightarrow> lines_text [''import { Guard } from \"@loopstorm/shim\";'', [], ''const guard = new Guard({'',
       ''  agentName: \"my-agent\",'', ''  policyPack: \"default\",'', ''});'', [], ''const result = await guard.run(async () => {'',
       ''  // Your existing agent code here - nothing else changes.'', ''  return await myLLMCall(prompt);'', ''});''])"

definition CODE_LABELS :: "string \<Rightarrow> Lang \<Rightarrow> string" where
  "CODE_LABELS step l =
    (if step = ''install'' then ''bash''
     else if step = ''configure'' then (case l of Python \<Rightarrow> ''python'' | TypeScript \<Rightarrow> ''.env'')
     else (case l of Python \<Rightarrow> ''python'' | TypeScript \<Rightarrow> ''typescript''))"

text \<open>The steps that were marked by hand, kept as JSON in \<open>localStorage\<close>; \<open>parse\<close> is \<open>JSON.parse\<close>.\<close>

definition loadManual :: "(string \<Rightarrow> jsval option) \<Rightarrow> storage \<Rightarrow> jsval" where
  "loadManual parse st = (case st of None \<Rightarrow> JObj []
     | Some v \<Rightarrow> (case parse (case v of None \<Rightarrow> ''{}'' | Some s \<Rightarrow> s) of None \<Rightarrow> JObj [] | Some m \<Rightarrow> m))"

definition saveManual :: "jsval \<Rightarrow> storage" where
  "saveManual m = Some (Some ((case json_stringify m of Inr (Some t) \<Rightarrow> t | _ \<Rightarrow> ''undefined'')))"

text \<open>\<open>{ ...manual, [key]: v }\<close>\<close>

fun put_entry :: "string \<Rightarrow> jsval \<Rightarrow> (string \<times> jsval) list \<Rightarrow> (string \<times> jsval) list" where
  "put_entry k v [] = [(k, v)]"
| "put_entry k v ((k', v') # kvs) = (if k' = k then (k, v) # kvs else (k', v') # put_entry k v kvs)"

definition spread :: "jsval \<Rightarrow> (string \<times> jsval) list" where
  "spread v = (case v of JObj kvs \<Rightarrow> kvs
     | JArr vs \<Rightarrow> zip (map show_nat [0..<length vs]) vs
     | JStr s \<Rightarrow> zip (map show_nat [0..<length s]) (map (\<lambda>c. JStr [c]) s)
     | _ \<Rightarrow> [])"

definition toggleManual :: "string \<Rightarrow> jsval \<Rightarrow> jsval" where
  "toggleManual key manual = JObj (put_entry key (JBool (\<not> truthy (jget manual key))) (spread manual))"

record onboarding_step =
  os_id :: string
  os_title :: string
  os_description :: string
  os_done :: bool
  os_manual :: bool
  os_code :: "(Lang \<Rightarrow> string) option"
  os_cta :: "(string \<times> string) option"

definition manual_step :: "jsval \<Rightarrow> string \<Rightarrow> string \<Rightarrow> string \<Rightarrow> (Lang \<Rightarrow> string) \<Rightarrow> onboarding_step" where
  "manual_step manual i title descr code = \<lparr>os_id = i, os_title = title, os_description = descr,
     os_done = truthy (jget manual i), os_manual = True, os_code = Some code, os_cta = None\<rparr>"

text \<open>Reading a property of a stored \<open>null\<close> would throw; the component is modelled on a stored object.\<close>

definition onboarding_steps :: "bool \<Rightarrow> bool \<Rightarrow> jsval \<Rightarrow> onboarding_step list" where
  "onboarding_steps hasApiKeys hasRuns manual =
    [\<lparr>os_id = ''apikey'', os_title = ''Create an API Key'',
        os_description = ''Your agent authenticates to LoopStorm Guard using an API key. Generate one now.'',
        os_done = hasApiKeys, os_manual = False, os_code = None, os_cta = Some (''/api-keys'', ''Go to API Keys ->'')\<rparr>,
     manual_step manual ''install'' ''Install the SDK'' ''Add the LoopStorm Guard shim to your agent project.'' INSTALL,
     manual_step manual ''configure'' ''Configure Your Environment'' ''Set your API key and backend URL as environment variables.'' CONFIGURE,
     manual_step manual ''integrate'' ''Wrap Your Agent''
       ''Add the Guard wrapper around your agent code. Enforcement and audit logging start immediately.'' INTEGRATE,
     \<lparr>os_id = ''run'', os_title = ''Trigger Your First Run'',
        os_description = ''Run your agent once. It will appear in the Runs dashboard with full enforcement logs.'',
        os_done = hasRuns, os_manual = False, os_code = None, os_cta = Some (''/runs'', ''View Runs ->'')\<rparr>]"

datatype onboarding_event = ChooseLang Lang | ToggleStep string | CopyCode string

definition StepCard :: "nat \<Rightarrow> onboarding_step \<Rightarrow> Lang \<Rightarrow> onboarding_event node" where
  "StepCard number s lang = El ''div'' []
     [El ''div'' []
        (render_if (os_manual s) [Btn [(''role'', ''checkbox''), (''aria-checked'', if os_done s then ''true'' else ''false'')] False (ToggleStep (os_id s)) []]
         @ [(if os_done s then El ''svg'' [] [] else El ''span'' [] [Txt (if number < 10 then ''0'' @ show_nat number else show_nat number)]),
            El ''div'' []
              ([El ''h2'' [] [Txt (os_title s)]]
               @ render_if (os_done s) [El ''span'' [] [Txt ''Done'']]
               @ render_if (os_manual s \<and> \<not> os_done s) [Btn [] False (ToggleStep (os_id s)) [Txt ''Mark done'']]
               @ [El ''p'' [] [Txt (os_description s)]])]),
      El ''div'' []
        ((case os_code s of None \<Rightarrow> [] | Some code \<Rightarrow> [El ''div'' [] [El ''span'' [] [Txt (CODE_LABELS (os_id s) lang)],
             Btn [] False (CopyCode (code lang)) [Txt ''Copy''], El ''pre'' [] [Txt (code lang)]]])
         @ (case os_cta s of None \<Rightarrow> [] | Some (href, label) \<Rightarrow> [El ''div'' [] [anchor href label]]))]"

definition completedCount :: "onboarding_step list \<Rightarrow> nat" where
  "completedCount steps = length (filter os_done steps)"

definition OnboardingClient :: "string \<Rightarrow> bool \<Rightarrow> bool \<Rightarrow> Lang \<Rightarrow> jsval \<Rightarrow> onboarding_event node" where
  "OnboardingClient userName hasApiKeys hasRuns lang manual =
    (let steps = onboarding_steps hasApiKeys hasRuns manual; done_count = completedCount steps;
         pct = \<lfloor>rat_of_nat done_count / rat_of_nat (length steps) * 100 + 1 / 2\<rfloor>
     in El ''div'' []
       [El ''div'' [] [El ''span'' [] [Txt ''Getting Started''], El ''h1'' [] [Txt ''Welcome, '', Txt (hd (split_on (CHR '' '') userName))],
          El ''p'' [] [Txt ''Complete these steps to connect your first AI agent to LoopStorm Guard.'']],
        El ''div'' [] [El ''span'' [] [Txt (show_nat done_count @ '' of '' @ show_nat (length steps) @ '' steps complete'')],
          El ''span'' [] [Txt (show_int pct @ ''%'')]],
        El ''div'' [] [Btn [] False (ChooseLang Python) [Txt ''Python''], Btn [] False (ChooseLang TypeScript) [Txt ''TypeScript'']],
        El ''div'' [] (map (\<lambda>(i, s). StepCard (i + 1) s lang) (enumerate 0 steps)),
        El ''div'' []
          [(if done_count = length steps then anchor ''/runs'' ''Go to Dashboard ->''
            else El ''p'' [] [Txt ''Complete all steps to unlock your dashboard.'']),
           anchor ''/runs'' ''Skip for now ->'']])"

text \<open>The page: \<open>session.user.name || session.user.email\<close>, and lists that fail count as empty.\<close>

definition OnboardingPage ::
  "session_response \<Rightarrow> unit + nat \<Rightarrow> unit + nat \<Rightarrow> Lang \<Rightarrow> jsval \<Rightarrow> onboarding_event node page_result" where
  "OnboardingPage r keys runs lang manual = with_user r (\<lambda>u.
     OnboardingClient (if sd_name u \<noteq> [] then sd_name u else sd_email u)
       (case keys of Inr n \<Rightarrow> n > 0 | Inl _ \<Rightarrow> False) (case runs of Inr n \<Rightarrow> n > 0 | Inl _ \<Rightarrow> False) lang manual)"

section \<open>Properties\<close>

text \<open>What a user of a page with an e-mail form does, and the answers that arrive in between.\<close>

datatype email_input = UserDoes email_event | Answer auth_answer | ResendAnswer auth_answer bool int | Tick int

fun forgot_run :: "email_form \<Rightarrow> email_input list \<Rightarrow> email_form \<times> auth_call list" where
  "forgot_run f [] = (f, [])"
| "forgot_run f (UserDoes e # xs) = (let (f', c) = forgot_step f e; (f'', cs) = forgot_run f' xs
     in (f'', (case c of None \<Rightarrow> cs | Some x \<Rightarrow> x # cs)))"
| "forgot_run f (Answer a # xs) = forgot_run (fst (forgot_answer a f)) xs"
| "forgot_run f (_ # xs) = forgot_run f xs"

fun resend_run :: "resend_form \<times> storage \<Rightarrow> email_input list \<Rightarrow> (resend_form \<times> storage) \<times> auth_call list" where
  "resend_run s [] = (s, [])"
| "resend_run s (UserDoes e # xs) = (let (f', c) = resend_step (fst s) e; (s'', cs) = resend_run (f', snd s) xs
     in (s'', (case c of None \<Rightarrow> cs | Some x \<Rightarrow> x # cs)))"
| "resend_run s (ResendAnswer a w now # xs) = resend_run (fst (resend_answer a w now s)) xs"
| "resend_run s (Tick now # xs) = resend_run (resend_tick now (snd s) (fst s), snd s) xs"
| "resend_run s (_ # xs) = resend_run s xs"

text \<open>Two sequences of inputs that differ in nothing but what the server answered.\<close>

fun same_but_answers :: "email_input \<Rightarrow> email_input \<Rightarrow> bool" where
  "same_but_answers (Answer a) (Answer b) = True"
| "same_but_answers (ResendAnswer a w now) (ResendAnswer b w' now') = (w = w' \<and> now = now')"
| "same_but_answers x y = (x = y)"

text \<open>
  The pages that send e-mail reveal nothing: whatever the server answers (an unknown address, a
  limit, a failure), the state of the page, what it shows and what it sends are the same.
\<close>

theorem email_pages_reveal_nothing:
  assumes "list_all2 same_but_answers xs ys"
  shows "forgot_run f xs = forgot_run f ys \<and> resend_run s xs = resend_run s ys"
  using assms
proof (induction xs ys arbitrary: f s rule: list_all2_induct)
  case (Cons x xs y ys)
  then show ?case by (cases "(x, y)" rule: same_but_answers.cases) (auto simp: forgot_answer_def resend_answer_def Let_def)
qed simp

text \<open>
  A new password is sent exactly when the link had a token, both fields agree and the password has
  at least eight characters; it is sent with this token.
\<close>

theorem reset_sends_iff:
  "snd (reset_step token f SubmitReset) = Some c \<longleftrightarrow>
    (\<exists>t. token = Some t \<and> t \<noteq> [] \<and> rf_newPassword f = rf_confirmPassword f \<and> 8 \<le> length (rf_newPassword f)
       \<and> c = resetPassword (rf_newPassword f) t)"
  by (cases token) (auto simp: reset_submit_def Let_def)

lemma digit_facts: "is_digit c \<Longrightarrow> c \<noteq> CHR ''-'' \<and> c \<noteq> CHR ''+'' \<and> c \<noteq> CHR ''x'' \<and> c \<noteq> CHR ''o'' \<and> c \<noteq> CHR ''b''
    \<and> c \<noteq> CHR ''I'' \<and> lower_char c = c"
  by (auto simp: is_digit_def lower_char_def)

lemma js_Number_show_nat: "num_val (js_Number (show_nat n)) = of_nat n \<and> (\<exists>s e. js_Number (show_nat n) = Dec False s e)"
proof -
  let ?t = "show_nat n"
  have dg: "\<forall>c\<in>set ?t. is_digit c" and v: "digits_val ?t = n" and ne: "?t \<noteq> []"
    using show_nat_digits [of n] by (auto simp: list_all_iff)
  obtain c cs where t: "?t = c # cs" using ne by (cases ?t) auto
  have c: "is_digit c" using dg t by simp
  have tw: "takeWhile is_digit ?t = ?t" "dropWhile is_digit ?t = []"
    using dg by (simp_all add: takeWhile_eq_all_conv dropWhile_eq_Nil_conv)
  have sg: "signed ?t = (False, ?t)" using digit_facts [OF c] t by (simp add: signed_def)
  have dl: "decimal_literal ?t = jnum_of False n 0"
    unfolding decimal_literal_def sg Let_def prod.case tw using v ne by (simp add: exponent_part_def)
  have pre: "toLowerCase (take 2 ?t) \<noteq> ''0x'' \<and> toLowerCase (take 2 ?t) \<noteq> ''0o'' \<and> toLowerCase (take 2 ?t) \<noteq> ''0b''"
  proof (cases cs)
    case (Cons d ds)
    then have "is_digit d" using dg t by simp
    then show ?thesis using t Cons digit_facts [of d] by (auto simp: toLowerCase_def)
  qed (simp add: t toLowerCase_def)
  have inf: "?t \<noteq> ''Infinity'' \<and> ?t \<noteq> ''+Infinity'' \<and> ?t \<noteq> ''-Infinity''"
    using digit_facts [OF c] t by auto
  have N: "js_Number ?t = jnum_of False n 0"
    using pre inf ne by (simp add: js_Number_def trim_show_nat dl Let_def)
  show ?thesis
  proof (cases "n = 0")
    case False
    obtain s e where r: "strip_zeros n 0 = (s, e)" by fastforce
    with strip_zeros_val [of n 0] False have "0 \<le> e" "s * 10 ^ nat e = n" by auto
    from arg_cong [OF this(2), of rat_of_nat] this(1) r False show ?thesis by (simp add: N jnum_of_def)
  qed (use N in \<open>simp add: jnum_of_def\<close>)
qed

lemma readCooldown_written:
  assumes "0 \<le> until" and "st \<noteq> None"
  shows "num_val (readCooldownUntil (writeCooldownUntil True until st)) = of_int until
    \<and> (\<exists>s e. readCooldownUntil (writeCooldownUntil True until st) = Dec False s e)"
  using assms js_Number_show_nat [of "nat until"] by (auto simp: writeCooldownUntil_def readCooldownUntil_def show_int_def)

lemma seconds_left_written:
  assumes "0 \<le> until" and "st \<noteq> None"
  shows "seconds_left now (readCooldownUntil (writeCooldownUntil True until st))
    = Some (if until > now then \<lceil>(rat_of_int until - of_int now) / 1000\<rceil> else 0)"
proof -
  obtain s e where "readCooldownUntil (writeCooldownUntil True until st) = Dec False s e"
    "num_val (Dec False s e) = of_int until" using readCooldown_written [OF assms] by auto
  then show ?thesis by (simp add: seconds_left_def Let_def del: num_val.simps)
qed

text \<open>
  The cooldown of the resend button survives a reload: a form that is mounted anew offers no
  submission until a minute after the last answer, and offers it again from then on.
\<close>

theorem resend_cooldown_survives_reload:
  assumes "st \<noteq> None" and "0 \<le> t" and "t \<le> now" and "is_email (ml_email f)" and "\<not> ml_submitted f" and "\<not> ml_loading f"
  shows "offered (ResendVerificationLink is_email (resend_tick now (snd (fst (resend_answer a True t (g, st)))) f)) EmailSubmit
    \<longleftrightarrow> t + 60000 \<le> now"
proof -
  have st: "snd (fst (resend_answer a True t (g, st))) = writeCooldownUntil True (t + 60000) st"
    by (simp add: resend_answer_def COOLDOWN_MS_def)
  have "seconds_left now (readCooldownUntil (writeCooldownUntil True (t + 60000) st))
      = Some (if t + 60000 > now then \<lceil>(rat_of_int (t + 60000) - of_int now) / 1000\<rceil> else 0)"
    by (rule seconds_left_written) (use assms in auto)
  moreover have "0 < (rat_of_int (t + 60000) - of_int now) / 1000" if "t + 60000 > now"
  proof -
    have "rat_of_int now < rat_of_int (t + 60000)" using that by (simp only: of_int_less_iff)
    then show ?thesis by simp
  qed
  ultimately show ?thesis
    using assms unfolding st
    by (auto simp: ResendVerificationLink_def input_field_def resend_tick_def in_cooldown_def)
qed

text \<open>
  When the API has a host of its own, the browser's requests to it carry no session, although the user
  signed in and the pages that the server renders do have one; without such a host both have.
\<close>

theorem browser_session_iff_same_host:
  assumes "page_host \<noteq> []" and "api_url \<noteq> [] \<longrightarrow> \<not> startsWith api_url ''/''"
  shows "let jar = signed_in_jar host_of page_host better_auth_url api_url in
    server_trpc_cookies page_host jar = [''better-auth.session_token'']
    \<and> (browser_trpc_cookies host_of page_host api_url jar = [''better-auth.session_token'']
        \<longleftrightarrow> api_url = [] \<or> host_of (api_url @ ''/api/trpc'') = page_host)"
proof -
  have jar: "signed_in_jar host_of page_host better_auth_url api_url = [(page_host, ''better-auth.session_token'')]"
    by (simp add: signed_in_jar_def request_host_def getAuthBaseURL_def startsWith_def)
  have "request_host host_of page_host (getTRPCUrl True api_url)
      = (if api_url = [] then page_host else host_of (api_url @ ''/api/trpc''))"
    using assms(2) by (cases api_url) (auto simp: request_host_def getTRPCUrl_def startsWith_def)
  then show ?thesis by (simp add: jar server_trpc_cookies_def browser_trpc_cookies_def cookies_for_def)
qed

text \<open>
  Marking a step changes that step and no other, twice is nothing, and the marks survive a reload.
\<close>

lemma jget_put_entry: "jget (JObj (put_entry k v kvs)) i = (if i = k then v else jget (JObj kvs) i)"
proof -
  have "map_of (put_entry k v kvs) = (map_of kvs)(k \<mapsto> v)" by (induction kvs) auto
  then show ?thesis by simp
qed

theorem onboarding_marks:
  assumes "manual = JObj kvs" and "json_stringify (toggleManual key manual) = Inr (Some txt)" and "parse txt = Some (toggleManual key manual)"
  shows "(let m = loadManual parse (saveManual (toggleManual key manual)) in
    \<forall>i. truthy (jget m i) = (if i = key then \<not> truthy (jget manual i) else truthy (jget manual i))
      \<and> truthy (jget (toggleManual key m) i) = truthy (jget manual i))"
proof -
  have "loadManual parse (saveManual (toggleManual key manual)) = toggleManual key manual"
    using assms(2,3) by (simp add: loadManual_def saveManual_def)
  moreover have "toggleManual key manual = JObj (put_entry key (JBool (\<not> truthy (jget manual key))) kvs)"
    using assms(1) by (simp add: toggleManual_def spread_def)
  ultimately show ?thesis
    using assms(1) by (simp add: toggleManual_def spread_def jget_put_entry Let_def del: jget.simps)
qed

text \<open>The text that dashboard access must be unlocked stands beside a link to the dashboard.\<close>

theorem skip_link_beside_unlock_text:
  assumes "\<not> (hasApiKeys \<and> hasRuns)"
  shows "let t = shown (OnboardingClient userName hasApiKeys hasRuns lang manual) in
    ''Complete all steps to unlock your dashboard.'' \<in> set t \<and> ''Skip for now ->'' \<in> set t"
proof -
  let ?s = "onboarding_steps hasApiKeys hasRuns manual"
  have "completedCount ?s \<noteq> length ?s"
    using assms by (auto simp: completedCount_def onboarding_steps_def manual_step_def)
  then show ?thesis unfolding OnboardingClient_def Let_def by (simp add: anchor_def)
qed

theorem email_pages_reveal_nothing_witness:
  "forgot_run \<lparr>ml_email = ''a'', ml_loading = False, ml_submitted = False\<rparr> [UserDoes EmailSubmit, Answer AuthOk]
    = forgot_run \<lparr>ml_email = ''a'', ml_loading = False, ml_submitted = False\<rparr> [UserDoes EmailSubmit, Answer AuthThrows]"
  using email_pages_reveal_nothing [of "[UserDoes EmailSubmit, Answer AuthOk]" "[UserDoes EmailSubmit, Answer AuthThrows]"] by simp

theorem resend_cooldown_survives_reload_witness:
  "\<not> offered (ResendVerificationLink (\<lambda>_. True) (resend_tick 59999 (snd (fst (resend_answer AuthOk True 0 (new_resend_form, Some None)))) new_resend_form)) EmailSubmit"
  using resend_cooldown_survives_reload [of "Some None" 0 59999 "\<lambda>_. True" new_resend_form AuthOk new_resend_form]
  by (simp add: new_resend_form_def)

theorem browser_session_iff_same_host_witness:
  "browser_trpc_cookies (\<lambda>_. ''api'') ''app'' ''https://api'' (signed_in_jar (\<lambda>_. ''api'') ''app'' [] ''https://api'') \<noteq> [''better-auth.session_token'']"
  using browser_session_iff_same_host [of "''app''" "''https://api''" "\<lambda>_. ''api''" "[]"] by (simp add: Let_def startsWith_def)

theorem onboarding_marks_witness:
  "\<exists>parse. truthy (jget (loadManual parse (saveManual (toggleManual ''install'' (JObj [])))) ''install'')"
proof -
  obtain json where "json_stringify (toggleManual ''install'' (JObj [])) = Inr (Some json)"
    by (simp add: toggleManual_def spread_def bind_result_def)
  from onboarding_marks [OF refl this, of "\<lambda>_. Some (toggleManual ''install'' (JObj []))"]
  show ?thesis by (intro exI [of _ "\<lambda>_. Some (toggleManual ''install'' (JObj []))"]) (simp add: Let_def)
qed

end
