(* ===== verification/Web_Widgets.thy ===== *)
theory Web_Widgets
  imports Web_Library
begin

text \<open>
  The components of \<open>packages/web/src\<close> that keep a small state of their own: the copy buttons
  (\<open>components/ui/copy-button.tsx\<close> and the one of \<open>onboarding-client.tsx\<close>) with their timers, the user menu, and
  the accordion, the terminal and the buttons of the landing page. The clock is in milliseconds.
\<close>

section \<open>Copy buttons\<close>

text \<open>
  \<open>cb_resets\<close> are the times at which a pending \<open>setTimeout\<close> takes the acknowledgement back. \<open>cb_clipboard\<close> is what
  the clipboard holds.
\<close>

record copy_button =
  cb_copied :: bool
  cb_resets :: "int list"
  cb_clipboard :: "string option"

definition new_copy_button :: copy_button where
  "new_copy_button = \<lparr>cb_copied = False, cb_resets = [], cb_clipboard = None\<rparr>"

definition COPIED_MS :: int where "COPIED_MS = 2000"

definition acknowledge :: "int \<Rightarrow> copy_button \<Rightarrow> copy_button" where
  "acknowledge now b = b\<lparr>cb_copied := True, cb_resets := cb_resets b @ [now + COPIED_MS]\<rparr>"

text \<open>
  \<open>handleCopy\<close> of the dashboard: \<open>clip\<close> says whether \<open>writeText\<close> succeeds, \<open>exec\<close> what \<open>execCommand\<close> returns, which
  the code does not look at. The onboarding page has no second way.
\<close>

definition handleCopy :: "string \<Rightarrow> int \<Rightarrow> bool \<Rightarrow> bool \<Rightarrow> copy_button \<Rightarrow> copy_button" where
  "handleCopy text_value now clip exec b =
    acknowledge now (if clip \<or> exec then b\<lparr>cb_clipboard := Some text_value\<rparr> else b)"

definition onboarding_handleCopy :: "string \<Rightarrow> int \<Rightarrow> bool \<Rightarrow> copy_button \<Rightarrow> copy_button" where
  "onboarding_handleCopy text_value now clip b =
    (if clip then acknowledge now (b\<lparr>cb_clipboard := Some text_value\<rparr>) else b)"

definition fire_timers :: "int \<Rightarrow> copy_button \<Rightarrow> copy_button" where
  "fire_timers now b =
    (if \<exists>t\<in>set (cb_resets b). t \<le> now then b\<lparr>cb_copied := False, cb_resets := filter (\<lambda>t. now < t) (cb_resets b)\<rparr> else b)"

definition CopyButton :: "string \<Rightarrow> copy_button \<Rightarrow> unit node" where
  "CopyButton label b = Btn [(''data-testid'', ''btn-copy''),
     (''color'', if cb_copied b then ''var(--color-accent-green)'' else ''oklch(0.60 0.00 0)'')] False ()
     [Txt (if cb_copied b then ''Copied!'' else label)]"

definition onboarding_CopyButton :: "copy_button \<Rightarrow> unit node" where
  "onboarding_CopyButton b = Btn [] False () [Txt (if cb_copied b then ''Copied'' else ''Copy'')]"

definition CodeBlock :: "string \<Rightarrow> string \<Rightarrow> copy_button \<Rightarrow> unit node" where
  "CodeBlock code label b = El ''div'' [] [El ''div'' [] [El ''span'' [] [Txt label], onboarding_CopyButton b], El ''pre'' [] [Txt code]]"

text \<open>A click at some time, or the clock alone; the times do not go back.\<close>

datatype copy_event = CopyClick int bool bool | CopyClock int

fun event_time :: "copy_event \<Rightarrow> int" where
  "event_time (CopyClick t _ _) = t"
| "event_time (CopyClock t) = t"

fun copy_step :: "string \<Rightarrow> copy_button \<Rightarrow> copy_event \<Rightarrow> copy_button" where
  "copy_step v b (CopyClick t clip exec) = handleCopy v t clip exec (fire_timers t b)"
| "copy_step v b (CopyClock t) = fire_timers t b"

definition copy_run :: "string \<Rightarrow> copy_event list \<Rightarrow> copy_button" where
  "copy_run v es = foldl (copy_step v) new_copy_button es"

definition click_times :: "copy_event list \<Rightarrow> int set" where
  "click_times es = {t. \<exists>clip exec. CopyClick t clip exec \<in> set es}"

definition copy_inv :: "int set \<Rightarrow> int \<Rightarrow> copy_button \<Rightarrow> bool" where
  "copy_inv C now b \<longleftrightarrow> (cb_copied b \<longrightarrow> cb_resets b \<noteq> []) \<and> (\<forall>t\<in>set (cb_resets b). now < t \<and> t - COPIED_MS \<in> C)"

lemma copy_inv_fire:
  assumes "copy_inv C now b"
  shows "copy_inv C (max now now') (fire_timers now' b)"
  using assms by (auto simp: copy_inv_def fire_timers_def COPIED_MS_def not_le)

lemma copy_inv_mono: "copy_inv C now b \<Longrightarrow> C \<subseteq> D \<Longrightarrow> copy_inv D now b"
  by (auto simp: copy_inv_def)

lemma copy_inv_step:
  assumes "copy_inv (click_times es) now b" and "now \<le> event_time e"
  shows "copy_inv (click_times (es @ [e])) (event_time e) (copy_step v b e)"
proof -
  have m: "copy_inv (click_times (es @ [e])) now b"
    by (rule copy_inv_mono [OF assms(1)]) (auto simp: click_times_def)
  from copy_inv_fire [OF this, of "event_time e"] assms(2)
  have f: "copy_inv (click_times (es @ [e])) (event_time e) (fire_timers (event_time e) b)" by (simp add: max_def split: if_splits)
  show ?thesis
  proof (cases e)
    case (CopyClick t clip exec)
    then have "t \<in> click_times (es @ [e])" by (auto simp: click_times_def)
    with f CopyClick show ?thesis by (auto simp: copy_inv_def handleCopy_def acknowledge_def COPIED_MS_def)
  qed (use f in simp)
qed

lemma copy_run_inv:
  assumes "sorted (map event_time es)" and "es \<noteq> []"
  shows "copy_inv (click_times es) (event_time (last es)) (copy_run v es)"
  using assms
proof (induction es rule: rev_induct)
  case (snoc e es)
  show ?case
  proof (cases "es = []")
    case True
    have "copy_inv (click_times []) (event_time e) new_copy_button" by (simp add: copy_inv_def new_copy_button_def)
    from copy_inv_step [OF this, of e v] True show ?thesis by (simp add: copy_run_def)
  next
    case False
    with snoc have "copy_inv (click_times es) (event_time (last es)) (copy_run v es)" by (simp add: sorted_append)
    moreover have "event_time (last es) \<le> event_time e" using snoc.prems(1) False by (simp add: sorted_append)
    ultimately show ?thesis using copy_inv_step [of es _ "copy_run v es" e v] by (simp add: copy_run_def)
  qed
qed simp

text \<open>The button says \<open>Copied!\<close> only within the two seconds after a click.\<close>

theorem copied_only_after_click:
  assumes "sorted (map event_time es)" and "es \<noteq> []" and "shown (CopyButton ''Copy'' (copy_run v es)) = [''Copied!'']"
  shows "\<exists>t\<in>click_times es. event_time (last es) < t + 2000"
proof -
  from assms(3) have "cb_copied (copy_run v es)" by (simp add: CopyButton_def split: if_splits)
  with copy_run_inv [OF assms(1,2), of v] obtain r where "r \<in> set (cb_resets (copy_run v es))"
    and "event_time (last es) < r" "r - COPIED_MS \<in> click_times es"
    by (auto simp: copy_inv_def) (metis hd_in_set)
  then show ?thesis by (auto simp: COPIED_MS_def intro!: bexI [of _ "r - 2000"])
qed

text \<open>
  Where the browser has no clipboard interface and \<open>execCommand\<close> copies nothing, the button says \<open>Copied!\<close> all the
  same: of a new API key, which is shown once, nothing is on the clipboard.
\<close>

theorem copied_shown_without_copy:
  "shown (CopyButton label (copy_run v [CopyClick t False False])) = [''Copied!'']
    \<and> cb_clipboard (copy_run v [CopyClick t False False]) = None"
  by (simp add: CopyButton_def copy_run_def handleCopy_def acknowledge_def fire_timers_def new_copy_button_def)

text \<open>The timer of a first click takes back the acknowledgement of a second one before its two seconds are over.\<close>

theorem second_acknowledgement_cut_short:
  "shown (CopyButton ''Copy'' (copy_run v [CopyClick 0 True True, CopyClick 1900 True True, CopyClock 2000])) = [''Copy'']"
  by (simp add: CopyButton_def copy_run_def handleCopy_def acknowledge_def fire_timers_def new_copy_button_def COPIED_MS_def)

section \<open>The user menu\<close>

text \<open>\<open>session?.user\<close> as name and e-mail, either of which may be missing. \<open>toUpperCase\<close> on ASCII letters.\<close>

definition upper_char :: "char \<Rightarrow> char" where
  "upper_char c = (let n = of_char c :: nat in if 97 \<le> n \<and> n \<le> 122 then char_of (n - 32) else c)"

definition user_label :: "(string option \<times> string option) option \<Rightarrow> string" where
  "user_label session =
    (let email = (case session of Some (_, Some e) \<Rightarrow> e | _ \<Rightarrow> [])
     in case session of Some (Some n, _) \<Rightarrow> n | _ \<Rightarrow> hd (split_on (CHR ''@'') email))"

definition initials :: "string \<Rightarrow> string" where
  "initials name = take 2 (map upper_char (concat (map (take 1) (split_on (CHR '' '') name))))"

definition UserMenu :: "(string option \<times> string option) option \<Rightarrow> bool \<Rightarrow> unit node" where
  "UserMenu session loading = El ''div'' []
     [El ''div'' [] [Txt (initials (user_label session))], El ''span'' [] [Txt (user_label session)],
      Btn [(''data-testid'', ''btn-sign-out'')] loading () [Txt (if loading then ''...'' else ''Sign out'')]]"

text \<open>
  The fallback to the e-mail address is taken for a missing name, not for an empty one, and the name \<open>User\<close> is never
  used, since the first part of a split text always exists: a session with an empty name, or none, shows nothing.
\<close>

theorem empty_name_shows_nothing:
  "shown (UserMenu (Some (Some [], email)) False) = [[], [], ''Sign out'']
    \<and> shown (UserMenu None False) = [[], [], ''Sign out'']"
  by (simp add: UserMenu_def user_label_def initials_def Let_def split: option.splits)

section \<open>The landing page\<close>

text \<open>The accordion: the open item, and its items by their questions and answers.\<close>

definition toggle_item :: "nat \<Rightarrow> nat option \<Rightarrow> nat option" where
  "toggle_item i open_index = (if open_index = Some i then None else Some i)"

definition FAQAccordion :: "(string \<times> string) list \<Rightarrow> nat option \<Rightarrow> nat node" where
  "FAQAccordion items open_index = El ''div'' [] (map (\<lambda>(i, q, a). El ''div'' []
     [Btn [] False i [El ''span'' [] [Txt q]],
      El ''div'' [(''grid-template-rows'', if open_index = Some i then ''1fr'' else ''0fr'')] [El ''p'' [] [Txt a]]])
     (enumerate 0 items))"

definition faq_run :: "nat list \<Rightarrow> nat option" where
  "faq_run cs = fold toggle_item cs (Some 0)"

text \<open>An item is open exactly when it was the last one clicked and was closed then, or when it is the first and nothing was clicked.\<close>

theorem faq_open_iff:
  "faq_run [] = Some 0 \<and> (faq_run (cs @ [i]) = Some j \<longleftrightarrow> j = i \<and> faq_run cs \<noteq> Some i)"
  by (auto simp: faq_run_def toggle_item_def)

text \<open>The terminal: \<open>tm_timer\<close> while the interval runs.\<close>

record terminal =
  tm_started :: bool
  tm_timer :: bool
  tm_visible :: nat

datatype terminal_event = Intersects bool | TerminalTick

fun terminal_step :: "nat \<Rightarrow> terminal \<Rightarrow> terminal_event \<Rightarrow> terminal" where
  "terminal_step n t (Intersects b) = (if b \<and> \<not> tm_started t then t\<lparr>tm_started := True, tm_timer := True\<rparr> else t)"
| "terminal_step n t TerminalTick = (if tm_timer t
     then t\<lparr>tm_visible := Suc (tm_visible t), tm_timer := Suc (tm_visible t) < n\<rparr> else t)"

definition terminal_run :: "nat \<Rightarrow> terminal_event list \<Rightarrow> terminal" where
  "terminal_run n es = foldl (terminal_step n) \<lparr>tm_started = False, tm_timer = False, tm_visible = 0\<rparr> es"

definition AnimatedTerminal :: "(string \<times> string) list \<Rightarrow> terminal \<Rightarrow> unit node" where
  "AnimatedTerminal lines t = El ''div'' []
     (map (\<lambda>(color, s). El ''div'' [(''color'', color)] [Txt (if s = [] then '' '' else s)]) (take (tm_visible t) lines)
      @ render_if (tm_visible t < length lines) [El ''span'' [] []])"

definition terminal_inv :: "nat \<Rightarrow> terminal \<Rightarrow> bool" where
  "terminal_inv n t \<longleftrightarrow> (tm_timer t = (tm_started t \<and> tm_visible t < n)) \<and> tm_visible t \<le> n \<and> (\<not> tm_started t \<longrightarrow> tm_visible t = 0)"

lemma terminal_inv_run: "0 < n \<Longrightarrow> terminal_inv n (terminal_run n es)"
proof (induction es rule: rev_induct)
  case Nil
  then show ?case by (simp add: terminal_run_def terminal_inv_def)
next
  case (snoc e es)
  then show ?case by (cases e) (auto simp: terminal_run_def terminal_inv_def)
qed

text \<open>
  However often the terminal is scrolled in and out of view, its interval is started once and ends: it
  runs exactly while lines are missing, and never shows more lines than there are.
\<close>

theorem terminal_ends:
  assumes "0 < n" and "terminal_run n es = t"
  shows "tm_visible t \<le> n \<and> (tm_timer t \<longleftrightarrow> tm_started t \<and> tm_visible t < n)"
  using terminal_inv_run [OF assms(1), of es] assms(2) by (simp add: terminal_inv_def)

theorem terminal_ends_witness:
  "tm_visible (terminal_run 2 [Intersects True, TerminalTick, Intersects True, TerminalTick, TerminalTick]) \<le> 2"
  using terminal_ends [OF _ refl, of 2 "[Intersects True, TerminalTick, Intersects True, TerminalTick, TerminalTick]"] by simp

text \<open>The buttons of the landing page: the dashboard for a session with a user, the forms for everybody else.\<close>

definition link_to :: "string \<Rightarrow> string \<Rightarrow> string \<Rightarrow> 'e node" where
  "link_to href tid label = El ''a'' [(''href'', href), (''data-testid'', tid)] [Txt label]"

definition LandingCTA :: "bool \<Rightarrow> 'e node" where
  "LandingCTA has_user = (let github = ''https://github.com/LoopStorm-Guard/loopstorm-guard'' in
     El ''div'' [] (if has_user then [link_to ''/runs'' ''cta-dashboard'' ''Go to Dashboard'', link_to github ''cta-github'' ''View on GitHub'']
       else [link_to ''/sign-up'' ''cta-get-started'' ''Get Started Free'', link_to github ''cta-github'' ''GitHub'',
             link_to ''/sign-in'' ''cta-sign-in'' ''Sign In'']))"

theorem copied_only_after_click_witness:
  "\<exists>t\<in>click_times [CopyClick 5 True True, CopyClock 1000]. 1000 < t + 2000"
proof -
  let ?es = "[CopyClick 5 True True, CopyClock 1000]"
  have "shown (CopyButton ''Copy'' (copy_run [] ?es)) = [''Copied!'']"
    by (simp add: CopyButton_def copy_run_def handleCopy_def acknowledge_def fire_timers_def new_copy_button_def COPIED_MS_def)
  from copied_only_after_click [OF _ _ this] show ?thesis by simp
qed

end
