(* ===== verification/Spec2Isabelle.thy ===== *)
theory Spec2Isabelle
  imports Trigger_Pipeline Exporter_Process Ingest_Properties Guard_Shim Mcp_Process Api_Keys Email_Messages
    Tenant_Transactions Http_App Json_Schemas Db_Schema Web_Queues Web_Policies Live_Lists Web_Keys Web_Auth Web_Widgets
begin

text \<open>
  LoopStorm Guard supervises AI agents. A \<^emph>\<open>shim\<close> inside the agent's process (or an \<^emph>\<open>MCP proxy\<close> in
  front of its tools) asks a local enforcement \<^emph>\<open>engine\<close>, over a socket, before every tool call;
  the engine writes an audit log of hash-chained events. The events go to the \<^emph>\<open>backend\<close>, which
  checks and stores them, offers them to reviewers and enqueues triggers; an \<^emph>\<open>AI supervisor\<close>
  process works on the triggers with a language model and leaves proposals and escalations for
  human review; an \<^emph>\<open>exporter\<close> turns the log into OpenTelemetry spans. The development covers the
  TypeScript programs of \<open>src/\<close>; the engine, in Rust, is the other end of the modelled socket.

  \<^bold>\<open>Foundations.\<close>
  \<^item> \<open>LSG_Prelude\<close>: results of fallible code, strings, sorting, paging by a key.
  \<^item> \<open>Json_Values\<close>: JavaScript values, \<open>JSON.stringify\<close>, \<open>packages/ipc-client/src/jcs.ts\<close> and \<open>args-hash.ts\<close>.
  \<^item> \<open>Js_Library\<close>: the library functions that several programs use.

  \<^bold>\<open>Hash chain and ingest\<close> (\<open>packages/backend/src\<close>).
  \<^item> \<open>Chain_Verify\<close>: \<open>lib/chain-verify.ts\<close>; the locale \<open>chain_checker\<close> is what a verifier owes, interpreted
    for the verifier of the library (\<open>vc\<close>) and for the check of an ingested batch (\<open>bc\<close>).
  \<^item> \<open>Backend_Db\<close>: the tables \<open>runs\<close> and \<open>events\<close> of \<open>db/schema.ts\<close> and the statements on them.
  \<^item> \<open>Db_Schema\<close>: all tables of \<open>db/schema.ts\<close> as data, against the migrations of \<open>drizzle/\<close> and the field names of \<open>auth.ts\<close>.
  \<^item> \<open>Triggers\<close>, \<open>Trigger_Queue\<close>: \<open>lib/triggers.ts\<close>, \<open>trigger-queue.ts\<close>, \<open>trigger-dispatch.ts\<close>; the locale
    \<open>bounded_fifo\<close> is the queue's contract, interpreted for it (\<open>tq\<close>).
  \<^item> \<open>Trigger_Dispatch\<close>: the worker of \<open>trigger-dispatch.ts\<close> with several requests waiting at once. \<open>Trigger_Pipeline\<close>: the worker,
    the network and the server of \<open>apps/supervisor/src/index.ts\<close> together; every accepted trigger is in exactly one place.
  \<^item> \<open>Ingest\<close>, \<open>Ingest_Lemmas\<close>, \<open>Verify_Router\<close>, \<open>Ingest_Properties\<close>: \<open>trpc/routers/events.ts\<close> and \<open>verify.ts\<close>. What
    was ingested verifies; a batch is taken only when it continues the chain of its run, line by
    line, and only from the run's tenant; pages of a long run are all read.

  \<^bold>\<open>Enforcement clients.\<close>
  \<^item> \<open>Ipc_Client\<close>: \<open>packages/ipc-client/src\<close>; a response is read correctly however the socket cuts it.
  \<^item> \<open>Guard_Shim\<close>, \<open>Mcp_Proxy\<close>: \<open>apps/shim-ts/src\<close> and \<open>apps/mcp-proxy/src\<close>; a tool runs only
    when the engine allowed this very call. \<open>Mcp_Process\<close>: the command line and the start of the proxy. The locale \<open>guard_like\<close> is what the adapter for the OpenAI client asks of a
    guard, interpreted for the shim's (\<open>gl\<close>).

  \<^bold>\<open>Backend procedures.\<close>
  \<^item> \<open>Guarded_Updates\<close>: read, check, conditional update, with other requests in between; the locale
    \<open>staged_rows\<close> is interpreted for proposals (\<open>pr\<close>), escalations (\<open>er\<close>) and policy packs (\<open>pu\<close>).
  \<^item> \<open>Pagination\<close>: lists with a cursor; the locale \<open>cursor_list\<close> is interpreted for proposals, escalations,
    policies, API keys and runs (\<open>pl\<close>, \<open>el\<close>, \<open>kl\<close>, \<open>al\<close>, \<open>rl\<close>). The fuel of \<open>follow\<close> is the number of requests a client
    makes; more requests than there are rows are enough.
  \<^item> \<open>Supervisor_Review\<close>, \<open>Policy_Packs\<close>, \<open>Api_Keys\<close>, \<open>Rate_Limit\<close>, \<open>Runs_Router\<close>, \<open>Supervisor_Tools\<close>: the routers \<open>supervisor.ts\<close>,
    \<open>policies.ts\<close> (with \<open>lib/policy-validate.ts\<close>), \<open>api-keys.ts\<close> (with \<open>api-key-gen.ts\<close> and the key middleware),
    the rate limits, \<open>runs.ts\<close> and \<open>supervisor-tools.ts\<close>, and the job \<open>timeout-checker.ts\<close>.

  \<^item> \<open>Tenant_Accounts\<close>, \<open>Tenant_Transactions\<close>: of \<open>auth.ts\<close>, the tenant that a new user gets, and the audit of e-mails;
    the middlewares of \<open>trpc.ts\<close> and \<open>middleware/tenant.ts\<close> over a pool of connections with the row policies of
    \<open>drizzle/\<close>: no interleaving of requests shows a tenant another tenant's rows.
  \<^item> \<open>Email_Messages\<close>: the e-mail callbacks of \<open>auth.ts\<close> behind the rate limit: how many messages an inbox gets, and that
    each is in the audit log.
  \<^item> \<open>Env_Config\<close>, \<open>Http_App\<close>: \<open>env.ts\<close>, and \<open>app.ts\<close> with \<open>api/index.ts\<close>: what guards each route, and CORS.
  \<^item> \<open>Json_Schemas\<close>: \<open>packages/schemas/index.js\<close> against the code that produces and reads such messages.

  \<^bold>\<open>AI supervisor\<close> (\<open>apps/supervisor/src\<close>).
  \<^item> \<open>Risk_Analysis\<close>: the analyses of \<open>lib/\<close>.
  \<^item> \<open>Supervisor_Agent\<close>: \<open>lib/sanitize.ts\<close>, the tools with their registry, the providers of \<open>llm/\<close>, and the
    tools composed with the procedures of the backend.
  \<^item> \<open>Supervisor_Session\<close>: \<open>config.ts\<close> and \<open>session.ts\<close>. The loop is a total function: every round that goes on
    runs a tool, and a hundred tools end it. The locale \<open>session_invariant\<close> lifts a property that
    each effect of a session keeps to the whole session; it is interpreted for the number of tool calls, the cost, the
    tripwire and the chain of emitted events (\<open>tc\<close>, \<open>ci\<close>, \<open>tw\<close>, \<open>ch\<close>).
  \<^item> \<open>Supervisor_Server\<close>: \<open>index.ts\<close> as a step relation; bounds, order, and that every waiting trigger is
    started; and the server composed with the backend's dispatcher.

  \<^bold>\<open>Exporter\<close> (\<open>apps/otel-exporter\<close>).
  \<^item> \<open>Otel_Spans\<close>, \<open>Trace_Buffer\<close>, \<open>Jsonl_Reader\<close>: from the bytes of the log to the exported spans: polling
    delivers what one read would, no span is lost or doubled, the spans of a run form a tree.
  \<^item> \<open>Exporter_Process\<close>: the exporter that keeps running, with its timer and its signals, while the bytes of a read are on
    their way: what a shutdown exports, and what happens when polls overlap. The locale \<open>event_sink\<close> is what the reader asks of
    its handler, interpreted for the exporter (\<open>ex\<close>) and for a handler that collects events (\<open>co\<close>).

  \<^bold>\<open>Dashboard\<close> (\<open>packages/web/src\<close>). A component is its state, its handlers, and the tree that it renders; what a user
  can do are the events of that tree, and the answers of the server arrive in any order.
  \<^item> \<open>Web_Library\<close>: rendered trees, and \<open>components/ui\<close>.
  \<^item> \<open>Web_Desk\<close>, \<open>Web_Queues\<close>: the review queues of \<open>supervisor/\<close>, as a step relation of the queue, the query cache and the
    procedures on the server. The locale \<open>review_cards\<close> is what a queue needs of its cards, interpreted for both (\<open>pq\<close>, \<open>eq\<close>).
  \<^item> \<open>Web_Policies\<close>: the forms of \<open>policies/\<close> and the dialog for a version conflict, against the update on the server.
  \<^item> \<open>Web_Lists\<close>: the paged tables, the timeline of a run and \<open>chain-badge.tsx\<close>.
  \<^item> \<open>Live_Lists\<close>: the table of the runs while runs come, change and go between two pages. The locale \<open>live_list\<close> is what such a
    list needs of its answers, interpreted for the runs (\<open>lr\<close>).
  \<^item> \<open>Web_Keys\<close>: the page of the API keys. \<open>Web_Auth\<close>: the account forms, \<open>lib/env.ts\<close>, \<open>next.config.ts\<close> and the tRPC
    clients as far as addresses and cookies go, the session check of the layout, and \<open>onboarding/\<close>.
  \<^item> \<open>Web_Widgets\<close>: components with a timer or a small state: the copy buttons, the user menu, and three of the landing page.

  \<^bold>\<open>Parameters.\<close> Code that is not in \<open>src/\<close> is an argument: SHA-256, \<open>JSON.parse\<close>, \<open>Date\<close>, \<open>randomBytes\<close>, the \<open>uuid\<close> and
  \<open>datetime\<close> formats of zod, glob matching, bcrypt, the MCP and OpenTelemetry libraries, the tRPC client, \<open>fetch\<close>, the language
  model, the bytes a socket delivers, the order in which PostgreSQL returns rows that no \<open>ORDER BY\<close> orders, and in the browser
  the check of an \<open>email\<close> field, the host of a URL, and when the query cache answers.

  \<^bold>\<open>Idealisations.\<close> Doubles are exact rationals (costs, confidences, averages); a string is a list of code units below
  256 (a dash above that is written as a hyphen); times are whole milliseconds; a transaction is atomic, and concurrent
  requests interleave between statements only where the theory says so; console output and styles are left out, except
  colours that tell states apart; a form whose required field is empty cannot be submitted.

  \<^bold>\<open>Not modelled.\<close> The text and styles of the landing page and what else is presentation only (settings, loading and error
  screens); the inside of Better Auth, with the options of \<open>auth.ts\<close> that only set lifetimes for it; the
  wiring of the tRPC routers, of React providers and of package entry points; the default prompt of the supervisor, which
  is text for a language model; tests; a number that does not fit its column; a restart of the backend or of the
  supervisor, whose queues are in memory; and the engine, the command-line tool and the shim that are written in Rust and
  Python.
\<close>

end
